(* ===== verification/Go_Base.thy ===== *)
theory Go_Base
  imports Main "HOL-Library.Sublist" "HOL-Library.Multiset" "HOL-Library.Word"
begin

text \<open>
  The prelude of the development: the parts of Go and of its standard library that the
  modelled code uses, and the lemmas the components share.

  \<^item> Integers: \<open>int\<close> for Go's \<open>int\<close>/\<open>int64\<close>, with \<open>wrap64\<close> written out where a product or
    a doubling can leave the 64-bit range, and \<open>go_div\<close> for the truncating division.
  \<^item> Time: a \<open>time.Time\<close> is the number of nanoseconds since the Unix epoch (an unbounded
    integer; the zero \<open>time.Time\<close>, year 1, is \<open>zero_time\<close>) and a \<open>time.Duration\<close> is a
    signed 64-bit number of nanoseconds.  \<open>Time.Sub\<close> saturates, as in Go.
  \<^item> Strings are lists of bytes.  \<open>trim_space\<close> removes every white space sequence that
    \<open>strings.TrimSpace\<close> knows, the multi-byte ones included.  \<open>to_lower\<close> maps the ASCII
    letters and leaves other bytes alone: it is \<open>strings.ToLower\<close> on ASCII text, and
    \<open>equal_fold\<close> is \<open>strings.EqualFold\<close> on ASCII text.
  \<^item> Tables and slices: \<open>update_where\<close> is an SQL \<open>UPDATE ... WHERE\<close> over a list of rows,
    \<open>dedup_by\<close> is the \<open>seen\<close>-map loop the code writes in many places, and \<open>move_to_front\<close>
    is the \<open>copy(xs[1:i+1], xs[:i]); xs[0] = x\<close> idiom.
\<close>

text \<open>Facts that an operation leaves a part of the state as it was.\<close>

named_theorems unchanged

section \<open>Integers\<close>

definition wrap64 :: "int \<Rightarrow> int" where
  "wrap64 x = (x + 2 ^ 63) mod 2 ^ 64 - 2 ^ 63"

abbreviation in_int64 :: "int \<Rightarrow> bool" where
  "in_int64 x \<equiv> - (2 ^ 63) \<le> x \<and> x < 2 ^ 63"

lemma wrap64_id [simp]: "- (2 ^ 63) \<le> x \<Longrightarrow> x < 2 ^ 63 \<Longrightarrow> wrap64 x = x"
  by (simp add: wrap64_def)

lemma wrap64_range: "in_int64 (wrap64 x)"
proof -
  have "0 \<le> (x + 2 ^ 63) mod 2 ^ 64" and "(x + 2 ^ 63) mod 2 ^ 64 < 2 ^ 64"
    by simp_all
  then show ?thesis by (simp add: wrap64_def)
qed

text \<open>Go's integer division truncates towards zero.\<close>

definition go_div :: "int \<Rightarrow> int \<Rightarrow> int" where
  "go_div a b = sgn a * sgn b * (\<bar>a\<bar> div \<bar>b\<bar>)"

lemma go_div_pos: "0 \<le> a \<Longrightarrow> 0 < b \<Longrightarrow> go_div a b = a div b"
  by (cases "a = 0") (simp_all add: go_div_def)

section \<open>Time\<close>

type_synonym time = int
type_synonym duration = int

abbreviation millisecond :: duration where "millisecond \<equiv> 1000000"
abbreviation second :: duration where "second \<equiv> 1000000000"
abbreviation minute :: duration where "minute \<equiv> 60000000000"
abbreviation hour :: duration where "hour \<equiv> 3600000000000"

definition zero_time :: time where
  "zero_time = - 62135596800000000000"

lemma zero_time_le_0 [simp]: "zero_time \<le> 0"
  by (simp add: zero_time_def)

definition is_zero :: "time \<Rightarrow> bool" where
  "is_zero t \<longleftrightarrow> t = zero_time"

text \<open>\<open>Time.Sub\<close> clamps the difference to the range of a \<open>Duration\<close>.\<close>

definition time_sub :: "time \<Rightarrow> time \<Rightarrow> duration" where
  "time_sub t u = max (- (2 ^ 63)) (min (2 ^ 63 - 1) (t - u))"

text \<open>\<open>time.Unix(s, 0)\<close> and \<open>Time.Unix()\<close>.\<close>

definition unix_to_time :: "int \<Rightarrow> time" where
  "unix_to_time s = s * second"

definition time_to_unix :: "time \<Rightarrow> int" where
  "time_to_unix t = t div second"

lemma time_to_unix_unix_to_time [simp]: "time_to_unix (unix_to_time s) = s"
  by (simp add: time_to_unix_def unix_to_time_def)

lemma unix_to_time_le: "unix_to_time (time_to_unix t) \<le> t"
  by (simp add: time_to_unix_def unix_to_time_def)

lemma unix_to_time_gt: "t < unix_to_time (time_to_unix t) + second"
  using div_mult_mod_eq [of t second] pos_mod_bound [of second t]
  by (simp add: time_to_unix_def unix_to_time_def)

lemma time_to_unix_mono: "t \<le> u \<Longrightarrow> time_to_unix t \<le> time_to_unix u"
  by (simp add: time_to_unix_def zdiv_mono1)

lemma time_to_unix_less_iff: "time_to_unix t < s \<longleftrightarrow> t < unix_to_time s"
  by (auto simp: time_to_unix_def unix_to_time_def)

lemma unix_to_time_after_unix: "t < unix_to_time s \<Longrightarrow> time_to_unix t < s"
  by (simp add: time_to_unix_less_iff)

section \<open>Strings\<close>

definition to_lower_char :: "char \<Rightarrow> char" where
  "to_lower_char c =
     (let n = (of_char c :: nat) in if 65 \<le> n \<and> n \<le> 90 then char_of (n + 32) else c)"

definition to_lower :: "string \<Rightarrow> string" where
  "to_lower = map to_lower_char"

definition equal_fold :: "string \<Rightarrow> string \<Rightarrow> bool" where
  "equal_fold a b \<longleftrightarrow> to_lower a = to_lower b"

definition bytes :: "nat list \<Rightarrow> string" where
  "bytes = map char_of"

text \<open>The white space characters of Go's \<open>unicode.IsSpace\<close>, in UTF-8.\<close>

definition spaces :: "string list" where
  "spaces = map bytes
     [[9], [10], [11], [12], [13], [32], [194, 133], [194, 160], [225, 154, 128],
      [226, 128, 128], [226, 128, 129], [226, 128, 130], [226, 128, 131], [226, 128, 132],
      [226, 128, 133], [226, 128, 134], [226, 128, 135], [226, 128, 136], [226, 128, 137],
      [226, 128, 138], [226, 128, 168], [226, 128, 169], [226, 128, 175], [226, 129, 159],
      [227, 128, 128]]"

definition strip_one :: "string list \<Rightarrow> string \<Rightarrow> string option" where
  "strip_one ws s =
     (case filter (\<lambda>w. w \<noteq> [] \<and> prefix w s) ws of
        [] \<Rightarrow> None
      | w # _ \<Rightarrow> Some (drop (length w) s))"

lemma strip_one_shorter: "strip_one ws s = Some r \<Longrightarrow> length r < length s"
proof -
  assume "strip_one ws s = Some r"
  then obtain w rest where f: "filter (\<lambda>w. w \<noteq> [] \<and> prefix w s) ws = w # rest"
      and r: "r = drop (length w) s"
    by (auto simp: strip_one_def split: list.splits)
  from f have "w \<in> set (filter (\<lambda>w. w \<noteq> [] \<and> prefix w s) ws)" by simp
  then have "w \<noteq> []" and "prefix w s" by auto
  then show ?thesis using r by (auto simp: prefix_def)
qed

function strip_all :: "string list \<Rightarrow> string \<Rightarrow> string" where
  "strip_all ws s = (case strip_one ws s of None \<Rightarrow> s | Some r \<Rightarrow> strip_all ws r)"
  by pat_completeness auto
termination
  by (relation "measure (\<lambda>(ws, s). length s)") (auto dest: strip_one_shorter)

declare strip_all.simps [simp del]

definition trim_left :: "string \<Rightarrow> string" where
  "trim_left = strip_all spaces"

definition trim_right :: "string \<Rightarrow> string" where
  "trim_right s = rev (strip_all (map rev spaces) (rev s))"

definition trim_space :: "string \<Rightarrow> string" where
  "trim_space s = trim_right (trim_left s)"

text \<open>A string with no white space sequence at either end; trimming leaves exactly those alone.\<close>

definition trimmed :: "string \<Rightarrow> bool" where
  "trimmed s \<longleftrightarrow> strip_one spaces s = None \<and> strip_one (map rev spaces) (rev s) = None"

lemma strip_one_None: "strip_one ws s = None \<longleftrightarrow> (\<forall>w \<in> set ws. w = [] \<or> \<not> prefix w s)"
  by (cases "filter (\<lambda>w. w \<noteq> [] \<and> prefix w s) ws")
    (auto simp: strip_one_def filter_empty_conv filter_eq_Cons_iff)

lemma strip_one_suffix: "strip_one ws s = Some r \<Longrightarrow> suffix r s"
  by (auto simp: strip_one_def suffix_drop split: list.splits)

lemma strip_one_strip_all: "strip_one ws (strip_all ws s) = None"
  by (induction ws s rule: strip_all.induct)
    (subst strip_all.simps, auto split: option.splits)

lemma strip_all_suffix: "suffix (strip_all ws s) s"
proof (induction ws s rule: strip_all.induct)
  case (1 ws s)
  show ?case
  proof (cases "strip_one ws s")
    case None
    then show ?thesis by (subst strip_all.simps) simp
  next
    case (Some r)
    then have "suffix (strip_all ws r) r" and "suffix r s"
      using "1" strip_one_suffix by auto
    then have "suffix (strip_all ws r) s" by (rule suffix_order.trans)
    with Some show ?thesis by (subst strip_all.simps) simp
  qed
qed

lemma strip_all_id: "strip_one ws s = None \<Longrightarrow> strip_all ws s = s"
  by (subst strip_all.simps) simp

lemma trim_right_prefix: "prefix (trim_right s) s"
  using strip_all_suffix [of "map rev spaces" "rev s"]
  by (simp add: trim_right_def suffix_to_prefix)

lemma trimmed_trim_space [simp]: "trimmed (trim_space s)"
proof -
  let ?l = "trim_left s"
  have l: "strip_one spaces ?l = None" by (simp add: trim_left_def strip_one_strip_all)
  have "strip_one spaces (trim_right ?l) = None"
    using l trim_right_prefix [of ?l]
    by (auto simp: strip_one_None dest: prefix_order.trans)
  moreover have "strip_one (map rev spaces) (rev (trim_right ?l)) = None"
    by (simp add: trim_right_def strip_one_strip_all)
  ultimately show ?thesis by (simp add: trimmed_def trim_space_def)
qed

lemma trim_space_trimmed [simp]: "trimmed s \<Longrightarrow> trim_space s = s"
  by (simp add: trim_space_def trim_left_def trim_right_def trimmed_def strip_all_id)

lemma trim_space_idem [simp]: "trim_space (trim_space s) = trim_space s"
  by simp

lemma trimmed_Nil [simp]: "trimmed []"
  by (auto simp: trimmed_def strip_one_None)

lemma trim_space_Nil [simp]: "trim_space [] = []"
  by simp

lemma trimmed_append_char:
  assumes "trimmed s" and "s \<noteq> []" and c: "\<forall>w \<in> set spaces. c \<notin> set w"
  shows "trimmed (s @ [c])"
proof -
  have "\<not> prefix w (s @ [c])" if "w \<in> set spaces" "w \<noteq> []" for w
    using that assms by (auto simp: trimmed_def strip_one_None)
  moreover have "\<not> prefix (rev w) (rev (s @ [c]))" if "w \<in> set spaces" "w \<noteq> []" for w
    using that c by (cases "rev w") (auto dest!: arg_cong [where f = set])
  ultimately show ?thesis by (auto simp: trimmed_def strip_one_None)
qed

text \<open>A quick test that suffices for the words of the program: ASCII, with no white space.\<close>

definition plain_char :: "char \<Rightarrow> bool" where
  "plain_char c \<longleftrightarrow> (let n = (of_char c :: nat) in 32 < n \<and> n < 128)"

lemma plain_char_char_of: "plain_char (char_of (n :: nat)) \<longleftrightarrow> 32 < n mod 256 \<and> n mod 256 < 128"
  by (simp add: plain_char_def Let_def)

lemma spaces_not_plain: "w \<in> set spaces \<Longrightarrow> w \<noteq> [] \<and> (\<forall>c \<in> set w. \<not> plain_char c)"
  by (auto simp: spaces_def bytes_def plain_char_char_of)

lemma trimmed_plain:
  assumes "s \<noteq> []" and "plain_char (hd s)" and "plain_char (last s)"
  shows "trimmed s"
proof -
  have "\<not> prefix w s" and "\<not> prefix (rev w) (rev s)" if "w \<in> set spaces" for w
  proof -
    have w: "w \<noteq> []" "\<not> plain_char (hd w)" "\<not> plain_char (last w)"
      using spaces_not_plain [OF that] by auto
    show "\<not> prefix w s" using assms w by (cases w; cases s) auto
    show "\<not> prefix (rev w) (rev s)"
      using assms w by (cases w rule: rev_cases; cases s rule: rev_cases) auto
  qed
  then show ?thesis by (auto simp: trimmed_def strip_one_None)
qed

lemma trim_space_plain:
  "s \<noteq> [] \<Longrightarrow> plain_char (hd s) \<Longrightarrow> plain_char (last s) \<Longrightarrow> trim_space s = s"
  by (simp add: trimmed_plain)

fun str_contains :: "string \<Rightarrow> string \<Rightarrow> bool" where
  "str_contains [] sub = (sub = [])"
| "str_contains (c # s) sub = (prefix sub (c # s) \<or> str_contains s sub)"

lemma str_contains_iff: "str_contains s sub \<longleftrightarrow> (\<exists>p q. s = p @ sub @ q)"
proof (induction s)
  case Nil
  then show ?case by simp
next
  case (Cons c s)
  have "(\<exists>p q. c # s = p @ sub @ q) \<longleftrightarrow>
      prefix sub (c # s) \<or> (\<exists>p q. s = p @ sub @ q)"
    by (auto simp: prefix_def Cons_eq_append_conv)
  then show ?case using Cons.IH by simp
qed

text \<open>\<open>strings.ContainsAny(s, chars)\<close>.\<close>

definition contains_any :: "string \<Rightarrow> char list \<Rightarrow> bool" where
  "contains_any s cs \<longleftrightarrow> list_ex (\<lambda>c. c \<in> set cs) s"

section \<open>Rows and slices\<close>

definition update_where :: "('r \<Rightarrow> bool) \<Rightarrow> ('r \<Rightarrow> 'r) \<Rightarrow> 'r list \<Rightarrow> 'r list" where
  "update_where P f rows = map (\<lambda>r. if P r then f r else r) rows"

lemma update_where_Nil [simp]: "update_where P f [] = []"
  by (simp add: update_where_def)

lemma update_where_Cons [simp]:
  "update_where P f (r # rs) = (if P r then f r else r) # update_where P f rs"
  by (simp add: update_where_def)

lemma length_update_where [simp]: "length (update_where P f rs) = length rs"
  by (simp add: update_where_def)

lemma set_update_where: "set (update_where P f rs) = (\<lambda>r. if P r then f r else r) ` set rs"
  by (simp add: update_where_def)

lemma update_where_none: "(\<And>r. r \<in> set rs \<Longrightarrow> \<not> P r) \<Longrightarrow> update_where P f rs = rs"
  by (induction rs) auto

lemma find_update_where:
  assumes "\<And>r. Q (f r) = Q r" and "\<And>r. Q r \<Longrightarrow> P r = G r"
  shows "find Q (update_where P f rs) = map_option (\<lambda>r. if G r then f r else r) (find Q rs)"
  using assms by (induction rs) auto

lemma find_update_where_same:
  assumes "\<And>r. Q (f r) = Q r"
  shows "find Q (update_where Q f rs) = map_option f (find Q rs)"
  using assms by (induction rs) auto

lemma find_update_where_other:
  assumes "\<And>r. Q (f r) = Q r" and "\<And>r. Q r \<Longrightarrow> \<not> P r"
  shows "find Q (update_where P f rs) = find Q rs"
  using assms by (induction rs) auto

lemma list_ex_update_where:
  assumes "\<And>r. Q (f r) = Q r"
  shows "list_ex Q (update_where P f rs) = list_ex Q rs"
  using assms by (induction rs) auto

lemma find_SomeD: "find P xs = Some x \<Longrightarrow> P x \<and> x \<in> set xs"
  by (induction xs) (auto split: if_splits)

lemma list_ex_find: "list_ex P xs \<longleftrightarrow> (\<exists>x. find P xs = Some x)"
  by (induction xs) auto

lemma find_append: "find P (xs @ ys) = (case find P xs of None \<Rightarrow> find P ys | Some x \<Rightarrow> Some x)"
  by (induction xs) auto

lemma find_filter_keep: "(\<And>x. P x \<Longrightarrow> Q x) \<Longrightarrow> find P (filter Q xs) = find P xs"
  by (induction xs) auto

lemma find_filter_drop: "(\<And>x. P x \<Longrightarrow> \<not> Q x) \<Longrightarrow> find P (filter Q xs) = None"
  by (induction xs) auto

lemma filter_update_where_miss:
  assumes "\<And>r. P r \<Longrightarrow> \<not> Q r" and "\<And>r. P r \<Longrightarrow> \<not> Q (f r)"
  shows "filter Q (update_where P f rs) = filter Q rs"
  using assms by (induction rs) auto

lemma map_update_where:
  assumes "\<And>r. P r \<Longrightarrow> g (f r) = g r"
  shows "map g (update_where P f rs) = map g rs"
  using assms by (induction rs) auto

text \<open>The loop that keeps the first element of each key.\<close>

fun dedup_loop :: "('a \<Rightarrow> 'k) \<Rightarrow> 'k list \<Rightarrow> 'a list \<Rightarrow> 'a list" where
  "dedup_loop key seen [] = []"
| "dedup_loop key seen (x # xs) =
     (if key x \<in> set seen then dedup_loop key seen xs
      else x # dedup_loop key (key x # seen) xs)"

definition dedup_by :: "('a \<Rightarrow> 'k) \<Rightarrow> 'a list \<Rightarrow> 'a list" where
  "dedup_by key xs = dedup_loop key [] xs"

lemma dedup_loop_keys: "key ` set (dedup_loop key seen xs) = key ` set xs - set seen"
  by (induction key seen xs rule: dedup_loop.induct) auto

lemma set_dedup_loop: "set (dedup_loop key seen xs) \<subseteq> set xs"
  by (induction key seen xs rule: dedup_loop.induct) auto

lemma distinct_dedup_loop: "distinct (map key (dedup_loop key seen xs))"
proof (induction key seen xs rule: dedup_loop.induct)
  case (2 key seen x xs)
  then show ?case using dedup_loop_keys [of key "key x # seen" xs] by auto
qed simp

lemma dedup_by_keys [simp]: "key ` set (dedup_by key xs) = key ` set xs"
  by (simp add: dedup_by_def dedup_loop_keys)

lemma set_dedup_by: "set (dedup_by key xs) \<subseteq> set xs"
  by (simp add: dedup_by_def set_dedup_loop)

lemma distinct_dedup_by: "distinct (map key (dedup_by key xs))"
  by (simp add: dedup_by_def distinct_dedup_loop)

text \<open>Moving the element at an index to the front, the others keeping their order.\<close>

definition move_to_front :: "nat \<Rightarrow> 'a list \<Rightarrow> 'a list" where
  "move_to_front i xs = (if i < length xs then xs ! i # take i xs @ drop (Suc i) xs else xs)"

lemma move_to_front_0 [simp]: "move_to_front 0 xs = xs"
  by (cases xs) (simp_all add: move_to_front_def)

lemma mset_move_to_front [simp]: "mset (move_to_front i xs) = mset xs"
proof (cases "i < length xs")
  case True
  then have "xs = take i xs @ xs ! i # drop (Suc i) xs" by (rule id_take_nth_drop)
  then have "mset xs = mset (take i xs @ xs ! i # drop (Suc i) xs)" by simp
  with True show ?thesis by (simp add: move_to_front_def)
qed (simp add: move_to_front_def)

lemma set_move_to_front [simp]: "set (move_to_front i xs) = set xs"
  by (metis mset_move_to_front set_mset_mset)

lemma length_move_to_front [simp]: "length (move_to_front i xs) = length xs"
  by (metis mset_move_to_front size_mset)

lemma hd_move_to_front: "i < length xs \<Longrightarrow> hd (move_to_front i xs) = xs ! i"
  by (simp add: move_to_front_def)

lemma move_to_front_nonempty [simp]: "move_to_front i xs = [] \<longleftrightarrow> xs = []"
  by (metis length_0_conv length_move_to_front)

text \<open>The index of the first element that satisfies a predicate.\<close>

fun find_index :: "('a \<Rightarrow> bool) \<Rightarrow> 'a list \<Rightarrow> nat option" where
  "find_index P [] = None"
| "find_index P (x # xs) = (if P x then Some 0 else map_option Suc (find_index P xs))"

lemma find_index_Some:
  "find_index P xs = Some i \<Longrightarrow> i < length xs \<and> P (xs ! i) \<and> (\<forall>j < i. \<not> P (xs ! j))"
  by (induction xs arbitrary: i) (auto split: if_splits simp: less_Suc_eq_0_disj)

lemma find_index_None: "find_index P xs = None \<longleftrightarrow> (\<forall>x \<in> set xs. \<not> P x)"
  by (induction xs) auto

section \<open>Case and white space\<close>

lemma to_lower_char_idem [simp]: "to_lower_char (to_lower_char c) = to_lower_char c"
proof (cases "65 \<le> (of_char c :: nat) \<and> (of_char c :: nat) \<le> 90")
  case True
  then show ?thesis by (simp add: to_lower_char_def Let_def)
next
  case False
  then have "to_lower_char c = c" by (auto simp: to_lower_char_def Let_def)
  then show ?thesis by simp
qed

lemma to_lower_idem [simp]: "to_lower (to_lower s) = to_lower s"
  by (simp add: to_lower_def)

lemma plain_to_lower_char [simp]: "plain_char (to_lower_char c) = plain_char c"
  by (auto simp: plain_char_def to_lower_char_def Let_def)

lemma to_lower_char_not_plain: "\<not> plain_char d \<Longrightarrow> to_lower_char c = d \<longleftrightarrow> c = d"
  by (auto simp: plain_char_def to_lower_char_def Let_def split: if_splits)

lemma prefix_map_to_lower:
  "\<forall>c \<in> set w. \<not> plain_char c \<Longrightarrow> prefix w (map to_lower_char s) = prefix w s"
proof (induction w arbitrary: s)
  case (Cons d w)
  then show ?case by (cases s) (auto simp: to_lower_char_not_plain eq_commute [of d])
qed simp

lemma trimmed_to_lower [simp]: "trimmed (to_lower s) = trimmed s"
proof -
  have "prefix w (to_lower s) = prefix w s"
    and "prefix (rev w) (rev (to_lower s)) = prefix (rev w) (rev s)" if "w \<in> set spaces" for w
    using prefix_map_to_lower [of w s] prefix_map_to_lower [of "rev w" "rev s"]
      spaces_not_plain [OF that] by (simp_all add: to_lower_def rev_map)
  then show ?thesis by (simp add: trimmed_def strip_one_None)
qed

lemma trim_to_lower_trim [simp]: "trim_space (to_lower (trim_space s)) = to_lower (trim_space s)"
  by simp

lemma to_lower_Nil [simp]: "to_lower [] = []"
  by (simp add: to_lower_def)

text \<open>A word: printable ASCII without white space.\<close>

definition plain_word :: "string \<Rightarrow> bool" where
  "plain_word s \<longleftrightarrow> s \<noteq> [] \<and> list_all plain_char s"

lemma trim_space_word: "plain_word s \<Longrightarrow> trim_space s = s"
  by (rule trim_space_plain) (auto simp: plain_word_def list_all_iff)

lemma contains_any_word:
  assumes "plain_word s" and "list_all (\<lambda>c. \<not> plain_char c) cs"
  shows "\<not> contains_any s cs"
  using assms by (auto simp: plain_word_def contains_any_def list_all_iff list_ex_iff)

lemma find_split:
  "find P xs = Some x \<Longrightarrow> \<exists>as bs. xs = as @ x # bs \<and> P x \<and> (\<forall>a \<in> set as. \<not> P a)"
proof (induction xs)
  case (Cons y ys)
  show ?case
  proof (cases "P y")
    case True
    with Cons.prems have "y # ys = [] @ x # ys \<and> P x" by simp
    then show ?thesis by force
  next
    case False
    then obtain as bs where "ys = as @ x # bs \<and> P x \<and> (\<forall>a \<in> set as. \<not> P a)"
      using Cons by auto
    with False show ?thesis by (intro exI [of _ "y # as"] exI [of _ bs]) simp
  qed
qed simp

end
