(* ===== verification/Backoff_Policy.thy ===== *)
theory Backoff_Policy
  imports Go_Base
begin

text \<open>
  The exponential back-off policy of \<open>internal/util/time.go\<close>: the immutable
  \<open>CooldownPolicy\<close>, the duration of the first and of every later cooldown, and the clamp on
  reset times given by an upstream.  Durations are nanoseconds; the products and the doubling
  wrap at 64 bits as in Go.  The lemmas bound the result of every branch and describe a run of
  consecutive failures, for policies that satisfy \<open>sane_policy\<close>; the default policy is one.
\<close>

section \<open>The policy\<close>

record cooldown_settings =
  auth_sec :: int
  timeout_sec :: int
  server_sec :: int
  rate_limit_sec :: int
  max_sec :: int
  min_sec :: int

record cooldown_policy =
  auth_initial :: duration
  timeout_initial :: duration
  server_initial :: duration
  rate_limit_initial :: duration
  max_duration :: duration
  min_duration :: duration

definition auth_error_initial_cooldown :: duration where
  "auth_error_initial_cooldown = 5 * minute"
definition timeout_error_cooldown :: duration where
  "timeout_error_cooldown = minute"
definition server_error_initial_cooldown :: duration where
  "server_error_initial_cooldown = 2 * minute"
definition rate_limit_error_cooldown :: duration where
  "rate_limit_error_cooldown = minute"
definition max_cooldown_duration :: duration where
  "max_cooldown_duration = 30 * minute"
definition min_cooldown_duration :: duration where
  "min_cooldown_duration = 10 * second"
definition max_upstream_reset_duration :: duration where
  "max_upstream_reset_duration = hour"

lemmas cooldown_constants =
  auth_error_initial_cooldown_def timeout_error_cooldown_def server_error_initial_cooldown_def
  rate_limit_error_cooldown_def max_cooldown_duration_def min_cooldown_duration_def
  max_upstream_reset_duration_def

definition assign_seconds :: "duration \<Rightarrow> int \<Rightarrow> duration" where
  "assign_seconds target seconds = (if seconds > 0 then wrap64 (seconds * second) else target)"

definition new_cooldown_policy :: "cooldown_settings \<Rightarrow> cooldown_policy" where
  "new_cooldown_policy s =
     \<lparr> auth_initial = assign_seconds auth_error_initial_cooldown (auth_sec s),
       timeout_initial = assign_seconds timeout_error_cooldown (timeout_sec s),
       server_initial = assign_seconds server_error_initial_cooldown (server_sec s),
       rate_limit_initial = assign_seconds rate_limit_error_cooldown (rate_limit_sec s),
       max_duration = assign_seconds max_cooldown_duration (max_sec s),
       min_duration = assign_seconds min_cooldown_duration (min_sec s) \<rparr>"

definition default_cooldown_policy :: cooldown_policy where
  "default_cooldown_policy = new_cooldown_policy
     \<lparr> auth_sec = 0, timeout_sec = 0, server_sec = 0, rate_limit_sec = 0, max_sec = 0,
       min_sec = 0 \<rparr>"

section \<open>Durations\<close>

text \<open>The internal status codes the table of initial durations names.\<close>

definition status_sse_error :: int where "status_sse_error = 597"
definition status_first_byte_timeout :: int where "status_first_byte_timeout = 598"

definition initial_cooldown :: "cooldown_policy \<Rightarrow> int option \<Rightarrow> duration" where
  "initial_cooldown p status_code =
     (case status_code of
        None \<Rightarrow> rate_limit_initial p
      | Some code \<Rightarrow>
          if code = 401 \<or> code = 402 \<or> code = 403 then auth_initial p
          else if code = status_first_byte_timeout \<or> code = status_sse_error
            then timeout_initial p
          else if code \<ge> 500 then server_initial p
          else rate_limit_initial p)"

definition back_off :: "cooldown_policy \<Rightarrow> duration \<Rightarrow> duration" where
  "back_off p prev = min (max (wrap64 (prev * 2)) (min_duration p)) (max_duration p)"

definition calculate_backoff_duration ::
    "cooldown_policy \<Rightarrow> int \<Rightarrow> time \<Rightarrow> time \<Rightarrow> int option \<Rightarrow> duration" where
  "calculate_backoff_duration p prev_ms until now status_code =
     (let prev = wrap64 (prev_ms * millisecond) in
      if prev \<le> 0 then
        (if \<not> is_zero until \<and> until > now then back_off p (time_sub until now)
         else initial_cooldown p status_code)
      else back_off p prev)"

definition calculate_cooldown_duration :: "time \<Rightarrow> time \<Rightarrow> int" where
  "calculate_cooldown_duration until now =
     (if is_zero until \<or> \<not> until > now then 0
      else go_div (time_sub until now) millisecond)"

definition clamp_upstream_reset_time :: "time \<Rightarrow> time \<Rightarrow> time" where
  "clamp_upstream_reset_time until now =
     (if is_zero until \<or> \<not> until > now then until
      else if time_sub until now > max_upstream_reset_duration
        then now + max_upstream_reset_duration
      else until)"

section \<open>Properties\<close>

text \<open>
  A policy the settings page can produce with positive, representable seconds whose minimum is
  no more than twice any initial duration and no more than the maximum.
\<close>

definition whole_seconds :: "duration \<Rightarrow> bool" where
  "whole_seconds d \<longleftrightarrow> 0 < d \<and> d mod second = 0 \<and> d < 2 ^ 61"

definition sane_policy :: "cooldown_policy \<Rightarrow> bool" where
  "sane_policy p \<longleftrightarrow>
     whole_seconds (auth_initial p) \<and> whole_seconds (timeout_initial p) \<and>
     whole_seconds (server_initial p) \<and> whole_seconds (rate_limit_initial p) \<and>
     whole_seconds (max_duration p) \<and> whole_seconds (min_duration p) \<and>
     min_duration p \<le> max_duration p \<and>
     min_duration p \<le> 2 * auth_initial p \<and> min_duration p \<le> 2 * timeout_initial p \<and>
     min_duration p \<le> 2 * server_initial p \<and> min_duration p \<le> 2 * rate_limit_initial p"

lemma sane_default_policy [simp]: "sane_policy default_cooldown_policy"
  by (simp add: sane_policy_def default_cooldown_policy_def new_cooldown_policy_def
      assign_seconds_def cooldown_constants whole_seconds_def)

lemma initial_cooldown_cases:
  "initial_cooldown p c \<in>
     {auth_initial p, timeout_initial p, server_initial p, rate_limit_initial p}"
  by (auto simp: initial_cooldown_def split: option.splits)

lemma sane_initial:
  assumes "sane_policy p"
  shows "whole_seconds (initial_cooldown p c)"
    and "min_duration p \<le> 2 * initial_cooldown p c"
  using initial_cooldown_cases [of p c] assms by (auto simp: sane_policy_def)

lemma back_off_bounds:
  assumes "min_duration p \<le> max_duration p"
  shows "min_duration p \<le> back_off p prev \<and> back_off p prev \<le> max_duration p"
  using assms by (auto simp: back_off_def)

text \<open>Every duration is the initial one of its status code or lies between the bounds.\<close>

lemma calculate_backoff_duration_cases:
  "calculate_backoff_duration p prev_ms until now c = initial_cooldown p c \<or>
   (\<exists>prev. calculate_backoff_duration p prev_ms until now c = back_off p prev)"
  by (auto simp: calculate_backoff_duration_def Let_def)

lemma calculate_backoff_duration_bounds:
  assumes "sane_policy p"
  shows "0 < calculate_backoff_duration p prev_ms until now c"
    and "calculate_backoff_duration p prev_ms until now c
           \<le> max (max_duration p) (initial_cooldown p c)"
proof -
  have b: "min_duration p \<le> back_off p prev \<and> back_off p prev \<le> max_duration p" for prev
    using assms by (intro back_off_bounds) (simp add: sane_policy_def)
  have "0 < min_duration p" and "0 < initial_cooldown p c"
    using assms sane_initial(1) [OF assms, of c] by (simp_all add: sane_policy_def whole_seconds_def)
  then have "0 < back_off p prev" for prev using b [of prev] by linarith
  with b \<open>0 < initial_cooldown p c\<close>
  show "0 < calculate_backoff_duration p prev_ms until now c"
    and "calculate_backoff_duration p prev_ms until now c
           \<le> max (max_duration p) (initial_cooldown p c)"
    using calculate_backoff_duration_cases [of p prev_ms until now c]
    by (auto simp: le_max_iff_disj)
qed

text \<open>The duration that a row stores between two failures, in milliseconds, loses nothing.\<close>

lemma whole_seconds_ms:
  assumes "whole_seconds d"
  shows "go_div d millisecond * millisecond = d"
proof -
  have "second dvd d" using assms by (simp add: whole_seconds_def mod_eq_0_iff_dvd)
  then have "millisecond dvd d" by (rule dvd_trans [rotated]) simp
  with assms show ?thesis by (simp add: whole_seconds_def go_div_pos)
qed

lemma whole_seconds_min [intro]: "whole_seconds a \<Longrightarrow> whole_seconds b \<Longrightarrow> whole_seconds (min a b)"
  by (auto simp: whole_seconds_def min_def)

text \<open>The duration after \<open>n\<close> failures in a row that started from no history.\<close>

definition failure_duration :: "cooldown_policy \<Rightarrow> int option \<Rightarrow> nat \<Rightarrow> duration" where
  "failure_duration p c n =
     (if n = 0 then initial_cooldown p c else min (2 ^ n * initial_cooldown p c) (max_duration p))"

lemma failure_duration_whole:
  assumes "sane_policy p"
  shows "0 < failure_duration p c n" and "failure_duration p c n mod second = 0"
    and "failure_duration p c n < 2 ^ 61"
proof -
  let ?i = "initial_cooldown p c"
  have i: "0 < ?i" "?i mod second = 0" "?i < 2 ^ 61"
    using sane_initial(1) [OF assms, of c] by (simp_all add: whole_seconds_def)
  have m: "0 < max_duration p" "max_duration p mod second = 0" "max_duration p < 2 ^ 61"
    using assms by (simp_all add: sane_policy_def whole_seconds_def)
  have "second dvd 2 ^ n * ?i" using i(2) by (simp add: mod_eq_0_iff_dvd)
  then have "(2 ^ n * ?i) mod second = 0" by simp
  with i m show "0 < failure_duration p c n" and "failure_duration p c n mod second = 0"
    and "failure_duration p c n < 2 ^ 61"
    by (auto simp: failure_duration_def min_def)
qed

lemma failure_duration_next:
  assumes "sane_policy p"
  shows "back_off p (failure_duration p c n) = failure_duration p c (Suc n)"
proof -
  let ?i = "initial_cooldown p c" and ?f = "failure_duration p c n"
  have i: "0 < ?i" "min_duration p \<le> 2 * ?i"
    using sane_initial [OF assms, of c] by (simp_all add: whole_seconds_def)
  have mm: "0 < min_duration p" "min_duration p \<le> max_duration p"
    using assms by (simp_all add: sane_policy_def whole_seconds_def)
  have w: "wrap64 (?f * 2) = 2 * ?f"
    using failure_duration_whole [OF assms, of c n] by (simp add: mult.commute)
  show ?thesis
  proof (cases n)
    case 0
    then show ?thesis using w i by (simp add: back_off_def failure_duration_def max_def)
  next
    case (Suc m)
    have "?i \<le> 2 ^ n * ?i" using i by simp
    with i have "min_duration p \<le> 2 * (2 ^ n * ?i)" by linarith
    moreover have "min_duration p \<le> 2 * max_duration p" using mm by linarith
    moreover have "?f = min (2 ^ n * ?i) (max_duration p)"
      using Suc by (simp add: failure_duration_def)
    ultimately have "min_duration p \<le> 2 * ?f" by (simp add: min_def)
    then show ?thesis
      using w Suc mm i by (auto simp: back_off_def failure_duration_def min_def max_def)
  qed
qed

lemma calculate_backoff_after_failure:
  assumes "sane_policy p"
  shows "calculate_backoff_duration p (go_div (failure_duration p c n) millisecond) until now c'
           = failure_duration p c (Suc n)"
proof -
  have "whole_seconds (failure_duration p c n)"
    using failure_duration_whole [OF assms, of c n] by (simp add: whole_seconds_def)
  then have "go_div (failure_duration p c n) millisecond * millisecond = failure_duration p c n"
    by (rule whole_seconds_ms)
  moreover have "wrap64 (failure_duration p c n) = failure_duration p c n"
    using failure_duration_whole [OF assms, of c n] by simp
  ultimately show ?thesis
    using failure_duration_whole(1) [OF assms, of c n] failure_duration_next [OF assms, of c n]
    by (simp add: calculate_backoff_duration_def Let_def)
qed

lemma clamp_upstream_reset_time_bounds:
  assumes "now < until" and "\<not> is_zero until"
  shows "now < clamp_upstream_reset_time until now"
    and "clamp_upstream_reset_time until now \<le> now + max_upstream_reset_duration"
    and "clamp_upstream_reset_time until now \<le> until"
  using assms
  by (auto simp: clamp_upstream_reset_time_def time_sub_def max_upstream_reset_duration_def
      max_def min_def split: if_splits)

end
