(* ===== verification/Cooldown_Tables.thy ===== *)
theory Cooldown_Tables
  imports Backoff_Policy
begin

text \<open>
  The persistent cooldown state and its operations, \<open>internal/storage/sql/cooldown.go\<close>.
  A table is the list of its rows; an SQL \<open>UPDATE ... WHERE\<close> is \<open>update_where\<close>, a
  \<open>DELETE ... WHERE\<close> a \<open>filter\<close> and a \<open>SELECT\<close> of one row a \<open>find\<close>.  Only the columns these
  statements read or write are kept.  A transaction is atomic: it returns the new store or
  an error and no store.  \<open>foreign_keys\<close> tells whether the engine enforces the foreign key of
  \<open>channel_model_cooldowns\<close> (MySQL and PostgreSQL do, the SQLite connection does not).

  The three tables share one contract, the locale \<open>cooldown_table\<close>, with an interpretation for
  channels, keys and models; what a run of failures does to a row is proved once, inside it.
\<close>

section \<open>Rows and store\<close>

record channel_row =
  ch_id :: int
  ch_cooldown_until :: int
  ch_cooldown_duration_ms :: int
  ch_updated_at :: int

record api_key_row =
  ak_channel_id :: int
  ak_key_index :: int
  ak_disabled :: bool
  ak_cooldown_until :: int
  ak_cooldown_duration_ms :: int
  ak_updated_at :: int

record model_cooldown_row =
  mc_channel_id :: int
  mc_model :: string
  mc_cooldown_until :: int
  mc_cooldown_duration_ms :: int
  mc_updated_at :: int

record cooldown_store =
  channels_table :: "channel_row list"
  api_keys_table :: "api_key_row list"
  model_cooldowns_table :: "model_cooldown_row list"
  store_policy :: "cooldown_policy option"
  foreign_keys :: bool

datatype store_error =
  ChannelNotFound | ApiKeyNotFound | ModelIsEmpty | ModelHasIllegalCharacters
| ForeignKeyViolation | StorageFault

definition configure_cooldown :: "cooldown_settings \<Rightarrow> cooldown_store \<Rightarrow> cooldown_store" where
  "configure_cooldown settings s = s\<lparr>store_policy := Some (new_cooldown_policy settings)\<rparr>"

definition active_policy :: "cooldown_store \<Rightarrow> cooldown_policy" where
  "active_policy s = (case store_policy s of Some p \<Rightarrow> p | None \<Rightarrow> default_cooldown_policy)"

definition store_backoff :: "cooldown_store \<Rightarrow> int \<Rightarrow> time \<Rightarrow> time \<Rightarrow> int \<Rightarrow> duration" where
  "store_backoff s prev_ms until now status_code =
     calculate_backoff_duration (active_policy s) prev_ms until now (Some status_code)"

section \<open>Channel cooldowns\<close>

definition bump_channel_cooldown ::
    "cooldown_store \<Rightarrow> int \<Rightarrow> time \<Rightarrow> int \<Rightarrow> store_error + duration \<times> cooldown_store" where
  "bump_channel_cooldown s channel now status_code =
     (case find (\<lambda>r. ch_id r = channel) (channels_table s) of
        None \<Rightarrow> Inl ChannelNotFound
      | Some row \<Rightarrow>
          let next = store_backoff s (ch_cooldown_duration_ms row)
                       (unix_to_time (ch_cooldown_until row)) now status_code;
              new_until = now + next
          in Inr (next, s\<lparr>channels_table :=
               update_where (\<lambda>r. ch_id r = channel)
                 (\<lambda>r. r\<lparr>ch_cooldown_until := time_to_unix new_until,
                        ch_cooldown_duration_ms := go_div next millisecond,
                        ch_updated_at := time_to_unix now\<rparr>)
                 (channels_table s)\<rparr>))"

definition reset_channel_cooldown ::
    "cooldown_store \<Rightarrow> int \<Rightarrow> time \<Rightarrow> cooldown_store" where
  "reset_channel_cooldown s channel now = s\<lparr>channels_table :=
     update_where (\<lambda>r. ch_id r = channel \<and> ch_cooldown_until r > 0)
       (\<lambda>r. r\<lparr>ch_cooldown_until := 0, ch_cooldown_duration_ms := 0,
              ch_updated_at := time_to_unix now\<rparr>)
       (channels_table s)\<rparr>"

definition set_channel_cooldown ::
    "cooldown_store \<Rightarrow> int \<Rightarrow> time \<Rightarrow> time \<Rightarrow> cooldown_store" where
  "set_channel_cooldown s channel until now = s\<lparr>channels_table :=
     update_where (\<lambda>r. ch_id r = channel)
       (\<lambda>r. r\<lparr>ch_cooldown_until := time_to_unix until,
              ch_cooldown_duration_ms := calculate_cooldown_duration until now,
              ch_updated_at := time_to_unix now\<rparr>)
       (channels_table s)\<rparr>"

definition get_all_channel_cooldowns :: "cooldown_store \<Rightarrow> time \<Rightarrow> int \<Rightarrow> time option" where
  "get_all_channel_cooldowns s now =
     map_of (rev (map (\<lambda>r. (ch_id r, unix_to_time (ch_cooldown_until r)))
       (filter (\<lambda>r. ch_cooldown_until r > time_to_unix now) (channels_table s))))"

section \<open>Model cooldowns\<close>

definition normalize_cooldown_model :: "string \<Rightarrow> store_error + string" where
  "normalize_cooldown_model m =
     (let m = trim_space m in
      if m = '''' then Inl ModelIsEmpty
      else if contains_any m (bytes [0, 13, 10]) then Inl ModelHasIllegalCharacters
      else Inr m)"

definition is_model_row :: "int \<Rightarrow> string \<Rightarrow> model_cooldown_row \<Rightarrow> bool" where
  "is_model_row channel m r \<longleftrightarrow> mc_channel_id r = channel \<and> mc_model r = m"

text \<open>\<open>INSERT ... ON CONFLICT(channel_id, model) DO NOTHING\<close> and \<open>... DO UPDATE\<close>.\<close>

definition channel_exists :: "cooldown_store \<Rightarrow> int \<Rightarrow> bool" where
  "channel_exists s channel \<longleftrightarrow> list_ex (\<lambda>r. ch_id r = channel) (channels_table s)"

definition insert_model_row ::
    "cooldown_store \<Rightarrow> model_cooldown_row \<Rightarrow> (model_cooldown_row \<Rightarrow> model_cooldown_row)
       \<Rightarrow> store_error + cooldown_store" where
  "insert_model_row s row on_conflict =
     (let same = is_model_row (mc_channel_id row) (mc_model row) in
      if list_ex same (model_cooldowns_table s) then
        Inr (s\<lparr>model_cooldowns_table := update_where same on_conflict (model_cooldowns_table s)\<rparr>)
      else if foreign_keys s \<and> \<not> channel_exists s (mc_channel_id row) then Inl ForeignKeyViolation
      else Inr (s\<lparr>model_cooldowns_table := model_cooldowns_table s @ [row]\<rparr>))"

definition bump_model_cooldown ::
    "cooldown_store \<Rightarrow> int \<Rightarrow> string \<Rightarrow> time \<Rightarrow> int \<Rightarrow> store_error + duration \<times> cooldown_store" where
  "bump_model_cooldown s channel m now status_code =
     (case normalize_cooldown_model m of
        Inl e \<Rightarrow> Inl e
      | Inr m \<Rightarrow>
         (case insert_model_row s
                 \<lparr> mc_channel_id = channel, mc_model = m, mc_cooldown_until = 0,
                   mc_cooldown_duration_ms = 0, mc_updated_at = time_to_unix now \<rparr> id of
            Inl e \<Rightarrow> Inl e
          | Inr s \<Rightarrow>
             (case find (is_model_row channel m) (model_cooldowns_table s) of
                None \<Rightarrow> Inl StorageFault
              | Some row \<Rightarrow>
                  let next = store_backoff s (mc_cooldown_duration_ms row)
                               (unix_to_time (mc_cooldown_until row)) now status_code;
                      new_until = now + next
                  in Inr (next, s\<lparr>model_cooldowns_table :=
                       update_where (is_model_row channel m)
                         (\<lambda>r. r\<lparr>mc_cooldown_until := time_to_unix new_until,
                                mc_cooldown_duration_ms := go_div next millisecond,
                                mc_updated_at := time_to_unix now\<rparr>)
                         (model_cooldowns_table s)\<rparr>))))"

definition set_model_cooldown ::
    "cooldown_store \<Rightarrow> int \<Rightarrow> string \<Rightarrow> time \<Rightarrow> time \<Rightarrow> store_error + cooldown_store" where
  "set_model_cooldown s channel m until now =
     (case normalize_cooldown_model m of
        Inl e \<Rightarrow> Inl e
      | Inr m \<Rightarrow>
          let u = time_to_unix until; d = calculate_cooldown_duration until now;
              w = time_to_unix now
          in insert_model_row s
               \<lparr> mc_channel_id = channel, mc_model = m, mc_cooldown_until = u,
                 mc_cooldown_duration_ms = d, mc_updated_at = w \<rparr>
               (\<lambda>r. r\<lparr>mc_cooldown_until := u, mc_cooldown_duration_ms := d,
                      mc_updated_at := w\<rparr>))"

definition reset_model_cooldown ::
    "cooldown_store \<Rightarrow> int \<Rightarrow> string \<Rightarrow> store_error + cooldown_store" where
  "reset_model_cooldown s channel m =
     (case normalize_cooldown_model m of
        Inl e \<Rightarrow> Inl e
      | Inr m \<Rightarrow> Inr (s\<lparr>model_cooldowns_table :=
          filter (\<lambda>r. \<not> is_model_row channel m r) (model_cooldowns_table s)\<rparr>))"

definition get_all_model_cooldowns ::
    "cooldown_store \<Rightarrow> time \<Rightarrow> int \<Rightarrow> string \<Rightarrow> time option" where
  "get_all_model_cooldowns s now channel =
     map_of (rev (map (\<lambda>r. (mc_model r, unix_to_time (mc_cooldown_until r)))
       (filter (\<lambda>r. mc_cooldown_until r > time_to_unix now \<and> mc_channel_id r = channel)
          (model_cooldowns_table s))))"

section \<open>Key cooldowns\<close>

definition is_key_row :: "int \<Rightarrow> int \<Rightarrow> api_key_row \<Rightarrow> bool" where
  "is_key_row channel key_index r \<longleftrightarrow> ak_channel_id r = channel \<and> ak_key_index r = key_index"

definition get_key_cooldown_until :: "cooldown_store \<Rightarrow> int \<Rightarrow> int \<Rightarrow> time option" where
  "get_key_cooldown_until s channel key_index =
     (case find (is_key_row channel key_index) (api_keys_table s) of
        None \<Rightarrow> None
      | Some row \<Rightarrow>
          if ak_cooldown_until row = 0 then None
          else Some (unix_to_time (ak_cooldown_until row)))"

text \<open>The inner map of \<open>GetAllKeyCooldowns\<close>, in the order of the rows.\<close>

definition get_all_key_cooldowns ::
    "cooldown_store \<Rightarrow> time \<Rightarrow> int \<Rightarrow> (int \<times> time) list option" where
  "get_all_key_cooldowns s now channel =
     (case filter (\<lambda>r. ak_cooldown_until r > time_to_unix now \<and> \<not> ak_disabled r \<and>
                       ak_channel_id r = channel) (api_keys_table s) of
        [] \<Rightarrow> None
      | rows \<Rightarrow> Some (map (\<lambda>r. (ak_key_index r, unix_to_time (ak_cooldown_until r))) rows))"

definition bump_key_cooldown ::
    "cooldown_store \<Rightarrow> int \<Rightarrow> int \<Rightarrow> time \<Rightarrow> int \<Rightarrow> store_error + duration \<times> cooldown_store" where
  "bump_key_cooldown s channel key_index now status_code =
     (case find (is_key_row channel key_index) (api_keys_table s) of
        None \<Rightarrow> Inl ApiKeyNotFound
      | Some row \<Rightarrow>
          let next = store_backoff s (ak_cooldown_duration_ms row)
                       (unix_to_time (ak_cooldown_until row)) now status_code;
              new_until = now + next
          in Inr (next, s\<lparr>api_keys_table :=
               update_where (is_key_row channel key_index)
                 (\<lambda>r. r\<lparr>ak_cooldown_until := time_to_unix new_until,
                        ak_cooldown_duration_ms := go_div next millisecond,
                        ak_updated_at := time_to_unix now\<rparr>)
                 (api_keys_table s)\<rparr>))"

definition set_key_cooldown ::
    "cooldown_store \<Rightarrow> int \<Rightarrow> int \<Rightarrow> time \<Rightarrow> time \<Rightarrow> cooldown_store" where
  "set_key_cooldown s channel key_index until now = s\<lparr>api_keys_table :=
     update_where (is_key_row channel key_index)
       (\<lambda>r. r\<lparr>ak_cooldown_until := time_to_unix until,
              ak_cooldown_duration_ms := calculate_cooldown_duration until now,
              ak_updated_at := time_to_unix now\<rparr>)
       (api_keys_table s)\<rparr>"

definition reset_key_cooldown ::
    "cooldown_store \<Rightarrow> int \<Rightarrow> int \<Rightarrow> time \<Rightarrow> cooldown_store" where
  "reset_key_cooldown s channel key_index now = s\<lparr>api_keys_table :=
     update_where (\<lambda>r. is_key_row channel key_index r \<and> ak_cooldown_until r > 0)
       (\<lambda>r. r\<lparr>ak_cooldown_until := 0, ak_cooldown_duration_ms := 0,
              ak_updated_at := time_to_unix now\<rparr>)
       (api_keys_table s)\<rparr>"

definition clear_all_key_cooldowns ::
    "cooldown_store \<Rightarrow> int \<Rightarrow> time \<Rightarrow> cooldown_store" where
  "clear_all_key_cooldowns s channel now = s\<lparr>api_keys_table :=
     update_where (\<lambda>r. ak_channel_id r = channel)
       (\<lambda>r. r\<lparr>ak_cooldown_until := 0, ak_cooldown_duration_ms := 0,
              ak_updated_at := time_to_unix now\<rparr>)
       (api_keys_table s)\<rparr>"

definition reset_all_cooldowns :: "cooldown_store \<Rightarrow> int \<Rightarrow> time \<Rightarrow> cooldown_store" where
  "reset_all_cooldowns s channel now = s\<lparr>
     channels_table := update_where
       (\<lambda>r. ch_id r = channel \<and> (ch_cooldown_until r > 0 \<or> ch_cooldown_duration_ms r > 0))
       (\<lambda>r. r\<lparr>ch_cooldown_until := 0, ch_cooldown_duration_ms := 0,
              ch_updated_at := time_to_unix now\<rparr>)
       (channels_table s),
     api_keys_table := update_where
       (\<lambda>r. ak_channel_id r = channel \<and>
            (ak_cooldown_until r > 0 \<or> ak_cooldown_duration_ms r > 0))
       (\<lambda>r. r\<lparr>ak_cooldown_until := 0, ak_cooldown_duration_ms := 0,
              ak_updated_at := time_to_unix now\<rparr>)
       (api_keys_table s),
     model_cooldowns_table := filter (\<lambda>r. mc_channel_id r \<noteq> channel) (model_cooldowns_table s)\<rparr>"

text \<open>\<open>SELECT ... FROM api_keys WHERE channel_id = ? ORDER BY key_index ASC\<close>, the columns used here.\<close>

definition get_api_keys :: "cooldown_store \<Rightarrow> int \<Rightarrow> api_key_row list" where
  "get_api_keys s channel =
     sort_key ak_key_index (filter (\<lambda>r. ak_channel_id r = channel) (api_keys_table s))"

section \<open>The contract of a cooldown table\<close>

text \<open>The columns \<open>cooldown_until\<close> and \<open>cooldown_duration_ms\<close> of a key, \<open>(0, 0)\<close> without a row.\<close>

definition channel_cell :: "cooldown_store \<Rightarrow> int \<Rightarrow> int \<times> int" where
  "channel_cell s channel =
     (case find (\<lambda>r. ch_id r = channel) (channels_table s) of
        None \<Rightarrow> (0, 0) | Some r \<Rightarrow> (ch_cooldown_until r, ch_cooldown_duration_ms r))"

definition key_cell :: "cooldown_store \<Rightarrow> int \<times> int \<Rightarrow> int \<times> int" where
  "key_cell s k =
     (case find (is_key_row (fst k) (snd k)) (api_keys_table s) of
        None \<Rightarrow> (0, 0) | Some r \<Rightarrow> (ak_cooldown_until r, ak_cooldown_duration_ms r))"

definition model_cell :: "cooldown_store \<Rightarrow> int \<times> string \<Rightarrow> int \<times> int" where
  "model_cell s k =
     (case find (is_model_row (fst k) (trim_space (snd k))) (model_cooldowns_table s) of
        None \<Rightarrow> (0, 0) | Some r \<Rightarrow> (mc_cooldown_until r, mc_cooldown_duration_ms r))"

definition key_exists :: "cooldown_store \<Rightarrow> int \<times> int \<Rightarrow> bool" where
  "key_exists s k \<longleftrightarrow> list_ex (is_key_row (fst k) (snd k)) (api_keys_table s)"

definition model_accepted :: "cooldown_store \<Rightarrow> int \<times> string \<Rightarrow> bool" where
  "model_accepted s k \<longleftrightarrow>
     (\<exists>m. normalize_cooldown_model (snd k) = Inr m) \<and>
     (list_ex (is_model_row (fst k) (trim_space (snd k))) (model_cooldowns_table s) \<or>
      \<not> foreign_keys s \<or> channel_exists s (fst k))"

definition same_model :: "int \<times> string \<Rightarrow> int \<times> string \<Rightarrow> bool" where
  "same_model k k' \<longleftrightarrow> fst k = fst k' \<and> trim_space (snd k) = trim_space (snd k')"

text \<open>
  A cooldown is counted from a row's \<open>until\<close> second on; \<open>cooling\<close> is the test every reader of
  the tables applies (\<open>IsCoolingDown\<close> and the \<open>cooldown_until > ?\<close> of the bulk queries).
\<close>

definition cooling :: "int \<times> int \<Rightarrow> time \<Rightarrow> bool" where
  "cooling c now \<longleftrightarrow> fst c > time_to_unix now"

lemma cooling_iff: "cooling c now \<longleftrightarrow> unix_to_time (fst c) > now"
  by (simp add: cooling_def time_to_unix_less_iff)

text \<open>A run of failures of one key: each bump sees the store the one before it left.\<close>

fun run_bumps ::
    "(cooldown_store \<Rightarrow> 'k \<Rightarrow> time \<Rightarrow> int \<Rightarrow> store_error + duration \<times> cooldown_store)
       \<Rightarrow> cooldown_store \<Rightarrow> 'k \<Rightarrow> (time \<times> int) list \<Rightarrow> store_error + duration list \<times> cooldown_store"
where
  "run_bumps bump s k [] = Inr ([], s)"
| "run_bumps bump s k (ev # evs) =
     (case bump s k (fst ev) (snd ev) of
        Inl e \<Rightarrow> Inl e
      | Inr (d, s') \<Rightarrow>
          (case run_bumps bump s' k evs of
             Inl e \<Rightarrow> Inl e
           | Inr (ds, s'') \<Rightarrow> Inr (d # ds, s'')))"

locale cooldown_table =
  fixes cell :: "cooldown_store \<Rightarrow> 'k \<Rightarrow> int \<times> int"
    and known :: "cooldown_store \<Rightarrow> 'k \<Rightarrow> bool"
    and same :: "'k \<Rightarrow> 'k \<Rightarrow> bool"
    and bump :: "cooldown_store \<Rightarrow> 'k \<Rightarrow> time \<Rightarrow> int \<Rightarrow> store_error + duration \<times> cooldown_store"
    and set_until :: "cooldown_store \<Rightarrow> 'k \<Rightarrow> time \<Rightarrow> time \<Rightarrow> store_error + cooldown_store"
    and reset :: "cooldown_store \<Rightarrow> 'k \<Rightarrow> time \<Rightarrow> store_error + cooldown_store"
  assumes bump_known: "known s k \<Longrightarrow> \<exists>s'. bump s k now c =
        Inr (store_backoff s (snd (cell s k)) (unix_to_time (fst (cell s k))) now c, s')"
    and bump_cell: "bump s k now c = Inr (d, s') \<Longrightarrow>
        cell s' k = (time_to_unix (now + d), go_div d millisecond)"
    and bump_frame: "bump s k now c = Inr (d, s') \<Longrightarrow> \<not> same k k' \<Longrightarrow> cell s' k' = cell s k'"
    and bump_keeps: "bump s k now c = Inr (d, s') \<Longrightarrow> known s k' \<Longrightarrow> known s' k'"
    and bump_policy: "bump s k now c = Inr (d, s') \<Longrightarrow> active_policy s' = active_policy s"
    and bump_inr: "bump s k now c = Inr (d, s') \<Longrightarrow> known s k"
    and set_known: "known s k \<Longrightarrow> \<exists>s'. set_until s k until now = Inr s'"
    and set_cell: "known s k \<Longrightarrow> set_until s k until now = Inr s' \<Longrightarrow>
        cell s' k = (time_to_unix until, calculate_cooldown_duration until now)"
    and set_frame: "set_until s k until now = Inr s' \<Longrightarrow> \<not> same k k' \<Longrightarrow> cell s' k' = cell s k'"
    and reset_known: "known s k \<Longrightarrow> \<exists>s'. reset s k now = Inr s'"
    and reset_cell: "reset s k now = Inr s' \<Longrightarrow> 0 < fst (cell s k) \<Longrightarrow> cell s' k = (0, 0)"
    and reset_frame: "reset s k now = Inr s' \<Longrightarrow> \<not> same k k' \<Longrightarrow> cell s' k' = cell s k'"
begin

lemma bump_duration:
  assumes "bump s k now c = Inr (d, s')"
  shows "d = store_backoff s (snd (cell s k)) (unix_to_time (fst (cell s k))) now c"
  using bump_known [OF bump_inr [OF assms], of now c] assms by auto

lemma bump_cools:
  assumes "sane_policy (active_policy s)" and b: "bump s k now c = Inr (d, s')"
    and "d mod second = 0"
  shows "cooling (cell s' k) now"
proof -
  have "0 < d"
    using calculate_backoff_duration_bounds(1) [OF assms(1)] bump_duration [OF b]
    by (simp add: store_backoff_def)
  moreover have "second dvd d" using assms(3) by (simp add: mod_eq_0_iff_dvd)
  ultimately have "second \<le> d" by (intro zdvd_imp_le)
  then have "now < unix_to_time (time_to_unix (now + d))"
    using unix_to_time_gt [of "now + d"] by linarith
  then show ?thesis using bump_cell [OF b] by (simp add: cooling_iff)
qed

lemma bump_until_bound:
  assumes "sane_policy (active_policy s)" and b: "bump s k now c = Inr (d, s')"
  shows "unix_to_time (fst (cell s' k))
    \<le> now + max (max_duration (active_policy s)) (initial_cooldown (active_policy s) (Some c))"
proof -
  have "d \<le> max (max_duration (active_policy s)) (initial_cooldown (active_policy s) (Some c))"
    using calculate_backoff_duration_bounds(2) [OF assms(1)] bump_duration [OF b]
    by (simp add: store_backoff_def)
  then show ?thesis using bump_cell [OF b] unix_to_time_le [of "now + d"] by simp
qed

lemma run_after_failure:
  assumes "sane_policy (active_policy s)" and "known s k"
    and "snd (cell s k) = go_div (failure_duration (active_policy s) c n) millisecond"
  shows "\<exists>s'. run_bumps bump s k evs =
           Inr (map (failure_duration (active_policy s) c) [Suc n ..< Suc n + length evs], s')"
  using assms
proof (induction evs arbitrary: s n)
  case Nil
  then show ?case by simp
next
  case (Cons ev evs)
  let ?p = "active_policy s"
  obtain s1 where b: "bump s k (fst ev) (snd ev) = Inr (failure_duration ?p c (Suc n), s1)"
    using bump_known [OF Cons.prems(2), of "fst ev" "snd ev"] Cons.prems(1,3)
    by (auto simp: store_backoff_def calculate_backoff_after_failure)
  note p1 = bump_policy [OF b]
  have "\<exists>s'. run_bumps bump s1 k evs =
      Inr (map (failure_duration (active_policy s1) c) [Suc (Suc n) ..< Suc (Suc n) + length evs], s')"
    using Cons.prems(1) bump_keeps [OF b Cons.prems(2)] bump_cell [OF b]
    by (intro Cons.IH) (simp_all add: p1)
  then obtain s' where r: "run_bumps bump s1 k evs =
      Inr (map (failure_duration ?p c) [Suc (Suc n) ..< Suc (Suc n) + length evs], s')"
    by (auto simp: p1)
  have "[Suc n ..< Suc n + length (ev # evs)]
      = Suc n # [Suc (Suc n) ..< Suc (Suc n) + length evs]"
    by (subst upt_conv_Cons) (simp_all del: upt_Suc)
  then show ?case using b r by simp
qed

lemma run_from_clean:
  assumes "sane_policy (active_policy s)" and "known s k"
    and "snd (cell s k) = 0" and "\<not> cooling (cell s k) now"
  shows "\<exists>s'. run_bumps bump s k ((now, c) # evs) =
    Inr (map (failure_duration (active_policy s) (Some c)) [0 ..< Suc (length evs)], s')"
proof -
  let ?p = "active_policy s"
  obtain s1 where b: "bump s k now c = Inr (failure_duration ?p (Some c) 0, s1)"
    using bump_known [OF assms(2), of now c] assms(3,4)
    by (auto simp: store_backoff_def calculate_backoff_duration_def cooling_iff
        failure_duration_def)
  note p1 = bump_policy [OF b]
  obtain s' where r: "run_bumps bump s1 k evs =
      Inr (map (failure_duration ?p (Some c)) [Suc 0 ..< Suc 0 + length evs], s')"
    using run_after_failure [of s1 k "Some c" 0 evs] assms(1) bump_keeps [OF b assms(2)]
      bump_cell [OF b] by (auto simp: p1)
  have "[0 ..< Suc (length evs)] = 0 # [Suc 0 ..< Suc 0 + length evs]"
    by (subst upt_conv_Cons) (simp_all del: upt_Suc)
  then show ?thesis using b r by simp
qed

text \<open>A success in between brings the next failure back to the first duration.\<close>

lemma reset_restarts:
  assumes "reset s k now = Inr s'" and "0 < fst (cell s k)"
    and "known s' k" and "sane_policy (active_policy s')" and "0 \<le> now'"
  shows "\<exists>s''. bump s' k now' c = Inr (initial_cooldown (active_policy s') (Some c), s'')"
  using bump_known [OF assms(3), of now' c] reset_cell [OF assms(1,2)] assms(5)
  by (auto simp: store_backoff_def calculate_backoff_duration_def unix_to_time_def)

end

text \<open>The three tables provide the contract.\<close>

lemma row_keys [simp]:
  "is_key_row c k (r\<lparr>ak_cooldown_until := u, ak_cooldown_duration_ms := d, ak_updated_at := w\<rparr>)
     = is_key_row c k r"
  "is_model_row c m (q\<lparr>mc_cooldown_until := u, mc_cooldown_duration_ms := d, mc_updated_at := w\<rparr>)
     = is_model_row c m q"
  by (simp_all add: is_key_row_def is_model_row_def)

text \<open>What the three shapes of an \<open>UPDATE\<close> do to the row of a key.\<close>

lemma find_channel_update [simp]:
  "find (\<lambda>r. ch_id r = k') (update_where (\<lambda>r. ch_id r = k)
      (\<lambda>r. r\<lparr>ch_cooldown_until := u r, ch_cooldown_duration_ms := d r, ch_updated_at := w r\<rparr>) t) =
   (if k = k' then map_option
      (\<lambda>r. r\<lparr>ch_cooldown_until := u r, ch_cooldown_duration_ms := d r, ch_updated_at := w r\<rparr>)
      (find (\<lambda>r. ch_id r = k') t) else find (\<lambda>r. ch_id r = k') t)"
  by (induction t) auto

lemma find_channel_guarded [simp]:
  "find (\<lambda>r. ch_id r = k') (update_where (\<lambda>r. ch_id r = k \<and> G r)
      (\<lambda>r. r\<lparr>ch_cooldown_until := u r, ch_cooldown_duration_ms := d r, ch_updated_at := w r\<rparr>) t) =
   (if k = k' then map_option
      (\<lambda>r. if G r then r\<lparr>ch_cooldown_until := u r, ch_cooldown_duration_ms := d r,
                          ch_updated_at := w r\<rparr> else r)
      (find (\<lambda>r. ch_id r = k') t) else find (\<lambda>r. ch_id r = k') t)"
  by (induction t) auto

lemma find_key_update [simp]:
  "find (is_key_row c' k') (update_where (is_key_row c k)
      (\<lambda>r. r\<lparr>ak_cooldown_until := u r, ak_cooldown_duration_ms := d r, ak_updated_at := w r\<rparr>) t) =
   (if c = c' \<and> k = k' then map_option
      (\<lambda>r. r\<lparr>ak_cooldown_until := u r, ak_cooldown_duration_ms := d r, ak_updated_at := w r\<rparr>)
      (find (is_key_row c' k') t) else find (is_key_row c' k') t)"
  unfolding is_key_row_def by (induction t) auto

lemma find_key_guarded [simp]:
  "find (is_key_row c' k') (update_where (\<lambda>r. is_key_row c k r \<and> G r)
      (\<lambda>r. r\<lparr>ak_cooldown_until := u r, ak_cooldown_duration_ms := d r, ak_updated_at := w r\<rparr>) t) =
   (if c = c' \<and> k = k' then map_option
      (\<lambda>r. if G r then r\<lparr>ak_cooldown_until := u r, ak_cooldown_duration_ms := d r,
                          ak_updated_at := w r\<rparr> else r)
      (find (is_key_row c' k') t) else find (is_key_row c' k') t)"
  unfolding is_key_row_def by (induction t) auto

lemma find_model_update [simp]:
  "find (is_model_row c' m') (update_where (is_model_row c m)
      (\<lambda>r. r\<lparr>mc_cooldown_until := u r, mc_cooldown_duration_ms := d r, mc_updated_at := w r\<rparr>) t) =
   (if c = c' \<and> m = m' then map_option
      (\<lambda>r. r\<lparr>mc_cooldown_until := u r, mc_cooldown_duration_ms := d r, mc_updated_at := w r\<rparr>)
      (find (is_model_row c' m') t) else find (is_model_row c' m') t)"
  unfolding is_model_row_def by (induction t) auto

lemmas channel_ops = bump_channel_cooldown_def set_channel_cooldown_def reset_channel_cooldown_def
lemmas key_ops = bump_key_cooldown_def set_key_cooldown_def reset_key_cooldown_def

interpretation channel_cooldowns: cooldown_table
  channel_cell channel_exists "(=)"
  bump_channel_cooldown
  "\<lambda>s k until now. Inr (set_channel_cooldown s k until now)"
  "\<lambda>s k now. Inr (reset_channel_cooldown s k now)"
  by unfold_locales
    (auto simp: channel_ops channel_cell_def channel_exists_def active_policy_def Let_def
      list_ex_find split: option.splits)

interpretation key_cooldowns: cooldown_table
  key_cell key_exists "(=)"
  "\<lambda>s k. bump_key_cooldown s (fst k) (snd k)"
  "\<lambda>s k until now. Inr (set_key_cooldown s (fst k) (snd k) until now)"
  "\<lambda>s k now. Inr (reset_key_cooldown s (fst k) (snd k) now)"
  by unfold_locales
    (auto simp: key_ops key_cell_def key_exists_def active_policy_def Let_def
      list_ex_find prod_eq_iff split: option.splits)

text \<open>The model table also inserts: the row of the key afterwards, and what is left alone.\<close>

lemma update_where_id [simp]: "update_where P id t = t"
  by (induction t) auto

lemma insert_model_row_succeeds:
  "(\<exists>s'. insert_model_row s row f = Inr s') \<longleftrightarrow>
     list_ex (is_model_row (mc_channel_id row) (mc_model row)) (model_cooldowns_table s) \<or>
     \<not> foreign_keys s \<or> channel_exists s (mc_channel_id row)"
  by (auto simp: insert_model_row_def Let_def)

lemma insert_model_row_frame:
  "insert_model_row s row f = Inr s' \<Longrightarrow>
     channels_table s' = channels_table s \<and> api_keys_table s' = api_keys_table s \<and>
     store_policy s' = store_policy s \<and> foreign_keys s' = foreign_keys s"
  by (auto simp: insert_model_row_def Let_def split: if_splits)

lemma find_model_update_gen:
  assumes "\<And>c m r. is_model_row c m (f r) = is_model_row c m r"
  shows "find (is_model_row c' m') (update_where (is_model_row c m) f t) =
     (if c = c' \<and> m = m' then map_option f (find (is_model_row c' m') t)
      else find (is_model_row c' m') t)"
proof (cases "c = c' \<and> m = m'")
  case True
  moreover have "find (is_model_row c m) (update_where (is_model_row c m) f t)
      = map_option f (find (is_model_row c m) t)"
    by (intro find_update_where_same assms)
  ultimately show ?thesis by simp
next
  case False
  then have "find (is_model_row c' m') (update_where (is_model_row c m) f t)
      = find (is_model_row c' m') t"
    by (intro find_update_where_other assms) (auto simp: is_model_row_def)
  with False show ?thesis by auto
qed

lemma insert_model_row_find:
  assumes "insert_model_row s row f = Inr s'"
    and "\<And>c m r. is_model_row c m (f r) = is_model_row c m r"
  shows "find (is_model_row c m) (model_cooldowns_table s') =
    (if c = mc_channel_id row \<and> m = mc_model row
     then Some (case find (is_model_row c m) (model_cooldowns_table s) of
                  None \<Rightarrow> row | Some r \<Rightarrow> f r)
     else find (is_model_row c m) (model_cooldowns_table s))"
  using assms(1)
  by (auto simp: insert_model_row_def Let_def find_model_update_gen [OF assms(2)] list_ex_find
      find_append is_model_row_def split: if_splits option.splits)

lemma normalize_cooldown_model_Inr:
  "normalize_cooldown_model m = Inr m' \<Longrightarrow> m' = trim_space m"
  by (auto simp: normalize_cooldown_model_def Let_def split: if_splits)

lemma bump_model_Inr:
  assumes "bump_model_cooldown s c m now code = Inr (d, s')"
  obtains s1 row where
    "normalize_cooldown_model m = Inr (trim_space m)"
    "insert_model_row s \<lparr> mc_channel_id = c, mc_model = trim_space m, mc_cooldown_until = 0,
        mc_cooldown_duration_ms = 0, mc_updated_at = time_to_unix now \<rparr> id = Inr s1"
    "find (is_model_row c (trim_space m)) (model_cooldowns_table s1) = Some row"
    "d = store_backoff s1 (mc_cooldown_duration_ms row)
           (unix_to_time (mc_cooldown_until row)) now code"
    "s' = s1\<lparr>model_cooldowns_table := update_where (is_model_row c (trim_space m))
        (\<lambda>r. r\<lparr>mc_cooldown_until := time_to_unix (now + d),
               mc_cooldown_duration_ms := go_div d millisecond,
               mc_updated_at := time_to_unix now\<rparr>) (model_cooldowns_table s1)\<rparr>"
proof -
  from assms obtain m' where m': "normalize_cooldown_model m = Inr m'"
    by (auto simp: bump_model_cooldown_def split: sum.splits)
  then have m'_eq: "m' = trim_space m" by (rule normalize_cooldown_model_Inr)
  show thesis
    using assms m' unfolding m'_eq
    by (auto simp: bump_model_cooldown_def Let_def split: sum.splits option.splits intro!: that)
qed

lemma model_cell_insert:
  assumes "insert_model_row s \<lparr> mc_channel_id = c, mc_model = m, mc_cooldown_until = 0,
        mc_cooldown_duration_ms = 0, mc_updated_at = w \<rparr> id = Inr s1"
  shows "model_cell s1 k = model_cell s k"
  using insert_model_row_find [OF assms, of "fst k" "trim_space (snd k)"]
  by (auto simp: model_cell_def split: option.splits)

lemma model_accepted_keep:
  assumes "model_accepted s k'" and "channels_table s' = channels_table s"
    and "foreign_keys s' = foreign_keys s"
    and "\<And>c m. find (is_model_row c m) (model_cooldowns_table s) \<noteq> None \<Longrightarrow>
           find (is_model_row c m) (model_cooldowns_table s') \<noteq> None"
  shows "model_accepted s' k'"
  using assms by (auto simp: model_accepted_def channel_exists_def list_ex_find)

lemma bump_model_known:
  assumes "model_accepted s (c, m)"
  shows "\<exists>s'. bump_model_cooldown s c m now code =
    Inr (store_backoff s (snd (model_cell s (c, m))) (unix_to_time (fst (model_cell s (c, m))))
           now code, s')"
proof -
  let ?row = "\<lparr> mc_channel_id = c, mc_model = trim_space m, mc_cooldown_until = 0,
        mc_cooldown_duration_ms = 0, mc_updated_at = time_to_unix now \<rparr>"
  from assms have n: "normalize_cooldown_model m = Inr (trim_space m)"
    using normalize_cooldown_model_Inr by (auto simp: model_accepted_def)
  obtain s1 where s1: "insert_model_row s ?row id = Inr s1"
    using insert_model_row_succeeds [of s ?row id] assms by (auto simp: model_accepted_def)
  have f: "find (is_model_row c (trim_space m)) (model_cooldowns_table s1) =
      Some (case find (is_model_row c (trim_space m)) (model_cooldowns_table s) of
              None \<Rightarrow> ?row | Some r \<Rightarrow> r)"
    using insert_model_row_find [OF s1, of c "trim_space m"] by (simp split: option.splits)
  have p: "store_backoff s1 = store_backoff s"
    using insert_model_row_frame [OF s1] by (auto simp: store_backoff_def active_policy_def fun_eq_iff)
  show ?thesis
    using n s1 f
    by (auto simp: bump_model_cooldown_def Let_def p model_cell_def split: option.splits)
qed

lemma bump_model_effect:
  assumes "bump_model_cooldown s c m now code = Inr (d, s')"
  shows "model_cell s' k = (if same_model (c, m) k then (time_to_unix (now + d), go_div d millisecond)
                            else model_cell s k)"
    and "model_accepted s k \<Longrightarrow> model_accepted s' k"
    and "active_policy s' = active_policy s" and "model_accepted s (c, m)"
proof -
  obtain s1 row where n: "normalize_cooldown_model m = Inr (trim_space m)"
    and s1: "insert_model_row s \<lparr> mc_channel_id = c, mc_model = trim_space m,
        mc_cooldown_until = 0, mc_cooldown_duration_ms = 0, mc_updated_at = time_to_unix now \<rparr> id
        = Inr s1"
    and row: "find (is_model_row c (trim_space m)) (model_cooldowns_table s1) = Some row"
    and s': "s' = s1\<lparr>model_cooldowns_table := update_where (is_model_row c (trim_space m))
        (\<lambda>r. r\<lparr>mc_cooldown_until := time_to_unix (now + d),
               mc_cooldown_duration_ms := go_div d millisecond,
               mc_updated_at := time_to_unix now\<rparr>) (model_cooldowns_table s1)\<rparr>"
    by (rule bump_model_Inr [OF assms]) blast
  note fr = insert_model_row_frame [OF s1]
  show "model_cell s' k = (if same_model (c, m) k
      then (time_to_unix (now + d), go_div d millisecond) else model_cell s k)"
  proof (cases "same_model (c, m) k")
    case True
    then show ?thesis using s' row by (auto simp: model_cell_def same_model_def)
  next
    case False
    then have "model_cell s' k = model_cell s1 k"
      using s' by (auto simp: model_cell_def same_model_def)
    with False show ?thesis using model_cell_insert [OF s1] by simp
  qed
  show "active_policy s' = active_policy s" using s' fr by (simp add: active_policy_def)
  show "model_accepted s k \<Longrightarrow> model_accepted s' k"
    by (erule model_accepted_keep)
      (use s' fr insert_model_row_find [OF s1] in \<open>auto split: if_splits\<close>)
  show "model_accepted s (c, m)"
    using n s1 insert_model_row_succeeds [of s "\<lparr> mc_channel_id = c, mc_model = trim_space m,
        mc_cooldown_until = 0, mc_cooldown_duration_ms = 0, mc_updated_at = time_to_unix now \<rparr>" id]
    by (simp add: model_accepted_def)
qed

lemma set_model_effect:
  assumes "set_model_cooldown s c m until now = Inr s'"
  shows "model_cell s' k = (if same_model (c, m) k
      then (time_to_unix until, calculate_cooldown_duration until now) else model_cell s k)"
proof -
  let ?row = "\<lparr> mc_channel_id = c, mc_model = trim_space m, mc_cooldown_until = time_to_unix until,
     mc_cooldown_duration_ms = calculate_cooldown_duration until now,
     mc_updated_at = time_to_unix now \<rparr>"
  let ?f = "\<lambda>r. r\<lparr>mc_cooldown_until := time_to_unix until,
     mc_cooldown_duration_ms := calculate_cooldown_duration until now,
     mc_updated_at := time_to_unix now\<rparr>"
  obtain m' where m': "normalize_cooldown_model m = Inr m'"
    using assms by (auto simp: set_model_cooldown_def split: sum.splits)
  then have i: "insert_model_row s ?row ?f = Inr s'"
    using assms normalize_cooldown_model_Inr [OF m'] by (simp add: set_model_cooldown_def Let_def)
  show ?thesis
    using insert_model_row_find [OF i, of "fst k" "trim_space (snd k)"]
    by (auto simp: model_cell_def same_model_def split: option.splits)
qed

lemma set_model_known:
  assumes "model_accepted s (c, m)"
  shows "\<exists>s'. set_model_cooldown s c m until now = Inr s'"
proof -
  obtain m' where m': "normalize_cooldown_model m = Inr m'"
    using assms by (auto simp: model_accepted_def)
  then show ?thesis
    using assms normalize_cooldown_model_Inr [OF m']
    by (simp add: set_model_cooldown_def Let_def insert_model_row_succeeds model_accepted_def)
qed

lemma reset_model_effect:
  assumes "reset_model_cooldown s c m = Inr s'"
  shows "model_cell s' k = (if same_model (c, m) k then (0, 0) else model_cell s k)"
proof -
  obtain m' where m': "normalize_cooldown_model m = Inr m'"
    using assms by (auto simp: reset_model_cooldown_def split: sum.splits)
  then have s': "s' = s\<lparr>model_cooldowns_table :=
      filter (\<lambda>r. \<not> is_model_row c (trim_space m) r) (model_cooldowns_table s)\<rparr>"
    using assms normalize_cooldown_model_Inr [OF m'] by (simp add: reset_model_cooldown_def)
  show ?thesis
  proof (cases "same_model (c, m) k")
    case True
    then show ?thesis
      by (simp add: s' model_cell_def same_model_def find_filter_drop)
  next
    case False
    then have "find (is_model_row (fst k) (trim_space (snd k)))
        (filter (\<lambda>r. \<not> is_model_row c (trim_space m) r) (model_cooldowns_table s))
      = find (is_model_row (fst k) (trim_space (snd k))) (model_cooldowns_table s)"
      by (intro find_filter_keep) (auto simp: same_model_def is_model_row_def)
    with False show ?thesis by (simp add: s' model_cell_def)
  qed
qed

lemma reset_model_known:
  "model_accepted s (c, m) \<Longrightarrow> \<exists>s'. reset_model_cooldown s c m = Inr s'"
  by (auto simp: model_accepted_def reset_model_cooldown_def)

interpretation model_cooldowns: cooldown_table
  model_cell model_accepted same_model
  "\<lambda>s k. bump_model_cooldown s (fst k) (snd k)"
  "\<lambda>s k until now. set_model_cooldown s (fst k) (snd k) until now"
  "\<lambda>s k now. reset_model_cooldown s (fst k) (snd k)"
proof (unfold_locales, goal_cases)
  case (1 s k now c)
  then show ?case using bump_model_known [of s "fst k" "snd k"] by simp
next
  case (7 s k until now)
  then show ?case using set_model_known [of s "fst k" "snd k"] by simp
next
  case (10 s k now)
  then show ?case using reset_model_known [of s "fst k" "snd k"] by simp
qed (auto simp: bump_model_effect set_model_effect reset_model_effect same_model_def
      dest: bump_model_effect(4))

section \<open>Properties\<close>

text \<open>A store for the concrete instances: one channel with two keys, the second one disabled.\<close>

definition example_store :: cooldown_store where
  "example_store = \<lparr>
     channels_table = [\<lparr>ch_id = 7, ch_cooldown_until = 0, ch_cooldown_duration_ms = 0, ch_updated_at = 0\<rparr>],
     api_keys_table =
       [\<lparr>ak_channel_id = 7, ak_key_index = 0, ak_disabled = False, ak_cooldown_until = 0,
         ak_cooldown_duration_ms = 0, ak_updated_at = 0\<rparr>,
        \<lparr>ak_channel_id = 7, ak_key_index = 1, ak_disabled = True, ak_cooldown_until = 0,
         ak_cooldown_duration_ms = 0, ak_updated_at = 0\<rparr>],
     model_cooldowns_table = [], store_policy = None, foreign_keys = True\<rparr>"

text \<open>consecutive failures of one key that starts with a clean record are punished with the
  doubling series of their first status code, capped by the configured maximum, whatever the
  times and status codes of the later failures are; no failure is lost.\<close>

theorem key_failures_back_off:
  assumes "sane_policy (active_policy s)" and "key_exists s k"
    and "snd (key_cell s k) = 0" and "\<not> cooling (key_cell s k) now"
  shows "\<exists>s'. run_bumps (\<lambda>s k. bump_key_cooldown s (fst k) (snd k)) s k ((now, c) # evs) =
    Inr (map (failure_duration (active_policy s) (Some c)) [0 ..< Suc (length evs)], s')"
  using assms by (rule key_cooldowns.run_from_clean)

lemma example_facts:
  "sane_policy (active_policy example_store)" "key_exists example_store (7, 0)"
  "key_cell example_store (7, 0) = (0, 0)" "channel_exists example_store 7"
  "channel_cell example_store 7 = (0, 0)"
  by (simp_all add: example_store_def active_policy_def key_exists_def key_cell_def is_key_row_def
      channel_exists_def channel_cell_def)

lemma example_backoff: "store_backoff example_store 0 (unix_to_time 0) 0 500 = 2 * minute"
  by (simp add: store_backoff_def calculate_backoff_duration_def initial_cooldown_def
      active_policy_def example_store_def default_cooldown_policy_def new_cooldown_policy_def
      assign_seconds_def cooldown_constants status_sse_error_def status_first_byte_timeout_def
      unix_to_time_def)

lemma word_model_accepted:
  "plain_word m \<Longrightarrow> normalize_cooldown_model m = Inr m"
  by (auto simp: normalize_cooldown_model_def Let_def trim_space_word contains_any_word bytes_def
      plain_char_char_of) (simp add: plain_word_def)

theorem key_failures_back_off_witness:
  "\<exists>s'. run_bumps (\<lambda>s k. bump_key_cooldown s (fst k) (snd k)) example_store (7, 0)
     [(5 * second, 429), (6 * second, 500), (7 * second, 401)] =
   Inr (map (failure_duration (active_policy example_store) (Some 429)) [0 ..< 3], s')"
  using key_failures_back_off [of example_store "(7, 0)" "5 * second" 429
      "[(6 * second, 500), (7 * second, 401)]"]
  by (simp add: example_facts cooling_def time_to_unix_def numeral_3_eq_3)

text \<open>a failure leaves the key cooling at the moment it is recorded, for no longer than the
  configured maximum (or the first duration of its status code, when that is longer), and does
  not move the record of any other key.\<close>

theorem failed_key_cools_down:
  assumes "sane_policy (active_policy s)"
    and "bump_key_cooldown s c k now code = Inr (d, s')" and "d mod second = 0"
  shows "cooling (key_cell s' (c, k)) now \<and>
    unix_to_time (fst (key_cell s' (c, k)))
      \<le> now + max (max_duration (active_policy s)) (initial_cooldown (active_policy s) (Some code)) \<and>
    (\<forall>k'. k' \<noteq> (c, k) \<longrightarrow> key_cell s' k' = key_cell s k')"
  using key_cooldowns.bump_cools [where k = "(c, k)"] key_cooldowns.bump_until_bound [where k = "(c, k)"]
    key_cooldowns.bump_frame [where k = "(c, k)"] assms
  by auto

theorem failed_key_cools_down_witness:
  "\<exists>s'. bump_key_cooldown example_store 7 0 0 500 = Inr (2 * minute, s') \<and>
     cooling (key_cell s' (7, 0)) 0"
proof -
  obtain s' where b: "bump_key_cooldown example_store 7 0 0 500 = Inr (2 * minute, s')"
    using key_cooldowns.bump_known [OF example_facts(2), of 0 500]
    by (auto simp: example_facts(3) example_backoff)
  then show ?thesis using failed_key_cools_down [OF example_facts(1) b] by simp
qed

lemma get_all_model_cooldowns_listed:
  assumes "r \<in> set (model_cooldowns_table s)" and "mc_channel_id r = c"
    and "time_to_unix now < mc_cooldown_until r"
  shows "\<exists>u. get_all_model_cooldowns s now c (mc_model r) = Some u"
proof -
  let ?rows = "filter (\<lambda>r. mc_cooldown_until r > time_to_unix now \<and> mc_channel_id r = c)
    (model_cooldowns_table s)"
  let ?l = "rev (map (\<lambda>r. (mc_model r, unix_to_time (mc_cooldown_until r))) ?rows)"
  have "r \<in> set ?rows" using assms by simp
  then have "mc_model r \<in> fst ` set ?l" by force
  then have "map_of ?l (mc_model r) \<noteq> None" by (subst map_of_eq_None_iff) simp
  then show ?thesis by (auto simp: get_all_model_cooldowns_def)
qed

lemma get_all_model_cooldowns_future:
  assumes "get_all_model_cooldowns s now c m = Some u"
  shows "now < u"
  using assms unfolding get_all_model_cooldowns_def
  by (auto dest!: map_of_SomeD simp: time_to_unix_less_iff)

text \<open>recording a failure of a model and reading the table back agree: right after the
  failure the model (whatever white space surrounds its name) is in the map the selector loads,
  with an end that lies in the future.\<close>

theorem failed_model_is_listed:
  assumes "sane_policy (active_policy s)"
    and "bump_model_cooldown s c m now code = Inr (d, s')" and "d mod second = 0"
  shows "\<exists>u. get_all_model_cooldowns s' now c (trim_space m) = Some u \<and> now < u"
proof -
  have cool: "cooling (model_cell s' (c, m)) now"
    using model_cooldowns.bump_cools [where k = "(c, m)"] assms by simp
  obtain s1 row where s': "s' = s1\<lparr>model_cooldowns_table := update_where (is_model_row c (trim_space m))
        (\<lambda>r. r\<lparr>mc_cooldown_until := time_to_unix (now + d),
               mc_cooldown_duration_ms := go_div d millisecond,
               mc_updated_at := time_to_unix now\<rparr>) (model_cooldowns_table s1)\<rparr>"
    and row: "find (is_model_row c (trim_space m)) (model_cooldowns_table s1) = Some row"
    by (rule bump_model_Inr [OF assms(2)]) blast
  let ?t = "model_cooldowns_table s'"
  have until: "mc_cooldown_until r = time_to_unix (now + d)"
    if "r \<in> set ?t" "is_model_row c (trim_space m) r" for r
    using that by (auto simp: s' set_update_where)
  have "find (is_model_row c (trim_space m)) ?t \<noteq> None" using row by (simp add: s')
  then obtain r where r: "r \<in> set ?t" "is_model_row c (trim_space m) r"
    by (auto dest: find_SomeD)
  have after: "time_to_unix now < time_to_unix (now + d)"
    using cool row by (simp add: cooling_def model_cell_def s')
  have "\<exists>u. get_all_model_cooldowns s' now c (mc_model r) = Some u"
    using r until [OF r] after by (intro get_all_model_cooldowns_listed) (simp_all add: is_model_row_def)
  then show ?thesis
    using r(2) get_all_model_cooldowns_future by (auto simp: is_model_row_def)
qed

theorem failed_model_is_listed_witness:
  "\<exists>s' d u. bump_model_cooldown example_store 7 ''gpt'' 0 500 = Inr (d, s') \<and>
     get_all_model_cooldowns s' 0 7 (trim_space ''gpt'') = Some u \<and> 0 < u"
proof -
  have "plain_word ''gpt''" by (simp add: plain_word_def plain_char_def)
  then have acc: "model_accepted example_store (7, ''gpt'')"
    using example_facts(4) word_model_accepted by (simp add: model_accepted_def)
  have "model_cell example_store (7, ''gpt'') = (0, 0)"
    by (simp add: model_cell_def example_store_def)
  then obtain s' where b: "bump_model_cooldown example_store 7 ''gpt'' 0 500 = Inr (2 * minute, s')"
    using bump_model_known [OF acc, of 0 500] by (auto simp: example_backoff)
  with failed_model_is_listed [OF example_facts(1) b] show ?thesis by auto
qed

end
