(* ===== verification/Go_Text.thy ===== *)
theory Go_Text
  imports Go_Base
begin

text \<open>
  The text processing of Go's standard library that the classifiers use: \<open>strconv.Atoi\<close> and
  \<open>strconv.ParseInt\<close> in base ten, the regular expressions of \<open>regexp\<close>, and the decoding of
  JSON values into Go structs.

  \<^item> A regular expression is matched by backtracking: \<open>rx\<close> lists the ways to match at one
    position in order of preference (the leftmost-first order of RE2), \<open>rx_find\<close> tries the
    positions from the left, as \<open>FindStringSubmatch\<close> does.
  \<^item> The JSON parser itself is not modelled: a JSON text is given by its tree.  What is
    modelled is \<open>json.Unmarshal\<close> into a struct: fields are found without regard to case,
    unknown fields are ignored, \<open>null\<close> leaves a field alone, a later duplicate overwrites, and
    one value of a wrong type makes the whole call fail.
\<close>

section \<open>Upper case and integers\<close>

definition to_upper_char :: "char \<Rightarrow> char" where
  "to_upper_char c =
     (let n = (of_char c :: nat) in if 97 \<le> n \<and> n \<le> 122 then char_of (n - 32) else c)"

definition to_upper :: "string \<Rightarrow> string" where
  "to_upper = map to_upper_char"

definition is_digit :: "char \<Rightarrow> bool" where
  "is_digit c \<longleftrightarrow> (let n = (of_char c :: nat) in 48 \<le> n \<and> n \<le> 57)"

definition decimal :: "string \<Rightarrow> int" where
  "decimal s = foldl (\<lambda>a c. 10 * a + (int (of_char c) - 48)) 0 s"

definition parse_int :: "string \<Rightarrow> int option" where
  "parse_int s =
     (let neg = (s \<noteq> [] \<and> hd s = CHR ''-'');
          ds = (if s \<noteq> [] \<and> (hd s = CHR ''-'' \<or> hd s = CHR ''+'') then tl s else s)
      in if ds = [] \<or> \<not> list_all is_digit ds then None
         else let v = (if neg then - decimal ds else decimal ds)
              in if in_int64 v then Some v else None)"

lemma parse_int_range: "parse_int s = Some v \<Longrightarrow> in_int64 v"
  by (auto simp: parse_int_def Let_def split: if_splits)

section \<open>Regular expressions\<close>

datatype regex =
  RSet "char \<Rightarrow> bool"
| REmpty
| RSeq regex regex
| RAlt regex regex
| ROpt regex
| RStar regex
| RGroup nat regex
| RBoundary

text \<open>What was read (reversed), what is left, and the groups captured so far, the last one first.\<close>

type_synonym rx_state = "string \<times> string \<times> (nat \<times> string) list"

fun rx_rest :: "rx_state \<Rightarrow> string" where
  "rx_rest (pre, rest, groups) = rest"

fun rx_star :: "nat \<Rightarrow> (rx_state \<Rightarrow> rx_state list) \<Rightarrow> rx_state \<Rightarrow> rx_state list" where
  "rx_star 0 f st = [st]"
| "rx_star (Suc n) f st =
     concat (map (rx_star n f)
       (filter (\<lambda>st'. length (rx_rest st') < length (rx_rest st)) (f st))) @ [st]"

definition is_word_char :: "char \<Rightarrow> bool" where
  "is_word_char c \<longleftrightarrow> is_digit c \<or> c = CHR ''_'' \<or>
     (let n = (of_char (to_upper_char c) :: nat) in 65 \<le> n \<and> n \<le> 90)"

definition at_boundary :: "rx_state \<Rightarrow> bool" where
  "at_boundary st = (case st of (pre, rest, groups) \<Rightarrow>
     (pre \<noteq> [] \<and> is_word_char (hd pre)) \<noteq> (rest \<noteq> [] \<and> is_word_char (hd rest)))"

definition rx_char :: "(char \<Rightarrow> bool) \<Rightarrow> rx_state \<Rightarrow> rx_state list" where
  "rx_char p st = (case st of
     (pre, c # rest, groups) \<Rightarrow> if p c then [(c # pre, rest, groups)] else []
   | _ \<Rightarrow> [])"

definition rx_capture :: "nat \<Rightarrow> rx_state \<Rightarrow> rx_state \<Rightarrow> rx_state" where
  "rx_capture n st st' = (case (st, st') of ((b, r, g), (b', r', g')) \<Rightarrow>
     (b', r', (n, take (length r - length r') r) # g'))"

primrec rx :: "regex \<Rightarrow> rx_state \<Rightarrow> rx_state list" where
  "rx (RSet p) = rx_char p"
| "rx REmpty = (\<lambda>st. [st])"
| "rx (RSeq a b) = (\<lambda>st. concat (map (rx b) (rx a st)))"
| "rx (RAlt a b) = (\<lambda>st. rx a st @ rx b st)"
| "rx (ROpt a) = (\<lambda>st. rx a st @ [st])"
| "rx (RStar a) = (\<lambda>st. rx_star (length (rx_rest st)) (rx a) st)"
| "rx (RGroup n a) = (\<lambda>st. map (rx_capture n st) (rx a st))"
| "rx RBoundary = (\<lambda>st. if at_boundary st then [st] else [])"

fun rx_find_from :: "regex \<Rightarrow> string \<Rightarrow> string \<Rightarrow> (nat \<Rightarrow> string) option" where
  "rx_find_from r pre s =
     (case rx (RGroup 0 r) (pre, s, []) of
        st # _ \<Rightarrow> Some (\<lambda>n. case map_of (snd (snd st)) n of None \<Rightarrow> [] | Some t \<Rightarrow> t)
      | [] \<Rightarrow> (case s of [] \<Rightarrow> None | c # cs \<Rightarrow> rx_find_from r (c # pre) cs))"

definition rx_find :: "regex \<Rightarrow> string \<Rightarrow> (nat \<Rightarrow> string) option" where
  "rx_find r s = rx_find_from r [] s"

fun rx_seq :: "regex list \<Rightarrow> regex" where
  "rx_seq [] = REmpty"
| "rx_seq [r] = r"
| "rx_seq (r # rs) = RSeq r (rx_seq rs)"

fun rx_alt :: "regex list \<Rightarrow> regex" where
  "rx_alt [] = RSet (\<lambda>c. False)"
| "rx_alt [r] = r"
| "rx_alt (r # rs) = RAlt r (rx_alt rs)"

definition rx_lit :: "string \<Rightarrow> regex" where
  "rx_lit s = rx_seq (map (\<lambda>c. RSet (\<lambda>d. d = c)) s)"

text \<open>A literal under the flag \<open>(?i)\<close>.\<close>

definition rx_lit_fold :: "string \<Rightarrow> regex" where
  "rx_lit_fold s = rx_seq (map (\<lambda>c. RSet (\<lambda>d. to_lower_char d = to_lower_char c)) s)"

definition rx_digit :: regex where
  "rx_digit = RSet is_digit"

definition rx_space :: regex where
  "rx_space = RSet (\<lambda>c. c \<in> set (bytes [9, 10, 12, 13, 32]))"

definition rx_plus :: "regex \<Rightarrow> regex" where
  "rx_plus r = RSeq r (RStar r)"

definition rx_times :: "nat \<Rightarrow> regex \<Rightarrow> regex" where
  "rx_times n r = rx_seq (replicate n r)"

section \<open>JSON\<close>

text \<open>A number is kept as its literal: whether it fits an \<open>int64\<close> depends on it.\<close>

datatype json =
  JNull
| JBool bool
| JNum string
| JStr string
| JArr "json list"
| JObj "(string \<times> json) list"

definition dec_string :: "json \<Rightarrow> string \<Rightarrow> string option" where
  "dec_string v old = (case v of JNull \<Rightarrow> Some old | JStr s \<Rightarrow> Some s | _ \<Rightarrow> None)"

definition dec_int64 :: "json \<Rightarrow> int \<Rightarrow> int option" where
  "dec_int64 v old = (case v of JNull \<Rightarrow> Some old | JNum lit \<Rightarrow> parse_int lit | _ \<Rightarrow> None)"

text \<open>A field is named by its tag; the first argument tells what a field does with its value.\<close>

fun dec_fields ::
    "(string \<Rightarrow> json \<Rightarrow> 's \<Rightarrow> 's option) \<Rightarrow> (string \<times> json) list \<Rightarrow> 's \<Rightarrow> 's option" where
  "dec_fields field [] s = Some s"
| "dec_fields field ((k, v) # kvs) s =
     (case field k v s of None \<Rightarrow> None | Some s' \<Rightarrow> dec_fields field kvs s')"

definition dec_struct ::
    "(string \<Rightarrow> json \<Rightarrow> 's \<Rightarrow> 's option) \<Rightarrow> json \<Rightarrow> 's \<Rightarrow> 's option" where
  "dec_struct field v old =
     (case v of JNull \<Rightarrow> Some old | JObj kvs \<Rightarrow> dec_fields field kvs old | _ \<Rightarrow> None)"

fun dec_list :: "(json \<Rightarrow> 's \<Rightarrow> 's option) \<Rightarrow> 's \<Rightarrow> json list \<Rightarrow> 's list option" where
  "dec_list dec zero [] = Some []"
| "dec_list dec zero (v # vs) =
     (case dec v zero of
        None \<Rightarrow> None
      | Some x \<Rightarrow> (case dec_list dec zero vs of None \<Rightarrow> None | Some xs \<Rightarrow> Some (x # xs)))"

definition dec_array ::
    "(json \<Rightarrow> 's \<Rightarrow> 's option) \<Rightarrow> 's \<Rightarrow> json \<Rightarrow> 's list \<Rightarrow> 's list option" where
  "dec_array dec zero v old =
     (case v of JNull \<Rightarrow> Some [] | JArr vs \<Rightarrow> dec_list dec zero vs | _ \<Rightarrow> None)"

end
