(* ===== verification/Status_Classifier.thy ===== *)
theory Status_Classifier
  imports Go_Text Backoff_Policy
begin

text \<open>
  The error classifier, \<open>internal/util/classifier.go\<close>: the table of status codes and its
  defaults, the analysis of response bodies (quota errors, rate limits, SSE errors, context
  length, connection limits, retired models) and the classification of transport errors.

  Everything the classifier reads from its surroundings is in \<open>go_env\<close>: the JSON parser, the
  parsers of \<open>time\<close> for dates and durations, the local time zone and the decimal text of a
  floating point number.  The clock is the argument \<open>now\<close>; the readings within one call are
  taken to be equal.  A header map is the list of its
  entries in the order of the iteration; a body is its bytes.
\<close>

section \<open>Surroundings\<close>

record go_env =
  env_json :: "string \<Rightarrow> json option"
  env_number_text :: "string \<Rightarrow> string"
  env_local_datetime :: "string \<Rightarrow> time option"
  env_next_local_midnight :: "time \<Rightarrow> time"
  env_rfc3339 :: "string \<Rightarrow> time option"
  env_is_rfc1123 :: "string \<Rightarrow> bool"
  env_duration :: "string \<Rightarrow> duration option"

type_synonym headers = "(string \<times> string list) list"

section \<open>Levels and the table of status codes\<close>

datatype error_level = LevelNone | LevelKey | LevelChannel | LevelClient

definition status_client_closed_request :: int where "status_client_closed_request = 499"
definition status_quota_exceeded :: int where "status_quota_exceeded = 596"
definition status_stream_incomplete :: int where "status_stream_incomplete = 599"
definition retry_after_threshold_seconds :: int where "retry_after_threshold_seconds = 60"
definition websocket_connection_limit_cooldown :: duration where
  "websocket_connection_limit_cooldown = 5 * second"

lemmas status_constants =
  status_client_closed_request_def status_quota_exceeded_def status_stream_incomplete_def
  status_sse_error_def status_first_byte_timeout_def

definition status_code_meta_map :: "int \<Rightarrow> error_level option" where
  "status_code_meta_map = map_of
     [(499, LevelChannel),
      (401, LevelKey), (402, LevelKey), (403, LevelKey), (429, LevelKey),
      (444, LevelChannel), (500, LevelChannel), (502, LevelChannel), (503, LevelChannel),
      (504, LevelChannel), (520, LevelChannel), (521, LevelChannel), (524, LevelChannel),
      (status_quota_exceeded, LevelKey), (status_sse_error, LevelKey),
      (status_first_byte_timeout, LevelChannel), (status_stream_incomplete, LevelChannel),
      (408, LevelClient), (405, LevelChannel), (406, LevelClient), (410, LevelClient),
      (413, LevelClient), (414, LevelClient), (415, LevelClient), (416, LevelClient),
      (417, LevelClient)]"

definition get_status_code_meta :: "int \<Rightarrow> error_level" where
  "get_status_code_meta status =
     (case status_code_meta_map status of
        Some level \<Rightarrow> level
      | None \<Rightarrow>
          if status \<ge> 500 then LevelChannel
          else if status \<ge> 400 then LevelKey
          else LevelClient)"

definition is_model_scoped_http_status :: "int \<Rightarrow> bool" where
  "is_model_scoped_http_status status \<longleftrightarrow> status \<ge> 500 \<and> status < status_quota_exceeded"

definition is_model_scoped_stream_failure :: "int \<Rightarrow> bool" where
  "is_model_scoped_stream_failure status \<longleftrightarrow>
     status = status_first_byte_timeout \<or> status = status_stream_incomplete"

definition client_status_for :: "int \<Rightarrow> int" where
  "client_status_for status =
     (if status \<le> 0 then 502
      else if status = status_quota_exceeded then 429
      else if status = status_sse_error then 502
      else if status = status_first_byte_timeout then 504
      else if status = status_stream_incomplete then 502
      else status)"

definition classify_http_status :: "int \<Rightarrow> error_level" where
  "classify_http_status status =
     (if status \<ge> 200 \<and> status < 300 then LevelNone else get_status_code_meta status)"

section \<open>The JSON shapes of upstream errors\<close>

record sse_error_detail =
  sd_type :: string
  sd_code :: string
  sd_message :: string

record sse_error_response =
  se_type :: string
  se_code :: string
  se_message :: string
  se_error :: sse_error_detail
  se_response_error :: sse_error_detail

definition empty_detail :: sse_error_detail where
  "empty_detail = \<lparr>sd_type = [], sd_code = [], sd_message = []\<rparr>"

definition sse_detail_field :: "string \<Rightarrow> json \<Rightarrow> sse_error_detail \<Rightarrow> sse_error_detail option" where
  "sse_detail_field k v d =
     (if equal_fold k ''type'' then map_option (\<lambda>s. d\<lparr>sd_type := s\<rparr>) (dec_string v (sd_type d))
      else if equal_fold k ''code'' then map_option (\<lambda>s. d\<lparr>sd_code := s\<rparr>) (dec_string v (sd_code d))
      else if equal_fold k ''message'' then
        map_option (\<lambda>s. d\<lparr>sd_message := s\<rparr>) (dec_string v (sd_message d))
      else Some d)"

definition sse_response_field ::
    "string \<Rightarrow> json \<Rightarrow> sse_error_response \<Rightarrow> sse_error_response option" where
  "sse_response_field k v r =
     (if equal_fold k ''type'' then map_option (\<lambda>s. r\<lparr>se_type := s\<rparr>) (dec_string v (se_type r))
      else if equal_fold k ''code'' then map_option (\<lambda>s. r\<lparr>se_code := s\<rparr>) (dec_string v (se_code r))
      else if equal_fold k ''message'' then
        map_option (\<lambda>s. r\<lparr>se_message := s\<rparr>) (dec_string v (se_message r))
      else if equal_fold k ''error'' then
        map_option (\<lambda>d. r\<lparr>se_error := d\<rparr>) (dec_struct sse_detail_field v (se_error r))
      else if equal_fold k ''response'' then
        map_option (\<lambda>d. r\<lparr>se_response_error := d\<rparr>)
          (dec_struct (\<lambda>k v d. if equal_fold k ''error'' then dec_struct sse_detail_field v d
                               else Some d) v (se_response_error r))
      else Some r)"

definition parse_sse_error :: "go_env \<Rightarrow> string \<Rightarrow> sse_error_response option" where
  "parse_sse_error env body =
     (case env_json env body of
        None \<Rightarrow> None
      | Some v \<Rightarrow> dec_struct sse_response_field v
          \<lparr>se_type = [], se_code = [], se_message = [], se_error = empty_detail,
           se_response_error = empty_detail\<rparr>)"

definition sse_error_type :: "sse_error_response \<Rightarrow> string" where
  "sse_error_type r = (if sd_type (se_error r) \<noteq> '''' then sd_type (se_error r)
                       else sd_code (se_error r))"

text \<open>The body of the loop of \<open>IsContextLengthExceededError\<close>, which stops at the first hit.\<close>

definition detail_exceeds_context :: "sse_error_detail \<Rightarrow> bool" where
  "detail_exceeds_context d =
     (let code = to_lower (trim_space (sd_code d)) in
      if code = ''context_length_exceeded'' \<or> code = ''context_too_large'' then True
      else if code \<noteq> '''' \<and> code \<noteq> ''invalid_request_error'' \<and> code \<noteq> ''bad_request_error'' then False
      else
        let error_type = to_lower (trim_space (sd_type d)) in
        if error_type \<noteq> '''' \<and> error_type \<noteq> ''error'' \<and> error_type \<noteq> ''invalid_request_error'' \<and>
           error_type \<noteq> ''bad_request_error'' then False
        else
          let message = to_lower (trim_space (sd_message d)) in
          str_contains message ''context window'' \<or> str_contains message ''context length'' \<or>
          str_contains message ''maximum context'' \<or> str_contains message ''too many tokens'')"

definition is_context_length_exceeded_error :: "go_env \<Rightarrow> string \<Rightarrow> bool" where
  "is_context_length_exceeded_error env body =
     (if body = [] then False
      else case parse_sse_error env body of
        None \<Rightarrow> False
      | Some p \<Rightarrow> list_ex detail_exceeds_context
          [se_error p, se_response_error p,
           \<lparr>sd_type = se_type p, sd_code = se_code p, sd_message = se_message p\<rparr>])"

subsection \<open>Structured quota errors\<close>

record quota_detail =
  qd_reason :: string
  qd_model :: string
  qd_reset_delay :: string
  qd_reset_time_stamp :: string

record quota_payload =
  qp_type :: json
  qp_code :: json
  qp_message :: string
  qp_model :: string
  qp_reset_seconds :: int
  qp_resets_in_seconds :: int
  qp_resets_at :: int
  qp_reset_time :: string
  qp_status :: string
  qp_details :: "quota_detail list"
  qp_error :: "json option"

definition empty_payload :: quota_payload where
  "empty_payload = \<lparr>qp_type = JNull, qp_code = JNull, qp_message = [], qp_model = [],
     qp_reset_seconds = 0, qp_resets_in_seconds = 0, qp_resets_at = 0, qp_reset_time = [],
     qp_status = [], qp_details = [], qp_error = None\<rparr>"

definition quota_metadata_field :: "string \<Rightarrow> json \<Rightarrow> quota_detail \<Rightarrow> quota_detail option" where
  "quota_metadata_field k v d =
     (if equal_fold k ''model'' then map_option (\<lambda>s. d\<lparr>qd_model := s\<rparr>) (dec_string v (qd_model d))
      else if equal_fold k ''quotaResetDelay'' then
        map_option (\<lambda>s. d\<lparr>qd_reset_delay := s\<rparr>) (dec_string v (qd_reset_delay d))
      else if equal_fold k ''quotaResetTimeStamp'' then
        map_option (\<lambda>s. d\<lparr>qd_reset_time_stamp := s\<rparr>) (dec_string v (qd_reset_time_stamp d))
      else Some d)"

definition quota_detail_field :: "string \<Rightarrow> json \<Rightarrow> quota_detail \<Rightarrow> quota_detail option" where
  "quota_detail_field k v d =
     (if equal_fold k ''reason'' then map_option (\<lambda>s. d\<lparr>qd_reason := s\<rparr>) (dec_string v (qd_reason d))
      else if equal_fold k ''metadata'' then dec_struct quota_metadata_field v d
      else Some d)"

text \<open>The fields both payload structs have; \<open>type\<close> is in the inner one, \<open>error\<close> in the outer one.\<close>

definition quota_payload_field :: "string \<Rightarrow> json \<Rightarrow> quota_payload \<Rightarrow> quota_payload option" where
  "quota_payload_field k v p =
     (if equal_fold k ''code'' then Some (p\<lparr>qp_code := v\<rparr>)
      else if equal_fold k ''message'' then
        map_option (\<lambda>s. p\<lparr>qp_message := s\<rparr>) (dec_string v (qp_message p))
      else if equal_fold k ''model'' then
        map_option (\<lambda>s. p\<lparr>qp_model := s\<rparr>) (dec_string v (qp_model p))
      else if equal_fold k ''reset_seconds'' then
        map_option (\<lambda>n. p\<lparr>qp_reset_seconds := n\<rparr>) (dec_int64 v (qp_reset_seconds p))
      else if equal_fold k ''resets_in_seconds'' then
        map_option (\<lambda>n. p\<lparr>qp_resets_in_seconds := n\<rparr>) (dec_int64 v (qp_resets_in_seconds p))
      else if equal_fold k ''resets_at'' then
        map_option (\<lambda>n. p\<lparr>qp_resets_at := n\<rparr>) (dec_int64 v (qp_resets_at p))
      else if equal_fold k ''reset_time'' then
        map_option (\<lambda>s. p\<lparr>qp_reset_time := s\<rparr>) (dec_string v (qp_reset_time p))
      else if equal_fold k ''status'' then
        map_option (\<lambda>s. p\<lparr>qp_status := s\<rparr>) (dec_string v (qp_status p))
      else if equal_fold k ''details'' then
        map_option (\<lambda>ds. p\<lparr>qp_details := ds\<rparr>)
          (dec_array (dec_struct quota_detail_field)
             \<lparr>qd_reason = [], qd_model = [], qd_reset_delay = [], qd_reset_time_stamp = []\<rparr>
             v (qp_details p))
      else Some p)"

definition quota_response_field :: "string \<Rightarrow> json \<Rightarrow> quota_payload \<Rightarrow> quota_payload option" where
  "quota_response_field k v p =
     (if equal_fold k ''error'' then Some (p\<lparr>qp_error := Some v\<rparr>) else quota_payload_field k v p)"

definition quota_object_field :: "string \<Rightarrow> json \<Rightarrow> quota_payload \<Rightarrow> quota_payload option" where
  "quota_object_field k v p =
     (if equal_fold k ''type'' then Some (p\<lparr>qp_type := v\<rparr>) else quota_payload_field k v p)"

record quota_error =
  qe_code :: string
  qe_message :: string
  qe_model :: string
  qe_reset_seconds :: int
  qe_resets_at :: int
  qe_reset_time :: string
  qe_status :: string
  qe_quota_reset_delay :: string
  qe_quota_reset_time_stamp :: string

fun coalesce_int64 :: "int list \<Rightarrow> int" where
  "coalesce_int64 [] = 0"
| "coalesce_int64 (v # vs) = (if v \<noteq> 0 then v else coalesce_int64 vs)"

definition structured_scalar_string :: "go_env \<Rightarrow> json \<Rightarrow> string" where
  "structured_scalar_string env v =
     (case v of
        JStr s \<Rightarrow> s
      | JNum lit \<Rightarrow> env_number_text env lit
      | JBool b \<Rightarrow> (if b then ''true'' else ''false'')
      | _ \<Rightarrow> [])"

definition normalize_structured_scalar :: "go_env \<Rightarrow> json \<Rightarrow> string" where
  "normalize_structured_scalar env v = to_upper (trim_space (structured_scalar_string env v))"

definition merge_quota_detail :: "quota_error \<Rightarrow> quota_detail \<Rightarrow> quota_error" where
  "merge_quota_detail q d =
     (let q = (if qe_model q = '''' then q\<lparr>qe_model := trim_space (qd_model d)\<rparr> else q);
          q = (if qe_quota_reset_time_stamp q = ''''
               then q\<lparr>qe_quota_reset_time_stamp := trim_space (qd_reset_time_stamp d)\<rparr> else q)
      in if qe_quota_reset_delay q = ''''
         then q\<lparr>qe_quota_reset_delay := trim_space (qd_reset_delay d)\<rparr> else q)"

definition quota_details_complete :: "quota_error \<Rightarrow> bool" where
  "quota_details_complete q \<longleftrightarrow>
     qe_quota_reset_time_stamp q \<noteq> '''' \<and> qe_quota_reset_delay q \<noteq> '''' \<and> qe_model q \<noteq> ''''"

primrec merge_structured_quota_details :: "quota_error \<Rightarrow> quota_detail list \<Rightarrow> quota_error" where
  "merge_structured_quota_details q [] = q"
| "merge_structured_quota_details q (d # ds) =
     (let q' = merge_quota_detail q d in
      if quota_details_complete q' then q' else merge_structured_quota_details q' ds)"

text \<open>The part of \<open>parseStructuredQuotaError\<close> under an \<open>error\<close> that is not a string.\<close>

definition merge_quota_object :: "go_env \<Rightarrow> quota_payload \<Rightarrow> quota_error \<Rightarrow> quota_error" where
  "merge_quota_object env o' q =
     (let q = (if qe_code q = '''' then q\<lparr>qe_code := normalize_structured_scalar env (qp_code o')\<rparr> else q);
          q = (if qe_code q = '''' then q\<lparr>qe_code := normalize_structured_scalar env (qp_type o')\<rparr> else q);
          q = (if qe_message q = '''' then q\<lparr>qe_message := qp_message o'\<rparr> else q);
          q = (if qe_model q = '''' then q\<lparr>qe_model := trim_space (qp_model o')\<rparr> else q);
          q = (if qe_reset_seconds q = 0
               then q\<lparr>qe_reset_seconds := coalesce_int64 [qp_reset_seconds o', qp_resets_in_seconds o']\<rparr>
               else q);
          q = (if qe_resets_at q = 0 then q\<lparr>qe_resets_at := qp_resets_at o'\<rparr> else q);
          q = (if qe_reset_time q = '''' then q\<lparr>qe_reset_time := qp_reset_time o'\<rparr> else q);
          q = (if qe_status q = '''' then q\<lparr>qe_status := to_upper (trim_space (qp_status o'))\<rparr> else q)
      in merge_structured_quota_details q (qp_details o'))"

definition parse_structured_quota_error :: "go_env \<Rightarrow> string \<Rightarrow> quota_error option" where
  "parse_structured_quota_error env body =
     (case env_json env body of
        None \<Rightarrow> None
      | Some v \<Rightarrow>
         (case dec_struct quota_response_field v empty_payload of
            None \<Rightarrow> None
          | Some r \<Rightarrow>
              let q = merge_structured_quota_details
                   \<lparr>qe_code = normalize_structured_scalar env (qp_code r),
                    qe_message = qp_message r,
                    qe_model = trim_space (qp_model r),
                    qe_reset_seconds = coalesce_int64 [qp_reset_seconds r, qp_resets_in_seconds r],
                    qe_resets_at = qp_resets_at r,
                    qe_reset_time = qp_reset_time r,
                    qe_status = to_upper (trim_space (qp_status r)),
                    qe_quota_reset_delay = [], qe_quota_reset_time_stamp = []\<rparr> (qp_details r);
                  q = (case qp_error r of
                         None \<Rightarrow> q
                       | Some e \<Rightarrow>
                          (case dec_string e [] of
                             Some error_text \<Rightarrow>
                               if qe_message q = '''' then q\<lparr>qe_message := error_text\<rparr> else q
                           | None \<Rightarrow>
                              (case dec_struct quota_object_field e empty_payload of
                                 Some o' \<Rightarrow> merge_quota_object env o' q
                               | None \<Rightarrow> q)))
              in if qe_code q \<noteq> '''' \<or> qe_message q \<noteq> '''' \<or> qe_status q \<noteq> '''' then Some q else None))"

definition extract_upstream_error_code_and_message :: "go_env \<Rightarrow> string \<Rightarrow> string \<times> string" where
  "extract_upstream_error_code_and_message env body =
     (case parse_structured_quota_error env body of
        None \<Rightarrow> ([], []) | Some q \<Rightarrow> (qe_code q, qe_message q))"

section \<open>Reset times\<close>

definition reset_time_1308_regex :: regex where
  "reset_time_1308_regex = rx_seq
     [rx_times 4 rx_digit, rx_lit ''-'', rx_times 2 rx_digit, rx_lit ''-'', rx_times 2 rx_digit,
      rx_lit '' '', rx_times 2 rx_digit, rx_lit '':'', rx_times 2 rx_digit, rx_lit '':'',
      rx_times 2 rx_digit]"

text \<open>The Chinese words of the patterns, in UTF-8: tomorrow, today, early morning, morning (two
  words), o'clock, minute, the full-width colon, Beijing time, and usage limit.\<close>

definition zh_tomorrow :: string where "zh_tomorrow = bytes [230, 152, 142, 229, 164, 169]"
definition zh_today :: string where "zh_today = bytes [228, 187, 138, 229, 164, 169]"
definition zh_day_parts :: "string list" where
  "zh_day_parts = [bytes [229, 135, 140, 230, 153, 168],
      bytes [230, 151, 169, 228, 184, 138],
      bytes [228, 184, 138, 229, 141, 136]]"
definition zh_hour :: string where "zh_hour = bytes [231, 130, 185]"
definition zh_minute :: string where "zh_minute = bytes [229, 136, 134]"
definition zh_colon :: string where "zh_colon = bytes [239, 188, 154]"
definition zh_beijing_time :: string where
  "zh_beijing_time = bytes [229, 140, 151, 228, 186, 172, 230, 151, 182, 233, 151, 180]"
definition zh_usage_limit :: string where
  "zh_usage_limit = bytes [231, 148, 168, 233, 135, 143, 228, 184, 138, 233, 153, 144]"

definition beijing_tomorrow_reset_regex :: regex where
  "beijing_tomorrow_reset_regex = rx_seq
     [rx_lit zh_tomorrow, RStar rx_space, ROpt (rx_alt (map rx_lit zh_day_parts)), RStar rx_space,
      RGroup 1 (RSeq rx_digit (ROpt rx_digit)), RStar rx_space, rx_lit zh_hour, RStar rx_space,
      ROpt (rx_seq [RGroup 2 (RSeq rx_digit (ROpt rx_digit)), RStar rx_space, rx_lit zh_minute])]"

definition global_fixed_window_retry_clock_regex :: regex where
  "global_fixed_window_retry_clock_regex = rx_seq
     [RGroup 1 (RAlt (rx_lit zh_today) (rx_lit zh_tomorrow)), RStar rx_space,
      RGroup 2 (RSeq rx_digit (ROpt rx_digit)), RStar rx_space,
      RAlt (rx_lit '':'') (rx_lit zh_colon), RStar rx_space,
      RGroup 3 (RSeq rx_digit (ROpt rx_digit))]"

definition duration_part_regex :: regex where
  "duration_part_regex = rx_seq
     [rx_plus rx_digit, ROpt (RSeq (rx_lit ''.'') (rx_plus rx_digit)),
      rx_alt (map rx_lit_fold [''ns'', ''us'', bytes [194, 181, 115], ''ms'', ''s'', ''m'', ''h''])]"

definition retry_in_duration_regex :: regex where
  "retry_in_duration_regex = rx_seq
     [RBoundary, rx_lit_fold ''retry'', rx_plus rx_space, rx_lit_fold ''in'', rx_plus rx_space,
      RGroup 1 (RSeq duration_part_regex (RStar duration_part_regex))]"

definition retry_after_seconds_regex :: regex where
  "retry_after_seconds_regex = rx_seq
     [RBoundary, rx_lit_fold ''retry'', rx_plus rx_space, rx_lit_fold ''after'', rx_plus rx_space,
      RGroup 1 (rx_plus rx_digit), RStar rx_space, rx_lit_fold ''second'', ROpt (rx_lit_fold ''s''),
      RBoundary]"

text \<open>The last two steps of \<open>parseStructuredCooldownUntil\<close>: \<open>reset_time\<close>, then \<open>quotaResetDelay\<close>.\<close>

definition positive_duration :: "go_env \<Rightarrow> string \<Rightarrow> duration option" where
  "positive_duration env s =
     (if s = '''' then None
      else case env_duration env s of
        None \<Rightarrow> None | Some d \<Rightarrow> if d > 0 then Some d else None)"

definition parse_structured_delay :: "go_env \<Rightarrow> quota_error \<Rightarrow> time \<Rightarrow> time option" where
  "parse_structured_delay env q now =
     (case positive_duration env (qe_reset_time q) of
        Some d \<Rightarrow> Some (clamp_upstream_reset_time (now + d) now)
      | None \<Rightarrow>
         (case positive_duration env (qe_quota_reset_delay q) of
            Some d \<Rightarrow> Some (clamp_upstream_reset_time (now + d) now)
          | None \<Rightarrow> None))"

definition parse_structured_cooldown_until ::
    "go_env \<Rightarrow> quota_error \<Rightarrow> time \<Rightarrow> time option" where
  "parse_structured_cooldown_until env q now =
     (if qe_reset_seconds q > 0 then
        Some (clamp_upstream_reset_time (now + wrap64 (qe_reset_seconds q * second)) now)
      else if qe_resets_at q > 0 \<and> unix_to_time (qe_resets_at q) > now then
        Some (clamp_upstream_reset_time (unix_to_time (qe_resets_at q)) now)
      else case (if qe_quota_reset_time_stamp q \<noteq> ''''
                 then env_rfc3339 env (qe_quota_reset_time_stamp q) else None) of
        Some until \<Rightarrow>
          if until > now then Some (clamp_upstream_reset_time until now)
          else parse_structured_delay env q now
      | None \<Rightarrow> parse_structured_delay env q now)"

text \<open>Beijing is eight hours ahead of UTC: an instant from the day, the hour and the minute there.\<close>

definition beijing_day :: "time \<Rightarrow> int" where
  "beijing_day now = (now + 8 * hour) div (24 * hour)"

definition beijing_clock :: "int \<Rightarrow> int \<Rightarrow> int \<Rightarrow> time" where
  "beijing_clock day h m = day * (24 * hour) + h * hour + m * minute - 8 * hour"

definition parse_retry_in_cooldown_until :: "go_env \<Rightarrow> string \<Rightarrow> time \<Rightarrow> time option" where
  "parse_retry_in_cooldown_until env message now =
     (case rx_find retry_in_duration_regex message of
        None \<Rightarrow> None
      | Some matches \<Rightarrow>
         (case env_duration env (matches 1) of
            None \<Rightarrow> None
          | Some d \<Rightarrow> if d \<le> 0 then None else Some (now + d)))"

definition parse_retry_after_seconds_cooldown_until :: "string \<Rightarrow> time \<Rightarrow> time option" where
  "parse_retry_after_seconds_cooldown_until message now =
     (case rx_find retry_after_seconds_regex message of
        None \<Rightarrow> None
      | Some matches \<Rightarrow>
         (case parse_int (matches 1) of
            None \<Rightarrow> None
          | Some seconds \<Rightarrow> if seconds \<le> 0 then None else Some (now + wrap64 (seconds * second))))"

definition clock_number :: "int \<Rightarrow> string \<Rightarrow> int option" where
  "clock_number limit s =
     (case parse_int s of
        None \<Rightarrow> None | Some n \<Rightarrow> if n < 0 \<or> n > limit then None else Some n)"

definition parse_global_fixed_window_quota_cooldown_until :: "string \<Rightarrow> time \<Rightarrow> time option" where
  "parse_global_fixed_window_quota_cooldown_until message now =
     (case rx_find global_fixed_window_retry_clock_regex message of
        None \<Rightarrow> None
      | Some matches \<Rightarrow>
         (case (clock_number 23 (matches 2), clock_number 59 (matches 3)) of
            (Some h, Some m) \<Rightarrow>
              let day_offset = (if matches 1 = zh_tomorrow then 1 else 0);
                  until = beijing_clock (beijing_day now + day_offset) h m
              in if \<not> until > now then None else Some (clamp_upstream_reset_time until now)
          | _ \<Rightarrow> None))"

definition parse_beijing_tomorrow_reset_time :: "string \<Rightarrow> time \<Rightarrow> time option" where
  "parse_beijing_tomorrow_reset_time message now =
     (if \<not> str_contains message zh_beijing_time then None
      else case rx_find beijing_tomorrow_reset_regex message of
        None \<Rightarrow> None
      | Some matches \<Rightarrow>
         (case (clock_number 23 (matches 1),
                if matches 2 \<noteq> '''' then clock_number 59 (matches 2) else Some 0) of
            (Some h, Some m) \<Rightarrow> Some (beijing_clock (beijing_day now + 1) h m)
          | _ \<Rightarrow> None))"

definition parse_reset_time_from_1308_error :: "go_env \<Rightarrow> string \<Rightarrow> time \<Rightarrow> time option" where
  "parse_reset_time_from_1308_error env body now =
     (case parse_sse_error env body of
        None \<Rightarrow> None
      | Some r \<Rightarrow>
          if sse_error_type r \<noteq> ''1308'' \<and> sse_error_type r \<noteq> ''1310'' then None
          else (case rx_find reset_time_1308_regex (sd_message (se_error r)) of
            None \<Rightarrow> None
          | Some matches \<Rightarrow>
             (case env_local_datetime env (matches 0) of
                None \<Rightarrow> None
              | Some reset_time \<Rightarrow> Some (clamp_upstream_reset_time reset_time now))))"

text \<open>The results of \<open>parseStructuredQuotaCooldown\<close>: the instant, the reason and the level; an
  instant of \<open>None\<close> is the zero time, which only \<open>model_cooldown\<close> returns.\<close>

definition parse_structured_quota_cooldown ::
    "go_env \<Rightarrow> string \<Rightarrow> time \<Rightarrow> (time \<times> string \<times> error_level) option" where
  "parse_structured_quota_cooldown env body now =
     (if body = [] then None
      else case parse_structured_quota_error env body of
        None \<Rightarrow> None
      | Some q \<Rightarrow>
          let code = qe_code q; message = qe_message q; message_upper = to_upper message in
          if code = ''MODEL_COOLDOWN'' then
            (case parse_structured_cooldown_until env q now of
               Some until \<Rightarrow> Some (until, ''model_cooldown'', LevelKey)
             | None \<Rightarrow> Some (zero_time, ''model_cooldown'', LevelKey))
          else if qe_status q = ''RESOURCE_EXHAUSTED'' \<or> str_contains message_upper ''RESOURCE_EXHAUSTED'' then
            (case parse_structured_cooldown_until env q now of
               Some until \<Rightarrow> Some (until, ''RESOURCE_EXHAUSTED'', LevelKey)
             | None \<Rightarrow>
                (case parse_retry_in_cooldown_until env message now of
                   Some until \<Rightarrow> Some (until, ''RESOURCE_EXHAUSTED_RETRY_IN'', LevelKey)
                 | None \<Rightarrow> None))
          else if code = ''API_KEY_QUOTA_EXHAUSTED'' then
            Some (now + 30 * minute, ''API_KEY_QUOTA_EXHAUSTED'', LevelKey)
          else if code = ''FREE_TIER_BUDGET_EXCEEDED'' \<or>
                  str_contains message_upper ''FREE_TIER_BUDGET_EXCEEDED'' then
            Some (now + 30 * minute, ''FREE_TIER_BUDGET_EXCEEDED'', LevelKey)
          else if code = ''DAILY_LIMIT_EXCEEDED'' \<or>
                  (code = ''USAGE_LIMIT_EXCEEDED'' \<and> str_contains message_upper ''DAILY_LIMIT_EXCEEDED'') then
            Some (env_next_local_midnight env now, ''DAILY_LIMIT_EXCEEDED'', LevelKey)
          else if code = ''GLOBAL_FIXED_WINDOW_QUOTA_EXHAUSTED'' then
            (case parse_global_fixed_window_quota_cooldown_until message now of
               Some until \<Rightarrow> Some (until, ''GLOBAL_FIXED_WINDOW_QUOTA_EXHAUSTED'', LevelChannel)
             | None \<Rightarrow> None)
          else if str_contains message zh_usage_limit then
            (case parse_beijing_tomorrow_reset_time message now of
               Some until \<Rightarrow> Some (until, ''BEIJING_RELATIVE_QUOTA_RESET'', LevelKey)
             | None \<Rightarrow> None)
          else if code = ''RATE_LIMIT_EXCEEDED'' then
            (case parse_retry_after_seconds_cooldown_until message now of
               Some until \<Rightarrow> Some (until, ''RATE_LIMIT_RETRY_AFTER'', LevelKey)
             | None \<Rightarrow> None)
          else if code = ''USAGE_LIMIT_REACHED'' then
            (case parse_structured_cooldown_until env q now of
               Some until \<Rightarrow> Some (until, ''USAGE_LIMIT_REACHED'', LevelKey)
             | None \<Rightarrow> Some (now + 30 * minute, ''USAGE_LIMIT_REACHED'', LevelKey))
          else None)"

section \<open>Bodies\<close>

definition contains_one_of :: "string \<Rightarrow> string list \<Rightarrow> bool" where
  "contains_one_of s patterns \<longleftrightarrow> list_ex (str_contains s) patterns"

definition is_model_unavailable_response :: "string \<Rightarrow> bool" where
  "is_model_unavailable_response body =
     (if body = [] then False
      else let body_lower = to_lower body in
        if str_contains body_lower ''model_not_found'' then True
        else if str_contains body_lower (bytes [230, 168, 161, 229, 158, 139]) then
          contains_one_of body_lower
            [bytes [228, 184, 141, 230, 148, 175, 230, 140, 129],
        bytes [228, 184, 141, 229, 173, 152, 229, 156, 168],
        bytes [230, 156, 170, 230, 137, 190, 229, 136, 176],
        bytes [230, 137, 190, 228, 184, 141, 229, 136, 176],
        bytes [228, 184, 141, 229, 143, 175, 231, 148, 168],
        bytes [229, 183, 178, 228, 184, 139, 231, 186, 191],
        bytes [229, 129, 156, 230, 173, 162, 230, 156, 141, 229, 138, 161]]
        else if \<not> str_contains body_lower ''model'' then False
        else contains_one_of body_lower
          [''unsupported'', ''not supported'', ''not found'', ''does not exist'', ''not available'',
           ''no longer available'', ''end of life''])"

definition classify_404_error :: "string \<Rightarrow> error_level" where
  "classify_404_error body =
     (if is_model_unavailable_response body then LevelClient else LevelChannel)"

definition is_cloudflare_block_page :: "string \<Rightarrow> bool" where
  "is_cloudflare_block_page body \<longleftrightarrow>
     str_contains (to_lower body) ''<title>attention required! | cloudflare</title>'' \<and>
     str_contains (to_lower body) ''sorry, you have been blocked''"

text \<open>The anonymous struct of \<open>isProtocolConversionNotImplemented\<close> has \<open>error.code\<close> and
  \<open>error.message\<close> only, both strings.\<close>

definition code_message_field :: "string \<Rightarrow> json \<Rightarrow> string \<times> string \<Rightarrow> (string \<times> string) option" where
  "code_message_field k v p =
     (if equal_fold k ''code'' then map_option (\<lambda>s. (s, snd p)) (dec_string v (fst p))
      else if equal_fold k ''message'' then map_option (\<lambda>s. (fst p, s)) (dec_string v (snd p))
      else Some p)"

definition is_protocol_conversion_not_implemented :: "go_env \<Rightarrow> string \<Rightarrow> bool" where
  "is_protocol_conversion_not_implemented env body =
     (case env_json env body of
        None \<Rightarrow> False
      | Some v \<Rightarrow>
         (case dec_struct (\<lambda>k v p. if equal_fold k ''error'' then dec_struct code_message_field v p
                                   else Some p) v ([], []) of
            None \<Rightarrow> False
          | Some (code, message) \<Rightarrow>
              equal_fold (trim_space code) ''convert_request_failed'' \<and>
              str_contains (to_lower message) ''not implemented''))"

definition should_fallback_protocol :: "go_env \<Rightarrow> int \<Rightarrow> string \<Rightarrow> bool" where
  "should_fallback_protocol env status body =
     (if status = 400 then True
      else if status = 403 then is_cloudflare_block_page body
      else if status = 405 then True
      else if status = 404 then \<not> is_model_unavailable_response body
      else if status = 500 then is_protocol_conversion_not_implemented env body
      else False)"

definition websocket_connection_limit_code :: string where
  "websocket_connection_limit_code = ''websocket_connection_limit_reached''"

definition is_websocket_connection_limit_value :: "string \<Rightarrow> bool" where
  "is_websocket_connection_limit_value s \<longleftrightarrow>
     equal_fold (trim_space s) websocket_connection_limit_code"

text \<open>\<open>websocketErrorProbe\<close> and the object under its \<open>error\<close>: fields of type \<open>any\<close>.\<close>

definition probe_field :: "string \<Rightarrow> json \<Rightarrow> json \<times> json option \<Rightarrow> (json \<times> json option) option" where
  "probe_field k v p =
     (if equal_fold k ''code'' then Some (v, snd p)
      else if equal_fold k ''error'' then Some (fst p, Some v)
      else Some p)"

definition type_code_field :: "string \<Rightarrow> json \<Rightarrow> json \<times> json \<Rightarrow> (json \<times> json) option" where
  "type_code_field k v p =
     (if equal_fold k ''type'' then Some (v, snd p)
      else if equal_fold k ''code'' then Some (fst p, v)
      else Some p)"

definition is_websocket_connection_limit_error :: "go_env \<Rightarrow> string \<Rightarrow> bool" where
  "is_websocket_connection_limit_error env body =
     (if body = [] then False
      else case env_json env body of
        None \<Rightarrow> False
      | Some v \<Rightarrow>
         (case dec_struct probe_field v (JNull, None) of
            None \<Rightarrow> False
          | Some (code, err) \<Rightarrow>
              if is_websocket_connection_limit_value (structured_scalar_string env code) then True
              else (case err of
                None \<Rightarrow> False
              | Some e \<Rightarrow>
                 (case dec_string e [] of
                    Some error_text \<Rightarrow> is_websocket_connection_limit_value error_text
                  | None \<Rightarrow>
                     (case dec_struct type_code_field e (JNull, JNull) of
                        None \<Rightarrow> False
                      | Some (t, c) \<Rightarrow>
                          is_websocket_connection_limit_value (structured_scalar_string env t) \<or>
                          is_websocket_connection_limit_value (structured_scalar_string env c))))))"

definition classify_sse_error :: "go_env \<Rightarrow> string \<Rightarrow> error_level" where
  "classify_sse_error env body =
     (if body = [] then LevelKey
      else case parse_sse_error env body of
        None \<Rightarrow> LevelKey
      | Some r \<Rightarrow>
          if sse_error_type r \<in> set [''api_error'', ''overloaded_error'',
               ''service_unavailable_error'', ''server_is_overloaded'', ''1305'']
          then LevelChannel else LevelKey)"

section \<open>Rate limits\<close>

definition classify_rate_limit_error :: "go_env \<Rightarrow> headers \<Rightarrow> string \<Rightarrow> error_level" where
  "classify_rate_limit_error env hs body =
     (if (case map_of hs ''Retry-After'' of
            Some (retry_after # _) \<Rightarrow>
              (case parse_int retry_after of
                 Some seconds \<Rightarrow> seconds > retry_after_threshold_seconds
               | None \<Rightarrow> False) \<or> env_is_rfc1123 env retry_after
          | _ \<Rightarrow> False) then LevelChannel
      else if (case map_of hs ''X-Ratelimit-Scope'' of
            Some (scope # _) \<Rightarrow> to_lower scope \<in> set [''global'', ''ip'', ''account'']
          | _ \<Rightarrow> False) then LevelChannel
      else if body \<noteq> [] \<and> contains_one_of (to_lower body)
            [''ip rate limit'', ''account rate limit'', ''global rate limit'', ''organization limit'']
        then LevelChannel
      else LevelKey)"

text \<open>The first value that is a Unix second after \<open>now\<close>.\<close>

fun first_reset_value :: "string list \<Rightarrow> time \<Rightarrow> time option" where
  "first_reset_value [] now = None"
| "first_reset_value (v # vs) now =
     (case parse_int (trim_space v) of
        None \<Rightarrow> first_reset_value vs now
      | Some reset_unix \<Rightarrow>
          if unix_to_time reset_unix > now
          then Some (clamp_upstream_reset_time (unix_to_time reset_unix) now)
          else first_reset_value vs now)"

definition reset_of_header :: "string \<Rightarrow> headers \<Rightarrow> time \<Rightarrow> time option" where
  "reset_of_header name hs now =
     (case find (\<lambda>h. equal_fold (fst h) name) hs of
        None \<Rightarrow> None | Some h \<Rightarrow> first_reset_value (snd h) now)"

definition parse_anthropic_rate_limit_reset :: "headers \<Rightarrow> time \<Rightarrow> time option" where
  "parse_anthropic_rate_limit_reset hs now =
     reset_of_header ''Anthropic-Ratelimit-Unified-Reset'' hs now"

fun first_reset_header :: "string list \<Rightarrow> headers \<Rightarrow> time \<Rightarrow> time option" where
  "first_reset_header [] hs now = None"
| "first_reset_header (name # names) hs now =
     (case reset_of_header name hs now of
        Some until \<Rightarrow> Some until | None \<Rightarrow> first_reset_header names hs now)"

definition parse_rate_limit_reset_headers :: "headers \<Rightarrow> time \<Rightarrow> time option" where
  "parse_rate_limit_reset_headers hs now =
     first_reset_header
       [''anthropic-ratelimit-requests-reset'', ''anthropic-ratelimit-tokens-reset'',
        ''x-ratelimit-reset-requests'', ''x-ratelimit-reset''] hs now"

section \<open>The classification of an HTTP response\<close>

record http_response_classification =
  rc_level :: error_level
  rc_model :: string
  rc_model_scoped :: bool
  rc_prevent_key_fallback :: bool
  rc_model_cooldown_until :: time
  rc_has_model_cooldown_until :: bool
  rc_model_cooldown_reason :: string
  rc_key_cooldown_until :: time
  rc_has_key_cooldown_until :: bool
  rc_key_cooldown_reason :: string
  rc_channel_cooldown_until :: time
  rc_has_channel_cooldown_until :: bool
  rc_channel_cooldown_reason :: string

definition of_level :: "error_level \<Rightarrow> http_response_classification" where
  "of_level level =
     \<lparr>rc_level = level, rc_model = [], rc_model_scoped = False, rc_prevent_key_fallback = False,
      rc_model_cooldown_until = zero_time, rc_has_model_cooldown_until = False,
      rc_model_cooldown_reason = [], rc_key_cooldown_until = zero_time,
      rc_has_key_cooldown_until = False, rc_key_cooldown_reason = [],
      rc_channel_cooldown_until = zero_time, rc_has_channel_cooldown_until = False,
      rc_channel_cooldown_reason = []\<rparr>"

definition scoped :: "error_level \<Rightarrow> http_response_classification" where
  "scoped level = (of_level level)\<lparr>rc_model_scoped := True\<rparr>"

definition key_until :: "error_level \<Rightarrow> time \<Rightarrow> string \<Rightarrow> http_response_classification" where
  "key_until level until reason = (of_level level)\<lparr>rc_key_cooldown_until := until,
     rc_has_key_cooldown_until := True, rc_key_cooldown_reason := reason\<rparr>"

definition model_until ::
    "time \<Rightarrow> string \<Rightarrow> http_response_classification \<Rightarrow> http_response_classification" where
  "model_until until reason c = c\<lparr>rc_model_cooldown_until := until,
     rc_has_model_cooldown_until := True, rc_model_cooldown_reason := reason\<rparr>"

definition channel_until :: "error_level \<Rightarrow> time \<Rightarrow> string \<Rightarrow> http_response_classification" where
  "channel_until level until reason = (of_level level)\<lparr>rc_channel_cooldown_until := until,
     rc_has_channel_cooldown_until := True, rc_channel_cooldown_reason := reason\<rparr>"

text \<open>The block under a recognised structured quota error.\<close>

definition quota_classification ::
    "go_env \<Rightarrow> int \<Rightarrow> string \<Rightarrow> time \<Rightarrow> time \<times> string \<times> error_level \<Rightarrow> http_response_classification"
where
  "quota_classification env status body now q =
     (case q of (until, reason, level) \<Rightarrow>
        if reason = ''model_cooldown'' then
          let c = (of_level level)\<lparr>
                rc_model := (case parse_structured_quota_error env body of
                               Some e \<Rightarrow> trim_space (qe_model e) | None \<Rightarrow> []),
                rc_model_scoped := True, rc_model_cooldown_reason := reason\<rparr>
          in if until > now
             then c\<lparr>rc_model_cooldown_until := until, rc_has_model_cooldown_until := True\<rparr>
             else c
        else if status = 429 \<and> level = LevelChannel then model_until until reason (scoped level)
        else if level = LevelChannel then channel_until level until reason
        else key_until level until reason)"

text \<open>The block of the status 429; \<open>headers != nil\<close> is \<open>hs \<noteq> None\<close>.\<close>

definition rate_limit_classification ::
    "go_env \<Rightarrow> headers option \<Rightarrow> string \<Rightarrow> time \<Rightarrow> http_response_classification" where
  "rate_limit_classification env hs body now =
     (let level = (case hs of None \<Rightarrow> LevelKey | Some h \<Rightarrow> classify_rate_limit_error env h body);
          h = (case hs of None \<Rightarrow> [] | Some h \<Rightarrow> h)
      in case parse_anthropic_rate_limit_reset h now of
           Some until \<Rightarrow> (model_until until ''anthropic_unified_reset'' (scoped level))
                           \<lparr>rc_prevent_key_fallback := True\<rparr>
         | None \<Rightarrow>
            (case parse_rate_limit_reset_headers h now of
               Some until \<Rightarrow> (model_until until ''rate_limit_reset_header'' (scoped level))
                               \<lparr>rc_prevent_key_fallback := True\<rparr>
             | None \<Rightarrow> scoped level))"

definition channel_error_patterns :: "string list" where
  "channel_error_patterns =
     [''account suspended'', ''account disabled'', ''account banned'', ''service disabled'']"

definition classify_http_response_with_meta_at ::
    "go_env \<Rightarrow> int \<Rightarrow> headers option \<Rightarrow> string \<Rightarrow> time \<Rightarrow> http_response_classification" where
  "classify_http_response_with_meta_at env status hs body now =
     (if status = status_client_closed_request then scoped LevelChannel
      else case parse_reset_time_from_1308_error env body now of
        Some reset_time \<Rightarrow> key_until LevelKey reset_time ''1308''
      | None \<Rightarrow>
      if is_websocket_connection_limit_error env body then
        channel_until LevelChannel (now + websocket_connection_limit_cooldown)
          ''websocket_connection_limit''
      else case parse_structured_quota_cooldown env body now of
        Some q \<Rightarrow> quota_classification env status body now q
      | None \<Rightarrow>
      if (status = status_sse_error \<or> status = 400 \<or> status = 413) \<and>
         is_context_length_exceeded_error env body then of_level LevelClient
      else if status = status_sse_error then
        (let level = classify_sse_error env body
         in (of_level level)\<lparr>rc_model_scoped := (level = LevelChannel)\<rparr>)
      else if is_model_scoped_stream_failure status then scoped LevelChannel
      else if status = 429 then rate_limit_classification env hs body now
      else if status = 400 then scoped LevelKey
      else if status = 410 \<and> is_model_unavailable_response body then scoped LevelChannel
      else if status = 404 then
        (of_level (classify_404_error body))
          \<lparr>rc_model_scoped := is_model_unavailable_response body\<rparr>
      else if status \<noteq> 401 \<and> status \<noteq> 403 then
        (of_level (classify_http_status status))
          \<lparr>rc_model_scoped := is_model_scoped_http_status status\<rparr>
      else if body = [] then of_level LevelKey
      else if contains_one_of (to_lower body) channel_error_patterns then of_level LevelChannel
      else of_level LevelKey)"

section \<open>Transport errors\<close>

text \<open>The sentinels the code compares an error chain with.\<close>

datatype error_sentinel =
  ErrUpstreamFirstByteTimeout | ErrUpstreamStreamTimeout | ErrUpstreamEmptyResponse
| ErrUpstreamInvalidResponse | ErrUnsupportedRequestShape | ContextCanceled
| ContextDeadlineExceeded

text \<open>An error: the sentinels \<open>errors.Is\<close> finds in its chain, whether \<open>errors.As\<close> finds a
  \<open>net.Error\<close> there that is a timeout, and its text.\<close>

record go_error =
  err_chain :: "error_sentinel list"
  err_net_timeout :: bool
  err_text :: string

definition errors_is :: "go_error \<Rightarrow> error_sentinel \<Rightarrow> bool" where
  "errors_is e s \<longleftrightarrow> s \<in> set (err_chain e)"

definition is_model_scoped_network_error_text :: "string \<Rightarrow> bool" where
  "is_model_scoped_network_error_text err_lower \<longleftrightarrow> contains_one_of err_lower
     [''connection reset by peer'', ''http2: response body closed'', ''stream error:'',
      ''empty response'', ''connection timeout'']"

definition classify_error_by_string :: "string \<Rightarrow> int \<times> error_level \<times> bool" where
  "classify_error_by_string err =
     (let err_lower = to_lower err in
      if str_contains err_lower ''broken pipe'' then (499, LevelClient, False)
      else if is_model_scoped_network_error_text err_lower then (502, LevelChannel, True)
      else if str_contains err_lower ''connection refused'' then (502, LevelChannel, True)
      else if contains_one_of err_lower
          [''no such host'', ''host unreachable'', ''network unreachable'', ''no route to host'']
        then (502, LevelChannel, True)
      else (502, LevelChannel, True))"

definition classify_error :: "go_error option \<Rightarrow> int \<times> error_level \<times> bool" where
  "classify_error err =
     (case err of
        None \<Rightarrow> (200, LevelNone, False)
      | Some e \<Rightarrow>
          if errors_is e ErrUpstreamFirstByteTimeout then
            (status_first_byte_timeout, LevelChannel, True)
          else if errors_is e ErrUpstreamStreamTimeout then
            (status_stream_incomplete, LevelChannel, True)
          else if errors_is e ErrUpstreamEmptyResponse then (502, LevelChannel, True)
          else if errors_is e ErrUpstreamInvalidResponse then (502, LevelChannel, True)
          else if errors_is e ErrUnsupportedRequestShape then (400, LevelClient, False)
          else if errors_is e ContextCanceled then (499, LevelClient, False)
          else if errors_is e ContextDeadlineExceeded then (504, LevelChannel, True)
          else if err_net_timeout e then (504, LevelChannel, True)
          else classify_error_by_string (err_text e))"

definition is_model_scoped_network_error :: "go_error option \<Rightarrow> bool" where
  "is_model_scoped_network_error err =
     (case err of
        None \<Rightarrow> False
      | Some e \<Rightarrow>
          if errors_is e ErrUpstreamStreamTimeout then True
          else if errors_is e ContextCanceled then False
          else if errors_is e ErrUpstreamFirstByteTimeout \<or> errors_is e ErrUpstreamEmptyResponse \<or>
                  errors_is e ContextDeadlineExceeded then True
          else if err_net_timeout e then True
          else is_model_scoped_network_error_text (to_lower (err_text e)))"

section \<open>Every reset time a model or a channel is given is near\<close>

definition soon :: "time \<Rightarrow> time \<Rightarrow> bool" where
  "soon now t \<longleftrightarrow> now < t \<and> t \<le> now + max_upstream_reset_duration"

lemma clamp_soon:
  assumes "zero_time \<le> now" and "now < clamp_upstream_reset_time t now"
  shows "soon now (clamp_upstream_reset_time t now)"
proof -
  have "now < t" and "\<not> is_zero t"
    using assms by (auto simp: clamp_upstream_reset_time_def is_zero_def split: if_splits)
  then show ?thesis by (simp add: soon_def clamp_upstream_reset_time_bounds)
qed

lemma clamp_soon_after:
  "zero_time \<le> now \<Longrightarrow> now < t \<Longrightarrow> soon now (clamp_upstream_reset_time t now)"
  by (simp add: soon_def clamp_upstream_reset_time_bounds is_zero_def)

lemma first_reset_value_soon:
  "zero_time \<le> now \<Longrightarrow> first_reset_value vs now = Some u \<Longrightarrow> soon now u"
  by (induction vs) (auto simp: clamp_soon_after split: option.splits if_splits)

lemma reset_of_header_soon:
  "zero_time \<le> now \<Longrightarrow> reset_of_header name hs now = Some u \<Longrightarrow> soon now u"
  by (auto simp: reset_of_header_def first_reset_value_soon split: option.splits)

lemma first_reset_header_soon:
  "zero_time \<le> now \<Longrightarrow> first_reset_header names hs now = Some u \<Longrightarrow> soon now u"
  by (induction names) (auto simp: reset_of_header_soon split: option.splits)

lemma structured_cooldown_clamped:
  "parse_structured_cooldown_until env q now = Some u \<Longrightarrow>
     \<exists>t. u = clamp_upstream_reset_time t now"
  by (auto simp: parse_structured_cooldown_until_def parse_structured_delay_def
      split: option.splits if_splits)

lemma fixed_window_soon:
  "zero_time \<le> now \<Longrightarrow> parse_global_fixed_window_quota_cooldown_until m now = Some u \<Longrightarrow> soon now u"
  by (auto simp: parse_global_fixed_window_quota_cooldown_until_def Let_def clamp_soon_after
      split: option.splits if_splits)

text \<open>What a recognised quota error can be: a model cooldown, a key, or the fixed window.\<close>

lemma structured_quota_cases:
  assumes "parse_structured_quota_cooldown env body now = Some (until, reason, level)"
  shows "reason = ''model_cooldown'' \<and> level = LevelKey \<and>
           (until = zero_time \<or> (\<exists>t. until = clamp_upstream_reset_time t now)) \<or>
         reason \<noteq> ''model_cooldown'' \<and> level = LevelKey \<or>
         reason \<noteq> ''model_cooldown'' \<and> level = LevelChannel \<and>
           (\<exists>m. parse_global_fixed_window_quota_cooldown_until m now = Some until)"
  using assms structured_cooldown_clamped
  by (auto simp: parse_structured_quota_cooldown_def Let_def
      split: if_split_asm option.split_asm)

text \<open>The consistency of a classification at the time \<open>now\<close>.\<close>

definition classification_ok :: "time \<Rightarrow> http_response_classification \<Rightarrow> bool" where
  "classification_ok now c \<longleftrightarrow>
     (rc_has_model_cooldown_until c \<longrightarrow>
        rc_model_scoped c \<and> soon now (rc_model_cooldown_until c) \<and>
        \<not> rc_has_key_cooldown_until c \<and> \<not> rc_has_channel_cooldown_until c) \<and>
     (rc_has_channel_cooldown_until c \<longrightarrow>
        rc_level c = LevelChannel \<and> \<not> rc_model_scoped c \<and> soon now (rc_channel_cooldown_until c) \<and>
        \<not> rc_has_key_cooldown_until c) \<and>
     (rc_has_key_cooldown_until c \<longrightarrow> rc_level c = LevelKey \<and> \<not> rc_model_scoped c) \<and>
     (rc_prevent_key_fallback c \<longrightarrow> rc_has_model_cooldown_until c)"

lemma classification_ok_of_level [simp]:
  "classification_ok now (of_level l)"
  "classification_ok now (scoped l)"
  "classification_ok now ((of_level l)\<lparr>rc_model_scoped := b\<rparr>)"
  by (simp_all add: classification_ok_def of_level_def scoped_def)

lemma classification_ok_key [simp]: "classification_ok now (key_until LevelKey u r)"
  by (simp add: classification_ok_def key_until_def of_level_def)

lemma classification_ok_model [simp]:
  "soon now u \<Longrightarrow> classification_ok now (model_until u r (scoped l))"
  "soon now u \<Longrightarrow>
     classification_ok now ((model_until u r (scoped l))\<lparr>rc_prevent_key_fallback := True\<rparr>)"
  by (simp_all add: classification_ok_def model_until_def scoped_def of_level_def)

lemma classification_ok_channel [simp]:
  "soon now u \<Longrightarrow> classification_ok now (channel_until LevelChannel u r)"
  by (simp add: classification_ok_def channel_until_def of_level_def)

lemma rate_limit_classification_ok:
  "zero_time \<le> now \<Longrightarrow> classification_ok now (rate_limit_classification env hs body now)"
  by (auto simp: rate_limit_classification_def Let_def parse_anthropic_rate_limit_reset_def
      parse_rate_limit_reset_headers_def reset_of_header_soon first_reset_header_soon
      split: option.split)

lemma quota_classification_ok:
  assumes "zero_time \<le> now" and "parse_structured_quota_cooldown env body now = Some q"
  shows "classification_ok now (quota_classification env status body now q)"
proof -
  obtain until reason level where q: "q = (until, reason, level)" by (cases q)
  from structured_quota_cases [OF assms(2) [unfolded q]] consider
      (m) "reason = ''model_cooldown''"
        "until = zero_time \<or> (\<exists>t. until = clamp_upstream_reset_time t now)"
    | (k) "reason \<noteq> ''model_cooldown''" "level = LevelKey"
    | (c) "reason \<noteq> ''model_cooldown''" "level = LevelChannel" "soon now until"
    using fixed_window_soon [OF assms(1)] by blast
  then show ?thesis
  proof cases
    case m
    then have "now < until \<Longrightarrow> soon now until"
      using assms(1) clamp_soon by auto
    with m(1) show ?thesis
      by (simp add: q quota_classification_def Let_def classification_ok_def of_level_def)
  qed (simp_all add: q quota_classification_def)
qed

lemma classification_ok_always:
  assumes "zero_time \<le> now"
  shows "classification_ok now (classify_http_response_with_meta_at env status hs body now)"
proof -
  have "soon now (now + websocket_connection_limit_cooldown)"
    by (simp add: soon_def websocket_connection_limit_cooldown_def max_upstream_reset_duration_def)
  then show ?thesis
    unfolding classify_http_response_with_meta_at_def Let_def
    by (simp add: rate_limit_classification_ok [OF assms] quota_classification_ok [OF assms]
        split: option.split)
qed

section \<open>Properties\<close>

text \<open>Surroundings in which no body is JSON and no text is a date, for the concrete instances.\<close>

definition silent_env :: go_env where
  "silent_env = \<lparr>env_json = (\<lambda>s. None), env_number_text = id, env_local_datetime = (\<lambda>s. None),
     env_next_local_midnight = (\<lambda>t. t + 24 * hour), env_rfc3339 = (\<lambda>s. None),
     env_is_rfc1123 = (\<lambda>s. False), env_duration = (\<lambda>s. None)\<rparr>"


lemma silent_env_parses_nothing:
  "parse_reset_time_from_1308_error silent_env body now = None"
  "is_websocket_connection_limit_error silent_env body = False"
  "parse_structured_quota_cooldown silent_env body now = None"
  "is_context_length_exceeded_error silent_env body = False"
  by (simp_all add: parse_reset_time_from_1308_error_def parse_sse_error_def silent_env_def
      is_websocket_connection_limit_error_def parse_structured_quota_cooldown_def
      parse_structured_quota_error_def is_context_length_exceeded_error_def)


text \<open>no internal status code reaches a client: the status it is shown is positive, is not one
  of the codes 596 to 599, and is the upstream's own one for every other positive code.\<close>

theorem client_status_is_public:
  "client_status_for status > 0 \<and> client_status_for status \<notin> {596, 597, 598, 599} \<and>
   client_status_for (client_status_for status) = client_status_for status \<and>
   (0 < status \<longrightarrow> status \<notin> {596, 597, 598, 599} \<longrightarrow> client_status_for status = status)"
  by (auto simp: client_status_for_def status_constants)

theorem client_status_is_public_witness: "client_status_for 418 = 418 \<and> client_status_for 596 = 429"
  using client_status_is_public [of 418] by (auto simp: client_status_for_def status_constants)

text \<open>a transport error is retried exactly when it is a fault of the channel, only the absence
  of an error is no error, and the status reported for it is one of a fixed set.  An error that
  is narrowed to the current model is such a channel fault, unless the chain says that the
  request cannot be converted or the text that the client's connection broke.\<close>

theorem transport_errors_classified:
  "(case classify_error err of (status, level, retry) \<Rightarrow>
     (retry \<longleftrightarrow> level = LevelChannel) \<and> (level = LevelNone \<longleftrightarrow> err = None) \<and> level \<noteq> LevelKey \<and>
     status \<in> {200, 400, 499, 502, 504, 598, 599}) \<and>
   (is_model_scoped_network_error err \<longrightarrow>
      \<not> errors_is (the err) ErrUnsupportedRequestShape \<longrightarrow>
      \<not> errors_is (the err) ContextCanceled \<longrightarrow>
      \<not> str_contains (to_lower (err_text (the err))) ''broken pipe'' \<longrightarrow>
      fst (snd (classify_error err)) = LevelChannel)"
  by (auto simp: classify_error_def classify_error_by_string_def is_model_scoped_network_error_def
      status_constants Let_def split: option.split)

theorem transport_errors_classified_witness:
  "classify_error (Some \<lparr>err_chain = [ContextDeadlineExceeded], err_net_timeout = True,
     err_text = ''deadline''\<rparr>) = (504, LevelChannel, True)"
proof -
  let ?e = "\<lparr>err_chain = [ContextDeadlineExceeded], err_net_timeout = True, err_text = ''deadline''\<rparr>"
  have "is_model_scoped_network_error (Some ?e)"
    by (simp add: is_model_scoped_network_error_def errors_is_def)
  then have "fst (snd (classify_error (Some ?e))) = LevelChannel"
    using transport_errors_classified [of "Some ?e"]
    by (simp add: errors_is_def to_lower_def to_lower_char_def)
  then show ?thesis by (simp add: classify_error_def errors_is_def)
qed

text \<open>the status 499 wins over everything else: a body with a quota error and its exact reset
  time is not looked at, and the model is cooled down by back-off.\<close>

theorem client_closed_ignores_quota:
  "classify_http_response_with_meta_at env 499 hs body now = scoped LevelChannel \<and>
   \<not> rc_has_key_cooldown_until (classify_http_response_with_meta_at env 499 hs body now)"
  by (simp add: classify_http_response_with_meta_at_def status_constants scoped_def of_level_def)

end
