(* ===== verification/Channel_Config.thy ===== *)
theory Channel_Config
  imports Go_Base Complex_Main
begin

text \<open>
  The channel model of \<open>internal/model/config.go\<close>: normalisation of the configured strings, the
  structured URL list and its runtime keys, model entries and the model index, the
  availability window, API keys and their model scope, and the records of the cooldown
  detection rules.  \<open>config\<close> keeps the fields the routing code reads; the other fields of the
  Go struct are only copied by it.  A \<open>float64\<close> that is only compared is a \<open>real\<close>.
\<close>

section \<open>Normalised settings\<close>

definition auth_type_api_key :: string where "auth_type_api_key = ''api_key''"
definition auth_type_codex_oauth :: string where "auth_type_codex_oauth = ''codex_oauth''"
definition auth_type_antigravity_oauth :: string where
  "auth_type_antigravity_oauth = ''antigravity_oauth''"

definition normalize_auth_type :: "string \<Rightarrow> string" where
  "normalize_auth_type value =
     (let v = trim_space (to_lower value) in
      if v = '''' \<or> v = auth_type_api_key then auth_type_api_key
      else if v = auth_type_codex_oauth then auth_type_codex_oauth
      else if v = auth_type_antigravity_oauth then auth_type_antigravity_oauth
      else '''')"

definition mode_auto :: string where "mode_auto = ''auto''"
definition mode_upstream :: string where "mode_upstream = ''upstream''"
definition mode_local :: string where "mode_local = ''local''"

definition normalize_protocol_transform_mode :: "string \<Rightarrow> string" where
  "normalize_protocol_transform_mode value =
     (let v = trim_space (to_lower value) in
      if v = '''' \<or> v = mode_auto then mode_auto
      else if v = mode_upstream then mode_upstream
      else if v = mode_local then mode_local
      else '''')"

section \<open>Upstream URLs\<close>

definition exact_upstream_url_marker :: string where "exact_upstream_url_marker = ''#''"

definition has_exact_upstream_url_marker :: "string \<Rightarrow> bool" where
  "has_exact_upstream_url_marker raw \<longleftrightarrow> suffix exact_upstream_url_marker (trim_space raw)"

definition trim_suffix :: "string \<Rightarrow> string \<Rightarrow> string" where
  "trim_suffix s suf = (if suffix suf s then take (length s - length suf) s else s)"

definition strip_exact_upstream_url_marker :: "string \<Rightarrow> string" where
  "strip_exact_upstream_url_marker raw = trim_suffix (trim_space raw) exact_upstream_url_marker"

definition supported_url_protocols :: "string list" where
  "supported_url_protocols = [''anthropic'', ''codex'', ''openai'', ''gemini'']"

record channel_url =
  cu_url :: string
  cu_exact :: bool
  cu_protocols :: "string list"

definition uses_automatic_protocol_detection :: "channel_url \<Rightarrow> bool" where
  "uses_automatic_protocol_detection u \<longleftrightarrow> cu_protocols u = []"

definition supports_protocol :: "channel_url \<Rightarrow> string \<Rightarrow> bool" where
  "supports_protocol u value =
     (if uses_automatic_protocol_detection u then True
      else to_lower (trim_space value) \<in> set (cu_protocols u))"

definition runtime_url :: "channel_url \<Rightarrow> string" where
  "runtime_url u = (if cu_exact u then cu_url u @ exact_upstream_url_marker else cu_url u)"

datatype url_error =
  UrlsEmpty
| UrlEmpty nat
| UrlHasExactMarker nat
| UnsupportedProtocol nat string
| DuplicateUrl nat nat

text \<open>The loop over \<open>entry.Protocols\<close>: \<open>selected\<close> is the set seen so far, as a list.\<close>

primrec normalize_protocols ::
    "nat \<Rightarrow> string list \<Rightarrow> string list \<Rightarrow> url_error + string list" where
  "normalize_protocols i selected [] = Inr []"
| "normalize_protocols i selected (raw # rest) =
     (let value = to_lower (trim_space raw) in
      if value \<notin> set supported_url_protocols then Inl (UnsupportedProtocol i raw)
      else if value \<in> set selected then normalize_protocols i selected rest
      else (case normalize_protocols i (value # selected) rest of
              Inl e \<Rightarrow> Inl e | Inr ps \<Rightarrow> Inr (value # ps)))"

text \<open>The loop over the entries; \<open>seen\<close> maps the runtime URLs met so far to their index.\<close>

primrec normalize_urls_from ::
    "nat \<Rightarrow> (string \<times> nat) list \<Rightarrow> channel_url list \<Rightarrow> url_error + channel_url list" where
  "normalize_urls_from i seen [] = Inr []"
| "normalize_urls_from i seen (entry # rest) =
     (let url = trim_space (cu_url entry) in
      if url = '''' then Inl (UrlEmpty i)
      else if suffix exact_upstream_url_marker url then Inl (UrlHasExactMarker i)
      else (case normalize_protocols i [] (cu_protocols entry) of
        Inl e \<Rightarrow> Inl e
      | Inr protocols \<Rightarrow>
          let entry' = entry\<lparr>cu_url := url, cu_protocols := protocols\<rparr>;
              key = runtime_url entry'
          in (case map_of seen key of
                Some previous \<Rightarrow> Inl (DuplicateUrl i previous)
              | None \<Rightarrow>
                 (case normalize_urls_from (Suc i) ((key, i) # seen) rest of
                    Inl e \<Rightarrow> Inl e | Inr us \<Rightarrow> Inr (entry' # us)))))"

definition normalize_urls :: "channel_url list \<Rightarrow> url_error + channel_url list" where
  "normalize_urls urls = (if urls = [] then Inl UrlsEmpty else normalize_urls_from 0 [] urls)"

section \<open>Model entries\<close>

record model_entry =
  me_model :: string
  me_redirect_model :: string
  me_disabled :: bool

datatype model_entry_error =
  ModelCannotBeEmpty | ModelIllegalCharacters | RedirectIllegalCharacters

definition validate_model_entry :: "model_entry \<Rightarrow> model_entry_error + model_entry" where
  "validate_model_entry e =
     (let m = trim_space (me_model e) in
      if m = '''' then Inl ModelCannotBeEmpty
      else if contains_any m (bytes [0, 13, 10]) then Inl ModelIllegalCharacters
      else let r = trim_space (me_redirect_model e) in
        if contains_any r (bytes [0, 13, 10]) then Inl RedirectIllegalCharacters
        else Inr (e\<lparr>me_model := m, me_redirect_model := r\<rparr>))"

section \<open>Cooldown detection rules\<close>

record cooldown_detection_rule =
  dr_rule_id :: string
  dr_enabled :: bool
  dr_name :: string
  dr_priority :: int
  dr_status_codes :: "int list"
  dr_message_pattern :: string
  dr_scope :: string
  dr_mode :: string
  dr_cooldown_seconds :: int
  dr_time_capture :: string
  dr_time_format :: string
  dr_time_layout :: string
  dr_timezone :: string

definition cooldown_scope_key :: string where "cooldown_scope_key = ''key''"
definition cooldown_scope_model :: string where "cooldown_scope_model = ''model''"
definition cooldown_scope_channel :: string where "cooldown_scope_channel = ''channel''"
definition cooldown_mode_fixed :: string where "cooldown_mode_fixed = ''fixed''"
definition cooldown_mode_reset_time :: string where "cooldown_mode_reset_time = ''reset_time''"
definition time_format_datetime :: string where "time_format_datetime = ''datetime''"
definition time_format_time_of_day :: string where "time_format_time_of_day = ''time_of_day''"
definition time_format_unix :: string where "time_format_unix = ''unix''"
definition time_format_unix_ms :: string where "time_format_unix_ms = ''unix_ms''"
definition time_format_duration_seconds :: string where
  "time_format_duration_seconds = ''duration_seconds''"

text \<open>\<open>*CooldownDetectionRules\<close>: \<open>None\<close> is the nil pointer.\<close>

type_synonym cooldown_detection_rules = "cooldown_detection_rule list option"

definition rules_is_empty :: "cooldown_detection_rules \<Rightarrow> bool" where
  "rules_is_empty rules = (case rules of None \<Rightarrow> True | Some rs \<Rightarrow> rs = [])"

section \<open>Body rules\<close>

record custom_body_rule =
  br_action :: string
  br_path :: string
  br_value :: string

section \<open>Channels\<close>

record config =
  cfg_id :: int
  cfg_auth_type :: string
  cfg_protocol_transform_mode :: string
  cfg_urls :: "channel_url list"
  cfg_priority :: int
  cfg_rpm_limit :: int
  cfg_max_concurrency :: int
  cfg_enabled :: bool
  cfg_model_entries :: "model_entry list"
  cfg_cooldown_until :: int
  cfg_daily_cost_limit :: real
  cfg_body_rules :: "custom_body_rule list"
  cfg_cooldown_detection_rules :: cooldown_detection_rules
  cfg_available_time_start :: string
  cfg_available_time_end :: string
  cfg_retry_other_keys_on_failure :: bool
  cfg_key_count :: int
  cfg_cooldown_fallback :: bool

definition get_auth_type :: "config \<Rightarrow> string" where
  "get_auth_type c =
     (let auth_type = normalize_auth_type (cfg_auth_type c) in
      if auth_type = '''' then auth_type_api_key else auth_type)"

definition uses_oauth :: "config \<Rightarrow> bool" where
  "uses_oauth c \<longleftrightarrow> get_auth_type c \<noteq> auth_type_api_key"

definition uses_codex_oauth :: "config \<Rightarrow> bool" where
  "uses_codex_oauth c \<longleftrightarrow> get_auth_type c = auth_type_codex_oauth"

definition uses_antigravity_oauth :: "config \<Rightarrow> bool" where
  "uses_antigravity_oauth c \<longleftrightarrow> get_auth_type c = auth_type_antigravity_oauth"

definition get_protocol_transform_mode :: "config \<Rightarrow> string" where
  "get_protocol_transform_mode c =
     (let mode = normalize_protocol_transform_mode (cfg_protocol_transform_mode c) in
      if mode = '''' then mode_auto else mode)"

definition get_models :: "config \<Rightarrow> string list" where
  "get_models c = map me_model (filter (\<lambda>e. \<not> me_disabled e) (cfg_model_entries c))"

definition get_urls :: "config \<Rightarrow> string list" where
  "get_urls c = map runtime_url (cfg_urls c)"

text \<open>The lazily built index: a later entry with the same name replaces an earlier one.\<close>

definition model_index :: "config \<Rightarrow> string \<Rightarrow> model_entry option" where
  "model_index c = map_of (rev (map (\<lambda>e. (me_model e, e))
     (filter (\<lambda>e. \<not> me_disabled e) (cfg_model_entries c))))"

definition get_redirect_model :: "config \<Rightarrow> string \<Rightarrow> string option" where
  "get_redirect_model c m =
     (case model_index c m of
        None \<Rightarrow> None
      | Some e \<Rightarrow> if me_redirect_model e \<noteq> '''' then Some (me_redirect_model e) else None)"

definition supports_model :: "config \<Rightarrow> string \<Rightarrow> bool" where
  "supports_model c m =
     (if model_index c m \<noteq> None then True else model_index c ''*'' \<noteq> None)"

definition config_is_cooling_down :: "config \<Rightarrow> time \<Rightarrow> bool" where
  "config_is_cooling_down c now \<longleftrightarrow> cfg_cooldown_until c > time_to_unix now"

subsection \<open>Availability\<close>

definition digit_value :: "char \<Rightarrow> int option" where
  "digit_value c =
     (let n = (of_char c :: nat) in if 48 \<le> n \<and> n \<le> 57 then Some (int n - 48) else None)"

text \<open>\<open>time.Parse("15:04", value)\<close> on a value of five bytes whose third is a colon.\<close>

definition parse_available_time :: "string \<Rightarrow> (int \<times> int) option" where
  "parse_available_time value =
     (case value of
        [h1, h2, colon, m1, m2] \<Rightarrow>
          if colon \<noteq> CHR '':'' then None
          else (case (digit_value h1, digit_value h2, digit_value m1, digit_value m2) of
                  (Some a, Some b, Some c, Some d) \<Rightarrow>
                     if 10 * a + b < 24 \<and> 10 * c + d < 60 then Some (10 * a + b, 10 * c + d)
                     else None
                | _ \<Rightarrow> None)
      | _ \<Rightarrow> None)"

datatype available_time_error = BothMustBeSet | InvalidStart string | InvalidEnd string

definition normalize_available_time :: "config \<Rightarrow> available_time_error + config" where
  "normalize_available_time c =
     (let start = trim_space (cfg_available_time_start c);
          end' = trim_space (cfg_available_time_end c) in
      if start = '''' \<and> end' = '''' then
        Inr (c\<lparr>cfg_available_time_start := '''', cfg_available_time_end := ''''\<rparr>)
      else if start = '''' \<or> end' = '''' then Inl BothMustBeSet
      else if parse_available_time start = None then Inl (InvalidStart start)
      else if parse_available_time end' = None then Inl (InvalidEnd end')
      else Inr (c\<lparr>cfg_available_time_start := start, cfg_available_time_end := end'\<rparr>))"

text \<open>\<open>now_minutes\<close> is \<open>t.Hour()*60 + t.Minute()\<close> of the local time \<open>t\<close>.\<close>

definition is_available_at :: "config \<Rightarrow> int \<Rightarrow> bool" where
  "is_available_at c now_minutes =
     (if cfg_available_time_start c = '''' \<and> cfg_available_time_end c = '''' then True
      else (case (parse_available_time (cfg_available_time_start c),
                  parse_available_time (cfg_available_time_end c)) of
              (Some (sh, sm), Some (eh, em)) \<Rightarrow>
                (let start_minutes = sh * 60 + sm; end_minutes = eh * 60 + em in
                 if start_minutes = end_minutes then True
                 else if start_minutes < end_minutes
                   then now_minutes \<ge> start_minutes \<and> now_minutes < end_minutes
                 else now_minutes \<ge> start_minutes \<or> now_minutes < end_minutes)
            | _ \<Rightarrow> False))"

section \<open>API keys\<close>

definition key_strategy_sequential :: string where "key_strategy_sequential = ''sequential''"
definition key_strategy_round_robin :: string where "key_strategy_round_robin = ''round_robin''"

definition is_valid_key_strategy :: "string \<Rightarrow> bool" where
  "is_valid_key_strategy s \<longleftrightarrow>
     s = '''' \<or> s = key_strategy_sequential \<or> s = key_strategy_round_robin"

record api_key =
  key_channel_id :: int
  key_idx :: int
  key_api_key :: string
  key_strategy :: string
  key_disabled :: bool
  key_allowed_models :: "string list"
  key_model_scope_empty :: bool
  key_cooldown_until :: int

definition key_is_cooling_down :: "api_key \<Rightarrow> time \<Rightarrow> bool" where
  "key_is_cooling_down k now \<longleftrightarrow> key_cooldown_until k > time_to_unix now"

definition allows_model :: "api_key \<Rightarrow> string \<Rightarrow> bool" where
  "allows_model k model_name =
     (if key_model_scope_empty k then False
      else if key_allowed_models k = [] then True
      else let normalized = trim_space model_name in
        list_ex (\<lambda>allowed. let value = trim_space allowed in
                   value = ''*'' \<or> equal_fold value normalized)
          (key_allowed_models k))"

section \<open>Normalised URL lists\<close>

definition normal_url :: "channel_url \<Rightarrow> bool" where
  "normal_url u \<longleftrightarrow>
     trimmed (cu_url u) \<and> cu_url u \<noteq> '''' \<and> \<not> suffix exact_upstream_url_marker (cu_url u) \<and>
     distinct (cu_protocols u) \<and> set (cu_protocols u) \<subseteq> set supported_url_protocols"

definition normal_urls :: "channel_url list \<Rightarrow> bool" where
  "normal_urls us \<longleftrightarrow> us \<noteq> [] \<and> list_all normal_url us \<and> distinct (map runtime_url us)"

lemma normalize_protocols_result:
  "normalize_protocols i selected ps = Inr qs \<Longrightarrow>
     distinct qs \<and> set qs \<subseteq> set supported_url_protocols \<and> set qs \<inter> set selected = {}"
proof (induction ps arbitrary: selected qs)
  case (Cons raw rest)
  define v where "v = to_lower (trim_space raw)"
  from Cons.prems have sup: "v \<in> set supported_url_protocols"
    by (simp add: Let_def v_def split: if_splits)
  show ?case
  proof (cases "v \<in> set selected")
    case True
    with Cons.prems sup have "normalize_protocols i selected rest = Inr qs"
      by (simp add: Let_def v_def [symmetric])
    then show ?thesis by (rule Cons.IH)
  next
    case False
    with Cons.prems sup obtain ps where ps: "normalize_protocols i (v # selected) rest = Inr ps"
        and qs: "qs = v # ps"
      by (auto simp: Let_def v_def [symmetric] split: sum.splits)
    from Cons.IH [OF ps] False sup show ?thesis by (simp add: qs)
  qed
qed simp

lemma supported_protocol_normal:
  assumes "p \<in> set supported_url_protocols"
  shows "to_lower (trim_space p) = p"
proof -
  have "list_all (\<lambda>p. p \<noteq> [] \<and> plain_char (hd p) \<and> plain_char (last p) \<and> to_lower p = p)
      supported_url_protocols" by code_simp
  with assms show ?thesis by (simp add: list_all_iff trim_space_plain)
qed

lemma normalize_protocols_normal:
  assumes "distinct ps" and "set ps \<subseteq> set supported_url_protocols"
    and "set ps \<inter> set selected = {}"
  shows "normalize_protocols i selected ps = Inr ps"
  using assms
proof (induction ps arbitrary: selected)
  case (Cons raw rest)
  then show ?case by (auto simp: Let_def supported_protocol_normal)
qed simp

lemma normalize_urls_from_ConsE:
  assumes "normalize_urls_from i seen (entry # rest) = Inr vs"
  obtains ps us where "normalize_protocols i [] (cu_protocols entry) = Inr ps"
    and "trim_space (cu_url entry) \<noteq> []"
    and "\<not> suffix exact_upstream_url_marker (trim_space (cu_url entry))"
    and "runtime_url (entry\<lparr>cu_url := trim_space (cu_url entry), cu_protocols := ps\<rparr>)
           \<notin> fst ` set seen"
    and "normalize_urls_from (Suc i)
           ((runtime_url (entry\<lparr>cu_url := trim_space (cu_url entry), cu_protocols := ps\<rparr>), i) # seen)
           rest = Inr us"
    and "vs = entry\<lparr>cu_url := trim_space (cu_url entry), cu_protocols := ps\<rparr> # us"
  using assms
  by (simp add: Let_def map_of_eq_None_iff split: if_splits sum.splits option.splits)

lemma normalize_urls_from_result:
  "normalize_urls_from i seen us = Inr vs \<Longrightarrow>
     length vs = length us \<and> list_all normal_url vs \<and> distinct (map runtime_url vs) \<and>
     set (map runtime_url vs) \<inter> fst ` set seen = {}"
proof (induction us arbitrary: i seen vs)
  case (Cons entry rest)
  from Cons.prems show ?case
  proof (rule normalize_urls_from_ConsE)
    fix ps us
    let ?e = "entry\<lparr>cu_url := trim_space (cu_url entry), cu_protocols := ps\<rparr>"
    assume ps: "normalize_protocols i [] (cu_protocols entry) = Inr ps"
      and url: "trim_space (cu_url entry) \<noteq> []"
        "\<not> suffix exact_upstream_url_marker (trim_space (cu_url entry))"
      and new: "runtime_url ?e \<notin> fst ` set seen"
      and rest: "normalize_urls_from (Suc i) ((runtime_url ?e, i) # seen) rest = Inr us"
      and vs: "vs = ?e # us"
    have "normal_url ?e"
      using normalize_protocols_result [OF ps] url by (simp add: normal_url_def)
    with Cons.IH [OF rest] new show ?thesis by (simp add: vs)
  qed
qed simp

lemma normalize_urls_normal: "normalize_urls us = Inr vs \<Longrightarrow> normal_urls vs"
  using normalize_urls_from_result [of 0 "[]" us vs]
  by (auto simp: normalize_urls_def normal_urls_def split: if_splits)

lemma normalize_urls_from_normal:
  assumes "list_all normal_url us" and "distinct (map runtime_url us)"
    and "set (map runtime_url us) \<inter> fst ` set seen = {}"
  shows "normalize_urls_from i seen us = Inr us"
  using assms
proof (induction us arbitrary: i seen)
  case (Cons entry rest)
  then have n: "normal_url entry" by simp
  then have t: "trim_space (cu_url entry) = cu_url entry"
    and p: "normalize_protocols i [] (cu_protocols entry) = Inr (cu_protocols entry)"
    by (simp_all add: normal_url_def normalize_protocols_normal)
  have e: "entry\<lparr>cu_url := cu_url entry, cu_protocols := cu_protocols entry\<rparr> = entry" by simp
  have m: "map_of seen (runtime_url entry) = None"
    using Cons.prems by (auto simp: map_of_eq_None_iff)
  have "normalize_urls_from (Suc i) ((runtime_url entry, i) # seen) rest = Inr rest"
    using Cons.prems by (intro Cons.IH) auto
  with n m show ?case by (simp add: Let_def t p e normal_url_def)
qed simp

lemma normalize_urls_fixed: "normal_urls us \<Longrightarrow> normalize_urls us = Inr us"
  by (simp add: normal_urls_def normalize_urls_def normalize_urls_from_normal)

lemma marker_no_space: "\<forall>w \<in> set spaces. CHR ''#'' \<notin> set w"
proof -
  have "plain_char CHR ''#''" by (simp add: plain_char_def)
  then show ?thesis using spaces_not_plain by blast
qed

lemma trimmed_runtime_url: "normal_url u \<Longrightarrow> trimmed (runtime_url u)"
  using trimmed_append_char [OF _ _ marker_no_space, of "cu_url u"]
  by (auto simp: normal_url_def runtime_url_def exact_upstream_url_marker_def)

lemma runtime_url_decodes:
  assumes "normal_url u"
  shows "has_exact_upstream_url_marker (runtime_url u) = cu_exact u"
    and "strip_exact_upstream_url_marker (runtime_url u) = cu_url u"
proof -
  have t: "trim_space (runtime_url u) = runtime_url u"
    by (simp add: trimmed_runtime_url [OF assms])
  have n: "\<not> suffix exact_upstream_url_marker (cu_url u)" "trim_space (cu_url u) = cu_url u"
    using assms by (simp_all add: normal_url_def)
  show "has_exact_upstream_url_marker (runtime_url u) = cu_exact u"
    using n by (simp add: has_exact_upstream_url_marker_def t)
      (simp add: runtime_url_def suffix_def)
  show "strip_exact_upstream_url_marker (runtime_url u) = cu_url u"
    using n by (simp add: strip_exact_upstream_url_marker_def t)
      (simp add: runtime_url_def trim_suffix_def suffix_def)
qed

section \<open>The availability window\<close>

lemma digit_value_range: "digit_value c = Some d \<Longrightarrow> 0 \<le> d \<and> d \<le> 9"
  by (auto simp: digit_value_def Let_def split: if_splits)

lemma parse_available_time_cases:
  assumes "parse_available_time v = Some (h, m)"
  obtains h1 h2 m1 m2 a b c d where "v = [h1, h2, CHR '':'', m1, m2]"
    and "digit_value h1 = Some a" "digit_value h2 = Some b"
    and "digit_value m1 = Some c" "digit_value m2 = Some d"
    and "h = 10 * a + b" "m = 10 * c + d" "h < 24" "m < 60"
  using assms unfolding parse_available_time_def
  by (elim option.discI | auto split: list.split_asm if_split_asm option.split_asm)

lemma parse_available_time_range:
  "parse_available_time v = Some (h, m) \<Longrightarrow> 0 \<le> h \<and> h < 24 \<and> 0 \<le> m \<and> m < 60"
  by (elim parse_available_time_cases) (auto dest!: digit_value_range)

definition window_minutes :: "string \<Rightarrow> int" where
  "window_minutes v = (case parse_available_time v of None \<Rightarrow> 0 | Some (h, m) \<Rightarrow> h * 60 + m)"

lemma is_available_at_window:
  assumes "parse_available_time (cfg_available_time_start c) \<noteq> None"
    and "parse_available_time (cfg_available_time_end c) \<noteq> None"
  shows "is_available_at c t \<longleftrightarrow>
    (let a = window_minutes (cfg_available_time_start c);
         b = window_minutes (cfg_available_time_end c)
     in a = b \<or> (if a < b then a \<le> t \<and> t < b else a \<le> t \<or> t < b))"
proof -
  have "cfg_available_time_start c \<noteq> ''''"
    using assms(1) by (auto simp: parse_available_time_def)
  moreover obtain h m h' m' where
      "parse_available_time (cfg_available_time_start c) = Some (h, m)"
      "parse_available_time (cfg_available_time_end c) = Some (h', m')"
    using assms by (metis not_None_eq surj_pair)
  ultimately show ?thesis by (simp add: is_available_at_def window_minutes_def Let_def)
qed

lemma normalize_available_time_parses:
  assumes "normalize_available_time c = Inr c'"
  shows "cfg_available_time_start c' = '''' \<and> cfg_available_time_end c' = '''' \<or>
    parse_available_time (cfg_available_time_start c') \<noteq> None \<and>
    parse_available_time (cfg_available_time_end c') \<noteq> None"
  using assms by (auto simp: normalize_available_time_def Let_def split: if_splits)

section \<open>Properties\<close>

text \<open>normalising the addresses of a channel is stable: what it returns is accepted unchanged
  when it is normalised again, no two entries stand for the same runtime address, and every
  address is decoded from the runtime form the selectors pass around (the marker of an exact
  address on or off).\<close>

theorem normalized_urls_stable:
  assumes "normalize_urls us = Inr vs"
  shows "normalize_urls vs = Inr vs \<and> distinct (map runtime_url vs) \<and> vs \<noteq> [] \<and>
    (\<forall>u \<in> set vs. has_exact_upstream_url_marker (runtime_url u) = cu_exact u \<and>
       strip_exact_upstream_url_marker (runtime_url u) = cu_url u)"
proof -
  have "normal_urls vs" by (rule normalize_urls_normal [OF assms])
  moreover from this have "\<forall>u \<in> set vs. normal_url u" by (simp add: normal_urls_def list_all_iff)
  ultimately show ?thesis
    using normalize_urls_fixed runtime_url_decodes by (auto simp: normal_urls_def)
qed

definition example_url :: channel_url where
  "example_url = \<lparr>cu_url = ''https://a.io'', cu_exact = True, cu_protocols = [''openai'']\<rparr>"

theorem normalized_urls_stable_witness:
  "normalize_urls [example_url] = Inr [example_url] \<and>
   strip_exact_upstream_url_marker (runtime_url example_url) = ''https://a.io''"
proof -
  have "plain_word ''https://a.io''" by (simp add: plain_word_def plain_char_def)
  then have "trimmed ''https://a.io''"
    by (auto simp: plain_word_def list_all_iff intro!: trimmed_plain)
  then have "normal_urls [example_url]"
    by (simp add: normal_urls_def normal_url_def example_url_def supported_url_protocols_def
        exact_upstream_url_marker_def suffix_def)
  then have n: "normalize_urls [example_url] = Inr [example_url]" by (rule normalize_urls_fixed)
  show ?thesis using normalized_urls_stable [OF n] n by (simp add: example_url_def)
qed

text \<open>the availability window of a channel is half open, may wrap around midnight, and the
  channel is always available when both ends are equal; a window that was stored by the
  normalisation always parses, so a stored channel never loses its availability to a bad text.\<close>

theorem stored_window_decides:
  assumes "normalize_available_time c = Inr c'"
  shows "is_available_at c' t \<longleftrightarrow>
    cfg_available_time_start c' = [] \<or>
    (let a = window_minutes (cfg_available_time_start c');
         b = window_minutes (cfg_available_time_end c')
     in a = b \<or> (if a < b then a \<le> t \<and> t < b else a \<le> t \<or> t < b))"
proof (cases "cfg_available_time_start c' = []")
  case True
  then have "cfg_available_time_end c' = []"
    using normalize_available_time_parses [OF assms] by (auto simp: parse_available_time_def)
  with True show ?thesis by (simp add: is_available_at_def)
next
  case False
  then show ?thesis
    using normalize_available_time_parses [OF assms] is_available_at_window by auto
qed

definition example_config :: config where
  "example_config = \<lparr>cfg_id = 7, cfg_auth_type = [], cfg_protocol_transform_mode = [],
     cfg_urls = [example_url], cfg_priority = 0, cfg_rpm_limit = 0, cfg_max_concurrency = 0,
     cfg_enabled = True,
     cfg_model_entries = [\<lparr>me_model = ''gpt'', me_redirect_model = [], me_disabled = False\<rparr>],
     cfg_cooldown_until = 0, cfg_daily_cost_limit = 0, cfg_body_rules = [],
     cfg_cooldown_detection_rules = None, cfg_available_time_start = ''22:30'',
     cfg_available_time_end = ''06:00'', cfg_retry_other_keys_on_failure = False,
     cfg_key_count = 1, cfg_cooldown_fallback = False\<rparr>"

theorem stored_window_decides_witness:
  "normalize_available_time example_config = Inr example_config \<and>
   is_available_at example_config 1380 \<and> \<not> is_available_at example_config 720"
proof -
  have t: "trim_space ''22:30'' = ''22:30''" "trim_space ''06:00'' = ''06:00''"
    by (simp_all add: trim_space_word plain_word_def plain_char_def)
  have p: "parse_available_time ''22:30'' = Some (22, 30)" "parse_available_time ''06:00'' = Some (6, 0)"
    by (simp_all add: parse_available_time_def digit_value_def)
  have n: "normalize_available_time example_config = Inr example_config"
    by (simp add: normalize_available_time_def example_config_def t p Let_def)
  show ?thesis
    using n stored_window_decides [OF n, of 1380] stored_window_decides [OF n, of 720]
    by (simp add: example_config_def window_minutes_def p)
qed

end
