(* ===== verification/Cooldown_Detection.thy ===== *)
theory Cooldown_Detection
  imports Status_Classifier Channel_Config
begin

text \<open>
  The cooldown rules an operator configures per channel, \<open>internal/cooldown/detection.go\<close>:
  their normalisation, the compiled form, the evaluation of a response against them in
  priority order, and the process-wide cache of compiled rule sets.

  \<open>detect_env\<close> holds what the code takes from Go's libraries for arbitrary user input:
  \<open>regexp.Compile\<close> (a \<open>pattern\<close> is its capture names and its search function),
  \<open>time.LoadLocation\<close> (a \<open>location\<close> converts between instants and local days and clocks and
  parses a text by a layout), and \<open>json.Marshal\<close> of a rule set.
\<close>

section \<open>Patterns and locations\<close>

record pattern =
  pat_names :: "string list"
  pat_find :: "string \<Rightarrow> string list option"

record location =
  loc_day :: "time \<Rightarrow> int"
  loc_clock :: "time \<Rightarrow> duration"
  loc_instant :: "int \<Rightarrow> duration \<Rightarrow> time"
  loc_parse :: "string \<Rightarrow> string \<Rightarrow> time option"

record detect_env =
  de_go :: go_env
  de_compile :: "string \<Rightarrow> pattern option"
  de_location :: "string \<Rightarrow> location option"
  de_marshal :: "cooldown_detection_rule list \<Rightarrow> string option"

definition max_detection_rules :: nat where "max_detection_rules = 32"
definition max_detection_rule_name_size :: nat where "max_detection_rule_name_size = 128"
definition max_detection_pattern_size :: nat where "max_detection_pattern_size = 1024"
definition max_detection_time_field :: nat where "max_detection_time_field = 128"
definition max_detection_duration :: duration where "max_detection_duration = 366 * 24 * hour"
definition max_detection_cache_entries :: nat where "max_detection_cache_entries = 128"
definition max_detection_cache_key_size :: nat where "max_detection_cache_key_size = 64 * 1024"

record compiled_rule =
  cr_rule :: cooldown_detection_rule
  cr_pattern :: "pattern option"
  cr_location :: "location option"

datatype detection_error =
  TooManyRules | DuplicateRuleId | NegativePriority | DuplicatePriority
| NameRequired | NameTooLong | MatchConditionRequired | StatusCodeOutOfRange | DuplicateStatusCode
| InvalidScope | InvalidMode | PatternTooLong | InvalidRegex | InvalidCaptureName
| DuplicateCaptureName | CooldownSecondsNotPositive | CooldownSecondsTooLarge | PatternRequired
| TimeCaptureNotNamed | TimeCaptureMissing | TimeLayoutInvalid | TimezoneInvalid
| TimeFormatInvalid

section \<open>Normalising a rule\<close>

definition duration_exceeds_max :: "int \<Rightarrow> bool" where
  "duration_exceeds_max seconds \<longleftrightarrow> seconds > go_div max_detection_duration second"

definition is_letter_or_underscore :: "char \<Rightarrow> bool" where
  "is_letter_or_underscore c \<longleftrightarrow>
     c = CHR ''_'' \<or> (let n = (of_char (to_upper_char c) :: nat) in 65 \<le> n \<and> n \<le> 90)"

definition is_valid_capture_name :: "string \<Rightarrow> bool" where
  "is_valid_capture_name name \<longleftrightarrow>
     (case name of
        [] \<Rightarrow> False
      | c # cs \<Rightarrow> is_letter_or_underscore c \<and>
                  list_all (\<lambda>c. is_letter_or_underscore c \<or> is_digit c) cs)"

primrec validate_capture_names :: "string list \<Rightarrow> string list \<Rightarrow> detection_error option" where
  "validate_capture_names seen [] = None"
| "validate_capture_names seen (name # names) =
     (if name = '''' then validate_capture_names seen names
      else if \<not> is_valid_capture_name name then Some InvalidCaptureName
      else if name \<in> set seen then Some DuplicateCaptureName
      else validate_capture_names (name # seen) names)"

primrec validate_status_codes :: "int list \<Rightarrow> int list \<Rightarrow> detection_error option" where
  "validate_status_codes seen [] = None"
| "validate_status_codes seen (code # codes) =
     (if code < 100 \<or> code > 599 then Some StatusCodeOutOfRange
      else if code \<in> set seen then Some DuplicateStatusCode
      else validate_status_codes (code # seen) codes)"

definition trim_rule :: "cooldown_detection_rule \<Rightarrow> cooldown_detection_rule" where
  "trim_rule r = r\<lparr>dr_name := trim_space (dr_name r),
     dr_message_pattern := trim_space (dr_message_pattern r),
     dr_scope := to_lower (trim_space (dr_scope r)),
     dr_mode := to_lower (trim_space (dr_mode r)),
     dr_time_format := to_lower (trim_space (dr_time_format r))\<rparr>"

text \<open>The checks up to the mode, in the order of the code.\<close>

definition check_rule_fields :: "cooldown_detection_rule \<Rightarrow> detection_error option" where
  "check_rule_fields r =
     (if dr_name r = '''' then Some NameRequired
      else if length (dr_name r) > max_detection_rule_name_size then Some NameTooLong
      else if dr_status_codes r = [] \<and> dr_message_pattern r = '''' then Some MatchConditionRequired
      else case validate_status_codes [] (dr_status_codes r) of
        Some e \<Rightarrow> Some e
      | None \<Rightarrow>
          if dr_scope r \<notin> {cooldown_scope_key, cooldown_scope_model, cooldown_scope_channel}
            then Some InvalidScope
          else if dr_mode r \<notin> {cooldown_mode_fixed, cooldown_mode_reset_time} then Some InvalidMode
          else None)"

definition compile_pattern ::
    "detect_env \<Rightarrow> string \<Rightarrow> detection_error + pattern option" where
  "compile_pattern env p =
     (if p = '''' then Inr None
      else if length p > max_detection_pattern_size then Inl PatternTooLong
      else case de_compile env p of
        None \<Rightarrow> Inl InvalidRegex
      | Some pat \<Rightarrow>
         (case validate_capture_names [] (pat_names pat) of
            Some e \<Rightarrow> Inl e | None \<Rightarrow> Inr (Some pat)))"

definition normalize_fixed_mode ::
    "cooldown_detection_rule \<Rightarrow> pattern option \<Rightarrow> detection_error + compiled_rule" where
  "normalize_fixed_mode r pat =
     (if dr_cooldown_seconds r \<le> 0 then Inl CooldownSecondsNotPositive
      else if duration_exceeds_max (dr_cooldown_seconds r) then Inl CooldownSecondsTooLarge
      else Inr \<lparr>cr_rule = r\<lparr>dr_time_capture := '''', dr_time_format := '''', dr_time_layout := '''',
                             dr_timezone := ''''\<rparr>,
                cr_pattern = pat, cr_location = None\<rparr>)"

definition prepare_reset_time :: "cooldown_detection_rule \<Rightarrow> cooldown_detection_rule" where
  "prepare_reset_time r = r\<lparr>dr_time_capture := trim_space (dr_time_capture r),
     dr_time_layout := trim_space (dr_time_layout r), dr_timezone := trim_space (dr_timezone r),
     dr_time_format := (if dr_time_format r = '''' then time_format_datetime else dr_time_format r)\<rparr>"

definition local_time_format :: "string \<Rightarrow> bool" where
  "local_time_format f \<longleftrightarrow> f = time_format_datetime \<or> f = time_format_time_of_day"

definition absolute_time_format :: "string \<Rightarrow> bool" where
  "absolute_time_format f \<longleftrightarrow>
     f = time_format_unix \<or> f = time_format_unix_ms \<or> f = time_format_duration_seconds"

definition normalize_reset_time_mode ::
    "detect_env \<Rightarrow> cooldown_detection_rule \<Rightarrow> pattern option \<Rightarrow> detection_error + compiled_rule"
where
  "normalize_reset_time_mode env rule pat =
     (case pat of
        None \<Rightarrow> Inl PatternRequired
      | Some p \<Rightarrow>
          let r = prepare_reset_time rule in
          if \<not> is_valid_capture_name (dr_time_capture r) then Inl TimeCaptureNotNamed
          else if dr_time_capture r \<notin> set (pat_names p) then Inl TimeCaptureMissing
          else if local_time_format (dr_time_format r) then
            (if dr_time_layout r = '''' \<or> length (dr_time_layout r) > max_detection_time_field
               then Inl TimeLayoutInvalid
             else if dr_timezone r = '''' \<or> length (dr_timezone r) > max_detection_time_field
               then Inl TimezoneInvalid
             else case de_location env (dr_timezone r) of
               None \<Rightarrow> Inl TimezoneInvalid
             | Some l \<Rightarrow> Inr \<lparr>cr_rule = r\<lparr>dr_cooldown_seconds := 0\<rparr>, cr_pattern = Some p,
                              cr_location = Some l\<rparr>)
          else if absolute_time_format (dr_time_format r) then
            Inr \<lparr>cr_rule = r\<lparr>dr_time_layout := '''', dr_timezone := '''', dr_cooldown_seconds := 0\<rparr>,
                 cr_pattern = Some p, cr_location = None\<rparr>
          else Inl TimeFormatInvalid)"

definition normalize_detection_rule ::
    "detect_env \<Rightarrow> cooldown_detection_rule \<Rightarrow> detection_error + compiled_rule" where
  "normalize_detection_rule env rule =
     (let r = trim_rule rule in
      case check_rule_fields r of
        Some e \<Rightarrow> Inl e
      | None \<Rightarrow>
          let r = r\<lparr>dr_status_codes := sort (dr_status_codes r)\<rparr>
          in (case compile_pattern env (dr_message_pattern r) of
                Inl e \<Rightarrow> Inl e
              | Inr pat \<Rightarrow>
                  if dr_mode r = cooldown_mode_fixed then normalize_fixed_mode r pat
                  else normalize_reset_time_mode env r pat))"

section \<open>Normalising a rule set\<close>

text \<open>The loop over the rules; \<open>gen\<close> is the identifier the generator draws at an index.\<close>

primrec normalize_detection_rules_from ::
    "detect_env \<Rightarrow> (nat \<Rightarrow> string) \<Rightarrow> nat \<Rightarrow> string list \<Rightarrow> int list \<Rightarrow> cooldown_detection_rule list
       \<Rightarrow> (nat \<times> detection_error) + cooldown_detection_rule list" where
  "normalize_detection_rules_from env gen i ids priorities [] = Inr []"
| "normalize_detection_rules_from env gen i ids priorities (rule # rules) =
     (let rid = (if dr_rule_id rule = '''' then gen i else dr_rule_id rule) in
      if rid \<in> set ids then Inl (i, DuplicateRuleId)
      else if dr_priority rule < 0 then Inl (i, NegativePriority)
      else if dr_priority rule \<in> set priorities then Inl (i, DuplicatePriority)
      else case normalize_detection_rule env (rule\<lparr>dr_rule_id := rid\<rparr>) of
        Inl e \<Rightarrow> Inl (i, e)
      | Inr compiled \<Rightarrow>
         (case normalize_detection_rules_from env gen (Suc i) (rid # ids)
                 (dr_priority rule # priorities) rules of
            Inl e \<Rightarrow> Inl e | Inr rs \<Rightarrow> Inr (cr_rule compiled # rs)))"

definition renumber :: "cooldown_detection_rule list \<Rightarrow> cooldown_detection_rule list" where
  "renumber rs = map (\<lambda>(i, r). r\<lparr>dr_priority := int i\<rparr>) (enumerate 0 rs)"

definition normalize_detection_rules ::
    "detect_env \<Rightarrow> (nat \<Rightarrow> string) \<Rightarrow> cooldown_detection_rules
       \<Rightarrow> (nat \<times> detection_error) + cooldown_detection_rules" where
  "normalize_detection_rules env gen rules =
     (case rules of
        None \<Rightarrow> Inr None
      | Some rs \<Rightarrow>
          if rs = [] then Inr rules
          else if length rs > max_detection_rules then Inl (0, TooManyRules)
          else case normalize_detection_rules_from env gen 0 [] [] rs of
            Inl e \<Rightarrow> Inl e
          | Inr rs' \<Rightarrow> Inr (Some (renumber (sort_key dr_priority rs'))))"

section \<open>Matching\<close>

text \<open>\<open>sort.Search\<close> on the half-open range \<open>[i, j)\<close>.\<close>

function search_ints_from :: "int list \<Rightarrow> int \<Rightarrow> nat \<Rightarrow> nat \<Rightarrow> nat" where
  "search_ints_from a x i j =
     (if i < j then
        let h = (i + j) div 2
        in if \<not> a ! h \<ge> x then search_ints_from a x (h + 1) j else search_ints_from a x i h
      else i)"
  by pat_completeness auto
termination
  by (relation "measure (\<lambda>(a, x, i, j). j - i)") auto

declare search_ints_from.simps [simp del]

definition contains_status_code :: "int list \<Rightarrow> int \<Rightarrow> bool" where
  "contains_status_code codes target =
     (let index = search_ints_from codes target 0 (length codes)
      in index < length codes \<and> codes ! index = target)"

definition rule_matches :: "compiled_rule \<Rightarrow> int \<Rightarrow> string \<Rightarrow> bool" where
  "rule_matches c status message =
     (if dr_status_codes (cr_rule c) \<noteq> [] \<and> \<not> contains_status_code (dr_status_codes (cr_rule c)) status
      then False
      else case cr_pattern c of None \<Rightarrow> True | Some p \<Rightarrow> pat_find p message \<noteq> None)"

definition rule_captures :: "compiled_rule \<Rightarrow> string \<Rightarrow> string \<Rightarrow> string option" where
  "rule_captures c message =
     (case cr_pattern c of
        None \<Rightarrow> Map.empty
      | Some p \<Rightarrow>
         (case pat_find p message of
            None \<Rightarrow> Map.empty
          | Some values \<Rightarrow>
              map_of (rev (filter (\<lambda>nv. fst nv \<noteq> '''') (zip (tl (pat_names p)) (tl values))))))"

section \<open>Evaluating a rule set\<close>

datatype fallback_reason = ResetTimeParseFailed | ResetTimeNotFuture | ResetTimeTooFar

definition unix_milli_to_time :: "int \<Rightarrow> time" where
  "unix_milli_to_time ms = ms * millisecond"

definition next_clock :: "location \<Rightarrow> duration \<Rightarrow> time \<Rightarrow> time" where
  "next_clock l clock now =
     (let until = loc_instant l (loc_day l now) clock in
      if \<not> until > now then loc_instant l (loc_day l until + 1) (loc_clock l until) else until)"

definition parse_captured_reset_time ::
    "compiled_rule \<Rightarrow> string \<Rightarrow> time \<Rightarrow> fallback_reason + time" where
  "parse_captured_reset_time c capture now =
     (let capture = trim_space capture; fmt = dr_time_format (cr_rule c);
          parse = (case cr_location c of
                     None \<Rightarrow> None
                   | Some l \<Rightarrow> map_option (\<lambda>t. (l, t)) (loc_parse l (dr_time_layout (cr_rule c)) capture))
      in if fmt = time_format_datetime then
           (case parse of None \<Rightarrow> Inl ResetTimeParseFailed | Some (l, until) \<Rightarrow> Inr until)
         else if fmt = time_format_time_of_day then
           (case parse of
              None \<Rightarrow> Inl ResetTimeParseFailed
            | Some (l, clock) \<Rightarrow> Inr (next_clock l (loc_clock l clock) now))
         else if fmt = time_format_unix then
           (case parse_int capture of
              None \<Rightarrow> Inl ResetTimeParseFailed | Some s \<Rightarrow> Inr (unix_to_time s))
         else if fmt = time_format_unix_ms then
           (case parse_int capture of
              None \<Rightarrow> Inl ResetTimeParseFailed | Some ms \<Rightarrow> Inr (unix_milli_to_time ms))
         else if fmt = time_format_duration_seconds then
           (case parse_int capture of
              None \<Rightarrow> Inl ResetTimeParseFailed
            | Some seconds \<Rightarrow>
                if seconds \<le> 0 then Inl ResetTimeNotFuture
                else if duration_exceeds_max seconds then Inl ResetTimeTooFar
                else Inr (now + wrap64 (seconds * second)))
         else Inl ResetTimeParseFailed)"

record detection_evaluation =
  ev_code :: string
  ev_message :: string
  ev_matched :: bool
  ev_actionable :: bool
  ev_rule_id :: string
  ev_priority :: int
  ev_scope :: string
  ev_mode :: string
  ev_cooldown_until :: time
  ev_captures :: "string \<Rightarrow> string option"
  ev_fallback_reason :: "fallback_reason option"

definition no_match :: "string \<Rightarrow> string \<Rightarrow> detection_evaluation" where
  "no_match code message =
     \<lparr>ev_code = code, ev_message = message, ev_matched = False, ev_actionable = False,
      ev_rule_id = [], ev_priority = 0, ev_scope = [], ev_mode = [], ev_cooldown_until = zero_time,
      ev_captures = Map.empty, ev_fallback_reason = None\<rparr>"

text \<open>The body of the loop for the rule that matches.\<close>

definition evaluate_rule ::
    "detection_evaluation \<Rightarrow> compiled_rule \<Rightarrow> string \<Rightarrow> time \<Rightarrow> detection_evaluation" where
  "evaluate_rule e c message now =
     (let r = cr_rule c;
          captures = rule_captures c message;
          e = e\<lparr>ev_matched := True, ev_rule_id := dr_rule_id r, ev_priority := dr_priority r,
                ev_scope := dr_scope r, ev_mode := dr_mode r, ev_captures := captures\<rparr>
      in if dr_mode r = cooldown_mode_fixed then
           e\<lparr>ev_actionable := True,
             ev_cooldown_until := now + wrap64 (dr_cooldown_seconds r * second)\<rparr>
         else
           (case parse_captured_reset_time c
                   (case captures (dr_time_capture r) of None \<Rightarrow> [] | Some s \<Rightarrow> s) now of
              Inl reason \<Rightarrow> e\<lparr>ev_fallback_reason := Some reason\<rparr>
            | Inr until \<Rightarrow>
                if \<not> until > now then e\<lparr>ev_fallback_reason := Some ResetTimeNotFuture\<rparr>
                else if time_sub until now > max_detection_duration
                  then e\<lparr>ev_fallback_reason := Some ResetTimeTooFar\<rparr>
                else e\<lparr>ev_actionable := True, ev_cooldown_until := until\<rparr>))"

primrec evaluate_compiled ::
    "detection_evaluation \<Rightarrow> compiled_rule list \<Rightarrow> int \<Rightarrow> string \<Rightarrow> time \<Rightarrow> detection_evaluation" where
  "evaluate_compiled e [] status message now = e"
| "evaluate_compiled e (c # cs) status message now =
     (if dr_enabled (cr_rule c) \<and> rule_matches c status message
      then evaluate_rule e c message now
      else evaluate_compiled e cs status message now)"

section \<open>Compiling a rule set, with and without the cache\<close>

primrec compile_all ::
    "detect_env \<Rightarrow> cooldown_detection_rule list \<Rightarrow> compiled_rule list option" where
  "compile_all env [] = Some []"
| "compile_all env (r # rs) =
     (case normalize_detection_rule env r of
        Inl e \<Rightarrow> None
      | Inr c \<Rightarrow> (case compile_all env rs of None \<Rightarrow> None | Some cs \<Rightarrow> Some (c # cs)))"

definition compile_uncached ::
    "detect_env \<Rightarrow> cooldown_detection_rule list \<Rightarrow> compiled_rule list option" where
  "compile_uncached env rules = compile_all env (sort_key dr_priority rules)"

definition cache_key :: "detect_env \<Rightarrow> cooldown_detection_rule list \<Rightarrow> string" where
  "cache_key env rules =
     (case de_marshal env rules of
        None \<Rightarrow> []
      | Some encoded \<Rightarrow> if length encoded > max_detection_cache_key_size then [] else encoded)"

text \<open>The cache is the list of its entries, every key once.\<close>

type_synonym rule_cache = "(string \<times> compiled_rule list) list"

definition compile_detection_rules ::
    "detect_env \<Rightarrow> rule_cache \<Rightarrow> cooldown_detection_rule list
       \<Rightarrow> compiled_rule list option \<times> rule_cache" where
  "compile_detection_rules env cache rules =
     (let key = cache_key env rules in
      case (if key \<noteq> '''' then map_of cache key else None) of
        Some cached \<Rightarrow> (Some cached, cache)
      | None \<Rightarrow>
         (case compile_uncached env rules of
            None \<Rightarrow> (None, cache)
          | Some compiled \<Rightarrow>
              if key = '''' then (Some compiled, cache)
              else let cache = (if length cache \<ge> max_detection_cache_entries then [] else cache)
                   in (Some compiled, (key, compiled) # cache)))"

definition evaluate_detection_rules ::
    "detect_env \<Rightarrow> rule_cache \<Rightarrow> cooldown_detection_rules \<Rightarrow> int \<Rightarrow> string \<Rightarrow> time
       \<Rightarrow> detection_evaluation \<times> rule_cache" where
  "evaluate_detection_rules env cache rules status body now =
     (case extract_upstream_error_code_and_message (de_go env) body of
        (code, message) \<Rightarrow>
          let e = no_match code message in
          if rules_is_empty rules then (e, cache)
          else (case compile_detection_rules env cache (the rules) of
                  (None, cache') \<Rightarrow> (e, cache')
                | (Some cs, cache') \<Rightarrow> (evaluate_compiled e cs status message now, cache')))"

section \<open>Binary search\<close>

lemma search_ints_from_spec:
  assumes "sorted a" and "i \<le> j" and "j \<le> length a"
    and "\<forall>k < i. a ! k < x" and "\<forall>k. j \<le> k \<and> k < length a \<longrightarrow> x \<le> a ! k"
  shows "let n = search_ints_from a x i j in
    n \<le> length a \<and> (\<forall>k < n. a ! k < x) \<and> (\<forall>k. n \<le> k \<and> k < length a \<longrightarrow> x \<le> a ! k)"
  using assms
proof (induction a x i j rule: search_ints_from.induct)
  case (1 a x i j)
  let ?h = "(i + j) div 2"
  show ?case
  proof (cases "i < j")
    case True
    then have h: "i \<le> ?h" "?h < j" "?h < length a" using "1.prems" by auto
    show ?thesis
    proof (cases "a ! ?h \<ge> x")
      case ge: True
      then have "\<forall>k. ?h \<le> k \<and> k < length a \<longrightarrow> x \<le> a ! k"
        using "1.prems"(1) by (meson order.trans sorted_nth_mono)
      then show ?thesis
        using "1.IH"(2) [OF True refl] ge h "1.prems"
        by (subst search_ints_from.simps) (simp add: True Let_def)
    next
      case lt: False
      then have "\<forall>k < ?h + 1. a ! k < x"
        using "1.prems"(1) h by (metis Suc_eq_plus1 less_Suc_eq_le linorder_not_le order.strict_trans1 sorted_nth_mono)
      then show ?thesis
        using "1.IH"(1) [OF True refl] lt h "1.prems"
        by (subst search_ints_from.simps) (simp add: True Let_def)
    qed
  next
    case False
    then show ?thesis using "1.prems" by (subst search_ints_from.simps) (auto simp: Let_def)
  qed
qed

lemma contains_status_code_iff:
  assumes "sorted codes"
  shows "contains_status_code codes target \<longleftrightarrow> target \<in> set codes"
proof -
  let ?n = "search_ints_from codes target 0 (length codes)"
  have n: "?n \<le> length codes" "\<forall>k < ?n. codes ! k < target"
      "\<forall>k. ?n \<le> k \<and> k < length codes \<longrightarrow> target \<le> codes ! k"
    using search_ints_from_spec [OF assms, of 0 "length codes" target] by (auto simp: Let_def)
  show ?thesis
  proof
    assume "contains_status_code codes target"
    then have "?n < length codes" and "codes ! ?n = target"
      by (simp_all add: contains_status_code_def Let_def)
    then show "target \<in> set codes" by (metis nth_mem)
  next
    assume "target \<in> set codes"
    then obtain k where k: "k < length codes" "codes ! k = target" by (auto simp: in_set_conv_nth)
    then have "?n \<le> k" using n(2) by (meson less_irrefl not_le)
    then have "codes ! ?n \<le> target" using assms k by (metis sorted_nth_mono)
    moreover have "target \<le> codes ! ?n" using n(3) k \<open>?n \<le> k\<close> by simp
    ultimately show "contains_status_code codes target"
      using k \<open>?n \<le> k\<close> by (simp add: contains_status_code_def Let_def)
  qed
qed

section \<open>A normalised rule is its own normal form\<close>

lemma validate_status_codes_None:
  "validate_status_codes seen codes = None \<longleftrightarrow>
     distinct codes \<and> set codes \<inter> set seen = {} \<and> (\<forall>c \<in> set codes. 100 \<le> c \<and> c \<le> 599)"
  by (induction codes arbitrary: seen) auto

lemma check_rule_fields_cong:
  assumes "dr_name r = dr_name r'" and "mset (dr_status_codes r) = mset (dr_status_codes r')"
    and "dr_message_pattern r = dr_message_pattern r'" and "dr_scope r = dr_scope r'"
    and "dr_mode r = dr_mode r'" and "check_rule_fields r' = None"
  shows "check_rule_fields r = None"
proof -
  have "dr_status_codes r = [] \<longleftrightarrow> dr_status_codes r' = []"
    using assms(2) by (metis mset_zero_iff)
  moreover have "validate_status_codes [] (dr_status_codes r) = None \<longleftrightarrow>
      validate_status_codes [] (dr_status_codes r') = None"
    using assms(2) by (simp add: validate_status_codes_None mset_eq_imp_distinct_iff [OF assms(2)]
        set_mset_mset [symmetric] del: set_mset_mset)
  ultimately show ?thesis
    using assms by (auto simp: check_rule_fields_def split: if_splits option.splits)
qed

definition trimmed_rule :: "cooldown_detection_rule \<Rightarrow> bool" where
  "trimmed_rule r \<longleftrightarrow>
     trim_space (dr_name r) = dr_name r \<and> trim_space (dr_message_pattern r) = dr_message_pattern r \<and>
     to_lower (trim_space (dr_scope r)) = dr_scope r \<and>
     to_lower (trim_space (dr_mode r)) = dr_mode r \<and>
     to_lower (trim_space (dr_time_format r)) = dr_time_format r"

lemma trimmed_trim_rule [simp]: "trimmed_rule (trim_rule r)"
  by (simp add: trim_rule_def trimmed_rule_def)

lemma trim_rule_fixed: "trimmed_rule r \<Longrightarrow> trim_rule r = r"
  by (simp add: trim_rule_def trimmed_rule_def)

lemma normalize_detection_rule_InrD:
  assumes "normalize_detection_rule env rule = Inr c"
  obtains r pat where "r = (trim_rule rule)\<lparr>dr_status_codes := sort (dr_status_codes rule)\<rparr>"
    and "check_rule_fields (trim_rule rule) = None"
    and "compile_pattern env (dr_message_pattern r) = Inr pat"
    and "if dr_mode r = cooldown_mode_fixed then normalize_fixed_mode r pat = Inr c
         else normalize_reset_time_mode env r pat = Inr c"
proof -
  let ?r = "(trim_rule rule)\<lparr>dr_status_codes := sort (dr_status_codes rule)\<rparr>"
  have "dr_status_codes (trim_rule rule) = dr_status_codes rule" by (simp add: trim_rule_def)
  then obtain pat where "check_rule_fields (trim_rule rule) = None"
    and "compile_pattern env (dr_message_pattern ?r) = Inr pat"
    and "if dr_mode ?r = cooldown_mode_fixed then normalize_fixed_mode ?r pat = Inr c
         else normalize_reset_time_mode env ?r pat = Inr c"
    using assms by (auto simp: normalize_detection_rule_def Let_def
        split: option.splits sum.splits if_splits)
  then show thesis by (rule that [OF refl])
qed

text \<open>The two modes keep the fields the checks read, and their own result.\<close>

definition same_checked_fields ::
    "cooldown_detection_rule \<Rightarrow> cooldown_detection_rule \<Rightarrow> bool" where
  "same_checked_fields r r' \<longleftrightarrow>
     dr_rule_id r = dr_rule_id r' \<and> dr_enabled r = dr_enabled r' \<and> dr_name r = dr_name r' \<and>
     dr_priority r = dr_priority r' \<and> dr_status_codes r = dr_status_codes r' \<and>
     dr_message_pattern r = dr_message_pattern r' \<and> dr_scope r = dr_scope r' \<and>
     dr_mode r = dr_mode r'"

lemma normalize_fixed_mode_result:
  assumes "normalize_fixed_mode r pat = Inr c"
  shows "same_checked_fields (cr_rule c) r" and "cr_pattern c = pat"
    and "normalize_fixed_mode (cr_rule c) pat = Inr c"
    and "trimmed_rule r \<Longrightarrow> trimmed_rule (cr_rule c)"
    and "0 < dr_cooldown_seconds (cr_rule c)"
    and "\<not> duration_exceeds_max (dr_cooldown_seconds (cr_rule c))"
  using assms
  by (auto simp: normalize_fixed_mode_def same_checked_fields_def trimmed_rule_def split: if_splits)

lemma time_formats_plain:
  "trim_space time_format_datetime = time_format_datetime"
  "to_lower time_format_datetime = time_format_datetime"
  "time_format_datetime \<noteq> []"
  by (simp_all add: trim_space_plain time_format_datetime_def plain_char_def to_lower_def
      to_lower_char_def)

text \<open>The two shapes a rule of the reset-time mode can end in.\<close>

lemma normalize_reset_time_modeE:
  assumes "normalize_reset_time_mode env r pat = Inr c"
  obtains p rule loc where "pat = Some p" and "c = \<lparr>cr_rule = rule, cr_pattern = Some p, cr_location = loc\<rparr>"
    and "is_valid_capture_name (dr_time_capture (prepare_reset_time r))"
    and "dr_time_capture (prepare_reset_time r) \<in> set (pat_names p)"
    and "local_time_format (dr_time_format (prepare_reset_time r))
          \<and> rule = (prepare_reset_time r)\<lparr>dr_cooldown_seconds := 0\<rparr>
          \<and> dr_time_layout (prepare_reset_time r) \<noteq> []
          \<and> \<not> length (dr_time_layout (prepare_reset_time r)) > max_detection_time_field
          \<and> dr_timezone (prepare_reset_time r) \<noteq> []
          \<and> \<not> length (dr_timezone (prepare_reset_time r)) > max_detection_time_field
          \<and> loc = de_location env (dr_timezone (prepare_reset_time r)) \<and> loc \<noteq> None
        \<or> \<not> local_time_format (dr_time_format (prepare_reset_time r))
          \<and> absolute_time_format (dr_time_format (prepare_reset_time r)) \<and> loc = None
          \<and> rule = (prepare_reset_time r)
              \<lparr>dr_time_layout := [], dr_timezone := [], dr_cooldown_seconds := 0\<rparr>"
  using assms
  by (auto simp: normalize_reset_time_mode_def Let_def split: if_split_asm option.split_asm)

lemma prepare_reset_time_idem [simp]:
  "prepare_reset_time ((prepare_reset_time r)\<lparr>dr_cooldown_seconds := 0\<rparr>)
     = (prepare_reset_time r)\<lparr>dr_cooldown_seconds := 0\<rparr>"
  "prepare_reset_time ((prepare_reset_time r)
       \<lparr>dr_time_layout := [], dr_timezone := [], dr_cooldown_seconds := 0\<rparr>)
     = (prepare_reset_time r)\<lparr>dr_time_layout := [], dr_timezone := [], dr_cooldown_seconds := 0\<rparr>"
  by (simp_all add: prepare_reset_time_def time_formats_plain)

lemma trimmed_prepare_reset_time [simp]:
  "trimmed_rule r \<Longrightarrow> trimmed_rule (prepare_reset_time r)"
  by (simp add: prepare_reset_time_def trimmed_rule_def time_formats_plain)

lemma trimmed_rule_time_fields [simp]:
  "trimmed_rule (r\<lparr>dr_cooldown_seconds := n\<rparr>) = trimmed_rule r"
  "trimmed_rule (r\<lparr>dr_time_layout := a\<rparr>) = trimmed_rule r"
  "trimmed_rule (r\<lparr>dr_timezone := b\<rparr>) = trimmed_rule r"
  by (simp_all add: trimmed_rule_def)

lemma same_checked_prepare [simp]:
  "same_checked_fields ((prepare_reset_time r)\<lparr>dr_cooldown_seconds := 0\<rparr>) r"
  "same_checked_fields ((prepare_reset_time r)
     \<lparr>dr_time_layout := [], dr_timezone := [], dr_cooldown_seconds := 0\<rparr>) r"
  by (simp_all add: same_checked_fields_def prepare_reset_time_def)

lemma normalize_reset_time_mode_result:
  assumes "normalize_reset_time_mode env r pat = Inr c"
  shows "same_checked_fields (cr_rule c) r" and "cr_pattern c = pat"
    and "normalize_reset_time_mode env (cr_rule c) pat = Inr c"
    and "trimmed_rule r \<Longrightarrow> trimmed_rule (cr_rule c)"
proof -
  have "same_checked_fields (cr_rule c) r \<and> cr_pattern c = pat \<and>
      (trimmed_rule r \<longrightarrow> trimmed_rule (cr_rule c)) \<and>
      normalize_reset_time_mode env (cr_rule c) pat = Inr c"
    by (rule normalize_reset_time_modeE [OF assms]; elim disjE conjE)
      (auto simp: normalize_reset_time_mode_def Let_def split: option.split)
  then show "same_checked_fields (cr_rule c) r" and "cr_pattern c = pat"
    and "normalize_reset_time_mode env (cr_rule c) pat = Inr c"
    and "trimmed_rule r \<Longrightarrow> trimmed_rule (cr_rule c)"
    by blast+
qed

lemma trimmed_rule_codes [simp]: "trimmed_rule (r\<lparr>dr_status_codes := cs\<rparr>) = trimmed_rule r"
  by (simp add: trimmed_rule_def)

lemma normalize_detection_rule_again:
  assumes "normalize_detection_rule env rule = Inr c"
  shows "normalize_detection_rule env (cr_rule c) = Inr c"
proof -
  from assms obtain r pat where r: "r = (trim_rule rule)\<lparr>dr_status_codes := sort (dr_status_codes rule)\<rparr>"
    and ck: "check_rule_fields (trim_rule rule) = None"
    and pat: "compile_pattern env (dr_message_pattern r) = Inr pat"
    and m: "if dr_mode r = cooldown_mode_fixed then normalize_fixed_mode r pat = Inr c
         else normalize_reset_time_mode env r pat = Inr c"
    by (rule normalize_detection_rule_InrD)
  let ?s = "cr_rule c"
  have same: "same_checked_fields ?s r" and tr: "trimmed_rule ?s"
    and again: "if dr_mode r = cooldown_mode_fixed then normalize_fixed_mode ?s pat = Inr c
         else normalize_reset_time_mode env ?s pat = Inr c"
    using m normalize_fixed_mode_result [of r pat c] normalize_reset_time_mode_result [of env r pat c]
    by (auto simp: r split: if_splits)
  have "dr_status_codes (trim_rule rule) = dr_status_codes rule" by (simp add: trim_rule_def)
  then have "check_rule_fields ?s = None"
    using same by (intro check_rule_fields_cong [OF _ _ _ _ _ ck])
      (simp_all add: same_checked_fields_def r)
  moreover have "sort (dr_status_codes ?s) = dr_status_codes ?s"
    using same by (simp add: same_checked_fields_def r sorted_sort_id)
  then have "?s\<lparr>dr_status_codes := sort (dr_status_codes ?s)\<rparr> = ?s" by simp
  ultimately show ?thesis
    using same pat again
    by (simp add: normalize_detection_rule_def trim_rule_fixed [OF tr] Let_def
        same_checked_fields_def split: if_splits)
qed

text \<open>What is known of a compiled rule.\<close>

lemma compiled_rule_facts:
  assumes "normalize_detection_rule env rule = Inr c"
  shows "sorted (dr_status_codes (cr_rule c))"
    and "dr_rule_id (cr_rule c) = dr_rule_id rule" and "dr_priority (cr_rule c) = dr_priority rule"
    and "dr_enabled (cr_rule c) = dr_enabled rule"
    and "set (dr_status_codes (cr_rule c)) = set (dr_status_codes rule)"
    and "dr_mode (cr_rule c) = cooldown_mode_fixed \<Longrightarrow> 0 < dr_cooldown_seconds (cr_rule c) \<and>
           \<not> duration_exceeds_max (dr_cooldown_seconds (cr_rule c))"
    and "dr_scope (cr_rule c) \<in> {cooldown_scope_key, cooldown_scope_model, cooldown_scope_channel}"
proof -
  from assms obtain r pat where r: "r = (trim_rule rule)\<lparr>dr_status_codes := sort (dr_status_codes rule)\<rparr>"
    and ck: "check_rule_fields (trim_rule rule) = None"
    and m: "if dr_mode r = cooldown_mode_fixed then normalize_fixed_mode r pat = Inr c
         else normalize_reset_time_mode env r pat = Inr c"
    by (rule normalize_detection_rule_InrD)
  have same: "same_checked_fields (cr_rule c) r"
    using m normalize_fixed_mode_result(1) normalize_reset_time_mode_result(1)
    by (auto split: if_splits)
  then show "sorted (dr_status_codes (cr_rule c))"
    "dr_rule_id (cr_rule c) = dr_rule_id rule" "dr_priority (cr_rule c) = dr_priority rule"
    "dr_enabled (cr_rule c) = dr_enabled rule"
    "set (dr_status_codes (cr_rule c)) = set (dr_status_codes rule)"
    by (simp_all add: same_checked_fields_def r trim_rule_def)
  show "dr_scope (cr_rule c) \<in> {cooldown_scope_key, cooldown_scope_model, cooldown_scope_channel}"
    using same ck by (auto simp: same_checked_fields_def r check_rule_fields_def
        split: if_splits option.splits)
  assume "dr_mode (cr_rule c) = cooldown_mode_fixed"
  then have "normalize_fixed_mode r pat = Inr c"
    using same m by (simp add: same_checked_fields_def)
  then show "0 < dr_cooldown_seconds (cr_rule c) \<and>
      \<not> duration_exceeds_max (dr_cooldown_seconds (cr_rule c))"
    by (simp add: normalize_fixed_mode_result)
qed

section \<open>What is saved compiles to itself\<close>

text \<open>The priority of a rule plays no part in its normalisation.\<close>

definition with_priority :: "int \<Rightarrow> compiled_rule \<Rightarrow> compiled_rule" where
  "with_priority p c = c\<lparr>cr_rule := (cr_rule c)\<lparr>dr_priority := p\<rparr>\<rparr>"

lemma trim_rule_priority [simp]:
  "trim_rule (r\<lparr>dr_priority := p\<rparr>) = (trim_rule r)\<lparr>dr_priority := p\<rparr>"
  by (simp add: trim_rule_def)

lemma check_rule_fields_priority [simp]:
  "check_rule_fields (r\<lparr>dr_priority := p\<rparr>) = check_rule_fields r"
  by (simp add: check_rule_fields_def)

lemma normalize_fixed_mode_priority:
  "normalize_fixed_mode (r\<lparr>dr_priority := p\<rparr>) pat = map_sum id (with_priority p) (normalize_fixed_mode r pat)"
  by (simp add: normalize_fixed_mode_def with_priority_def)

lemma prepare_reset_time_priority [simp]:
  "prepare_reset_time (r\<lparr>dr_priority := p\<rparr>) = (prepare_reset_time r)\<lparr>dr_priority := p\<rparr>"
  by (simp add: prepare_reset_time_def)

lemma normalize_reset_time_mode_priority:
  "normalize_reset_time_mode env (r\<lparr>dr_priority := p\<rparr>) pat
     = map_sum id (with_priority p) (normalize_reset_time_mode env r pat)"
  by (auto simp: normalize_reset_time_mode_def with_priority_def Let_def split: option.split)

lemma normalize_detection_rule_priority:
  assumes "normalize_detection_rule env r = Inr c"
  shows "normalize_detection_rule env (r\<lparr>dr_priority := p\<rparr>) = Inr (with_priority p c)"
proof -
  have codes: "(trim_rule r)\<lparr>dr_priority := p, dr_status_codes := cs\<rparr>
      = (trim_rule r)\<lparr>dr_status_codes := cs\<rparr>\<lparr>dr_priority := p\<rparr>" for cs
    by simp
  show ?thesis
    using assms
    by (auto simp: normalize_detection_rule_def Let_def codes normalize_fixed_mode_priority
        normalize_reset_time_mode_priority
        split: option.splits sum.splits if_splits)
qed

definition self_normal :: "detect_env \<Rightarrow> cooldown_detection_rule \<Rightarrow> bool" where
  "self_normal env r \<longleftrightarrow> (\<exists>c. normalize_detection_rule env r = Inr c \<and> cr_rule c = r)"

lemma self_normal_priority:
  assumes "self_normal env r" shows "self_normal env (r\<lparr>dr_priority := p\<rparr>)"
proof -
  obtain c where "normalize_detection_rule env r = Inr c" and "cr_rule c = r"
    using assms by (auto simp: self_normal_def)
  then show ?thesis
    using normalize_detection_rule_priority [of env r c p]
    by (auto simp: self_normal_def with_priority_def)
qed

lemma normalize_detection_rules_from_result:
  "normalize_detection_rules_from env gen i ids ps rules = Inr rs \<Longrightarrow>
     length rs = length rules \<and> list_all (self_normal env) rs \<and>
     distinct (map dr_rule_id rs) \<and> set (map dr_rule_id rs) \<inter> set ids = {} \<and>
     distinct (map dr_priority rs) \<and> set (map dr_priority rs) \<inter> set ps = {}"
proof (induction rules arbitrary: i ids ps rs)
  case (Cons rule rules)
  define rid where "rid = (if dr_rule_id rule = [] then gen i else dr_rule_id rule)"
  from Cons.prems obtain c rs' where new: "rid \<notin> set ids" "dr_priority rule \<notin> set ps"
    and c: "normalize_detection_rule env (rule\<lparr>dr_rule_id := rid\<rparr>) = Inr c"
    and rest: "normalize_detection_rules_from env gen (Suc i) (rid # ids)
                 (dr_priority rule # ps) rules = Inr rs'"
    and rs: "rs = cr_rule c # rs'"
    by (simp add: Let_def rid_def split: if_splits sum.splits)
  have "self_normal env (cr_rule c)"
    using normalize_detection_rule_again [OF c] by (auto simp: self_normal_def)
  moreover have "dr_rule_id (cr_rule c) = rid" and "dr_priority (cr_rule c) = dr_priority rule"
    using compiled_rule_facts(2,3) [OF c] by simp_all
  ultimately show ?case using Cons.IH [OF rest] new by (auto simp: rs)
qed simp

lemma renumber_priorities: "map dr_priority (renumber rs) = map int [0 ..< length rs]"
  by (rule nth_equalityI) (simp_all add: renumber_def nth_enumerate_eq)

lemma renumber_ids [simp]: "map dr_rule_id (renumber rs) = map dr_rule_id rs"
  by (rule nth_equalityI) (simp_all add: renumber_def nth_enumerate_eq)

lemma length_renumber [simp]: "length (renumber rs) = length rs"
  by (simp add: renumber_def)

lemma renumber_self_normal:
  assumes "list_all (self_normal env) rs"
  shows "list_all (self_normal env) (renumber rs)"
  using assms
  by (auto simp: renumber_def list_all_iff self_normal_priority dest!: in_set_enumerate_eq [THEN iffD1])

lemma sort_renumber: "sort_key dr_priority (renumber rs) = renumber rs"
proof -
  have "sorted (map dr_priority (renumber rs))"
    unfolding renumber_priorities by (simp add: sorted_iff_nth_mono)
  then show ?thesis by (rule sort_key_id_if_sorted)
qed

lemma compile_all_self_normal:
  "list_all (self_normal env) rs \<Longrightarrow> \<exists>cs. compile_all env rs = Some cs \<and> map cr_rule cs = rs"
  by (induction rs) (auto simp: self_normal_def)

text \<open>The invariant of a saved rule set.\<close>

definition saved_rules_ok :: "detect_env \<Rightarrow> cooldown_detection_rule list \<Rightarrow> bool" where
  "saved_rules_ok env rs \<longleftrightarrow>
     length rs \<le> max_detection_rules \<and> distinct (map dr_rule_id rs) \<and>
     map dr_priority rs = map int [0 ..< length rs] \<and>
     (\<exists>cs. compile_uncached env rs = Some cs \<and> map cr_rule cs = rs)"

lemma normalize_detection_rules_saved:
  assumes "normalize_detection_rules env gen (Some rules) = Inr (Some rs)"
  shows "saved_rules_ok env rs \<and> length rs = length rules"
proof (cases "rules = []")
  case True
  then show ?thesis using assms
    by (auto simp: normalize_detection_rules_def saved_rules_ok_def compile_uncached_def)
next
  case False
  then obtain rs' where len: "length rules \<le> max_detection_rules"
    and n: "normalize_detection_rules_from env gen 0 [] [] rules = Inr rs'"
    and rs: "rs = renumber (sort_key dr_priority rs')"
    using assms by (auto simp: normalize_detection_rules_def split: if_splits sum.splits)
  note res = normalize_detection_rules_from_result [OF n]
  have "list_all (self_normal env) rs"
    unfolding rs using res by (intro renumber_self_normal) (simp add: list_all_iff)
  then have "\<exists>cs. compile_uncached env rs = Some cs \<and> map cr_rule cs = rs"
    using compile_all_self_normal by (simp add: compile_uncached_def rs sort_renumber)
  moreover have "distinct (map dr_rule_id rs)"
  proof -
    have "mset (map dr_rule_id (sort_key dr_priority rs')) = mset (map dr_rule_id rs')"
      by (simp add: mset_map)
    then have "distinct (map dr_rule_id (sort_key dr_priority rs'))"
      using mset_eq_imp_distinct_iff res by blast
    then show ?thesis by (simp add: rs)
  qed
  ultimately show ?thesis
    using len res by (simp add: saved_rules_ok_def rs renumber_priorities)
qed

section \<open>Evaluation\<close>

text \<open>What is known of every rule set the evaluation runs on.\<close>

definition compiled_ok :: "compiled_rule \<Rightarrow> bool" where
  "compiled_ok c \<longleftrightarrow>
     sorted (dr_status_codes (cr_rule c)) \<and>
     (dr_mode (cr_rule c) = cooldown_mode_fixed \<longrightarrow> 0 < dr_cooldown_seconds (cr_rule c) \<and>
        \<not> duration_exceeds_max (dr_cooldown_seconds (cr_rule c))) \<and>
     dr_scope (cr_rule c) \<in> {cooldown_scope_key, cooldown_scope_model, cooldown_scope_channel}"

lemma compile_all_ok: "compile_all env rs = Some cs \<Longrightarrow> list_all compiled_ok cs"
proof (induction rs arbitrary: cs)
  case (Cons r rs)
  then obtain c cs' where c: "normalize_detection_rule env r = Inr c"
    and "compile_all env rs = Some cs'" and cs: "cs = c # cs'"
    by (auto split: sum.splits option.splits)
  then have "list_all compiled_ok cs'" using Cons.IH by simp
  moreover have "compiled_ok c"
    using compiled_rule_facts(1,6,7) [OF c] by (simp add: compiled_ok_def)
  ultimately show ?case by (simp add: cs)
qed simp

lemma duration_exceeds_max_iff: "duration_exceeds_max n \<longleftrightarrow> n > 31622400"
  by (simp add: duration_exceeds_max_def go_div_def max_detection_duration_def)

lemma fixed_seconds_no_overflow:
  assumes "0 < n" and "\<not> duration_exceeds_max n"
  shows "wrap64 (n * second) = n * second" and "n * second \<le> max_detection_duration"
  using assms by (simp_all add: duration_exceeds_max_iff max_detection_duration_def)

lemma evaluate_rule_actionable:
  assumes "compiled_ok c" and "\<not> ev_actionable e"
    and "ev_actionable (evaluate_rule e c message now)"
  shows "now < ev_cooldown_until (evaluate_rule e c message now)"
    and "ev_cooldown_until (evaluate_rule e c message now) \<le> now + max_detection_duration"
proof -
  have s: "time_sub u now \<le> max_detection_duration \<Longrightarrow> u \<le> now + max_detection_duration" for u
    by (simp add: time_sub_def max_detection_duration_def max_def min_def split: if_splits)
  have "now < ev_cooldown_until (evaluate_rule e c message now) \<and>
      ev_cooldown_until (evaluate_rule e c message now) \<le> now + max_detection_duration"
  proof (cases "dr_mode (cr_rule c) = cooldown_mode_fixed")
    case True
    then show ?thesis
      using assms(1) fixed_seconds_no_overflow
      by (simp add: evaluate_rule_def Let_def compiled_ok_def)
  next
    case False
    then show ?thesis
      using assms(2,3) by (auto simp: evaluate_rule_def Let_def s split: sum.splits if_splits)
  qed
  then show "now < ev_cooldown_until (evaluate_rule e c message now)"
    and "ev_cooldown_until (evaluate_rule e c message now) \<le> now + max_detection_duration"
    by simp_all
qed

lemma evaluate_rule_fields [simp]:
  "ev_rule_id (evaluate_rule e c m now) = dr_rule_id (cr_rule c)"
  "ev_matched (evaluate_rule e c m now)"
  "ev_scope (evaluate_rule e c m now) = dr_scope (cr_rule c)"
  "ev_priority (evaluate_rule e c m now) = dr_priority (cr_rule c)"
  by (auto simp: evaluate_rule_def Let_def split: sum.split)

definition active :: "int \<Rightarrow> string \<Rightarrow> compiled_rule \<Rightarrow> bool" where
  "active status message c \<longleftrightarrow> dr_enabled (cr_rule c) \<and> rule_matches c status message"

lemma evaluate_compiled_find:
  "evaluate_compiled e cs status message now =
     (case find (active status message) cs of
        None \<Rightarrow> e | Some c \<Rightarrow> evaluate_rule e c message now)"
  by (induction cs) (auto simp: active_def)

section \<open>The cache\<close>

text \<open>The invariant: a bounded number of entries, each what the rules of its key compile to.\<close>

definition cache_ok :: "detect_env \<Rightarrow> rule_cache \<Rightarrow> bool" where
  "cache_ok env cache \<longleftrightarrow>
     length cache \<le> max_detection_cache_entries \<and> distinct (map fst cache) \<and>
     (\<forall>(key, cs) \<in> set cache. \<exists>rules. key \<noteq> [] \<and> cache_key env rules = key \<and>
        compile_uncached env rules = Some cs)"

text \<open>\<open>json.Marshal\<close> tells two rule sets apart.\<close>

definition marshal_faithful :: "detect_env \<Rightarrow> bool" where
  "marshal_faithful env \<longleftrightarrow>
     (\<forall>rs rs' s. de_marshal env rs = Some s \<longrightarrow> de_marshal env rs' = Some s \<longrightarrow> rs = rs')"

lemma cache_key_faithful:
  "marshal_faithful env \<Longrightarrow> cache_key env rs = cache_key env rs' \<Longrightarrow> cache_key env rs \<noteq> [] \<Longrightarrow> rs = rs'"
  by (auto simp: cache_key_def marshal_faithful_def split: option.splits if_splits)

lemma compile_detection_rules_result:
  assumes "cache_ok env cache" and "marshal_faithful env"
  shows "fst (compile_detection_rules env cache rules) = compile_uncached env rules"
proof (cases "cache_key env rules \<noteq> [] \<and> map_of cache (cache_key env rules) \<noteq> None")
  case True
  then obtain cs where cs: "map_of cache (cache_key env rules) = Some cs" by auto
  then obtain rules' where "cache_key env rules' = cache_key env rules"
    and "compile_uncached env rules' = Some cs"
    using assms(1) map_of_SomeD [OF cs] by (auto simp: cache_ok_def)
  moreover from this have "rules' = rules"
    using cache_key_faithful [OF assms(2)] True by metis
  ultimately show ?thesis using True cs by (simp add: compile_detection_rules_def Let_def)
next
  case False
  then show ?thesis
    by (auto simp: compile_detection_rules_def Let_def split: option.split)
qed

lemma compile_detection_rules_keeps:
  assumes "cache_ok env cache"
  shows "cache_ok env (snd (compile_detection_rules env cache rules))"
proof -
  let ?k = "cache_key env rules"
  have "cache_ok env ((?k, cs) # c')"
    if "compile_uncached env rules = Some cs" "?k \<noteq> []" "map_of cache ?k = None"
      "c' = (if length cache \<ge> max_detection_cache_entries then [] else cache)" for cs c'
  proof -
    have "?k \<notin> fst ` set cache" using that(3) by (simp add: map_of_eq_None_iff)
    then show ?thesis
      using assms that(1,2,4) by (auto simp: cache_ok_def max_detection_cache_entries_def)
  qed
  then show ?thesis
    using assms by (auto simp: compile_detection_rules_def Let_def split: option.split)
qed


lemma cache_ok_Nil [simp]: "cache_ok env []"
  by (simp add: cache_ok_def)

definition evaluate_uncached ::
    "detect_env \<Rightarrow> cooldown_detection_rules \<Rightarrow> int \<Rightarrow> string \<Rightarrow> time \<Rightarrow> detection_evaluation" where
  "evaluate_uncached env rules status body now =
     (case extract_upstream_error_code_and_message (de_go env) body of
        (code, message) \<Rightarrow>
          (case (if rules_is_empty rules then None else compile_uncached env (the rules)) of
             None \<Rightarrow> no_match code message
           | Some cs \<Rightarrow> evaluate_compiled (no_match code message) cs status message now))"

lemma compile_detection_rules_Nil:
  "fst (compile_detection_rules env [] rules) = compile_uncached env rules"
  by (simp add: compile_detection_rules_def Let_def split: option.split)

lemma evaluate_detection_rules_eq:
  assumes "fst (compile_detection_rules env cache (the rules)) = compile_uncached env (the rules)"
  shows "fst (evaluate_detection_rules env cache rules status body now)
    = evaluate_uncached env rules status body now"
  using assms
  by (cases "compile_detection_rules env cache (the rules)")
    (auto simp: evaluate_detection_rules_def evaluate_uncached_def split: prod.split option.split)

lemma evaluate_uncached_actionable:
  assumes "ev_actionable (evaluate_uncached env rules status body now)"
  shows "now < ev_cooldown_until (evaluate_uncached env rules status body now)"
    and "ev_cooldown_until (evaluate_uncached env rules status body now)
           \<le> now + max_detection_duration"
proof -
  obtain code message where x: "extract_upstream_error_code_and_message (de_go env) body
      = (code, message)" by (cases "extract_upstream_error_code_and_message (de_go env) body")
  let ?e = "no_match code message"
  have "\<not> ev_actionable ?e" by (simp add: no_match_def)
  then obtain cs c where cs: "\<not> rules_is_empty rules" "compile_uncached env (the rules) = Some cs"
    and c: "find (active status message) cs = Some c"
    using assms by (auto simp: evaluate_uncached_def x evaluate_compiled_find split: option.splits if_splits)
  then have eq: "evaluate_uncached env rules status body now = evaluate_rule ?e c message now"
    by (simp add: evaluate_uncached_def x evaluate_compiled_find)
  have "compiled_ok c"
    using cs(2) c by (auto simp: compile_uncached_def list_all_iff dest!: compile_all_ok find_SomeD)
  then show "now < ev_cooldown_until (evaluate_uncached env rules status body now)"
    and "ev_cooldown_until (evaluate_uncached env rules status body now)
           \<le> now + max_detection_duration"
    using evaluate_rule_actionable [OF _ \<open>\<not> ev_actionable ?e\<close>] assms by (simp_all add: eq)
qed

text \<open>A sequence of requests to the cache.\<close>

primrec run_cache ::
    "detect_env \<Rightarrow> rule_cache \<Rightarrow> cooldown_detection_rule list list
       \<Rightarrow> compiled_rule list option list \<times> rule_cache" where
  "run_cache env cache [] = ([], cache)"
| "run_cache env cache (rules # requests) =
     (case compile_detection_rules env cache rules of
        (result, cache') \<Rightarrow>
          (case run_cache env cache' requests of
             (results, cache'') \<Rightarrow> (result # results, cache'')))"

lemma run_cache_result:
  assumes "cache_ok env cache" and "marshal_faithful env"
  shows "fst (run_cache env cache requests) = map (compile_uncached env) requests \<and>
    cache_ok env (snd (run_cache env cache requests))"
  using assms(1)
proof (induction requests arbitrary: cache)
  case (Cons rules requests)
  obtain r c where c: "compile_detection_rules env cache rules = (r, c)" by fastforce
  have r: "r = compile_uncached env rules"
    using compile_detection_rules_result [OF Cons.prems assms(2), of rules] by (simp add: c)
  have "cache_ok env c"
    using compile_detection_rules_keeps [OF Cons.prems, of rules] by (simp add: c)
  note IH = Cons.IH [OF this]
  obtain rs c' where rest: "run_cache env c requests = (rs, c')" by fastforce
  show ?case using IH by (simp add: c rest r)
qed simp

lemma compile_all_priorities:
  "compile_all env rs = Some cs \<Longrightarrow> map (dr_priority \<circ> cr_rule) cs = map dr_priority rs"
proof (induction rs arbitrary: cs)
  case (Cons r rs)
  then obtain c cs' where c: "normalize_detection_rule env r = Inr c"
    and "compile_all env rs = Some cs'" and cs: "cs = c # cs'"
    by (auto split: sum.splits option.splits)
  then show ?case using Cons.IH compiled_rule_facts(3) [OF c] by simp
qed simp

section \<open>Properties\<close>

definition example_rule :: cooldown_detection_rule where
  "example_rule = \<lparr>dr_rule_id = ''r1'', dr_enabled = True, dr_name = ''busy'', dr_priority = 4,
     dr_status_codes = [503, 429], dr_message_pattern = [], dr_scope = ''channel'',
     dr_mode = ''fixed'', dr_cooldown_seconds = 90, dr_time_capture = [], dr_time_format = [],
     dr_time_layout = [], dr_timezone = []\<rparr>"

definition example_detect_env :: detect_env where
  "example_detect_env = \<lparr>de_go = silent_env, de_compile = (\<lambda>s. None), de_location = (\<lambda>s. None),
     de_marshal = (\<lambda>rs. None)\<rparr>"

lemma example_rule_words:
  "trim_space ''busy'' = ''busy''" "trim_space ''channel'' = ''channel''" "trim_space ''fixed'' = ''fixed''"
  by (simp_all add: trim_space_word plain_word_def plain_char_def)

lemma example_rule_compiles:
  "normalize_detection_rule example_detect_env (example_rule\<lparr>dr_priority := p\<rparr>) =
     Inr \<lparr>cr_rule = example_rule\<lparr>dr_priority := p, dr_status_codes := [429, 503]\<rparr>,
          cr_pattern = None, cr_location = None\<rparr>"
  by (simp add: normalize_detection_rule_def trim_rule_def example_rule_def example_rule_words
      to_lower_def to_lower_char_def check_rule_fields_def compile_pattern_def
      normalize_fixed_mode_def max_detection_rule_name_size_def duration_exceeds_max_iff
      cooldown_scope_key_def cooldown_scope_model_def cooldown_scope_channel_def
      cooldown_mode_fixed_def cooldown_mode_reset_time_def)

text \<open>C12: a rule set the administrator could save is the one the proxy later runs: it compiles,
  rule by rule and in the stored order, to itself; its priorities are \<open>0, 1, 2, ...\<close>, its
  identifiers are distinct, it has as many rules as were submitted and at most 32.\<close>

theorem saved_rules_compile_to_themselves:
  assumes "normalize_detection_rules env gen (Some rules) = Inr (Some rs)"
  shows "(\<exists>cs. compile_uncached env rs = Some cs \<and> map cr_rule cs = rs) \<and>
    map dr_priority rs = map int [0 ..< length rs] \<and> distinct (map dr_rule_id rs) \<and>
    length rs = length rules \<and> length rs \<le> max_detection_rules"
  using normalize_detection_rules_saved [OF assms] by (simp add: saved_rules_ok_def)

theorem saved_rules_compile_to_themselves_witness:
  "\<exists>rs. normalize_detection_rules example_detect_env (\<lambda>i. ''id'') (Some [example_rule]) = Inr (Some rs) \<and>
     map dr_priority rs = [0] \<and> dr_status_codes (hd rs) = [429, 503]"
proof -
  let ?rs = "[example_rule\<lparr>dr_priority := 0, dr_status_codes := [429, 503]\<rparr>]"
  have i: "dr_rule_id example_rule = ''r1''" "dr_priority example_rule = 4"
    by (simp_all add: example_rule_def)
  have e: "example_rule\<lparr>dr_rule_id := ''r1''\<rparr> = example_rule\<lparr>dr_priority := 4\<rparr>"
    by (simp add: example_rule_def)
  have "normalize_detection_rules_from example_detect_env (\<lambda>i. ''id'') 0 [] [] [example_rule] =
      Inr [example_rule\<lparr>dr_priority := 4, dr_status_codes := [429, 503]\<rparr>]"
    by (simp add: Let_def i e example_rule_compiles)
  then have n: "normalize_detection_rules example_detect_env (\<lambda>i. ''id'') (Some [example_rule]) = Inr (Some ?rs)"
    by (simp add: normalize_detection_rules_def max_detection_rules_def renumber_def)
  show ?thesis using saved_rules_compile_to_themselves [OF n] n by simp
qed

text \<open>an evaluation that is acted upon names an instant after the present and at most 366 days
  ahead, whatever the rules, the response and the clock are; a captured time that is not in that
  range never is acted upon.\<close>

theorem actionable_rule_is_bounded:
  assumes "ev_actionable (fst (evaluate_detection_rules env cache rules status body now))"
    and "cache_ok env cache" and "marshal_faithful env"
  shows "now < ev_cooldown_until (fst (evaluate_detection_rules env cache rules status body now)) \<and>
    ev_cooldown_until (fst (evaluate_detection_rules env cache rules status body now))
      \<le> now + 366 * 24 * hour"
  using evaluate_uncached_actionable assms
    evaluate_detection_rules_eq [OF compile_detection_rules_result [OF assms(2,3)]]
  by (simp add: max_detection_duration_def)

lemma example_evaluation:
  "fst (evaluate_detection_rules example_detect_env [] (Some [example_rule]) 429 [] 0) =
     evaluate_rule (no_match [] [])
       \<lparr>cr_rule = example_rule\<lparr>dr_status_codes := [429, 503]\<rparr>, cr_pattern = None, cr_location = None\<rparr> [] 0"
proof -
  have m: "extract_upstream_error_code_and_message silent_env [] = ([], [])"
    by (simp add: extract_upstream_error_code_and_message_def parse_structured_quota_error_def
        silent_env_def)
  have e: "example_rule = example_rule\<lparr>dr_priority := 4\<rparr>" by (simp add: example_rule_def)
  have "compile_uncached example_detect_env [example_rule] =
      Some [\<lparr>cr_rule = example_rule\<lparr>dr_priority := 4, dr_status_codes := [429, 503]\<rparr>,
             cr_pattern = None, cr_location = None\<rparr>]"
    using example_rule_compiles [of 4] e by (simp add: compile_uncached_def)
  then have "evaluate_uncached example_detect_env (Some [example_rule]) 429 [] 0 =
      evaluate_compiled (no_match [] [])
        [\<lparr>cr_rule = example_rule\<lparr>dr_priority := 4, dr_status_codes := [429, 503]\<rparr>,
          cr_pattern = None, cr_location = None\<rparr>] 429 [] 0"
    by (simp add: evaluate_uncached_def m rules_is_empty_def example_detect_env_def)
  moreover have "example_rule\<lparr>dr_priority := 4, dr_status_codes := [429, 503]\<rparr>
      = example_rule\<lparr>dr_status_codes := [429, 503]\<rparr>"
    by (simp add: example_rule_def)
  moreover have "contains_status_code [429, 503] 429" by (simp add: contains_status_code_iff)
  ultimately show ?thesis
    by (subst evaluate_detection_rules_eq [OF compile_detection_rules_Nil])
      (simp add: rule_matches_def example_rule_def)
qed

lemma marshal_faithful_example: "marshal_faithful example_detect_env"
  by (simp add: marshal_faithful_def example_detect_env_def)

theorem actionable_rule_is_bounded_witness:
  "ev_cooldown_until
     (fst (evaluate_detection_rules example_detect_env [] (Some [example_rule]) 429 [] 0)) \<le> 366 * 24 * hour"
proof -
  have "ev_actionable
      (fst (evaluate_detection_rules example_detect_env [] (Some [example_rule]) 429 [] 0))"
    unfolding example_evaluation
    by (simp add: evaluate_rule_def example_rule_def cooldown_mode_fixed_def)
  from actionable_rule_is_bounded [OF this _ marshal_faithful_example] show ?thesis by simp
qed

text \<open>the rule that decides is the enabled one with the smallest priority whose status codes
  and pattern match: no enabled matching rule comes before it.  Its status codes are found by a
  binary search, which on the sorted codes is membership.\<close>

theorem first_matching_rule_decides:
  assumes "compile_uncached env rules = Some cs"
    and "ev_matched (evaluate_compiled (no_match code message) cs status message now)"
  shows "\<exists>as c bs. cs = as @ c # bs \<and> active status message c \<and>
    (\<forall>a \<in> set as. \<not> active status message a) \<and>
    (\<forall>b \<in> set bs. dr_priority (cr_rule c) \<le> dr_priority (cr_rule b)) \<and>
    (dr_status_codes (cr_rule c) = [] \<or> status \<in> set (dr_status_codes (cr_rule c))) \<and>
    evaluate_compiled (no_match code message) cs status message now
      = evaluate_rule (no_match code message) c message now"
proof -
  have "\<not> ev_matched (no_match code message)" by (simp add: no_match_def)
  then obtain c where f: "find (active status message) cs = Some c"
    using assms(2) by (auto simp: evaluate_compiled_find split: option.splits)
  then obtain as bs where cs: "cs = as @ c # bs" "active status message c"
      "\<forall>a \<in> set as. \<not> active status message a"
    using find_split [OF f] by blast
  have "sorted (map (dr_priority \<circ> cr_rule) cs)"
    using compile_all_priorities [OF assms(1) [unfolded compile_uncached_def]] by simp
  then have "\<forall>b \<in> set bs. dr_priority (cr_rule c) \<le> dr_priority (cr_rule b)"
    by (auto simp: cs(1) sorted_append)
  moreover have "compiled_ok c"
    using compile_all_ok [OF assms(1) [unfolded compile_uncached_def]] by (simp add: cs(1))
  then have "dr_status_codes (cr_rule c) = [] \<or> status \<in> set (dr_status_codes (cr_rule c))"
    using cs(2) by (auto simp: active_def rule_matches_def compiled_ok_def contains_status_code_iff
        split: if_splits)
  moreover have "evaluate_compiled (no_match code message) cs status message now
      = evaluate_rule (no_match code message) c message now"
    using f by (simp add: evaluate_compiled_find)
  ultimately show ?thesis using cs by blast
qed

theorem first_matching_rule_decides_witness:
  "\<exists>c. active 429 [] c \<and> dr_rule_id (cr_rule c) = ''r1''"
proof -
  let ?c = "\<lparr>cr_rule = example_rule\<lparr>dr_priority := 4, dr_status_codes := [429, 503]\<rparr>,
    cr_pattern = None, cr_location = None\<rparr>"
  have "example_rule = example_rule\<lparr>dr_priority := 4\<rparr>" by (simp add: example_rule_def)
  then have c: "compile_uncached example_detect_env [example_rule] = Some [?c]"
    using example_rule_compiles [of 4] by (simp add: compile_uncached_def)
  have "contains_status_code [429, 503] 429" by (simp add: contains_status_code_iff)
  then have "ev_matched (evaluate_compiled (no_match [] []) [?c] 429 [] 0)"
    by (simp add: rule_matches_def example_rule_def)
  from first_matching_rule_decides [OF c this] obtain as d bs
    where d: "[?c] = as @ d # bs" "active 429 [] d" by blast
  then have "d \<in> set [?c]" by simp
  then have "dr_rule_id (cr_rule d) = ''r1''" by (simp add: example_rule_def)
  with d(2) show ?thesis by blast
qed



end
