(* ===== verification/Cooldown_Decision.thy ===== *)
theory Cooldown_Decision
  imports Cooldown_Detection
begin

text \<open>
  The decision about a failed attempt: \<open>internal/cooldown/decision.go\<close>, the classification of
  \<open>internal/cooldown/manager.go\<close> (\<open>classifyDecision\<close>, \<open>configuredCooldownDecision\<close>,
  \<open>legacyToDecision\<close>, \<open>canFallbackToOtherKey\<close>) and the key fallback of
  \<open>manager_decide_with_key_fallback.go\<close>.  Nothing here touches the cooldown tables.

  The cache of compiled rules is left out of these functions: they evaluate the rules with an
  empty cache, which gives the same result as any cache that satisfies \<open>cache_ok\<close>
  (\<open>compile_detection_rules_result\<close>).
\<close>

section \<open>Retry strategies, effects, decisions\<close>

datatype retry_strategy =
  RetryNone | RetryNextKey | RetryNextURL | RetryNextChannel | RetryRefreshToken

datatype effect =
  EffectNone | EffectCoolKey | EffectCoolModel | EffectCoolChannel | EffectClearCooldowns
| EffectClearKeyCooldown | EffectClearModelCooldown | EffectClearChannelCooldown
| EffectRecordFailure

datatype action = ActionRetryKey | ActionRetryModel | ActionRetryChannel | ActionReturnClient

record decision =
  d_retry :: retry_strategy
  d_effect :: effect
  d_key_until :: time
  d_has_key_until :: bool
  d_model_until :: time
  d_has_model_until :: bool
  d_channel_until :: time
  d_has_channel_until :: bool
  d_reason :: string
  d_model :: string
  d_prevent_key_fallback :: bool

definition plain_decision :: "retry_strategy \<Rightarrow> effect \<Rightarrow> decision" where
  "plain_decision r e = \<lparr>d_retry = r, d_effect = e, d_key_until = zero_time, d_has_key_until = False,
     d_model_until = zero_time, d_has_model_until = False, d_channel_until = zero_time,
     d_has_channel_until = False, d_reason = [], d_model = [], d_prevent_key_fallback = False\<rparr>"

datatype invalid_decision =
  MoreThanOneCooldown | CoolsWithoutRetry | KeyUntilIsZero | ModelNameMissing | ModelUntilIsZero
| ChannelUntilIsZero

definition cooldown_effects :: "decision \<Rightarrow> nat" where
  "cooldown_effects d = (if d_has_key_until d then 1 else 0) +
     (if d_has_model_until d then 1 else 0) + (if d_has_channel_until d then 1 else 0)"

definition validate :: "decision \<Rightarrow> invalid_decision option" where
  "validate d =
     (if cooldown_effects d > 1 then Some MoreThanOneCooldown
      else if d_retry d = RetryNone \<and>
              (d_effect d = EffectCoolKey \<or> d_effect d = EffectCoolModel \<or>
               d_effect d = EffectCoolChannel) then Some CoolsWithoutRetry
      else if d_has_key_until d \<and> is_zero (d_key_until d) then Some KeyUntilIsZero
      else if d_effect d = EffectCoolModel \<and> d_model d = '''' then Some ModelNameMissing
      else if d_effect d = EffectCoolModel \<and> d_has_model_until d \<and> is_zero (d_model_until d)
        then Some ModelUntilIsZero
      else if d_has_channel_until d \<and> is_zero (d_channel_until d) then Some ChannelUntilIsZero
      else None)"

definition to_legacy_action :: "decision \<Rightarrow> action" where
  "to_legacy_action d =
     (case d_effect d of
        EffectCoolKey \<Rightarrow> ActionRetryKey
      | EffectCoolModel \<Rightarrow> ActionRetryModel
      | EffectCoolChannel \<Rightarrow> ActionRetryChannel
      | EffectClearCooldowns \<Rightarrow> ActionReturnClient
      | EffectNone \<Rightarrow>
         (case d_retry d of
            RetryNextKey \<Rightarrow> ActionRetryKey
          | RetryNextChannel \<Rightarrow> ActionRetryChannel
          | RetryNextURL \<Rightarrow> ActionRetryChannel
          | RetryNone \<Rightarrow> ActionReturnClient
          | RetryRefreshToken \<Rightarrow> ActionRetryKey)
      | EffectRecordFailure \<Rightarrow>
         (case d_retry d of
            RetryNextKey \<Rightarrow> ActionRetryKey
          | RetryNextChannel \<Rightarrow> ActionRetryChannel
          | RetryNextURL \<Rightarrow> ActionRetryChannel
          | _ \<Rightarrow> ActionReturnClient)
      | _ \<Rightarrow> ActionReturnClient)"

fun action_to_decision :: "action \<Rightarrow> decision" where
  "action_to_decision ActionRetryKey = plain_decision RetryNextKey EffectCoolKey"
| "action_to_decision ActionRetryModel = plain_decision RetryNextChannel EffectCoolModel"
| "action_to_decision ActionRetryChannel = plain_decision RetryNextChannel EffectCoolChannel"
| "action_to_decision ActionReturnClient = plain_decision RetryNone EffectNone"

section \<open>The input of an error and its classification\<close>

definition no_key_index :: int where "no_key_index = -1"

record error_input =
  in_channel_id :: int
  in_model :: string
  in_channel_models :: "string list"
  in_key_index :: int
  in_status_code :: int
  in_upstream_status_code :: int
  in_error_body :: string
  in_is_network_error :: bool
  in_model_scoped :: bool
  in_headers :: "headers option"
  in_detection_rules :: cooldown_detection_rules

record cooldown_decision =
  cd_action :: action
  cd_key_until :: time
  cd_has_key_until :: bool
  cd_key_reason :: string
  cd_model :: string
  cd_model_scoped :: bool
  cd_prevent_key_fallback :: bool
  cd_model_until :: time
  cd_has_model_until :: bool
  cd_channel_until :: time
  cd_has_channel_until :: bool
  cd_channel_reason :: string

definition blank_decision :: "action \<Rightarrow> cooldown_decision" where
  "blank_decision a = \<lparr>cd_action = a, cd_key_until = zero_time, cd_has_key_until = False,
     cd_key_reason = [], cd_model = [], cd_model_scoped = False, cd_prevent_key_fallback = False,
     cd_model_until = zero_time, cd_has_model_until = False, cd_channel_until = zero_time,
     cd_has_channel_until = False, cd_channel_reason = []\<rparr>"

text \<open>The decimal text of \<open>%d\<close>.\<close>

fun nat_text :: "nat \<Rightarrow> string" where
  "nat_text n = (if n < 10 then [char_of (48 + n)] else nat_text (n div 10) @ [char_of (48 + n mod 10)])"

definition int_text :: "int \<Rightarrow> string" where
  "int_text i = (if i < 0 then CHR ''-'' # nat_text (nat (- i)) else nat_text (nat i))"

definition configured_cooldown_decision ::
    "detect_env \<Rightarrow> error_input \<Rightarrow> time \<Rightarrow> cooldown_decision option" where
  "configured_cooldown_decision env inp now =
     (let status = (if in_upstream_status_code inp = 0 then in_status_code inp
                    else in_upstream_status_code inp);
          e = fst (evaluate_detection_rules env [] (in_detection_rules inp) status
                     (in_error_body inp) now);
          reason = ''configured_rule_'' @ int_text (ev_priority e)
      in if \<not> ev_actionable e then None
         else if ev_scope e = cooldown_scope_key then
           (if in_key_index inp = no_key_index then None
            else Some ((blank_decision ActionRetryKey)\<lparr>cd_key_until := ev_cooldown_until e,
                   cd_has_key_until := True, cd_key_reason := reason\<rparr>))
         else if ev_scope e = cooldown_scope_model then
           (let model_name = trim_space (in_model inp) in
            if model_name = '''' then None
            else Some ((blank_decision ActionRetryModel)\<lparr>cd_model := model_name,
                   cd_model_scoped := True, cd_model_until := ev_cooldown_until e,
                   cd_has_model_until := True\<rparr>))
         else if ev_scope e = cooldown_scope_channel then
           Some ((blank_decision ActionRetryChannel)\<lparr>cd_channel_until := ev_cooldown_until e,
                  cd_has_channel_until := True, cd_channel_reason := reason\<rparr>)
         else None)"

text \<open>The branch of a network error; the level is the channel's.\<close>

definition classify_network_error :: "error_input \<Rightarrow> cooldown_decision" where
  "classify_network_error inp =
     (let d = blank_decision ActionReturnClient in
      if in_model_scoped inp \<or> is_model_scoped_stream_failure (in_status_code inp) then
        (let m = trim_space (in_model inp);
             d = d\<lparr>cd_model := m\<rparr>
         in if m \<noteq> '''' then d\<lparr>cd_model_scoped := True\<rparr> else d)
      else d)"

text \<open>The branch of an HTTP error, three steps on the decision.\<close>

definition copy_classification :: "http_response_classification \<Rightarrow> cooldown_decision" where
  "copy_classification c = (blank_decision ActionReturnClient)
     \<lparr>cd_key_until := rc_key_cooldown_until c, cd_has_key_until := rc_has_key_cooldown_until c,
      cd_key_reason := rc_key_cooldown_reason c,
      cd_channel_until := rc_channel_cooldown_until c,
      cd_has_channel_until := rc_has_channel_cooldown_until c,
      cd_channel_reason := rc_channel_cooldown_reason c\<rparr>"

definition move_key_until_to_model ::
    "error_input \<Rightarrow> http_response_classification \<Rightarrow> cooldown_decision \<Rightarrow> cooldown_decision" where
  "move_key_until_to_model inp c d =
     (if in_key_index inp = no_key_index \<and> rc_has_key_cooldown_until c then
        (let m = trim_space (in_model inp);
             d = d\<lparr>cd_model := m\<rparr>
         in if m \<noteq> '''' then d\<lparr>cd_model_scoped := True, cd_model_until := rc_key_cooldown_until c,
                               cd_has_model_until := True\<rparr>
            else d)
      else d)"

definition scope_to_model ::
    "error_input \<Rightarrow> http_response_classification \<Rightarrow> cooldown_decision \<Rightarrow> cooldown_decision" where
  "scope_to_model inp c d =
     (if rc_model_scoped c then
        (let m = trim_space (in_model inp);
             m = (if m = '''' then trim_space (rc_model c) else m);
             d = d\<lparr>cd_model := m\<rparr>
         in if m \<noteq> '''' then
              (let d = d\<lparr>cd_model_scoped := True,
                         cd_prevent_key_fallback := rc_prevent_key_fallback c\<rparr>
               in if rc_has_model_cooldown_until c
                  then d\<lparr>cd_model_until := rc_model_cooldown_until c, cd_has_model_until := True\<rparr>
                  else d)
            else d)
      else if rc_level c = LevelChannel \<and> \<not> cd_has_channel_until d \<and>
              is_model_scoped_http_status (in_status_code inp) then
        (let m = trim_space (in_model inp);
             d = d\<lparr>cd_model := m\<rparr>
         in if m \<noteq> '''' then d\<lparr>cd_model_scoped := True\<rparr> else d)
      else d)"

definition action_of_level :: "error_input \<Rightarrow> error_level \<Rightarrow> action" where
  "action_of_level inp level =
     (case level of
        LevelClient \<Rightarrow> ActionReturnClient
      | LevelKey \<Rightarrow> if in_key_index inp = no_key_index then ActionRetryChannel else ActionRetryKey
      | LevelChannel \<Rightarrow> ActionRetryChannel
      | LevelNone \<Rightarrow> ActionReturnClient)"

definition classify_builtin :: "detect_env \<Rightarrow> error_input \<Rightarrow> time \<Rightarrow> cooldown_decision" where
  "classify_builtin env inp now =
     (let (d, level) =
            (if in_is_network_error inp then (classify_network_error inp, LevelChannel)
             else let c = classify_http_response_with_meta_at (de_go env) (in_status_code inp)
                            (in_headers inp) (in_error_body inp) now
                  in (scope_to_model inp c (move_key_until_to_model inp c (copy_classification c)),
                      rc_level c))
      in if cd_model_scoped d then d\<lparr>cd_action := ActionRetryModel\<rparr>
         else d\<lparr>cd_action := action_of_level inp level\<rparr>)"

definition classify_decision :: "detect_env \<Rightarrow> error_input \<Rightarrow> time \<Rightarrow> cooldown_decision" where
  "classify_decision env inp now =
     (case (if in_is_network_error inp then None else configured_cooldown_decision env inp now) of
        Some configured \<Rightarrow> configured
      | None \<Rightarrow> classify_builtin env inp now)"

definition decide_action :: "detect_env \<Rightarrow> error_input \<Rightarrow> time \<Rightarrow> action" where
  "decide_action env inp now = cd_action (classify_decision env inp now)"

section \<open>Decisions\<close>

definition legacy_to_decision :: "cooldown_decision \<Rightarrow> decision" where
  "legacy_to_decision cd =
     (let (retry, eff) =
            (case cd_action cd of
               ActionRetryKey \<Rightarrow> (RetryNextKey, EffectCoolKey)
             | ActionRetryModel \<Rightarrow>
                 (RetryNextChannel,
                  if cd_model_scoped cd \<and> cd_model cd \<noteq> '''' then EffectCoolModel
                  else EffectCoolChannel)
             | ActionRetryChannel \<Rightarrow> (RetryNextChannel, EffectCoolChannel)
             | ActionReturnClient \<Rightarrow> (RetryNone, EffectNone))
      in \<lparr>d_retry = retry, d_effect = eff,
          d_key_until = cd_key_until cd, d_has_key_until = cd_has_key_until cd,
          d_model_until = cd_model_until cd, d_has_model_until = cd_has_model_until cd,
          d_channel_until = cd_channel_until cd, d_has_channel_until = cd_has_channel_until cd,
          d_reason =
            (if cd_has_key_until cd \<and> cd_key_reason cd \<noteq> '''' then cd_key_reason cd
             else if cd_has_channel_until cd \<and> cd_channel_reason cd \<noteq> '''' then cd_channel_reason cd
             else []),
          d_model = cd_model cd, d_prevent_key_fallback = cd_prevent_key_fallback cd\<rparr>)"

definition decide :: "detect_env \<Rightarrow> error_input \<Rightarrow> time \<Rightarrow> decision" where
  "decide env inp now = legacy_to_decision (classify_decision env inp now)"

definition can_fallback_to_other_key :: "error_input \<Rightarrow> cooldown_decision \<Rightarrow> bool" where
  "can_fallback_to_other_key inp cd \<longleftrightarrow>
     in_key_index inp \<noteq> no_key_index \<and>
     (cd_action cd = ActionRetryModel \<or> cd_action cd = ActionRetryChannel) \<and>
     \<not> cd_prevent_key_fallback cd \<and> \<not> cd_has_channel_until cd"

definition key_fallback_decision :: "cooldown_decision \<Rightarrow> decision" where
  "key_fallback_decision cd =
     (let d = (plain_decision RetryNextKey EffectCoolKey)
                \<lparr>d_model := cd_model cd, d_prevent_key_fallback := cd_prevent_key_fallback cd\<rparr>;
          d = (if cd_has_model_until cd
                 then d\<lparr>d_key_until := cd_model_until cd, d_has_key_until := True\<rparr>
               else if cd_has_channel_until cd
                 then d\<lparr>d_key_until := cd_channel_until cd, d_has_key_until := True\<rparr>
               else d)
      in d\<lparr>d_model_until := cd_model_until cd, d_has_model_until := cd_has_model_until cd,
           d_channel_until := cd_channel_until cd, d_has_channel_until := cd_has_channel_until cd,
           d_reason :=
             (if cd_has_model_until cd \<or> cd_model_scoped cd then ''key_fallback_model''
              else if cd_has_channel_until cd then ''key_fallback_channel''
              else ''key_fallback'')\<rparr>)"

text \<open>The decision and whether the fallback was applied; the code's error result is always nil.\<close>

definition decide_with_key_fallback :: "detect_env \<Rightarrow> error_input \<Rightarrow> time \<Rightarrow> decision \<times> bool" where
  "decide_with_key_fallback env inp now =
     (let legacy = classify_decision env inp now in
      if can_fallback_to_other_key inp legacy then (key_fallback_decision legacy, True)
      else (legacy_to_decision legacy, False))"

section \<open>What every classification satisfies\<close>

text \<open>
  The shape of an internal decision: at most one precise instant, except that on a channel
  without keys the instant of a key is copied to the model; an instant for a channel excludes a
  model scope, and the action says what will be cooled.
\<close>

definition cd_ok :: "error_input \<Rightarrow> cooldown_decision \<Rightarrow> bool" where
  "cd_ok inp cd \<longleftrightarrow>
     (cd_has_channel_until cd \<longrightarrow> cd_action cd = ActionRetryChannel \<and> \<not> cd_has_key_until cd \<and>
        \<not> cd_has_model_until cd \<and> \<not> cd_model_scoped cd) \<and>
     (cd_has_model_until cd \<longrightarrow> cd_model_scoped cd \<and>
        (cd_has_key_until cd \<longrightarrow> in_key_index inp = no_key_index)) \<and>
     (cd_model_scoped cd \<longleftrightarrow> cd_action cd = ActionRetryModel) \<and>
     (cd_model_scoped cd \<longrightarrow> cd_model cd \<noteq> []) \<and>
     (cd_has_key_until cd \<longrightarrow> in_key_index inp \<noteq> no_key_index \<longrightarrow> cd_action cd = ActionRetryKey) \<and>
     (cd_action cd = ActionRetryKey \<longrightarrow> in_key_index inp \<noteq> no_key_index) \<and>
     (cd_prevent_key_fallback cd \<longrightarrow> cd_has_model_until cd)"

lemma scope_names [simp]:
  "cooldown_scope_model \<noteq> cooldown_scope_key" "cooldown_scope_channel \<noteq> cooldown_scope_key"
  "cooldown_scope_channel \<noteq> cooldown_scope_model" "cooldown_scope_key \<noteq> cooldown_scope_model"
  "cooldown_scope_key \<noteq> cooldown_scope_channel" "cooldown_scope_model \<noteq> cooldown_scope_channel"
  by (simp_all add: cooldown_scope_key_def cooldown_scope_model_def cooldown_scope_channel_def)

lemma configured_ok: "configured_cooldown_decision env inp now = Some cd \<Longrightarrow> cd_ok inp cd"
  by (auto simp: configured_cooldown_decision_def Let_def cd_ok_def blank_decision_def
      split: if_splits)

lemma network_ok:
  "in_is_network_error inp \<Longrightarrow> cd_ok inp (classify_builtin env inp now)"
  by (simp add: classify_builtin_def classify_network_error_def Let_def cd_ok_def
      blank_decision_def action_of_level_def)

lemma http_ok:
  assumes "\<not> in_is_network_error inp" and "zero_time \<le> now"
  shows "cd_ok inp (classify_builtin env inp now)"
proof -
  define c where "c = classify_http_response_with_meta_at (de_go env) (in_status_code inp)
    (in_headers inp) (in_error_body inp) now"
  have "classification_ok now c" unfolding c_def by (rule classification_ok_always [OF assms(2)])
  then show ?thesis
    using assms(1)
    by (auto simp: classify_builtin_def Let_def c_def [symmetric] cd_ok_def scope_to_model_def
        move_key_until_to_model_def copy_classification_def blank_decision_def
        classification_ok_def action_of_level_def split: error_level.splits)
qed

lemma classify_decision_ok: "zero_time \<le> now \<Longrightarrow> cd_ok inp (classify_decision env inp now)"
  using configured_ok network_ok http_ok
  by (auto simp: classify_decision_def split: option.split if_splits)

text \<open>The instants of a model and of a channel lie ahead, except one copied from a key.\<close>

lemma configured_ahead:
  assumes "configured_cooldown_decision env inp now = Some cd"
  shows "(cd_has_model_until cd \<longrightarrow> now < cd_model_until cd) \<and>
    (cd_has_channel_until cd \<longrightarrow> now < cd_channel_until cd)"
proof -
  let ?e = "evaluate_uncached env (in_detection_rules inp)
    (if in_upstream_status_code inp = 0 then in_status_code inp else in_upstream_status_code inp)
    (in_error_body inp) now"
  have "ev_actionable ?e \<longrightarrow> now < ev_cooldown_until ?e"
    using evaluate_uncached_actionable(1) by blast
  then show ?thesis
    using assms
    by (auto simp: configured_cooldown_decision_def blank_decision_def Let_def
        evaluate_detection_rules_eq [OF compile_detection_rules_Nil] split: if_splits)
qed

lemma builtin_ahead:
  assumes "zero_time \<le> now" and "in_key_index inp \<noteq> no_key_index"
  shows "(cd_has_model_until (classify_builtin env inp now) \<longrightarrow>
        now < cd_model_until (classify_builtin env inp now)) \<and>
    (cd_has_channel_until (classify_builtin env inp now) \<longrightarrow>
        now < cd_channel_until (classify_builtin env inp now))"
proof -
  define c where "c = classify_http_response_with_meta_at (de_go env) (in_status_code inp)
    (in_headers inp) (in_error_body inp) now"
  have "classification_ok now c" unfolding c_def by (rule classification_ok_always [OF assms(1)])
  then show ?thesis
    using assms(2)
    by (simp add: classify_builtin_def classify_network_error_def Let_def c_def [symmetric]
        scope_to_model_def move_key_until_to_model_def copy_classification_def blank_decision_def
        classification_ok_def soon_def)
qed

lemma classify_decision_ahead:
  assumes "zero_time \<le> now" and "in_key_index inp \<noteq> no_key_index"
  shows "(cd_has_model_until (classify_decision env inp now) \<longrightarrow>
        now < cd_model_until (classify_decision env inp now)) \<and>
    (cd_has_channel_until (classify_decision env inp now) \<longrightarrow>
        now < cd_channel_until (classify_decision env inp now))"
  using configured_ahead builtin_ahead [OF assms]
  by (auto simp: classify_decision_def split: option.split if_splits)

section \<open>Properties\<close>

text \<open>A failed attempt on key 0 of channel 7, for the concrete instances.\<close>

definition example_input :: "int \<Rightarrow> int \<Rightarrow> string \<Rightarrow> error_input" where
  "example_input status slot body = \<lparr>in_channel_id = 7, in_model = ''gpt'', in_channel_models = [],
     in_key_index = slot, in_status_code = status, in_upstream_status_code = 0,
     in_error_body = body, in_is_network_error = False, in_model_scoped = False,
     in_headers = None, in_detection_rules = None\<rparr>"

text \<open>Surroundings that read every body as \<open>{"code": "api_key_quota_exhausted"}\<close>.\<close>

definition quota_env :: detect_env where
  "quota_env = example_detect_env\<lparr>de_go := silent_env
     \<lparr>env_json := (\<lambda>s. Some (JObj [(''code'', JStr ''api_key_quota_exhausted'')]))\<rparr>\<rparr>"

lemma no_rules_no_decision [simp]:
  "in_detection_rules inp = None \<Longrightarrow> configured_cooldown_decision env inp now = None"
  by (simp add: configured_cooldown_decision_def evaluate_detection_rules_def rules_is_empty_def
      no_match_def Let_def split: prod.split)

lemma example_401:
  "classify_decision example_detect_env (example_input 401 0 []) now = blank_decision ActionRetryKey"
  by (simp add: classify_decision_def example_input_def classify_builtin_def Let_def
      classify_http_response_with_meta_at_def example_detect_env_def silent_env_parses_nothing
      status_constants is_model_scoped_stream_failure_def scope_to_model_def
      move_key_until_to_model_def copy_classification_def of_level_def blank_decision_def
      action_of_level_def no_key_index_def)

lemma quota_env_quota:
  "parse_structured_quota_error (de_go quota_env) body = Some
     \<lparr>qe_code = ''API_KEY_QUOTA_EXHAUSTED'', qe_message = [], qe_model = [], qe_reset_seconds = 0,
      qe_resets_at = 0, qe_reset_time = [], qe_status = [], qe_quota_reset_delay = [],
      qe_quota_reset_time_stamp = []\<rparr>"
proof -
  have "trim_space ''api_key_quota_exhausted'' = ''api_key_quota_exhausted''"
    by (simp add: trim_space_word plain_word_def plain_char_def)
  moreover have "to_upper ''api_key_quota_exhausted'' = ''API_KEY_QUOTA_EXHAUSTED''" by code_simp
  moreover have "to_upper [] = []" by (simp add: to_upper_def)
  ultimately show ?thesis
    by (simp add: parse_structured_quota_error_def quota_env_def silent_env_def
        example_detect_env_def dec_struct_def quota_response_field_def quota_payload_field_def
        empty_payload_def equal_fold_def to_lower_def to_lower_char_def normalize_structured_scalar_def structured_scalar_string_def)
qed

lemma quota_env_classifies:
  "classify_http_response_with_meta_at (de_go quota_env) 429 hs ''x'' now
     = key_until LevelKey (now + 30 * minute) ''API_KEY_QUOTA_EXHAUSTED''"
proof -
  have "parse_reset_time_from_1308_error (de_go quota_env) ''x'' now = None"
    by (simp add: parse_reset_time_from_1308_error_def parse_sse_error_def quota_env_def
        silent_env_def example_detect_env_def dec_struct_def sse_response_field_def equal_fold_def
        to_lower_def to_lower_char_def dec_string_def sse_error_type_def empty_detail_def)
  moreover have "\<not> is_websocket_connection_limit_error (de_go quota_env) ''x''"
    by (simp add: is_websocket_connection_limit_error_def quota_env_def silent_env_def
        example_detect_env_def dec_struct_def probe_field_def equal_fold_def to_lower_def
        to_lower_char_def is_websocket_connection_limit_value_def structured_scalar_string_def
        websocket_connection_limit_code_def trim_space_word plain_word_def plain_char_def)
  moreover have "parse_structured_quota_cooldown (de_go quota_env) ''x'' now
      = Some (now + 30 * minute, ''API_KEY_QUOTA_EXHAUSTED'', LevelKey)"
    by (simp add: parse_structured_quota_cooldown_def quota_env_quota to_upper_def Let_def)
  ultimately show ?thesis
    by (simp add: classify_http_response_with_meta_at_def status_constants quota_classification_def)
qed

text \<open>on a channel with keys the decision is always valid, as its validation defines it, unless
  a response names the zero time as the reset time of a key: at most one exact instant, a model
  name with every model effect, and no effect that cools something without a retry.\<close>

theorem keyed_decision_is_valid:
  assumes "zero_time \<le> now" and "in_key_index inp \<noteq> no_key_index"
    and "d_has_key_until (decide env inp now) \<longrightarrow> \<not> is_zero (d_key_until (decide env inp now))"
  shows "validate (decide env inp now) = None"
  using classify_decision_ok [OF assms(1), of inp env] classify_decision_ahead [OF assms(1,2), of env]
    assms
  by (cases "cd_action (classify_decision env inp now)")
    (auto simp: decide_def legacy_to_decision_def validate_def cd_ok_def cooldown_effects_def
      is_zero_def)

theorem keyed_decision_is_valid_witness:
  "validate (decide example_detect_env (example_input 401 0 []) 0) = None"
  using keyed_decision_is_valid [of 0 "example_input 401 0 []" example_detect_env]
  by (simp add: zero_time_def example_input_def no_key_index_def decide_def
      example_401 [unfolded example_input_def] legacy_to_decision_def blank_decision_def)

text \<open>the decision says the same as the deprecated action it replaces: converting it back gives
  the action of the classification, and it retries the next key exactly when it cools the key.\<close>

theorem decision_agrees_with_action:
  assumes "zero_time \<le> now"
  shows "to_legacy_action (decide env inp now) = decide_action env inp now \<and>
    (d_retry (decide env inp now) = RetryNextKey \<longleftrightarrow> d_effect (decide env inp now) = EffectCoolKey) \<and>
    (d_effect (decide env inp now) = EffectNone \<longleftrightarrow> d_retry (decide env inp now) = RetryNone)"
  using classify_decision_ok [OF assms, of inp env]
  by (auto simp: decide_def decide_action_def legacy_to_decision_def to_legacy_action_def cd_ok_def
      split: action.split)

theorem decision_agrees_with_action_witness:
  "to_legacy_action (decide example_detect_env (example_input 401 0 []) 0) = ActionRetryKey"
  using decision_agrees_with_action [of 0 example_detect_env "example_input 401 0 []"]
  by (simp add: zero_time_def decide_action_def example_401 blank_decision_def)

text \<open>on a channel without keys (\<open>NoKeyIndex\<close>) a quota error with an exact reset time of a key
  produces a decision that the validation rejects: the instant is copied to the model and kept
  for the key, so the decision has two cooldowns.  It still cools the model only.\<close>

theorem oauth_quota_decision_is_invalid:
  assumes "in_key_index inp = no_key_index" and "\<not> in_is_network_error inp"
    and "in_detection_rules inp = None" and "trim_space (in_model inp) \<noteq> []"
    and "zero_time \<le> now"
    and "rc_has_key_cooldown_until (classify_http_response_with_meta_at (de_go env)
           (in_status_code inp) (in_headers inp) (in_error_body inp) now)"
  shows "validate (decide env inp now) = Some MoreThanOneCooldown \<and>
    d_effect (decide env inp now) = EffectCoolModel \<and>
    d_model_until (decide env inp now) = d_key_until (decide env inp now)"
proof -
  define c where "c = classify_http_response_with_meta_at (de_go env) (in_status_code inp)
    (in_headers inp) (in_error_body inp) now"
  have "classification_ok now c" unfolding c_def by (rule classification_ok_always [OF assms(5)])
  then show ?thesis
    using assms
    by (simp add: decide_def classify_decision_def classify_builtin_def c_def [symmetric] Let_def
        scope_to_model_def move_key_until_to_model_def copy_classification_def blank_decision_def
        classification_ok_def legacy_to_decision_def validate_def cooldown_effects_def)
qed

theorem oauth_quota_decision_is_invalid_witness:
  "validate (decide quota_env (example_input 429 no_key_index ''x'') 0) = Some MoreThanOneCooldown"
proof -
  have "trim_space ''gpt'' = ''gpt''" by (simp add: trim_space_word plain_word_def plain_char_def)
  then show ?thesis
    using oauth_quota_decision_is_invalid [of "example_input 429 no_key_index ''x''" 0 quota_env]
    by (simp add: example_input_def quota_env_classifies key_until_def zero_time_def)
qed

text \<open>the key fallback applies only to a failure of the model or of the channel that no exact
  instant of the channel and no ban on other keys accompanies; it then retries the next key and
  cools the current one, until the model's reset time when there is one.  A decision with such a
  reset time is not valid by the code's own validation.\<close>

theorem key_fallback_shape:
  "let cd = classify_decision env inp now; r = decide_with_key_fallback env inp now in
   (snd r \<longrightarrow> in_key_index inp \<noteq> no_key_index \<and> \<not> d_has_channel_until (fst r) \<and>
      \<not> d_prevent_key_fallback (fst r) \<and>
      d_retry (fst r) = RetryNextKey \<and> d_effect (fst r) = EffectCoolKey \<and>
      d_has_key_until (fst r) = cd_has_model_until cd \<and>
      (cd_has_model_until cd \<longrightarrow> d_key_until (fst r) = cd_model_until cd \<and>
         validate (fst r) = Some MoreThanOneCooldown)) \<and>
   (\<not> snd r \<longrightarrow> fst r = decide env inp now)"
  by (simp add: decide_with_key_fallback_def decide_def can_fallback_to_other_key_def
      key_fallback_decision_def plain_decision_def validate_def cooldown_effects_def Let_def)

theorem key_fallback_shape_witness:
  "decide_with_key_fallback example_detect_env ((example_input 502 0 [])\<lparr>in_is_network_error := True\<rparr>) 0
     = ((plain_decision RetryNextKey EffectCoolKey)\<lparr>d_reason := ''key_fallback''\<rparr>, True)"
proof -
  let ?i = "(example_input 502 0 [])\<lparr>in_is_network_error := True\<rparr>"
  have c: "classify_decision example_detect_env ?i 0 = blank_decision ActionRetryChannel"
    by (simp add: classify_decision_def classify_builtin_def classify_network_error_def
        example_input_def is_model_scoped_stream_failure_def status_constants blank_decision_def
        action_of_level_def)
  have i: "in_key_index ?i = 0" by (simp add: example_input_def)
  have f: "decide_with_key_fallback example_detect_env ?i 0
      = (key_fallback_decision (blank_decision ActionRetryChannel), True)"
    by (simp add: decide_with_key_fallback_def c can_fallback_to_other_key_def i no_key_index_def)
      (simp add: blank_decision_def)
  then have "snd (decide_with_key_fallback example_detect_env ?i 0)" by simp
  then have "d_retry (fst (decide_with_key_fallback example_detect_env ?i 0)) = RetryNextKey"
    using key_fallback_shape [of example_detect_env ?i 0] by (simp add: Let_def)
  then show ?thesis
    by (simp add: f) (simp add: key_fallback_decision_def blank_decision_def plain_decision_def)
qed

end
