(* ===== verification/Cooldown_Manager.thy ===== *)
theory Cooldown_Manager
  imports Cooldown_Tables Cooldown_Decision
begin

text \<open>
  The cooldown manager, \<open>internal/cooldown/manager.go\<close> and
  \<open>manager_decide_with_key_fallback.go\<close>: it carries a decision out on the cooldown tables, once
  through the deprecated entry points (\<open>HandleError\<close>, \<open>HandleErrorWithKeyFallback\<close>) and once
  through \<open>Decide\<close> and \<open>ApplyEffect\<close>, and turns the cooldown of the last usable key or model of
  a channel into a cooldown of the channel.

  \<open>manager_env\<close> holds the manager's surroundings: the clock readings of one call in the order
  they are taken, the channel configuration behind \<open>ConfigGetter\<close>, and which store calls
  succeed.  A store call that fails leaves the store as it was and is only logged.
\<close>

section \<open>Surroundings\<close>

datatype store_call =
  CallSetKey | CallBumpKey | CallSetModel | CallBumpModel | CallSetChannel | CallBumpChannel
| CallResetAll | CallResetKey | CallResetModel | CallResetChannel
| CallGetKeys | CallGetModels | CallPromote

record manager_env =
  mgr_detect :: detect_env
  mgr_decided_at :: time
  mgr_applied_at :: time
  mgr_stored_at :: time
  mgr_promoted_at :: time
  mgr_queried_at :: time
  mgr_get_config :: "int \<Rightarrow> config option"
  mgr_store_ok :: "store_call \<Rightarrow> bool"

text \<open>The effect of a call whose error is only logged.\<close>

definition tolerate ::
    "manager_env \<Rightarrow> store_call \<Rightarrow> cooldown_store \<Rightarrow> store_error + cooldown_store \<Rightarrow> cooldown_store" where
  "tolerate env call s result =
     (if mgr_store_ok env call then (case result of Inl e \<Rightarrow> s | Inr s' \<Rightarrow> s') else s)"

definition store_of :: "store_error + duration \<times> cooldown_store \<Rightarrow> store_error + cooldown_store" where
  "store_of r = (case r of Inl e \<Rightarrow> Inl e | Inr p \<Rightarrow> Inr (snd p))"

section \<open>Promotion of exhausted resources\<close>

text \<open>The loop that finds the earliest of the instants and stops at one that is not ahead.\<close>

primrec scan_until :: "time option list \<Rightarrow> time \<Rightarrow> time \<Rightarrow> time option" where
  "scan_until [] now earliest = Some earliest"
| "scan_until (u # us) now earliest =
     (case u of
        None \<Rightarrow> None
      | Some until \<Rightarrow>
          if \<not> until > now then None
          else scan_until us now (if is_zero earliest \<or> until < earliest then until else earliest))"

definition all_enabled_keys_cooldown_until ::
    "manager_env \<Rightarrow> cooldown_store \<Rightarrow> int \<Rightarrow> time \<Rightarrow> time option" where
  "all_enabled_keys_cooldown_until env s channel now =
     (if \<not> mgr_store_ok env CallGetKeys then None
      else let enabled = filter (\<lambda>k. \<not> ak_disabled k) (get_api_keys s channel)
           in case scan_until (map (\<lambda>k. Some (unix_to_time (ak_cooldown_until k))) enabled)
                     now zero_time of
                None \<Rightarrow> None
              | Some earliest \<Rightarrow>
                  if enabled \<noteq> [] \<and> \<not> is_zero earliest then Some earliest else None)"

definition normalize_model_keys :: "string list \<Rightarrow> string list" where
  "normalize_model_keys models =
     dedup_by id (filter (\<lambda>m. m \<noteq> '''') (map trim_space models))"

definition configured_model_keys :: "manager_env \<Rightarrow> int \<Rightarrow> string list" where
  "configured_model_keys env channel =
     (case mgr_get_config env channel of
        None \<Rightarrow> []
      | Some cfg \<Rightarrow> normalize_model_keys
          (map (\<lambda>e. let m = trim_space (me_redirect_model e)
                    in if m = '''' then trim_space (me_model e) else m) (cfg_model_entries cfg)))"

definition channel_model_keys :: "manager_env \<Rightarrow> int \<Rightarrow> string list \<Rightarrow> string list" where
  "channel_model_keys env channel models =
     (let keys = normalize_model_keys models
      in if keys = [] then configured_model_keys env channel else keys)"

definition all_configured_models_cooldown_until ::
    "manager_env \<Rightarrow> cooldown_store \<Rightarrow> int \<Rightarrow> string list \<Rightarrow> time \<Rightarrow> time option" where
  "all_configured_models_cooldown_until env s channel channel_models now =
     (let models = channel_model_keys env channel channel_models in
      if models = [] then None
      else if \<not> mgr_store_ok env CallGetModels then None
      else case scan_until
                  (map (get_all_model_cooldowns s (mgr_queried_at env) channel) models)
                  now zero_time of
             None \<Rightarrow> None
           | Some earliest \<Rightarrow> if is_zero earliest then None else Some earliest)"

definition promote_exhausted_resources ::
    "manager_env \<Rightarrow> int \<Rightarrow> string list \<Rightarrow> cooldown_store \<Rightarrow> bool \<times> cooldown_store" where
  "promote_exhausted_resources env channel channel_models s =
     (let now = mgr_promoted_at env;
          keys = all_enabled_keys_cooldown_until env s channel now;
          models = all_configured_models_cooldown_until env s channel channel_models now;
          promote = (\<lambda>until. (True, tolerate env CallPromote s
                       (Inr (set_channel_cooldown s channel until (mgr_stored_at env)))))
      in case (keys, models) of
           (None, None) \<Rightarrow> (False, s)
         | (Some k, None) \<Rightarrow> promote k
         | (None, Some m) \<Rightarrow> promote m
         | (Some k, Some m) \<Rightarrow> promote (if m > k then m else k))"

section \<open>Applying the effect of a decision\<close>

definition cool_key ::
    "manager_env \<Rightarrow> int \<Rightarrow> int \<Rightarrow> int \<Rightarrow> time option \<Rightarrow> cooldown_store \<Rightarrow> cooldown_store" where
  "cool_key env channel key_index status until s =
     (case until of
        Some u \<Rightarrow> tolerate env CallSetKey s
          (Inr (set_key_cooldown s channel key_index u (mgr_stored_at env)))
      | None \<Rightarrow> tolerate env CallBumpKey s
          (store_of (bump_key_cooldown s channel key_index (mgr_applied_at env) status)))"

definition cool_model ::
    "manager_env \<Rightarrow> int \<Rightarrow> string \<Rightarrow> int \<Rightarrow> time option \<Rightarrow> cooldown_store \<Rightarrow> cooldown_store" where
  "cool_model env channel model_name status until s =
     (case until of
        Some u \<Rightarrow> tolerate env CallSetModel s
          (set_model_cooldown s channel model_name u (mgr_stored_at env))
      | None \<Rightarrow> tolerate env CallBumpModel s
          (store_of (bump_model_cooldown s channel model_name (mgr_applied_at env) status)))"

definition cool_channel ::
    "manager_env \<Rightarrow> int \<Rightarrow> int \<Rightarrow> time option \<Rightarrow> cooldown_store \<Rightarrow> cooldown_store" where
  "cool_channel env channel status until s =
     (case until of
        Some u \<Rightarrow> tolerate env CallSetChannel s
          (Inr (set_channel_cooldown s channel u (mgr_stored_at env)))
      | None \<Rightarrow> tolerate env CallBumpChannel s
          (store_of (bump_channel_cooldown s channel (mgr_applied_at env) status)))"

definition has_until :: "bool \<Rightarrow> time \<Rightarrow> time option" where
  "has_until has t = (if has then Some t else None)"

definition apply_effect ::
    "manager_env \<Rightarrow> decision \<Rightarrow> int \<Rightarrow> int \<Rightarrow> int \<Rightarrow> cooldown_store \<Rightarrow> bool \<times> cooldown_store" where
  "apply_effect env d channel key_index status s =
     (case d_effect d of
        EffectNone \<Rightarrow> (False, s)
      | EffectCoolKey \<Rightarrow>
          if key_index = no_key_index then (False, s)
          else promote_exhausted_resources env channel []
                 (cool_key env channel key_index status (has_until (d_has_key_until d) (d_key_until d)) s)
      | EffectCoolModel \<Rightarrow>
          if d_model d = '''' then (False, s)
          else promote_exhausted_resources env channel []
                 (cool_model env channel (d_model d) status
                    (has_until (d_has_model_until d) (d_model_until d)) s)
      | EffectCoolChannel \<Rightarrow>
          (False, cool_channel env channel status
                    (has_until (d_has_channel_until d) (d_channel_until d)) s)
      | EffectClearCooldowns \<Rightarrow>
          (False, tolerate env CallResetAll s
                    (Inr (reset_all_cooldowns s channel (mgr_stored_at env))))
      | EffectClearKeyCooldown \<Rightarrow>
          if key_index = no_key_index then (False, s)
          else (False, tolerate env CallResetKey s
                         (Inr (reset_key_cooldown s channel key_index (mgr_stored_at env))))
      | EffectClearModelCooldown \<Rightarrow>
          if d_model d = '''' then (False, s)
          else (False, tolerate env CallResetModel s (reset_model_cooldown s channel (d_model d)))
      | EffectClearChannelCooldown \<Rightarrow>
          (False, tolerate env CallResetChannel s
                    (Inr (reset_channel_cooldown s channel (mgr_stored_at env))))
      | EffectRecordFailure \<Rightarrow> (False, s))"

definition apply_effect_with_key_fallback ::
    "manager_env \<Rightarrow> error_input \<Rightarrow> cooldown_store \<Rightarrow> decision \<times> bool \<times> cooldown_store" where
  "apply_effect_with_key_fallback env inp s =
     (case decide_with_key_fallback (mgr_detect env) inp (mgr_decided_at env) of
        (d, fallback) \<Rightarrow>
          (case apply_effect env d (in_channel_id inp) (in_key_index inp) (in_status_code inp) s of
             (exhausted, s') \<Rightarrow>
               ((if exhausted then d\<lparr>d_retry := RetryNextChannel\<rparr> else d), fallback, s')))"

section \<open>The deprecated entry points\<close>

definition promoted_action :: "action \<Rightarrow> bool \<times> cooldown_store \<Rightarrow> action \<times> cooldown_store" where
  "promoted_action a r = ((if fst r then ActionRetryChannel else a), snd r)"

definition handle_error_decision ::
    "manager_env \<Rightarrow> error_input \<Rightarrow> cooldown_decision \<Rightarrow> cooldown_store \<Rightarrow> action \<times> cooldown_store" where
  "handle_error_decision env inp cd s =
     (let channel = in_channel_id inp; key_index = in_key_index inp; status = in_status_code inp in
      case cd_action cd of
        ActionReturnClient \<Rightarrow> (ActionReturnClient, s)
      | ActionRetryKey \<Rightarrow>
          promoted_action ActionRetryKey
            (promote_exhausted_resources env channel (in_channel_models inp)
               (if key_index = no_key_index then s
                else cool_key env channel key_index status
                       (has_until (cd_has_key_until cd) (cd_key_until cd)) s))
      | ActionRetryModel \<Rightarrow>
          if cd_model cd = '''' then (ActionRetryModel, s)
          else promoted_action ActionRetryModel
            (promote_exhausted_resources env channel (in_channel_models inp)
               (cool_model env channel (cd_model cd) status
                  (has_until (cd_has_model_until cd) (cd_model_until cd)) s))
      | ActionRetryChannel \<Rightarrow>
          (ActionRetryChannel, cool_channel env channel status
             (has_until (cd_has_channel_until cd) (cd_channel_until cd)) s))"

definition handle_error ::
    "manager_env \<Rightarrow> error_input \<Rightarrow> cooldown_store \<Rightarrow> action \<times> cooldown_store" where
  "handle_error env inp s =
     handle_error_decision env inp (classify_decision (mgr_detect env) inp (mgr_decided_at env)) s"

definition handle_key_fallback ::
    "manager_env \<Rightarrow> error_input \<Rightarrow> cooldown_decision \<Rightarrow> cooldown_store \<Rightarrow> action \<times> cooldown_store" where
  "handle_key_fallback env inp cd s =
     promoted_action ActionRetryKey
       (promote_exhausted_resources env (in_channel_id inp) (in_channel_models inp)
          (cool_key env (in_channel_id inp) (in_key_index inp) (in_status_code inp)
             (has_until (cd_has_model_until cd) (cd_model_until cd)) s))"

definition handle_error_with_key_fallback ::
    "manager_env \<Rightarrow> error_input \<Rightarrow> cooldown_store \<Rightarrow> action \<times> cooldown_store" where
  "handle_error_with_key_fallback env inp s =
     (let cd = classify_decision (mgr_detect env) inp (mgr_decided_at env) in
      if can_fallback_to_other_key inp cd then handle_key_fallback env inp cd s
      else handle_error_decision env inp cd s)"

section \<open>The scan\<close>

lemma scan_until_Some:
  assumes "zero_time \<le> now"
  shows "scan_until us now e = Some r \<longleftrightarrow>
    (\<forall>u \<in> set us. \<exists>t. u = Some t \<and> now < t) \<and>
    r = (if us = [] then e
         else if is_zero e then Min (the ` set us) else Min (insert e (the ` set us)))"
proof (induction us arbitrary: e)
  case (Cons u us)
  show ?case
  proof (cases u)
    case (Some t)
    show ?thesis
    proof (cases "now < t")
      case True
      then have nz: "\<not> is_zero t" using assms by (simp add: is_zero_def)
      show ?thesis
        using Cons.IH [of "if is_zero e \<or> t < e then t else e"] nz True
        by (auto simp: Some min_def insert_commute)
    qed (simp add: Some)
  qed simp
qed auto

lemma scan_from_zero:
  assumes "zero_time \<le> now" and "us \<noteq> []"
  shows "scan_until us now zero_time = Some r \<longleftrightarrow>
    (\<forall>u \<in> set us. \<exists>t. u = Some t \<and> now < t) \<and> r = Min (the ` set us)"
  using assms by (simp add: scan_until_Some is_zero_def)

lemma scan_from_zero_after:
  assumes "zero_time \<le> now" and "us \<noteq> []" and "scan_until us now zero_time = Some r"
  shows "now < r" and "\<not> is_zero r"
proof -
  have "Min (the ` set us) \<in> the ` set us" using assms(2) by (intro Min_in) auto
  then show "now < r"
    using assms(3) by (auto simp: scan_from_zero [OF assms(1,2)])
  then show "\<not> is_zero r" using assms(1) by (simp add: is_zero_def)
qed

section \<open>When a channel is exhausted\<close>

definition enabled_keys :: "cooldown_store \<Rightarrow> int \<Rightarrow> api_key_row list" where
  "enabled_keys s channel = filter (\<lambda>k. \<not> ak_disabled k) (get_api_keys s channel)"

definition keys_exhausted :: "cooldown_store \<Rightarrow> int \<Rightarrow> time \<Rightarrow> bool" where
  "keys_exhausted s channel now \<longleftrightarrow>
     enabled_keys s channel \<noteq> [] \<and>
     (\<forall>k \<in> set (enabled_keys s channel). now < unix_to_time (ak_cooldown_until k))"

definition earliest_key :: "cooldown_store \<Rightarrow> int \<Rightarrow> time" where
  "earliest_key s channel =
     Min ((\<lambda>k. unix_to_time (ak_cooldown_until k)) ` set (enabled_keys s channel))"

definition models_exhausted ::
    "manager_env \<Rightarrow> cooldown_store \<Rightarrow> int \<Rightarrow> string list \<Rightarrow> time \<Rightarrow> bool" where
  "models_exhausted env s channel models now \<longleftrightarrow>
     channel_model_keys env channel models \<noteq> [] \<and>
     (\<forall>m \<in> set (channel_model_keys env channel models).
        \<exists>u. get_all_model_cooldowns s (mgr_queried_at env) channel m = Some u \<and> now < u)"

definition earliest_model ::
    "manager_env \<Rightarrow> cooldown_store \<Rightarrow> int \<Rightarrow> string list \<Rightarrow> time" where
  "earliest_model env s channel models =
     Min ((\<lambda>m. the (get_all_model_cooldowns s (mgr_queried_at env) channel m)) `
       set (channel_model_keys env channel models))"

lemma all_enabled_keys_spec:
  assumes "mgr_store_ok env CallGetKeys" and "zero_time \<le> now"
  shows "all_enabled_keys_cooldown_until env s channel now =
    (if keys_exhausted s channel now then Some (earliest_key s channel) else None)"
proof (cases "enabled_keys s channel = []")
  case True
  then show ?thesis
    using assms(1) by (simp add: all_enabled_keys_cooldown_until_def enabled_keys_def keys_exhausted_def Let_def
        split: option.split)
next
  case False
  let ?us = "map (\<lambda>k. Some (unix_to_time (ak_cooldown_until k))) (enabled_keys s channel)"
  have ne: "?us \<noteq> []" using False by simp
  have im: "the ` set ?us = (\<lambda>k. unix_to_time (ak_cooldown_until k)) ` set (enabled_keys s channel)"
    by (simp add: image_image)
  have "scan_until ?us now zero_time =
      (if keys_exhausted s channel now then Some (earliest_key s channel) else None)"
  proof (cases "scan_until ?us now zero_time")
    case None
    then have "\<not> keys_exhausted s channel now"
      using scan_from_zero [OF assms(2) ne] by (auto simp: keys_exhausted_def)
    with None show ?thesis by simp
  next
    case (Some r)
    then show ?thesis
      using scan_from_zero [OF assms(2) ne, of r] False
      by (simp add: keys_exhausted_def earliest_key_def image_image)
  qed
  moreover have "\<not> is_zero (earliest_key s channel)" if "keys_exhausted s channel now"
    using that calculation scan_from_zero_after(2) [OF assms(2) ne] by simp
  ultimately show ?thesis
    using assms(1) False
    by (simp add: all_enabled_keys_cooldown_until_def enabled_keys_def [symmetric] Let_def)
qed

lemma all_configured_models_spec:
  assumes "mgr_store_ok env CallGetModels" and "zero_time \<le> now"
  shows "all_configured_models_cooldown_until env s channel models now =
    (if models_exhausted env s channel models now then Some (earliest_model env s channel models)
     else None)"
proof (cases "channel_model_keys env channel models = []")
  case True
  then show ?thesis
    by (simp add: all_configured_models_cooldown_until_def models_exhausted_def Let_def)
next
  case False
  let ?us = "map (get_all_model_cooldowns s (mgr_queried_at env) channel)
    (channel_model_keys env channel models)"
  have ne: "?us \<noteq> []" using False by simp
  have "scan_until ?us now zero_time = (if models_exhausted env s channel models now
      then Some (earliest_model env s channel models) else None)"
  proof (cases "scan_until ?us now zero_time")
    case None
    then have "\<not> models_exhausted env s channel models now"
      using scan_from_zero [OF assms(2) ne] by (auto simp: models_exhausted_def)
    with None show ?thesis by simp
  next
    case (Some r)
    then show ?thesis
      using scan_from_zero [OF assms(2) ne, of r] False
      by (simp add: models_exhausted_def earliest_model_def image_image)
  qed
  moreover have "\<not> is_zero (earliest_model env s channel models)"
    if "models_exhausted env s channel models now"
    using that calculation scan_from_zero_after(2) [OF assms(2) ne] by simp
  ultimately show ?thesis
    using assms(1) False by (simp add: all_configured_models_cooldown_until_def Let_def)
qed

text \<open>Promotion, with the channel's new end: the later of the two earliest ends.\<close>

definition promoted_until ::
    "manager_env \<Rightarrow> cooldown_store \<Rightarrow> int \<Rightarrow> string list \<Rightarrow> time \<Rightarrow> time" where
  "promoted_until env s channel models now =
     (if keys_exhausted s channel now \<and> models_exhausted env s channel models now
        then max (earliest_key s channel) (earliest_model env s channel models)
      else if keys_exhausted s channel now then earliest_key s channel
      else earliest_model env s channel models)"

lemma promote_spec:
  assumes "mgr_store_ok env CallGetKeys" "mgr_store_ok env CallGetModels"
    and "zero_time \<le> mgr_promoted_at env"
  shows "promote_exhausted_resources env channel models s =
    (let now = mgr_promoted_at env in
     if keys_exhausted s channel now \<or> models_exhausted env s channel models now then
       (True, if mgr_store_ok env CallPromote
              then set_channel_cooldown s channel (promoted_until env s channel models now)
                     (mgr_stored_at env)
              else s)
     else (False, s))"
  using assms
  by (simp add: promote_exhausted_resources_def all_enabled_keys_spec all_configured_models_spec
      promoted_until_def tolerate_def Let_def max_def)

section \<open>What a call leaves alone\<close>

text \<open>Two stores that agree on every channel but one.\<close>

definition agree_except :: "int \<Rightarrow> cooldown_store \<Rightarrow> cooldown_store \<Rightarrow> bool" where
  "agree_except channel s s' \<longleftrightarrow>
     (\<forall>c. c \<noteq> channel \<longrightarrow> channel_cell s' c = channel_cell s c \<and>
        (\<forall>k. key_cell s' (c, k) = key_cell s (c, k)) \<and>
        (\<forall>m. model_cell s' (c, m) = model_cell s (c, m)))"

lemma agree_except_refl [simp]: "agree_except channel s s"
  by (simp add: agree_except_def)

lemma agree_except_trans:
  "agree_except channel s s' \<Longrightarrow> agree_except channel s' s'' \<Longrightarrow> agree_except channel s s''"
  by (simp add: agree_except_def)

lemma agree_exceptI:
  assumes "\<And>c. c \<noteq> channel \<Longrightarrow> channel_cell s' c = channel_cell s c"
    and "\<And>c k. c \<noteq> channel \<Longrightarrow> key_cell s' (c, k) = key_cell s (c, k)"
    and "\<And>c m. c \<noteq> channel \<Longrightarrow> model_cell s' (c, m) = model_cell s (c, m)"
  shows "agree_except channel s s'"
  using assms by (simp add: agree_except_def)

text \<open>Every table operation touches its own table only.\<close>

lemma cells_cong:
  "channels_table s' = channels_table s \<Longrightarrow> channel_cell s' c = channel_cell s c"
  "api_keys_table s' = api_keys_table s \<Longrightarrow> key_cell s' k = key_cell s k"
  "model_cooldowns_table s' = model_cooldowns_table s \<Longrightarrow> model_cell s' m = model_cell s m"
  by (simp_all add: channel_cell_def key_cell_def model_cell_def)

lemma channel_op_tables:
  "api_keys_table (set_channel_cooldown s c u now) = api_keys_table s"
  "model_cooldowns_table (set_channel_cooldown s c u now) = model_cooldowns_table s"
  "api_keys_table (reset_channel_cooldown s c now) = api_keys_table s"
  "model_cooldowns_table (reset_channel_cooldown s c now) = model_cooldowns_table s"
  "bump_channel_cooldown s c now code = Inr (d, s') \<Longrightarrow>
     api_keys_table s' = api_keys_table s \<and> model_cooldowns_table s' = model_cooldowns_table s"
  by (auto simp: channel_ops Let_def split: option.splits)

lemma key_op_tables:
  "channels_table (set_key_cooldown s c k u now) = channels_table s"
  "model_cooldowns_table (set_key_cooldown s c k u now) = model_cooldowns_table s"
  "channels_table (reset_key_cooldown s c k now) = channels_table s"
  "model_cooldowns_table (reset_key_cooldown s c k now) = model_cooldowns_table s"
  "bump_key_cooldown s c k now code = Inr (d, s') \<Longrightarrow>
     channels_table s' = channels_table s \<and> model_cooldowns_table s' = model_cooldowns_table s"
  by (auto simp: key_ops Let_def split: option.splits)

lemma model_op_tables:
  "set_model_cooldown s c m u now = Inr s' \<Longrightarrow>
     channels_table s' = channels_table s \<and> api_keys_table s' = api_keys_table s"
  "reset_model_cooldown s c m = Inr s' \<Longrightarrow>
     channels_table s' = channels_table s \<and> api_keys_table s' = api_keys_table s"
  "bump_model_cooldown s c m now code = Inr (d, s') \<Longrightarrow>
     channels_table s' = channels_table s \<and> api_keys_table s' = api_keys_table s"
  by (auto simp: set_model_cooldown_def reset_model_cooldown_def bump_model_cooldown_def Let_def
      dest: insert_model_row_frame split: sum.splits option.splits)

lemma agree_channel_op:
  assumes "api_keys_table s' = api_keys_table s" "model_cooldowns_table s' = model_cooldowns_table s"
    and "\<And>c. channel \<noteq> c \<Longrightarrow> channel_cell s' c = channel_cell s c"
  shows "agree_except channel s s'"
  using assms(3) by (intro agree_exceptI cells_cong(2,3) assms(1,2)) metis

lemma agree_key_op:
  assumes "channels_table s' = channels_table s" "model_cooldowns_table s' = model_cooldowns_table s"
    and "\<And>k'. (channel, k) \<noteq> k' \<Longrightarrow> key_cell s' k' = key_cell s k'"
  shows "agree_except channel s s'"
  using assms(3) by (intro agree_exceptI cells_cong(1,3) assms(1,2)) simp

lemma agree_model_op:
  assumes "channels_table s' = channels_table s" "api_keys_table s' = api_keys_table s"
    and "\<And>k'. \<not> same_model (channel, m) k' \<Longrightarrow> model_cell s' k' = model_cell s k'"
  shows "agree_except channel s s'"
  using assms(3) by (intro agree_exceptI cells_cong(1,2) assms(1,2)) (simp add: same_model_def)

lemma set_channel_agree [simp]: "agree_except channel s (set_channel_cooldown s channel u now)"
  by (intro agree_channel_op channel_op_tables channel_cooldowns.set_frame [OF refl])

lemma bump_channel_agree:
  "bump_channel_cooldown s channel now code = Inr (d, s') \<Longrightarrow> agree_except channel s s'"
  by (intro agree_channel_op channel_cooldowns.bump_frame) (simp_all add: channel_op_tables(5))

lemma reset_channel_agree [simp]: "agree_except channel s (reset_channel_cooldown s channel now)"
  by (intro agree_channel_op channel_op_tables channel_cooldowns.reset_frame [OF refl])

lemma set_key_agree [simp]: "agree_except channel s (set_key_cooldown s channel k u now)"
  by (intro agree_key_op [where k = k] key_op_tables
      key_cooldowns.set_frame [where k = "(channel, k)", simplified, OF refl])

lemma bump_key_agree:
  "bump_key_cooldown s channel k now code = Inr (d, s') \<Longrightarrow> agree_except channel s s'"
  by (intro agree_key_op [where k = k]
      key_cooldowns.bump_frame [where k = "(channel, k)" and now = now and c = code])
    (simp_all add: key_op_tables(5))

lemma reset_key_agree [simp]: "agree_except channel s (reset_key_cooldown s channel k now)"
  by (intro agree_key_op [where k = k] key_op_tables
      key_cooldowns.reset_frame [where k = "(channel, k)", simplified, OF refl])

lemma set_model_agree:
  "set_model_cooldown s channel m u now = Inr s' \<Longrightarrow> agree_except channel s s'"
  by (intro agree_model_op [where m = m]
      model_cooldowns.set_frame [where k = "(channel, m)" and until = u and now = now])
    (simp_all add: model_op_tables(1))

lemma bump_model_agree:
  "bump_model_cooldown s channel m now code = Inr (d, s') \<Longrightarrow> agree_except channel s s'"
  by (intro agree_model_op [where m = m]
      model_cooldowns.bump_frame [where k = "(channel, m)" and now = now and c = code])
    (simp_all add: model_op_tables(3))

lemma reset_model_agree:
  "reset_model_cooldown s channel m = Inr s' \<Longrightarrow> agree_except channel s s'"
  by (intro agree_model_op [where m = m]
      model_cooldowns.reset_frame [where k = "(channel, m)"])
    (simp_all add: model_op_tables(2))

lemma reset_all_agree [simp]: "agree_except channel s (reset_all_cooldowns s channel now)"
proof (rule agree_exceptI)
  fix c assume c: "c \<noteq> channel"
  show "channel_cell (reset_all_cooldowns s channel now) c = channel_cell s c"
    using c by (simp add: channel_cell_def reset_all_cooldowns_def)
  show "key_cell (reset_all_cooldowns s channel now) (c, k) = key_cell s (c, k)" for k
    unfolding key_cell_def reset_all_cooldowns_def
    using c by (simp, subst find_update_where_other) (auto simp: is_key_row_def)
  show "model_cell (reset_all_cooldowns s channel now) (c, m) = model_cell s (c, m)" for m
    unfolding model_cell_def reset_all_cooldowns_def
    using c by (simp, subst find_filter_keep) (auto simp: is_model_row_def)
qed

lemma tolerate_agree:
  assumes "\<And>s'. r = Inr s' \<Longrightarrow> agree_except channel s s'"
  shows "agree_except channel s (tolerate env call s r)"
  using assms by (auto simp: tolerate_def split: sum.split)

lemma store_of_Inr: "store_of r = Inr s' \<longleftrightarrow> (\<exists>d. r = Inr (d, s'))"
  by (auto simp: store_of_def split: sum.splits)

lemma cool_agree [simp]:
  "agree_except channel s (cool_key env channel k status u s)"
  "agree_except channel s (cool_model env channel m status u s)"
  "agree_except channel s (cool_channel env channel status u s)"
  by (auto simp: cool_key_def cool_model_def cool_channel_def store_of_Inr
      intro!: tolerate_agree dest: bump_key_agree bump_channel_agree set_model_agree
        bump_model_agree split: option.split)

lemma promote_agree [simp]:
  "agree_except channel s (snd (promote_exhausted_resources env channel models s))"
  by (auto simp: promote_exhausted_resources_def Let_def intro!: tolerate_agree split: option.split)

lemma cool_promote_agree:
  assumes "agree_except channel s s1"
  shows "agree_except channel s (snd (promote_exhausted_resources env channel models s1))"
  using assms promote_agree by (rule agree_except_trans)

lemma apply_effect_agree:
  "agree_except channel s (snd (apply_effect env d channel key_index status s))"
  by (auto simp: apply_effect_def split: effect.split
      intro!: cool_promote_agree tolerate_agree dest: reset_model_agree)

lemma handle_error_decision_agree:
  "agree_except (in_channel_id inp) s (snd (handle_error_decision env inp cd s))"
  by (auto simp: handle_error_decision_def promoted_action_def Let_def split: action.split
      intro!: cool_promote_agree)

lemma handle_key_fallback_agree:
  "agree_except (in_channel_id inp) s (snd (handle_key_fallback env inp cd s))"
  by (auto simp: handle_key_fallback_def promoted_action_def intro!: cool_promote_agree)

text \<open>When every store call fails, nothing changes.\<close>

lemma tolerate_fault [simp]: "\<not> mgr_store_ok env call \<Longrightarrow> tolerate env call s r = s"
  by (simp add: tolerate_def)

lemma cool_fault:
  assumes "\<And>call. \<not> mgr_store_ok env call"
  shows "cool_key env c k status u s = s" "cool_model env c m status u s = s"
    "cool_channel env c status u s = s"
  using assms by (simp_all add: cool_key_def cool_model_def cool_channel_def split: option.split)

lemma promote_fault:
  assumes "\<And>call. \<not> mgr_store_ok env call"
  shows "promote_exhausted_resources env c models s = (False, s)"
  using assms by (simp add: promote_exhausted_resources_def all_enabled_keys_cooldown_until_def
      all_configured_models_cooldown_until_def Let_def)

section \<open>The old entry points and the new ones\<close>

text \<open>The channel's models as the caller gave them are the configured ones, or none were given.\<close>

definition same_models :: "manager_env \<Rightarrow> error_input \<Rightarrow> bool" where
  "same_models env inp \<longleftrightarrow>
     channel_model_keys env (in_channel_id inp) (in_channel_models inp)
       = channel_model_keys env (in_channel_id inp) []"

lemma promote_same_models:
  assumes "channel_model_keys env channel models = channel_model_keys env channel models'"
  shows "promote_exhausted_resources env channel models s
    = promote_exhausted_resources env channel models' s"
  using assms
  by (simp add: promote_exhausted_resources_def all_configured_models_cooldown_until_def Let_def)

lemma handle_error_decision_eq:
  assumes "cd_ok inp cd" and "same_models env inp"
  shows "handle_error_decision env inp cd s =
    promoted_action (to_legacy_action (legacy_to_decision cd))
      (apply_effect env (legacy_to_decision cd) (in_channel_id inp) (in_key_index inp)
         (in_status_code inp) s)"
proof -
  have p: "promote_exhausted_resources env (in_channel_id inp) (in_channel_models inp) t
      = promote_exhausted_resources env (in_channel_id inp) [] t" for t
    using assms(2) by (intro promote_same_models) (simp add: same_models_def)
  show ?thesis
    using assms(1)
    by (cases "cd_action cd")
      (auto simp: handle_error_decision_def legacy_to_decision_def apply_effect_def p Let_def
        to_legacy_action_def promoted_action_def cd_ok_def)
qed

lemma handle_key_fallback_eq:
  assumes "cd_ok inp cd" and "can_fallback_to_other_key inp cd" and "same_models env inp"
  shows "handle_key_fallback env inp cd s =
    promoted_action ActionRetryKey
      (apply_effect env (key_fallback_decision cd) (in_channel_id inp) (in_key_index inp)
         (in_status_code inp) s)"
proof -
  have p: "promote_exhausted_resources env (in_channel_id inp) (in_channel_models inp) t
      = promote_exhausted_resources env (in_channel_id inp) [] t" for t
    using assms(3) by (intro promote_same_models) (simp add: same_models_def)
  show ?thesis
    using assms(2)
    by (simp add: handle_key_fallback_def apply_effect_def key_fallback_decision_def Let_def
        plain_decision_def can_fallback_to_other_key_def has_until_def p)
qed

section \<open>The last key\<close>

lemma earliest_key_ahead:
  assumes "keys_exhausted s channel now"
  shows "\<exists>x. earliest_key s channel = unix_to_time x \<and> now < unix_to_time x"
proof -
  have "earliest_key s channel
      \<in> (\<lambda>k. unix_to_time (ak_cooldown_until k)) ` set (enabled_keys s channel)"
    using assms unfolding earliest_key_def keys_exhausted_def by (intro Min_in) auto
  then show ?thesis using assms by (auto simp: keys_exhausted_def)
qed

lemma get_all_model_cooldowns_whole:
  "get_all_model_cooldowns s now c m = Some u \<Longrightarrow> \<exists>x. u = unix_to_time x"
  unfolding get_all_model_cooldowns_def by (auto dest!: map_of_SomeD)

lemma earliest_model_ahead:
  assumes "models_exhausted env s channel models now"
  shows "\<exists>x. earliest_model env s channel models = unix_to_time x \<and> now < unix_to_time x"
proof -
  have "earliest_model env s channel models
      \<in> (\<lambda>m. the (get_all_model_cooldowns s (mgr_queried_at env) channel m)) `
          set (channel_model_keys env channel models)"
    using assms unfolding earliest_model_def models_exhausted_def by (intro Min_in) auto
  then obtain m where m: "m \<in> set (channel_model_keys env channel models)"
    and e: "earliest_model env s channel models
      = the (get_all_model_cooldowns s (mgr_queried_at env) channel m)" by blast
  obtain u where u: "get_all_model_cooldowns s (mgr_queried_at env) channel m = Some u" "now < u"
    using assms m by (auto simp: models_exhausted_def)
  then show ?thesis using get_all_model_cooldowns_whole [OF u(1)] e by auto
qed

lemma promoted_until_ahead:
  assumes "keys_exhausted s channel now \<or> models_exhausted env s channel models now"
  shows "\<exists>x. promoted_until env s channel models now = unix_to_time x \<and> now < unix_to_time x"
  using assms earliest_key_ahead [of s channel now] earliest_model_ahead [of env s channel models now]
  by (auto simp: promoted_until_def max_def)

lemma promoted_channel_cools:
  assumes "mgr_store_ok env CallGetKeys" "mgr_store_ok env CallGetModels" "mgr_store_ok env CallPromote"
    and "zero_time \<le> mgr_promoted_at env" and "channel_exists s channel"
    and "keys_exhausted s channel (mgr_promoted_at env)"
  shows "fst (promote_exhausted_resources env channel models s)"
    and "cooling (channel_cell (snd (promote_exhausted_resources env channel models s)) channel)
           (mgr_promoted_at env)"
proof -
  let ?now = "mgr_promoted_at env"
  have p: "promote_exhausted_resources env channel models s =
      (True, set_channel_cooldown s channel (promoted_until env s channel models ?now)
        (mgr_stored_at env))"
    using assms(6) by (simp add: promote_spec [OF assms(1,2,4)] assms(3))
  obtain x where "promoted_until env s channel models ?now = unix_to_time x" "?now < unix_to_time x"
    using promoted_until_ahead assms(6) by blast
  then show "fst (promote_exhausted_resources env channel models s)"
    and "cooling (channel_cell (snd (promote_exhausted_resources env channel models s)) channel) ?now"
    using channel_cooldowns.set_cell [OF assms(5) refl]
    by (simp_all add: p cooling_def unix_to_time_after_unix)
qed

lemma enabled_keys_after_set:
  "set (enabled_keys (set_key_cooldown s c k u now) c) =
     (\<lambda>r. if ak_key_index r = k then r\<lparr>ak_cooldown_until := time_to_unix u,
            ak_cooldown_duration_ms := calculate_cooldown_duration u now,
            ak_updated_at := time_to_unix now\<rparr> else r) ` set (enabled_keys s c)"
proof -
  let ?f = "\<lambda>r. r\<lparr>ak_cooldown_until := time_to_unix u,
      ak_cooldown_duration_ms := calculate_cooldown_duration u now, ak_updated_at := time_to_unix now\<rparr>"
  let ?g = "\<lambda>r. if is_key_row c k r then ?f r else r" and ?h = "\<lambda>r. if ak_key_index r = k then ?f r else r"
  let ?Q = "\<lambda>r. ak_channel_id r = c \<and> \<not> ak_disabled r"
  have e: "set (enabled_keys t c) = {r \<in> set (api_keys_table t). ?Q r}" for t
    by (auto simp: enabled_keys_def get_api_keys_def)
  have "{r \<in> ?g ` set (api_keys_table s). ?Q r} = ?g ` {r \<in> set (api_keys_table s). ?Q r}"
    by (auto split: if_splits)
  also have "\<dots> = ?h ` {r \<in> set (api_keys_table s). ?Q r}"
    by (intro image_cong) (auto simp: is_key_row_def)
  finally show ?thesis by (simp add: e set_key_cooldown_def set_update_where)
qed

lemma last_key_exhausts:
  assumes "list_ex (\<lambda>r. ak_key_index r = k) (enabled_keys s c)"
    and "now < unix_to_time (time_to_unix u)"
    and "\<forall>r \<in> set (enabled_keys s c). ak_key_index r \<noteq> k \<longrightarrow> now < unix_to_time (ak_cooldown_until r)"
  shows "keys_exhausted (set_key_cooldown s c k u t) c now"
proof -
  have "set (enabled_keys (set_key_cooldown s c k u t) c) \<noteq> {}"
    using assms(1) unfolding enabled_keys_after_set by (auto simp: list_ex_iff)
  then have "enabled_keys (set_key_cooldown s c k u t) c \<noteq> []" by force
  moreover have "\<forall>r \<in> set (enabled_keys (set_key_cooldown s c k u t) c).
      now < unix_to_time (ak_cooldown_until r)"
    using assms(2,3) unfolding enabled_keys_after_set by auto
  ultimately show ?thesis by (simp add: keys_exhausted_def)
qed

section \<open>Properties\<close>

text \<open>A manager over one configured channel whose calls all succeed, at the time 0.\<close>

definition example_mgr :: manager_env where
  "example_mgr = \<lparr>mgr_detect = example_detect_env, mgr_decided_at = 0, mgr_applied_at = 0,
     mgr_stored_at = 0, mgr_promoted_at = 0, mgr_queried_at = 0,
     mgr_get_config = (\<lambda>c. Some example_config), mgr_store_ok = (\<lambda>call. True)\<rparr>"

lemma example_mgr_facts [simp]:
  "mgr_store_ok example_mgr call" "zero_time \<le> mgr_decided_at example_mgr"
  "zero_time \<le> mgr_promoted_at example_mgr" "mgr_promoted_at example_mgr = 0"
  "mgr_detect example_mgr = example_detect_env" "mgr_decided_at example_mgr = 0"
  "mgr_stored_at example_mgr = 0" "mgr_applied_at example_mgr = 0"
  by (simp_all add: example_mgr_def zero_time_def)

text \<open>C1: a channel is promoted exactly when its last usable resource is gone: all its enabled keys
  (at least one) are cooling, or all its models are; it is then cooled down itself until the
  first of its keys, or the first of its models, or the later of the two, comes back, and
  nothing else in the tables changes.\<close>

theorem promotion_exactly_when_exhausted:
  assumes "mgr_store_ok env CallGetKeys" "mgr_store_ok env CallGetModels" "mgr_store_ok env CallPromote"
    and "zero_time \<le> mgr_promoted_at env" and "channel_exists s channel"
  shows "let r = promote_exhausted_resources env channel models s; now = mgr_promoted_at env in
    (fst r \<longleftrightarrow> keys_exhausted s channel now \<or> models_exhausted env s channel models now) \<and>
    (fst r \<longrightarrow> fst (channel_cell (snd r) channel)
                 = time_to_unix (promoted_until env s channel models now)) \<and>
    (\<not> fst r \<longrightarrow> snd r = s) \<and>
    api_keys_table (snd r) = api_keys_table s \<and>
    model_cooldowns_table (snd r) = model_cooldowns_table s \<and> agree_except channel s (snd r)"
  using channel_cooldowns.set_cell [OF assms(5) refl]
  by (simp add: promote_spec [OF assms(1,2,4)] assms(3) Let_def channel_op_tables)

definition cooled_store :: cooldown_store where
  "cooled_store = set_key_cooldown example_store 7 0 (60 * second) 0"

lemma cooled_store_keys:
  "keys_exhausted cooled_store 7 0" "\<not> keys_exhausted example_store 7 0"
  "channel_exists cooled_store 7" "earliest_key cooled_store 7 = 60 * second"
  by (simp_all add: cooled_store_def keys_exhausted_def earliest_key_def enabled_keys_def
      get_api_keys_def example_store_def set_key_cooldown_def is_key_row_def channel_exists_def
      time_to_unix_def unix_to_time_def)

theorem promotion_exactly_when_exhausted_witness:
  "fst (promote_exhausted_resources example_mgr 7 [] cooled_store)"
  using promotion_exactly_when_exhausted [of example_mgr cooled_store 7 "[]"]
  by (simp add: cooled_store_keys Let_def)



text \<open>with the key fallback, too, old and new entry point leave the same tables, and the new
  decision asks for another channel exactly when the old action does (after a fallback).\<close>

theorem key_fallback_is_decide_and_apply:
  assumes "zero_time \<le> mgr_decided_at env" and "same_models env inp"
  shows "case (handle_error_with_key_fallback env inp s, apply_effect_with_key_fallback env inp s) of
    ((a, s1), (d, fallback, s2)) \<Rightarrow>
      s1 = s2 \<and>
      (fallback \<longrightarrow> (a = ActionRetryChannel \<longleftrightarrow> d_retry d = RetryNextChannel) \<and>
         (a = ActionRetryKey \<longleftrightarrow> d_retry d = RetryNextKey)) \<and>
      (\<not> fallback \<longrightarrow> a = ActionRetryKey \<longrightarrow> d_retry d = RetryNextKey)"
proof -
  let ?cd = "classify_decision (mgr_detect env) inp (mgr_decided_at env)"
  have ok: "cd_ok inp ?cd" by (rule classify_decision_ok [OF assms(1)])
  show ?thesis
  proof (cases "can_fallback_to_other_key inp ?cd")
    case True
    obtain ex t where ap: "apply_effect env (key_fallback_decision ?cd) (in_channel_id inp)
        (in_key_index inp) (in_status_code inp) s = (ex, t)" by fastforce
    have "d_retry (key_fallback_decision ?cd) = RetryNextKey"
      by (simp add: key_fallback_decision_def plain_decision_def Let_def)
    then show ?thesis
      using handle_key_fallback_eq [OF ok True assms(2), of s] True
      by (simp add: handle_error_with_key_fallback_def apply_effect_with_key_fallback_def
          decide_with_key_fallback_def promoted_action_def ap Let_def)
  next
    case False
    obtain ex t where ap: "apply_effect env (legacy_to_decision ?cd) (in_channel_id inp)
        (in_key_index inp) (in_status_code inp) s = (ex, t)" by fastforce
    have "to_legacy_action (legacy_to_decision ?cd) = ActionRetryKey \<Longrightarrow>
        d_retry (legacy_to_decision ?cd) = RetryNextKey"
      by (auto simp: legacy_to_decision_def to_legacy_action_def Let_def split: action.splits if_splits)
    then show ?thesis
      using handle_error_decision_eq [OF ok assms(2), of s] False
      by (simp add: handle_error_with_key_fallback_def apply_effect_with_key_fallback_def
          decide_with_key_fallback_def promoted_action_def ap Let_def)
  qed
qed

theorem key_fallback_is_decide_and_apply_witness:
  "snd (handle_error_with_key_fallback example_mgr (example_input 401 0 []) example_store) =
   snd (snd (apply_effect_with_key_fallback example_mgr (example_input 401 0 []) example_store))"
  using key_fallback_is_decide_and_apply [of example_mgr "example_input 401 0 []" example_store]
  by (simp add: same_models_def example_input_def split: prod.splits)

text \<open>an error on one channel never touches another one: the cooldown records of every other
  channel, of its keys and of its models are the same after handling the error, by any of the
  entry points and whichever store calls fail on the way.\<close>

theorem errors_stay_in_their_channel:
  assumes "c \<noteq> in_channel_id inp"
    and "s' \<in> {snd (handle_error env inp s), snd (handle_error_with_key_fallback env inp s),
               snd (snd (apply_effect_with_key_fallback env inp s))}"
  shows "channel_cell s' c = channel_cell s c \<and> key_cell s' (c, k) = key_cell s (c, k) \<and>
    model_cell s' (c, m) = model_cell s (c, m)"
proof -
  have "agree_except (in_channel_id inp) s s'"
    using assms(2) handle_error_decision_agree handle_key_fallback_agree
    by (auto simp: handle_error_def handle_error_with_key_fallback_def Let_def
        apply_effect_with_key_fallback_def split: prod.splits)
      (metis apply_effect_agree snd_conv)
  with assms(1) show ?thesis by (simp add: agree_except_def)
qed

theorem errors_stay_in_their_channel_witness:
  "key_cell (snd (handle_error example_mgr (example_input 401 0 []) example_store)) (8, 0) = (0, 0)"
  using errors_stay_in_their_channel [of 8 "example_input 401 0 []"
      "snd (handle_error example_mgr (example_input 401 0 []) example_store)" example_mgr example_store 0]
  by (simp add: example_input_def key_cell_def example_store_def is_key_row_def)

text \<open>an exact reset time of the channel, as for a full set of upstream connections, cools the
  channel until that time and punishes no key and no model, with or without the key fallback.\<close>

theorem channel_reset_spares_keys:
  assumes "zero_time \<le> mgr_decided_at env"
    and "cd_has_channel_until (classify_decision (mgr_detect env) inp (mgr_decided_at env))"
    and "mgr_store_ok env CallSetChannel"
  shows "handle_error_with_key_fallback env inp s = handle_error env inp s \<and>
    handle_error env inp s =
      (ActionRetryChannel, set_channel_cooldown s (in_channel_id inp)
         (cd_channel_until (classify_decision (mgr_detect env) inp (mgr_decided_at env)))
         (mgr_stored_at env)) \<and>
    api_keys_table (snd (handle_error env inp s)) = api_keys_table s \<and>
    model_cooldowns_table (snd (handle_error env inp s)) = model_cooldowns_table s"
  using classify_decision_ok [OF assms(1), of inp "mgr_detect env"] assms(2,3)
  by (simp add: handle_error_with_key_fallback_def handle_error_def handle_error_decision_def
      can_fallback_to_other_key_def cd_ok_def cool_channel_def has_until_def tolerate_def Let_def
      channel_op_tables)

lemma example_rule_decides:
  "classify_decision example_detect_env ((example_input 429 0 [])\<lparr>in_detection_rules := Some [example_rule]\<rparr>) 0 =
     (blank_decision ActionRetryChannel)\<lparr>cd_channel_until := 90 * second, cd_has_channel_until := True,
        cd_channel_reason := ''configured_rule_4''\<rparr>"
proof -
  have i: "int_text 4 = ''4''" by code_simp
  let ?e = "fst (evaluate_detection_rules example_detect_env [] (Some [example_rule]) 429 [] 0)"
  have e: "ev_actionable ?e" "ev_scope ?e = cooldown_scope_channel" "ev_priority ?e = 4"
      "ev_cooldown_until ?e = 90 * second"
    unfolding example_evaluation
    by (simp_all add: evaluate_rule_def example_rule_def cooldown_mode_fixed_def cooldown_scope_channel_def)
  then show ?thesis
    by (simp add: classify_decision_def example_input_def configured_cooldown_decision_def Let_def i)
qed

theorem channel_reset_spares_keys_witness:
  "handle_error_with_key_fallback example_mgr
     ((example_input 429 0 [])\<lparr>in_detection_rules := Some [example_rule]\<rparr>) example_store
   = (ActionRetryChannel, set_channel_cooldown example_store 7 (90 * second) 0)"
proof -
  let ?i = "(example_input 429 0 [])\<lparr>in_detection_rules := Some [example_rule]\<rparr>"
  have "in_channel_id ?i = 7" by (simp add: example_input_def)
  then show ?thesis
    using channel_reset_spares_keys [of example_mgr ?i example_store]
    by (simp add: example_rule_decides)
qed



text \<open>when the last enabled key of a channel that was not cooling down gets an exact cooldown
  that reaches past the check of the exhausted resources, the error makes the proxy switch the
  channel, and the channel itself is cooling down from then on.\<close>

theorem last_key_switches_channel:
  fixes env :: manager_env and inp :: error_input
  defines "cd \<equiv> classify_decision (mgr_detect env) inp (mgr_decided_at env)"
  assumes "\<And>call. mgr_store_ok env call" and "zero_time \<le> mgr_promoted_at env"
    and "channel_exists s (in_channel_id inp)"
    and "cd_action cd = ActionRetryKey" and "cd_has_key_until cd"
    and "in_key_index inp \<noteq> no_key_index"
    and "mgr_promoted_at env < unix_to_time (time_to_unix (cd_key_until cd))"
    and "list_ex (\<lambda>r. ak_key_index r = in_key_index inp) (enabled_keys s (in_channel_id inp))"
    and "\<forall>r \<in> set (enabled_keys s (in_channel_id inp)). ak_key_index r \<noteq> in_key_index inp \<longrightarrow>
           mgr_promoted_at env < unix_to_time (ak_cooldown_until r)"
  shows "fst (handle_error env inp s) = ActionRetryChannel \<and>
    cooling (channel_cell (snd (handle_error env inp s)) (in_channel_id inp)) (mgr_promoted_at env)"
proof -
  let ?s = "set_key_cooldown s (in_channel_id inp) (in_key_index inp) (cd_key_until cd)
    (mgr_stored_at env)"
  have ex: "channel_exists ?s (in_channel_id inp)"
    using assms(4) by (simp add: channel_exists_def key_op_tables)
  have "keys_exhausted ?s (in_channel_id inp) (mgr_promoted_at env)"
    using assms(8-10) by (intro last_key_exhausts)
  then show ?thesis
    using promoted_channel_cools [OF assms(2) assms(2) assms(2) assms(3) ex] assms(2,5-7)
    by (simp add: handle_error_def handle_error_decision_def promoted_action_def cool_key_def
        has_until_def tolerate_def cd_def Let_def)
qed

lemma quota_decides:
  "classify_decision quota_env (example_input 429 0 ''x'') 0 =
     (blank_decision ActionRetryKey)\<lparr>cd_key_until := 30 * minute, cd_has_key_until := True,
        cd_key_reason := ''API_KEY_QUOTA_EXHAUSTED''\<rparr>"
  using quota_env_classifies [of None 0]
  by (simp add: classify_decision_def example_input_def classify_builtin_def Let_def
      key_until_def of_level_def scope_to_model_def move_key_until_to_model_def
      copy_classification_def blank_decision_def action_of_level_def no_key_index_def)

theorem last_key_switches_channel_witness:
  "fst (handle_error (example_mgr\<lparr>mgr_detect := quota_env\<rparr>) (example_input 429 0 ''x'') example_store)
     = ActionRetryChannel"
proof -
  let ?env = "example_mgr\<lparr>mgr_detect := quota_env\<rparr>"
  have k: "enabled_keys example_store 7 = [\<lparr>ak_channel_id = 7, ak_key_index = 0, ak_disabled = False,
      ak_cooldown_until = 0, ak_cooldown_duration_ms = 0, ak_updated_at = 0\<rparr>]"
    by (simp add: enabled_keys_def get_api_keys_def example_store_def)
  have i: "in_channel_id (example_input 429 0 ''x'') = 7" "in_key_index (example_input 429 0 ''x'') = 0"
    by (simp_all add: example_input_def)
  show ?thesis
    using last_key_switches_channel [of ?env example_store "example_input 429 0 ''x''"]
    by (simp add: quota_decides example_mgr_def example_facts k i no_key_index_def
        blank_decision_def unix_to_time_def time_to_unix_def)
qed

text \<open>a successful attempt clears its channel completely: the channel, each of its keys and each
  of its models is left without a cooldown and without a back-off history, provided the tables
  hold no negative numbers, and every other channel keeps its records.\<close>

theorem success_clears_channel:
  assumes "mgr_store_ok env CallResetAll" and "d_effect d = EffectClearCooldowns"
    and "\<forall>r \<in> set (channels_table s). 0 \<le> ch_cooldown_until r \<and> 0 \<le> ch_cooldown_duration_ms r"
    and "\<forall>r \<in> set (api_keys_table s). 0 \<le> ak_cooldown_until r \<and> 0 \<le> ak_cooldown_duration_ms r"
  shows "case apply_effect env d channel k status s of (exhausted, s') \<Rightarrow>
    \<not> exhausted \<and> channel_cell s' channel = (0, 0) \<and> key_cell s' (channel, i) = (0, 0) \<and>
    model_cell s' (channel, m) = (0, 0) \<and> agree_except channel s s'"
proof -
  let ?s = "reset_all_cooldowns s channel (mgr_stored_at env)"
  have a: "apply_effect env d channel k status s = (False, ?s)"
    using assms(1,2) by (simp add: apply_effect_def tolerate_def)
  have "channel_cell ?s channel = (0, 0)"
    using assms(3)
    by (force simp: channel_cell_def reset_all_cooldowns_def dest: find_SomeD split: option.split)
  moreover have "key_cell ?s (channel, i) = (0, 0)"
  proof -
    have "find (is_key_row channel i) (api_keys_table ?s) =
        map_option (\<lambda>r. if ak_cooldown_until r > 0 \<or> ak_cooldown_duration_ms r > 0
          then r\<lparr>ak_cooldown_until := 0, ak_cooldown_duration_ms := 0,
                 ak_updated_at := time_to_unix (mgr_stored_at env)\<rparr> else r)
          (find (is_key_row channel i) (api_keys_table s))"
      unfolding reset_all_cooldowns_def by (simp, rule find_update_where) (auto simp: is_key_row_def)
    then show ?thesis
      using assms(4) by (force simp: key_cell_def dest: find_SomeD split: option.split)
  qed
  moreover have "model_cell ?s (channel, m) = (0, 0)"
  proof -
    have "find (is_model_row channel (trim_space m)) (model_cooldowns_table ?s) = None"
      unfolding reset_all_cooldowns_def by (simp, rule find_filter_drop) (simp add: is_model_row_def)
    then show ?thesis by (simp add: model_cell_def)
  qed
  ultimately show ?thesis by (simp add: a)
qed

theorem success_clears_channel_witness:
  "key_cell (snd (apply_effect example_mgr (plain_decision RetryNone EffectClearCooldowns) 7 0 200
     cooled_store)) (7, 0) = (0, 0)"
proof -
  have d: "d_effect (plain_decision RetryNone EffectClearCooldowns) = EffectClearCooldowns"
    by (simp add: plain_decision_def)
  have c: "\<forall>r \<in> set (channels_table cooled_store). 0 \<le> ch_cooldown_until r \<and> 0 \<le> ch_cooldown_duration_ms r"
    by (simp add: cooled_store_def set_key_cooldown_def example_store_def)
  have k: "\<forall>r \<in> set (api_keys_table cooled_store). 0 \<le> ak_cooldown_until r \<and> 0 \<le> ak_cooldown_duration_ms r"
    by (simp add: cooled_store_def set_key_cooldown_def example_store_def is_key_row_def
        time_to_unix_def calculate_cooldown_duration_def is_zero_def zero_time_def time_sub_def
        go_div_def)
  show ?thesis
    using success_clears_channel [OF _ d c k, where env = example_mgr and channel = 7 and k = 0
        and status = 200 and i = 0 and m = "[]"] by (simp add: case_prod_beta)
qed

end
