(* ===== verification/Channel_Cache.thy ===== *)
theory Channel_Cache
  imports Channel_Config
begin

text \<open>
  The read-through cache of \<open>internal/storage/cache.go\<close> and \<open>readThroughChannelCache\<close> of
  \<open>internal/app/server.go\<close>.

  What the store answers is an argument of each operation, \<open>None\<close> for an error.  An operation reads
  the clock twice, before the store query and after it; both readings are arguments.  Copies that
  guard against aliasing are values.  The locks make each operation one step, except that the store
  query runs outside them: the last section takes it apart.
\<close>

section \<open>The cache\<close>

type_synonym channel_cooldowns = "int \<Rightarrow> time option"
type_synonym key_cooldowns = "int \<Rightarrow> (int \<times> time) list option"
type_synonym model_cooldowns = "int \<Rightarrow> string \<Rightarrow> time option"

record channel_cache =
  cc_by_model :: "string \<Rightarrow> config list"
  cc_all_channels :: "config list"
  cc_last_update :: time
  cc_ttl :: duration
  cc_api_keys :: "int \<Rightarrow> api_key list option"
  cc_channels :: channel_cooldowns
  cc_keys :: key_cooldowns
  cc_models :: model_cooldowns
  cc_channel_last_update :: time
  cc_key_last_update :: time
  cc_model_last_update :: time
  cc_cooldown_ttl :: duration

definition new_channel_cache :: "duration \<Rightarrow> channel_cache" where
  "new_channel_cache ttl =
     \<lparr>cc_by_model = (\<lambda>m. []), cc_all_channels = [], cc_last_update = zero_time, cc_ttl = ttl,
      cc_api_keys = (\<lambda>c. None), cc_channels = (\<lambda>c. None), cc_keys = (\<lambda>c. None), cc_models = (\<lambda>c m. None),
      cc_channel_last_update = zero_time, cc_key_last_update = zero_time, cc_model_last_update = zero_time,
      cc_cooldown_ttl = 30 * second\<rparr>"

text \<open>A channel that lists a model twice is listed twice under it.\<close>

definition index_by_model :: "config list \<Rightarrow> string \<Rightarrow> config list" where
  "index_by_model channels m =
     concat (map (\<lambda>c. replicate (length (filter (\<lambda>n. n = m) (get_models c))) c) channels)"

definition refresh_cache :: "channel_cache \<Rightarrow> config list option \<Rightarrow> time \<Rightarrow> bool \<times> channel_cache" where
  "refresh_cache c load stored =
     (case load of
        None \<Rightarrow> (False, c)
      | Some channels \<Rightarrow>
          (True, c\<lparr>cc_all_channels := channels, cc_by_model := index_by_model channels, cc_last_update := stored\<rparr>))"

definition refresh_if_needed ::
    "channel_cache \<Rightarrow> config list option \<Rightarrow> time \<Rightarrow> time \<Rightarrow> bool \<times> channel_cache" where
  "refresh_if_needed c load now stored =
     (if time_sub now (cc_last_update c) > cc_ttl c then refresh_cache c load stored else (True, c))"

definition get_enabled_channels_by_model ::
    "channel_cache \<Rightarrow> config list option \<Rightarrow> (string \<Rightarrow> config list option) \<Rightarrow> time \<Rightarrow> time \<Rightarrow> string
       \<Rightarrow> config list option \<times> channel_cache" where
  "get_enabled_channels_by_model c load query now stored m =
     (case refresh_if_needed c load now stored of
        (False, c') \<Rightarrow> (query m, c')
      | (True, c') \<Rightarrow>
          (Some (if m = ''*'' then cc_all_channels c' else cc_by_model c' m), c'))"

definition invalidate_cache :: "channel_cache \<Rightarrow> channel_cache" where
  "invalidate_cache c = c\<lparr>cc_last_update := zero_time\<rparr>"

definition cached_api_keys ::
    "channel_cache \<Rightarrow> api_key list option \<Rightarrow> int \<Rightarrow> api_key list option \<times> channel_cache" where
  "cached_api_keys c load channel =
     (case cc_api_keys c channel of
        Some keys \<Rightarrow> (Some keys, c)
      | None \<Rightarrow>
          (case load of
             None \<Rightarrow> (None, c)
           | Some keys \<Rightarrow> (Some keys, c\<lparr>cc_api_keys := (cc_api_keys c)(channel \<mapsto> keys)\<rparr>)))"

definition invalidate_api_keys :: "channel_cache \<Rightarrow> int \<Rightarrow> channel_cache" where
  "invalidate_api_keys c channel = c\<lparr>cc_api_keys := (cc_api_keys c)(channel := None)\<rparr>"

definition invalidate_all_api_keys :: "channel_cache \<Rightarrow> channel_cache" where
  "invalidate_all_api_keys c = c\<lparr>cc_api_keys := (\<lambda>channel. None)\<rparr>"

definition cached_channel_cooldowns ::
    "channel_cache \<Rightarrow> channel_cooldowns option \<Rightarrow> time \<Rightarrow> time \<Rightarrow> channel_cooldowns option \<times> channel_cache" where
  "cached_channel_cooldowns c load now stored =
     (if time_sub now (cc_channel_last_update c) \<le> cc_cooldown_ttl c then (Some (cc_channels c), c)
      else case load of
        None \<Rightarrow> (None, c)
      | Some v \<Rightarrow> (Some v, c\<lparr>cc_channels := v, cc_channel_last_update := stored\<rparr>))"

definition cached_key_cooldowns ::
    "channel_cache \<Rightarrow> key_cooldowns option \<Rightarrow> time \<Rightarrow> time \<Rightarrow> key_cooldowns option \<times> channel_cache" where
  "cached_key_cooldowns c load now stored =
     (if time_sub now (cc_key_last_update c) \<le> cc_cooldown_ttl c then (Some (cc_keys c), c)
      else case load of
        None \<Rightarrow> (None, c)
      | Some v \<Rightarrow> (Some v, c\<lparr>cc_keys := v, cc_key_last_update := stored\<rparr>))"

definition cached_model_cooldowns ::
    "channel_cache \<Rightarrow> model_cooldowns option \<Rightarrow> time \<Rightarrow> time \<Rightarrow> model_cooldowns option \<times> channel_cache" where
  "cached_model_cooldowns c load now stored =
     (if time_sub now (cc_model_last_update c) \<le> cc_cooldown_ttl c then (Some (cc_models c), c)
      else case load of
        None \<Rightarrow> (None, c)
      | Some v \<Rightarrow> (Some v, c\<lparr>cc_models := v, cc_model_last_update := stored\<rparr>))"

definition invalidate_cooldowns :: "channel_cache \<Rightarrow> channel_cache" where
  "invalidate_cooldowns c =
     c\<lparr>cc_channel_last_update := zero_time, cc_key_last_update := zero_time, cc_model_last_update := zero_time\<rparr>"

text \<open>\<open>readThroughChannelCache\<close>: a missing cache or an error of the cached read leads to the store.\<close>

definition read_through_channel_cache :: "'v option option \<Rightarrow> 'v option \<Rightarrow> 'v option" where
  "read_through_channel_cache read_cache read_store =
     (case read_cache of Some (Some v) \<Rightarrow> Some v | _ \<Rightarrow> read_store)"

lemma time_sub_le:
  assumes "0 \<le> d" "d < 2 ^ 63 - 1" shows "time_sub t u \<le> d \<longleftrightarrow> t - u \<le> d"
  using assms unfolding time_sub_def by linarith

section \<open>A cached query\<close>

text \<open>What happens to one cached query: the store changes, the cache is told to forget, or is read.\<close>

datatype 'v cache_event = Changed time 'v | Forgotten time | Read time bool

primrec event_at :: "'v cache_event \<Rightarrow> time" where
  "event_at (Changed t v) = t"
| "event_at (Forgotten t) = t"
| "event_at (Read t ok) = t"

text \<open>The events are listed latest first.  What the store holds after them:\<close>

primrec stored_value :: "'v \<Rightarrow> 'v cache_event list \<Rightarrow> 'v" where
  "stored_value v0 [] = v0"
| "stored_value v0 (e # es) = (case e of Changed t v \<Rightarrow> v | _ \<Rightarrow> stored_value v0 es)"

text \<open>The values the store has held since the last invalidation and since \<open>since\<close>:\<close>

primrec recent_values :: "'v \<Rightarrow> time \<Rightarrow> 'v cache_event list \<Rightarrow> 'v set" where
  "recent_values v0 since [] = {v0}"
| "recent_values v0 since (e # es) =
     {stored_value v0 (e # es)} \<union>
     (case e of Forgotten t \<Rightarrow> {} | _ \<Rightarrow> if event_at e < since then {} else recent_values v0 since es)"

lemma recent_antimono: "a \<le> b \<Longrightarrow> recent_values v0 b es \<subseteq> recent_values v0 a es"
  by (induction es) (auto split: cache_event.split)

lemma stored_is_recent: "stored_value v0 es \<in> recent_values v0 since es"
  by (cases es) auto

text \<open>Times go up towards the front of the list, and start where the cache is long stale.\<close>

primrec clock_ok :: "time \<Rightarrow> 'v cache_event list \<Rightarrow> bool" where
  "clock_ok start [] = True"
| "clock_ok start (e # es) \<longleftrightarrow>
     clock_ok start es \<and> (case es of [] \<Rightarrow> start \<le> event_at e | d # ds \<Rightarrow> event_at d \<le> event_at e)"

definition latest :: "time \<Rightarrow> 'v cache_event list \<Rightarrow> time" where
  "latest start es = (case es of [] \<Rightarrow> start | e # ds \<Rightarrow> event_at e)"

lemma latest_from_start: "clock_ok start es \<Longrightarrow> start \<le> latest start es"
  by (induction es) (auto simp: latest_def split: list.splits)

primrec cache_run ::
    "('c \<Rightarrow> 'v option \<Rightarrow> time \<Rightarrow> 'v option \<times> 'c) \<Rightarrow> ('c \<Rightarrow> 'c) \<Rightarrow> 'c \<Rightarrow> 'v \<Rightarrow> 'v cache_event list \<Rightarrow> 'c" where
  "cache_run get forget c0 v0 [] = c0"
| "cache_run get forget c0 v0 (e # es) =
     (let c = cache_run get forget c0 v0 es in
      case e of
        Changed t v \<Rightarrow> c
      | Forgotten t \<Rightarrow> forget c
      | Read t ok \<Rightarrow> snd (get c (if ok then Some (stored_value v0 es) else None) t))"

locale cached_query =
  fixes get :: "'c \<Rightarrow> 'v option \<Rightarrow> time \<Rightarrow> 'v option \<times> 'c"
    and forget :: "'c \<Rightarrow> 'c" and cell :: "'c \<Rightarrow> 'v \<times> time" and ttl :: "'c \<Rightarrow> duration"
  assumes hit: "time_sub now (snd (cell c)) \<le> ttl c \<Longrightarrow> get c load now = (Some (fst (cell c)), c)"
    and miss: "ttl c < time_sub now (snd (cell c)) \<Longrightarrow> get c None now = (None, c)"
    and fill: "ttl c < time_sub now (snd (cell c)) \<Longrightarrow>
       fst (get c (Some v) now) = Some v \<and> cell (snd (get c (Some v) now)) = (v, now)"
    and forgotten: "snd (cell (forget c)) = zero_time"
    and ttl_kept: "ttl (snd (get c load now)) = ttl c" "ttl (forget c) = ttl c"
begin

lemma ttl_run [simp]: "ttl (cache_run get forget c0 v0 es) = ttl c0"
  by (induction es) (simp_all add: Let_def ttl_kept split: cache_event.split)

lemma cell_recent:
  assumes "snd (cell c0) = zero_time" and "clock_ok start es" and "zero_time \<le> start"
  shows "let (v, upd) = cell (cache_run get forget c0 v0 es)
     in upd \<le> latest start es \<and> (upd = zero_time \<or> v \<in> recent_values v0 upd es)"
  using assms(2)
proof (induction es)
  case Nil
  then show ?case using assms by (cases "cell c0") (simp add: latest_def)
next
  case (Cons e es)
  let ?c = "cache_run get forget c0 v0 es"
  obtain v upd where cell: "cell ?c = (v, upd)" by fastforce
  have ih: "upd \<le> latest start es" "upd = zero_time \<or> v \<in> recent_values v0 upd es"
    using Cons cell by auto
  have up: "latest start es \<le> event_at e"
    using Cons.prems by (auto simp: latest_def split: list.splits)
  have zero: "zero_time \<le> event_at e"
    using latest_from_start [OF Cons.prems] assms(3) by (simp add: latest_def)
  have keep: "upd \<le> event_at e \<and> (upd = zero_time \<or> v \<in> recent_values v0 upd (e # es))"
    if "\<forall>t. e \<noteq> Forgotten t"
    using ih up that by (auto split: cache_event.split)
  show ?case
  proof (cases e)
    case (Changed t w)
    then show ?thesis using keep cell by (auto simp: latest_def)
  next
    case (Forgotten t)
    then show ?thesis using forgotten [of ?c] zero by (cases "cell (forget ?c)") (simp add: latest_def Let_def)
  next
    case (Read t ok)
    consider "time_sub t upd \<le> ttl ?c" | "ttl ?c < time_sub t upd" "ok" | "ttl ?c < time_sub t upd" "\<not> ok"
      by linarith
    then show ?thesis
    proof cases
      case 1
      then show ?thesis using hit [of t ?c] keep cell Read by (simp add: latest_def Let_def split: if_splits)
    next
      case 2
      then show ?thesis using fill [of ?c t "stored_value v0 es"] cell Read
        by (simp add: latest_def Let_def)
    next
      case 3
      then show ?thesis using miss [of ?c t] keep cell Read by (simp add: latest_def Let_def split: if_splits)
    qed
  qed
qed

lemma read_is_recent:
  assumes "snd (cell c0) = zero_time" and "clock_ok start (Read now ok # es)" and "zero_time + ttl c0 < start"
    and "0 \<le> ttl c0" "ttl c0 < 2 ^ 63 - 1"
    and "fst (get (cache_run get forget c0 v0 es) (if ok then Some (stored_value v0 es) else None) now) = Some v"
  shows "v \<in> recent_values v0 (now - ttl c0) es"
proof -
  let ?c = "cache_run get forget c0 v0 es"
  obtain w upd where cell: "cell ?c = (w, upd)" by fastforce
  have "clock_ok start es" using assms(2) by simp
  from cell_recent [OF assms(1) this, of v0] assms(3,4) cell
  have recent: "upd = zero_time \<or> w \<in> recent_values v0 upd es" by auto
  have late: "start \<le> now" using latest_from_start [OF assms(2)] by (simp add: latest_def)
  show ?thesis
  proof (cases "time_sub now upd \<le> ttl ?c")
    case True
    then have v: "v = w" using hit [of now ?c] cell assms(6) by simp
    have "now - upd \<le> ttl c0"
      using True assms(4,5) time_sub_le [of "ttl c0" now upd] by simp
    moreover from this have "upd \<noteq> zero_time" using late assms(3) by linarith
    ultimately have "now - ttl c0 \<le> upd" "w \<in> recent_values v0 upd es" using recent by simp_all
    then have "w \<in> recent_values v0 (now - ttl c0) es" by (rule subsetD [OF recent_antimono])
    then show ?thesis unfolding v .
  next
    case False
    then have "v = stored_value v0 es"
      using fill [of ?c now "stored_value v0 es"] miss [of ?c now] cell assms(6) by (auto split: if_splits)
    then show ?thesis by (simp add: stored_is_recent)
  qed
qed

end

interpretation channel_query: cached_query "\<lambda>c load now. cached_channel_cooldowns c load now now"
    invalidate_cooldowns "\<lambda>c. (cc_channels c, cc_channel_last_update c)" cc_cooldown_ttl
  by unfold_locales (auto simp: cached_channel_cooldowns_def invalidate_cooldowns_def split: option.split)

interpretation key_query: cached_query "\<lambda>c load now. cached_key_cooldowns c load now now"
    invalidate_cooldowns "\<lambda>c. (cc_keys c, cc_key_last_update c)" cc_cooldown_ttl
  by unfold_locales (auto simp: cached_key_cooldowns_def invalidate_cooldowns_def split: option.split)

interpretation model_query: cached_query "\<lambda>c load now. cached_model_cooldowns c load now now"
    invalidate_cooldowns "\<lambda>c. (cc_models c, cc_model_last_update c)" cc_cooldown_ttl
  by unfold_locales (auto simp: cached_model_cooldowns_def invalidate_cooldowns_def split: option.split)

text \<open>The routing list, read under the name that stands for every channel.\<close>

interpretation list_query: cached_query
    "\<lambda>c load now. get_enabled_channels_by_model c load (\<lambda>m. None) now now ''*''"
    invalidate_cache "\<lambda>c. (cc_all_channels c, cc_last_update c)" cc_ttl
  by unfold_locales
    (auto simp: get_enabled_channels_by_model_def refresh_if_needed_def refresh_cache_def invalidate_cache_def
      split: option.split prod.splits bool.splits if_splits)

text \<open>
  Readings of the model cooldowns are never older than 30 seconds nor than the last invalidation: a
  cached answer is a value the store held within the last 30 seconds, and since the last
  \<open>InvalidateCooldownCache\<close>, whatever mixture of changes, failed reads and readings went before.
\<close>

theorem cached_cooldowns_are_recent:
  assumes "clock_ok start (Read now ok # es)" and "zero_time + 30 * second < start"
    and "fst (cached_model_cooldowns
            (cache_run (\<lambda>c load now. cached_model_cooldowns c load now now) invalidate_cooldowns
               (new_channel_cache ttl) v0 es)
            (if ok then Some (stored_value v0 es) else None) now now) = Some v"
  shows "v \<in> recent_values v0 (now - 30 * second) es"
proof -
  have t: "cc_cooldown_ttl (new_channel_cache ttl) = 30 * second"
    and z: "snd (cc_models (new_channel_cache ttl), cc_model_last_update (new_channel_cache ttl)) = zero_time"
    by (simp_all add: new_channel_cache_def)
  show ?thesis
    using model_query.read_is_recent [OF z assms(1) _ _ _ assms(3)] assms(2) unfolding t by simp
qed

definition no_models :: model_cooldowns where "no_models = (\<lambda>c m. None)"
definition one_model :: model_cooldowns where "one_model = (\<lambda>c m. if c = 1 then Some 9 else None)"

theorem cached_cooldowns_are_recent_witness:
  "one_model \<in> recent_values no_models (2 - 30 * second) [Forgotten 1, Changed 1 one_model, Read 0 True]"
proof -
  let ?es = "[Forgotten 1, Changed 1 one_model, Read 0 True]"
  let ?run = "cache_run (\<lambda>c load now. cached_model_cooldowns c load now now) invalidate_cooldowns
    (new_channel_cache 0) no_models ?es"
  have "clock_ok 0 (Read 2 True # ?es)" by simp
  moreover have "zero_time + 30 * second < 0" by (simp add: zero_time_def)
  moreover have "fst (cached_model_cooldowns ?run (if True then Some (stored_value no_models ?es) else None) 2 2) =
      Some one_model"
    by (simp add: Let_def cached_model_cooldowns_def invalidate_cooldowns_def new_channel_cache_def time_sub_def
        zero_time_def)
  ultimately show ?thesis by (rule cached_cooldowns_are_recent)
qed

section \<open>The store query taken apart\<close>

text \<open>
  A miss queries the store without holding the lock and assigns the answer afterwards.  \<open>Begin\<close> is
  the query, \<open>Finish\<close> the assignment; \<open>Bump\<close> changes the store and invalidates the cache, as
  \<open>invalidateChannelRelatedCache\<close> does after a failure is recorded.
\<close>

record 'v shared =
  sh_store :: 'v
  sh_cell :: "'v \<times> time"
  sh_pending :: "'v list"

inductive shared_step :: "duration \<Rightarrow> time \<Rightarrow> 'v shared \<Rightarrow> 'v shared \<Rightarrow> bool" for ttl where
  Begin: "ttl < time_sub now (snd (sh_cell s)) \<Longrightarrow>
     shared_step ttl now s (s\<lparr>sh_pending := sh_store s # sh_pending s\<rparr>)"
| Finish: "sh_pending s = xs @ v # ys \<Longrightarrow>
     shared_step ttl now s (s\<lparr>sh_cell := (v, now), sh_pending := xs @ ys\<rparr>)"
| Bump: "shared_step ttl now s (s\<lparr>sh_store := v, sh_cell := (fst (sh_cell s), zero_time)\<rparr>)"

inductive shared_reach :: "duration \<Rightarrow> 'v shared \<Rightarrow> time \<Rightarrow> 'v shared \<Rightarrow> bool" for ttl s0 where
  Start: "shared_reach ttl s0 t s0"
| Step: "shared_reach ttl s0 t s \<Longrightarrow> t \<le> now \<Longrightarrow> shared_step ttl now s s' \<Longrightarrow> shared_reach ttl s0 now s'"

inductive_simps shared_step_iff: "shared_step ttl now s s'"

text \<open>As long as the store does not change, what is under way and what is served are its value.\<close>

definition reads_store :: "'v shared \<Rightarrow> bool" where
  "reads_store s \<longleftrightarrow> set (sh_pending s) \<subseteq> {sh_store s} \<and>
     (snd (sh_cell s) \<noteq> zero_time \<longrightarrow> fst (sh_cell s) = sh_store s)"

lemma unchanged_store_is_read:
  "shared_step ttl now s s' \<Longrightarrow> reads_store s \<Longrightarrow> sh_store s' = sh_store s \<Longrightarrow> reads_store s'"
  by (auto simp: shared_step_iff reads_store_def)

text \<open>
  Taken apart, the second half of the promise fails: an invalidation that falls between the query and
  the assignment is lost, and the value from before the change is served as fresh afterwards.
\<close>

theorem lost_invalidation:
  assumes "old \<noteq> new" and "0 \<le> ttl" and "ttl < 2 ^ 62"
  shows "\<exists>s. shared_reach ttl \<lparr>sh_store = old, sh_cell = (old, zero_time), sh_pending = []\<rparr> 3 s \<and>
     sh_store s = new \<and> sh_pending s = [] \<and>
     time_sub 3 (snd (sh_cell s)) \<le> ttl \<and> fst (sh_cell s) = old"
proof -
  let ?s0 = "\<lparr>sh_store = old, sh_cell = (old, zero_time), sh_pending = []\<rparr>"
  let ?s1 = "?s0\<lparr>sh_pending := [old]\<rparr>" and ?s2 = "?s0\<lparr>sh_pending := [old], sh_store := new\<rparr>"
  let ?s3 = "\<lparr>sh_store = new, sh_cell = (old, 3), sh_pending = []\<rparr>"
  have "shared_step ttl 1 ?s0 ?s1"
    using Begin [of ttl 1 ?s0] assms(3) by (simp add: time_sub_def zero_time_def)
  moreover have "shared_step ttl 2 ?s1 ?s2"
    using Bump [of ttl 2 ?s1 new] by simp
  moreover have "shared_step ttl 3 ?s2 ?s3"
    using Finish [of ?s2 "[]" old "[]" ttl 3] by simp
  ultimately have "shared_reach ttl ?s0 3 ?s3"
    by (intro Step [of ttl ?s0 2 ?s2 3] Step [of ttl ?s0 1 ?s1 2] Step [of ttl ?s0 0 ?s0 1] Start) simp_all
  then show ?thesis using assms by (intro exI [of _ ?s3]) (simp add: time_sub_def)
qed

theorem lost_invalidation_witness:
  "\<exists>s. shared_reach (30 * second) \<lparr>sh_store = no_models, sh_cell = (no_models, zero_time), sh_pending = []\<rparr> 3 s \<and>
     sh_store s = one_model \<and> fst (sh_cell s) = no_models"
proof -
  have "no_models 1 '''' \<noteq> one_model 1 ''''" by (simp add: no_models_def one_model_def)
  then have "no_models \<noteq> one_model" by metis
  from lost_invalidation [OF this, of "30 * second"] show ?thesis by auto
qed

end
