(* ===== verification/Protocol_Routing.thy ===== *)
theory Protocol_Routing
  imports Channel_Config
begin

text \<open>
  Which protocols an upstream address is tried with: \<open>internal/protocol/types.go\<close>,
  \<open>internal/app/protocol_capability.go\<close>, \<open>possibleUpstreamProtocols\<close> of \<open>selector_cooldown.go\<close> and
  \<open>detectClientProtocolFromPath\<close>.

  A protocol is the string the code uses; the empty string is both "unknown" and the sentinel
  \<open>protocolUnsupported\<close>.  A request family is a datatype, \<open>Unknown\<close> for the empty string.  The
  bodies of a transform plan are opaque; a nil body is \<open>None\<close>.
\<close>

section \<open>Protocols and request families\<close>

type_synonym protocol = string

definition anthropic :: protocol where "anthropic = ''anthropic''"
definition codex :: protocol where "codex = ''codex''"
definition openai :: protocol where "openai = ''openai''"
definition gemini :: protocol where "gemini = ''gemini''"

lemmas protocol_names = anthropic_def codex_def openai_def gemini_def

definition all_protocols :: "protocol list" where
  "all_protocols = [anthropic, codex, openai, gemini]"

definition is_valid_protocol :: "protocol \<Rightarrow> bool" where
  "is_valid_protocol p \<longleftrightarrow> p = anthropic \<or> p = codex \<or> p = openai \<or> p = gemini"

datatype request_family =
  Unknown | ChatCompletions | Responses | Messages | GenerateContent | Completions
| Embeddings | Images | AlphaSearch

text \<open>The family whose bodies can be translated from a client protocol; the table has no other row.\<close>

definition transform_families :: "protocol \<Rightarrow> protocol \<Rightarrow> request_family list" where
  "transform_families client upstream =
     (if client = openai then
        (if upstream \<in> {gemini, anthropic, codex} then [ChatCompletions] else [])
      else if client = anthropic then
        (if upstream \<in> {openai, gemini, codex} then [Messages] else [])
      else if client = codex then
        (if upstream \<in> {openai, gemini, anthropic} then [Responses] else [])
      else if client = gemini then
        (if upstream \<in> {openai, anthropic, codex} then [GenerateContent] else [])
      else [])"

definition supports_transform :: "protocol \<Rightarrow> protocol \<Rightarrow> bool" where
  "supports_transform client upstream \<longleftrightarrow> transform_families client upstream \<noteq> []"

definition supports_transform_family :: "protocol \<Rightarrow> protocol \<Rightarrow> request_family \<Rightarrow> bool" where
  "supports_transform_family client upstream family \<longleftrightarrow>
     list_ex (\<lambda>f. f = family) (transform_families client upstream)"

text \<open>Sorted by name; nil when no client can be translated.\<close>

definition supported_client_protocols_for_upstream :: "protocol \<Rightarrow> protocol list" where
  "supported_client_protocols_for_upstream upstream =
     filter (\<lambda>client. transform_families client upstream \<noteq> []) [anthropic, codex, gemini, openai]"

text \<open>The rest of a string from the first occurrence of another one on.\<close>

fun find_sub :: "string \<Rightarrow> string \<Rightarrow> string option" where
  "find_sub s sub =
     (if prefix sub s then Some (drop (length sub) s)
      else case s of [] \<Rightarrow> None | c # cs \<Rightarrow> find_sub cs sub)"

definition matches_canonical_endpoint :: "string \<Rightarrow> string \<Rightarrow> bool" where
  "matches_canonical_endpoint path endpoint =
     (case find_sub path endpoint of
        None \<Rightarrow> False
      | Some [] \<Rightarrow> True
      | Some (c # cs) \<Rightarrow> c = CHR ''?'' \<or> c = CHR ''/'')"

definition detect_request_family :: "string \<Rightarrow> request_family" where
  "detect_request_family raw =
     (let path = trim_space raw in
      if matches_canonical_endpoint path ''/v1/chat/completions'' then ChatCompletions
      else if matches_canonical_endpoint path ''/v1/responses'' then Responses
      else if matches_canonical_endpoint path ''/v1/messages'' then Messages
      else if matches_canonical_endpoint path ''/v1/alpha/search'' then AlphaSearch
      else if str_contains path '':generateContent'' \<or> str_contains path '':streamGenerateContent''
        then GenerateContent
      else if matches_canonical_endpoint path ''/v1/completions'' then Completions
      else if matches_canonical_endpoint path ''/v1/embeddings'' then Embeddings
      else if str_contains path ''/v1/images/'' then Images
      else Unknown)"

definition protocol_of_family :: "request_family \<Rightarrow> protocol" where
  "protocol_of_family f =
     (case f of
        Messages \<Rightarrow> anthropic
      | Responses \<Rightarrow> codex | AlphaSearch \<Rightarrow> codex
      | ChatCompletions \<Rightarrow> openai | Completions \<Rightarrow> openai | Embeddings \<Rightarrow> openai | Images \<Rightarrow> openai
      | GenerateContent \<Rightarrow> gemini
      | Unknown \<Rightarrow> '''')"

definition detect_client_protocol_from_path :: "string \<Rightarrow> protocol" where
  "detect_client_protocol_from_path path = protocol_of_family (detect_request_family path)"

definition channel_test_request_family :: "protocol \<Rightarrow> request_family" where
  "channel_test_request_family client =
     (if client = anthropic then Messages
      else if client = openai then ChatCompletions
      else if client = codex then Responses
      else if client = gemini then GenerateContent
      else Unknown)"

section \<open>The plan of one attempt\<close>

record transform_plan =
  tp_client :: protocol
  tp_upstream :: protocol
  tp_family :: request_family
  tp_original_path :: string
  tp_upstream_path :: string
  tp_original_body :: "string option"
  tp_translated_body :: "string option"
  tp_original_model :: string
  tp_actual_model :: string
  tp_streaming :: bool
  tp_needs_transform :: bool

datatype plan_error = UnsupportedTransform protocol protocol

definition build_transform_plan ::
    "protocol \<Rightarrow> protocol \<Rightarrow> string \<Rightarrow> string \<Rightarrow> string option \<Rightarrow> string option \<Rightarrow> string \<Rightarrow> string
       \<Rightarrow> bool \<Rightarrow> plan_error + transform_plan" where
  "build_transform_plan client upstream original_path upstream_path original_body prepared_body
       original_model actual_model streaming =
     (let plan = \<lparr>tp_client = client, tp_upstream = upstream,
            tp_family = detect_request_family original_path, tp_original_path = original_path,
            tp_upstream_path = (if upstream_path = '''' then original_path else upstream_path),
            tp_original_body = original_body,
            tp_translated_body = (if prepared_body = None then original_body else prepared_body),
            tp_original_model = original_model,
            tp_actual_model = (if actual_model = '''' then original_model else actual_model),
            tp_streaming = streaming, tp_needs_transform = False\<rparr>
      in if client = '''' \<or> upstream = '''' \<or> client = upstream then Inr plan
         else if \<not> supports_transform_family client upstream (tp_family plan)
           then Inl (UnsupportedTransform client upstream)
         else Inr (plan\<lparr>tp_needs_transform := True\<rparr>))"

definition request_model :: "transform_plan \<Rightarrow> string" where
  "request_model p = (if tp_actual_model p \<noteq> '''' then tp_actual_model p else tp_original_model p)"

definition response_model :: "transform_plan \<Rightarrow> string" where
  "response_model p = (if tp_original_model p \<noteq> '''' then tp_original_model p else tp_actual_model p)"

section \<open>Candidates\<close>

definition automatic_fallback_protocol_order :: "protocol list" where
  "automatic_fallback_protocol_order = [openai, anthropic, codex, gemini]"

definition local_fallback_protocol_order :: "protocol list" where
  "local_fallback_protocol_order = [anthropic, codex, openai, gemini]"

definition supports_protocol_candidate :: "protocol \<Rightarrow> protocol \<Rightarrow> request_family \<Rightarrow> bool" where
  "supports_protocol_candidate client upstream family \<longleftrightarrow>
     client = upstream \<or> supports_transform_family client upstream family"

definition config_can_use_upstream_protocol :: "config \<Rightarrow> protocol \<Rightarrow> bool" where
  "config_can_use_upstream_protocol cfg upstream \<longleftrightarrow>
     is_valid_protocol upstream \<and> list_ex (\<lambda>entry. supports_protocol entry upstream) (cfg_urls cfg)"

definition local_upstream_protocol_order :: "channel_url list \<Rightarrow> protocol list" where
  "local_upstream_protocol_order urls =
     (let ordered = dedup_by id (filter is_valid_protocol (concat (map cu_protocols urls)))
      in if ordered \<noteq> [] then ordered else local_fallback_protocol_order)"

text \<open>The loop skips a match at index 0 and goes on.\<close>

definition prioritize_protocol_candidate :: "protocol list \<Rightarrow> protocol \<Rightarrow> protocol list" where
  "prioritize_protocol_candidate candidates preferred =
     (case find_index (\<lambda>c. c = preferred) (tl candidates) of
        None \<Rightarrow> candidates
      | Some i \<Rightarrow> move_to_front (Suc i) candidates)"

definition protocol_candidates_for_url ::
    "channel_url \<Rightarrow> string \<Rightarrow> protocol \<Rightarrow> request_family \<Rightarrow> protocol list \<Rightarrow> protocol list \<times> bool" where
  "protocol_candidates_for_url entry transform_mode client family local_order =
     (let declared = \<not> uses_automatic_protocol_detection entry;
          ok = (\<lambda>upstream. supports_protocol entry upstream \<and> supports_protocol_candidate client upstream family)
      in (if transform_mode = mode_upstream then
            filter ok (if is_valid_protocol client then [client] else [])
          else if transform_mode = mode_local then
            filter ok (if declared then cu_protocols entry else local_order)
          else
            let candidates = filter ok ((if is_valid_protocol client then [client] else []) @
                  filter (\<lambda>p. p \<noteq> client) automatic_fallback_protocol_order)
            in if declared \<and> length candidates > 1 then take 1 candidates else candidates,
          declared))"

definition possible_upstream_protocols :: "config \<Rightarrow> protocol \<Rightarrow> protocol list" where
  "possible_upstream_protocols cfg client =
     (let mode = get_protocol_transform_mode cfg in
      dedup_by id (filter is_valid_protocol
        (if mode = mode_upstream then [client]
         else if mode = mode_local then local_upstream_protocol_order (cfg_urls cfg)
         else client # automatic_fallback_protocol_order)))"

section \<open>What was learnt about an address\<close>

record capability_key =
  ck_channel :: int
  ck_base_url :: string
  ck_client :: protocol
  ck_family :: request_family

record capability_entry =
  ce_upstream :: protocol
  ce_retry_after :: time

type_synonym capability_cache = "capability_key \<Rightarrow> capability_entry option"

definition protocol_unsupported :: protocol where "protocol_unsupported = ''''"
definition unsupported_capability_ttl :: duration where "unsupported_capability_ttl = 10 * minute"

definition capability_get ::
    "capability_cache \<Rightarrow> capability_key \<Rightarrow> time \<Rightarrow> (protocol \<times> bool) \<times> capability_cache" where
  "capability_get c key now =
     (case c key of
        None \<Rightarrow> ((protocol_unsupported, False), c)
      | Some e \<Rightarrow>
          if ce_upstream e = protocol_unsupported \<and> \<not> now < ce_retry_after e
          then ((protocol_unsupported, False), c(key := None))
          else ((ce_upstream e, True), c))"

definition capability_set ::
    "capability_cache \<Rightarrow> capability_key \<Rightarrow> protocol \<Rightarrow> time \<Rightarrow> capability_cache" where
  "capability_set c key upstream now =
     (let kept = (\<lambda>k. case c k of
            None \<Rightarrow> None
          | Some e \<Rightarrow> if ce_upstream e = protocol_unsupported \<and> \<not> ce_retry_after e > now then None else Some e)
      in kept(key \<mapsto> \<lparr>ce_upstream = upstream,
           ce_retry_after = (if upstream = protocol_unsupported then now + unsupported_capability_ttl
                             else zero_time)\<rparr>))"

definition capability_clear :: "capability_cache \<Rightarrow> capability_cache" where
  "capability_clear c = (\<lambda>key. None)"


section \<open>The transform table\<close>

text \<open>
  The table is coherent: a body is translated exactly between two different known protocols, and
  exactly from the client's own main family, the one \<open>channelTestRequestFamily\<close> names.
\<close>

lemma protocols_differ [simp]:
  "anthropic \<noteq> codex" "anthropic \<noteq> openai" "anthropic \<noteq> gemini"
  "codex \<noteq> anthropic" "codex \<noteq> openai" "codex \<noteq> gemini"
  "openai \<noteq> anthropic" "openai \<noteq> codex" "openai \<noteq> gemini"
  "gemini \<noteq> anthropic" "gemini \<noteq> codex" "gemini \<noteq> openai"
  "anthropic \<noteq> []" "codex \<noteq> []" "openai \<noteq> []" "gemini \<noteq> []"
  "[] \<noteq> anthropic" "[] \<noteq> codex" "[] \<noteq> openai" "[] \<noteq> gemini"
  by (simp_all add: protocol_names)

lemma transform_table:
  "supports_transform_family client upstream f \<longleftrightarrow>
     is_valid_protocol client \<and> is_valid_protocol upstream \<and> client \<noteq> upstream \<and>
     f = channel_test_request_family client"
proof (cases "is_valid_protocol client")
  case True
  then consider "client = anthropic" | "client = codex" | "client = openai" | "client = gemini"
    by (auto simp: is_valid_protocol_def)
  then show ?thesis
    by cases (auto simp: supports_transform_family_def transform_families_def is_valid_protocol_def
      channel_test_request_family_def)
next
  case False
  then show ?thesis by (simp add: supports_transform_family_def transform_families_def is_valid_protocol_def)
qed

lemma channel_test_request_family_Unknown:
  "channel_test_request_family client = Unknown \<longleftrightarrow> \<not> is_valid_protocol client"
  by (simp add: channel_test_request_family_def is_valid_protocol_def)

lemma protocol_of_main_family:
  "is_valid_protocol client \<Longrightarrow> protocol_of_family (channel_test_request_family client) = client"
  by (auto simp: channel_test_request_family_def protocol_of_family_def is_valid_protocol_def)

lemma candidate_is_valid:
  assumes "supports_protocol_candidate client upstream family" "is_valid_protocol client"
  shows "is_valid_protocol upstream"
  using assms by (auto simp: supports_protocol_candidate_def transform_table)

lemma supports_transform_valid:
  "supports_transform client upstream \<longleftrightarrow>
     is_valid_protocol client \<and> is_valid_protocol upstream \<and> client \<noteq> upstream"
  by (auto simp: supports_transform_def transform_families_def is_valid_protocol_def)

text \<open>
  \<open>BuildTransformPlan\<close>: a request goes through untouched between equal or unknown protocols; between
  two different ones it is translated when the path is the one main endpoint of the client protocol,
  and refused otherwise.  An accepted plan keeps the client's view: a model and an address to send,
  and the original body where nothing else was prepared.
\<close>

theorem transform_plan_decides:
  "(case build_transform_plan client upstream path upstream_path body prepared model actual streaming of
      Inl e \<Rightarrow>
        e = UnsupportedTransform client upstream \<and> client \<noteq> '''' \<and> upstream \<noteq> '''' \<and> client \<noteq> upstream \<and>
        \<not> (is_valid_protocol client \<and> is_valid_protocol upstream \<and>
           detect_request_family path = channel_test_request_family client)
    | Inr p \<Rightarrow>
        tp_needs_transform p =
          (is_valid_protocol client \<and> is_valid_protocol upstream \<and> client \<noteq> upstream) \<and>
        (tp_needs_transform p = (detect_client_protocol_from_path path = client \<and> client \<noteq> upstream \<and>
           is_valid_protocol client \<and> is_valid_protocol upstream \<and> tp_family p = channel_test_request_family client)) \<and>
        request_model p = (if actual = '''' then model else actual) \<and>
        response_model p = (if model = '''' then actual else model) \<and>
        tp_translated_body p = (case prepared of None \<Rightarrow> body | Some b \<Rightarrow> Some b) \<and>
        tp_upstream_path p = (if upstream_path = '''' then path else upstream_path))"
proof -
  have "\<not> is_valid_protocol ''''" by (simp add: is_valid_protocol_def)
  then show ?thesis
    by (auto simp: build_transform_plan_def Let_def transform_table request_model_def response_model_def
        detect_client_protocol_from_path_def protocol_of_main_family split: option.splits)
qed

section \<open>Which candidates an address gets\<close>

lemma set_local_order:
  "set (local_upstream_protocol_order urls) =
     (let declared = {p \<in> \<Union> (set ` cu_protocols ` set urls). is_valid_protocol p}
      in if declared = {} then set local_fallback_protocol_order else declared)"
proof -
  have *: "set (dedup_by id xs) = set xs" for xs :: "protocol list"
    using dedup_by_keys [of id xs] by simp
  let ?ps = "dedup_by id (filter is_valid_protocol (concat (map cu_protocols urls)))"
  let ?S = "{p \<in> \<Union> (set ` cu_protocols ` set urls). is_valid_protocol p}"
  have S: "set ?ps = ?S" unfolding * by auto
  have "set (local_upstream_protocol_order urls) =
      (if set ?ps = {} then set local_fallback_protocol_order else set ?ps)"
    by (simp add: local_upstream_protocol_order_def Let_def)
  then show ?thesis unfolding Let_def S .
qed

lemma local_order_valid:
  "p \<in> set (local_upstream_protocol_order urls) \<Longrightarrow> is_valid_protocol p"
  by (auto simp: set_local_order Let_def local_fallback_protocol_order_def is_valid_protocol_def split: if_splits)

lemma set_possible_upstream_protocols:
  "set (possible_upstream_protocols cfg client) =
     (if get_protocol_transform_mode cfg = mode_upstream then {p. p = client \<and> is_valid_protocol p}
      else if get_protocol_transform_mode cfg = mode_local
        then set (local_upstream_protocol_order (cfg_urls cfg))
      else {p. is_valid_protocol p})"
proof -
  have *: "set (dedup_by id xs) = set xs" for xs :: "protocol list"
    using dedup_by_keys [of id xs] by simp
  show ?thesis
    unfolding possible_upstream_protocols_def Let_def *
    by (auto dest: local_order_valid simp: automatic_fallback_protocol_order_def is_valid_protocol_def)
qed

lemma url_candidates:
  assumes client: "is_valid_protocol client"
    and cands: "protocol_candidates_for_url entry mode client family order = (cs, declared)"
  shows candidates_sound: "\<forall>p \<in> set cs. is_valid_protocol p \<and> supports_protocol entry p \<and>
           (p = client \<or> family = channel_test_request_family client)"
    and candidates_upstream: "mode = mode_upstream \<Longrightarrow> cs = (if supports_protocol entry client then [client] else [])"
    and candidates_first: "mode \<notin> {mode_upstream, mode_local} \<Longrightarrow> supports_protocol entry client \<Longrightarrow>
           cs \<noteq> [] \<and> hd cs = client"
    and candidates_declared: "mode \<notin> {mode_upstream, mode_local} \<Longrightarrow> cu_protocols entry \<noteq> [] \<Longrightarrow> length cs \<le> 1"
    and candidates_complete: "mode \<notin> {mode_upstream, mode_local} \<Longrightarrow> cu_protocols entry = [] \<Longrightarrow>
           set cs = {p. is_valid_protocol p \<and> (p = client \<or> family = channel_test_request_family client)}"
proof -
  let ?ok = "\<lambda>p. supports_protocol entry p \<and> supports_protocol_candidate client p family"
  have own: "supports_protocol_candidate client client family"
    by (simp add: supports_protocol_candidate_def)
  have cs: "cs = fst (protocol_candidates_for_url entry mode client family order)"
    and d: "declared = (cu_protocols entry \<noteq> [])"
    using cands by (auto simp: protocol_candidates_for_url_def Let_def uses_automatic_protocol_detection_def
        split: if_splits)
  have sub: "set cs \<subseteq> {p. ?ok p}"
    unfolding cs protocol_candidates_for_url_def Let_def by (auto dest: in_set_takeD)
  then show "\<forall>p \<in> set cs. is_valid_protocol p \<and> supports_protocol entry p \<and>
           (p = client \<or> family = channel_test_request_family client)"
    using client by (auto dest: candidate_is_valid) (auto simp: supports_protocol_candidate_def transform_table)
  show "mode = mode_upstream \<Longrightarrow> cs = (if supports_protocol entry client then [client] else [])"
    unfolding cs protocol_candidates_for_url_def Let_def using client own by simp
  assume mode: "mode \<notin> {mode_upstream, mode_local}"
  have auto_cs: "cs = (let xs = filter ?ok (client # filter (\<lambda>p. p \<noteq> client) automatic_fallback_protocol_order)
      in if declared \<and> length xs > 1 then take 1 xs else xs)"
    using mode client unfolding cs d protocol_candidates_for_url_def Let_def
    by (simp add: uses_automatic_protocol_detection_def)
  show "supports_protocol entry client \<Longrightarrow> cs \<noteq> [] \<and> hd cs = client"
    unfolding auto_cs Let_def using own by (simp add: take_Suc)
  show "cu_protocols entry \<noteq> [] \<Longrightarrow> length cs \<le> 1"
    unfolding auto_cs Let_def d by (auto simp: min_def)
  assume "cu_protocols entry = []"
  then have "\<not> declared" and sp: "\<And>p. supports_protocol entry p"
    by (simp_all add: d supports_protocol_def uses_automatic_protocol_detection_def)
  then show "set cs = {p. is_valid_protocol p \<and> (p = client \<or> family = channel_test_request_family client)}"
    using client unfolding auto_cs Let_def
    by (auto simp: supports_protocol_candidate_def transform_table automatic_fallback_protocol_order_def
        is_valid_protocol_def)
qed

text \<open>
  \<open>protocolCandidatesForURL\<close>: every candidate is declared by the address (or the address declares
  none) and is the client's protocol or a translation target; in upstream mode it is the client's own
  protocol; otherwise the client's own protocol comes first where the address takes it, an address that
  declares protocols gets one candidate at most, and one that declares none gets every protocol the
  request can be translated to.
\<close>

theorem url_candidates_are_usable:
  assumes "is_valid_protocol client"
    and "protocol_candidates_for_url entry mode client family order = (cs, declared)"
  shows "(\<forall>p \<in> set cs. is_valid_protocol p \<and> supports_protocol entry p \<and>
            (p = client \<or> family = channel_test_request_family client)) \<and>
         (mode = mode_upstream \<longrightarrow> cs = (if supports_protocol entry client then [client] else [])) \<and>
         (mode \<noteq> mode_upstream \<and> mode \<noteq> mode_local \<longrightarrow>
            (supports_protocol entry client \<longrightarrow> cs \<noteq> [] \<and> hd cs = client) \<and>
            (if cu_protocols entry \<noteq> [] then length cs \<le> 1
             else set cs = {p. is_valid_protocol p \<and> (p = client \<or> family = channel_test_request_family client)}))"
proof (intro conjI impI)
  show "\<forall>p \<in> set cs. is_valid_protocol p \<and> supports_protocol entry p \<and>
      (p = client \<or> family = channel_test_request_family client)"
    by (rule candidates_sound [OF assms])
  show "cs = (if supports_protocol entry client then [client] else [])" if "mode = mode_upstream"
    using that by (rule candidates_upstream [OF assms])
  assume "mode \<noteq> mode_upstream \<and> mode \<noteq> mode_local"
  then have m: "mode \<notin> {mode_upstream, mode_local}" by simp
  show "cs \<noteq> []" "hd cs = client" if "supports_protocol entry client"
    using candidates_first [OF assms m that] by simp_all
  show "if cu_protocols entry \<noteq> [] then length cs \<le> 1
     else set cs = {p. is_valid_protocol p \<and> (p = client \<or> family = channel_test_request_family client)}"
    using candidates_declared [OF assms m] candidates_complete [OF assms m] by simp
qed

text \<open>
  No candidate escapes the cooldown check: what an address of the channel can be tried with is among
  the protocols the selector asks for cooled models.
\<close>

theorem candidates_are_possible_protocols:
  assumes client: "is_valid_protocol client" and entry: "entry \<in> set (cfg_urls cfg)"
    and p: "p \<in> set (fst (protocol_candidates_for_url entry (get_protocol_transform_mode cfg) client family
                  (local_upstream_protocol_order (cfg_urls cfg))))"
  shows "p \<in> set (possible_upstream_protocols cfg client)"
proof -
  obtain cs declared where cands: "protocol_candidates_for_url entry (get_protocol_transform_mode cfg) client family
      (local_upstream_protocol_order (cfg_urls cfg)) = (cs, declared)" by fastforce
  with p have p: "p \<in> set cs" by simp
  have valid: "is_valid_protocol p" using candidates_sound [OF client cands] p by blast
  show ?thesis
  proof (cases "get_protocol_transform_mode cfg = mode_local")
    case True
    have "mode_local \<noteq> mode_upstream" by (simp add: mode_local_def mode_upstream_def)
    with cands p True consider "p \<in> set (cu_protocols entry)"
      | "p \<in> set (local_upstream_protocol_order (cfg_urls cfg))"
      by (auto simp: protocol_candidates_for_url_def Let_def split: if_splits)
    then have "p \<in> set (local_upstream_protocol_order (cfg_urls cfg))"
      using entry valid by cases (auto simp: set_local_order Let_def)
    then show ?thesis using True \<open>mode_local \<noteq> mode_upstream\<close> by (simp add: set_possible_upstream_protocols)
  next
    case False
    then show ?thesis
      using candidates_upstream [OF client cands] p valid
      by (auto simp: set_possible_upstream_protocols split: if_splits)
  qed
qed

lemma prioritize_is_a_reordering:
  "mset (prioritize_protocol_candidate cs p) = mset cs"
  "p \<in> set cs \<Longrightarrow> hd (prioritize_protocol_candidate cs p) = p"
proof -
  show "mset (prioritize_protocol_candidate cs p) = mset cs"
    by (simp add: prioritize_protocol_candidate_def split: option.split)
  assume p: "p \<in> set cs"
  then obtain c r where cs: "cs = c # r" by (cases cs) auto
  show "hd (prioritize_protocol_candidate cs p) = p"
  proof (cases "find_index (\<lambda>c. c = p) r")
    case None
    then show ?thesis
      using p cs find_index_None [of "\<lambda>c. c = p" r] by (auto simp: prioritize_protocol_candidate_def None)
  next
    case (Some i)
    then have "i < length r \<and> r ! i = p" using find_index_Some [OF Some] by blast
    then show ?thesis using Some cs by (simp add: prioritize_protocol_candidate_def hd_move_to_front)
  qed
qed

section \<open>The capability cache\<close>

text \<open>
  What is learnt about an address: a working protocol stays known until it is replaced, an address
  that turned out not to work is left alone for exactly ten minutes, and learning about one address
  (which also sweeps expired entries) changes the answer for no other one.
\<close>

theorem capability_is_remembered:
  assumes "t0 \<le> t"
  shows "fst (capability_get (capability_set c key upstream t0) key t) =
           (if upstream \<noteq> protocol_unsupported then (upstream, True)
            else (protocol_unsupported, t < t0 + 10 * minute)) \<and>
         (\<forall>key'. (key' \<noteq> key \<longrightarrow>
             fst (capability_get (capability_set c key upstream t0) key' t) = fst (capability_get c key' t)) \<and>
           fst (capability_get (snd (capability_get c key t)) key' t) = fst (capability_get c key' t))"
proof -
  have "fst (capability_get (capability_set c key upstream t0) key t) =
           (if upstream \<noteq> protocol_unsupported then (upstream, True)
            else (protocol_unsupported, t < t0 + 10 * minute))"
    by (simp add: capability_get_def capability_set_def Let_def unsupported_capability_ttl_def)
  moreover have "key' \<noteq> key \<Longrightarrow>
      fst (capability_get (capability_set c key upstream t0) key' t) = fst (capability_get c key' t)" for key'
    using assms by (simp add: capability_get_def capability_set_def Let_def split: option.split)
  moreover have "fst (capability_get (snd (capability_get c key t)) key' t) = fst (capability_get c key' t)" for key'
    by (cases "key' = key") (auto simp: capability_get_def split: option.splits)
  ultimately show ?thesis by blast
qed

section \<open>Witnesses\<close>

definition example_entry :: "string list \<Rightarrow> channel_url" where
  "example_entry ps = \<lparr>cu_url = ''u'', cu_exact = False, cu_protocols = ps\<rparr>"

lemma example_candidates:
  "mode = mode_auto \<Longrightarrow> protocol_candidates_for_url (example_entry []) mode codex Responses order =
     ([codex, openai, anthropic, gemini], False)"
  by (simp add: protocol_candidates_for_url_def Let_def example_entry_def uses_automatic_protocol_detection_def
      supports_protocol_def supports_protocol_candidate_def transform_table is_valid_protocol_def
      channel_test_request_family_def automatic_fallback_protocol_order_def mode_auto_def mode_upstream_def
      mode_local_def)

theorem url_candidates_are_usable_witness:
  "protocol_candidates_for_url (example_entry []) mode_auto codex Responses [] =
     ([codex, openai, anthropic, gemini], False) \<and>
   (\<forall>p \<in> {codex, openai, anthropic, gemini}. supports_protocol (example_entry []) p)"
proof -
  have "is_valid_protocol codex" by (simp add: is_valid_protocol_def)
  from url_candidates_are_usable [OF this example_candidates [OF refl]] example_candidates [OF refl]
  show ?thesis by auto
qed

theorem candidates_are_possible_protocols_witness:
  "gemini \<in> set (possible_upstream_protocols (example_config\<lparr>cfg_urls := [example_entry []]\<rparr>) codex)"
proof -
  let ?cfg = "example_config\<lparr>cfg_urls := [example_entry []]\<rparr>"
  have mode: "get_protocol_transform_mode ?cfg = mode_auto"
    by (simp add: get_protocol_transform_mode_def normalize_protocol_transform_mode_def example_config_def
        Let_def mode_auto_def)
  have "is_valid_protocol codex" "example_entry [] \<in> set (cfg_urls ?cfg)" by (simp_all add: is_valid_protocol_def)
  moreover have "gemini \<in> set (fst (protocol_candidates_for_url (example_entry []) (get_protocol_transform_mode ?cfg)
      codex Responses (local_upstream_protocol_order (cfg_urls ?cfg))))"
    by (simp add: example_candidates [OF mode])
  ultimately show ?thesis by (rule candidates_are_possible_protocols)
qed

definition example_key :: capability_key where
  "example_key = \<lparr>ck_channel = 1, ck_base_url = ''u'', ck_client = openai, ck_family = ChatCompletions\<rparr>"

theorem capability_is_remembered_witness:
  "fst (capability_get (capability_set (\<lambda>k. None) example_key protocol_unsupported 5) example_key 7) =
     (protocol_unsupported, True)"
proof -
  have "(5::int) \<le> 7" by simp
  from capability_is_remembered [OF this, of "\<lambda>k. None" example_key protocol_unsupported]
  show ?thesis by simp
qed

end
