(* ===== verification/Custom_Rules.thy ===== *)
theory Custom_Rules
  imports Channel_Config Go_Text
begin

text \<open>
  The request rewriting rules of a channel, \<open>internal/app/custom_rules.go\<close>.

  A decoded body is a \<open>json\<close> value; an object is the list of its members, in which a member is
  looked up by \<open>map_of\<close> (a Go map has each key once: \<open>distinct_keys\<close>).  The decoder of texts is a
  parameter, \<open>None\<close> for a text that is not JSON; the encoder is left out, so the result of
  \<open>apply_body_rules\<close> is the value that is encoded.  The in-place updates of maps and slices happen
  only on the path that is returned, so they are functional updates here.

  Headers are a map from canonical names to their values, with \<open>Set\<close>, \<open>Add\<close>, \<open>Del\<close> and
  \<open>Values\<close> of \<open>http.Header\<close>; the canonical form is that of \<open>textproto.CanonicalMIMEHeaderKey\<close>.
\<close>

section \<open>Paths\<close>

definition rule_action_remove :: string where "rule_action_remove = ''remove''"
definition rule_action_override :: string where "rule_action_override = ''override''"
definition rule_action_append :: string where "rule_action_append = ''append''"

text \<open>\<open>strings.Split\<close> with a separator of one byte.\<close>

fun split_on :: "char \<Rightarrow> string \<Rightarrow> string list" where
  "split_on c [] = [[]]"
| "split_on c (x # xs) =
     (if x = c then [] # split_on c xs
      else case split_on c xs of [] \<Rightarrow> [[x]] | s # ss \<Rightarrow> (x # s) # ss)"

definition split_json_path :: "string \<Rightarrow> string list" where
  "split_json_path p =
     (let p' = trim_space p in
      if p' = '''' then []
      else let segs = map trim_space (split_on (CHR ''.'') p')
           in if list_ex (\<lambda>s. s = '''') segs then [] else segs)"

definition parse_array_index :: "string \<Rightarrow> nat option" where
  "parse_array_index s =
     (if s = '''' then None
      else case parse_int s of None \<Rightarrow> None | Some i \<Rightarrow> if i < 0 then None else Some (nat i))"

section \<open>Updating a value\<close>

definition obj_put :: "string \<Rightarrow> json \<Rightarrow> (string \<times> json) list \<Rightarrow> (string \<times> json) list" where
  "obj_put k v kvs =
     (if k \<in> fst ` set kvs then map (\<lambda>(k', v'). (k', if k' = k then v else v')) kvs
      else kvs @ [(k, v)])"

definition obj_delete :: "string \<Rightarrow> (string \<times> json) list \<Rightarrow> (string \<times> json) list" where
  "obj_delete k kvs = filter (\<lambda>(k', v). k' \<noteq> k) kvs"

fun set_json_path :: "json \<Rightarrow> string list \<Rightarrow> json \<Rightarrow> json option" where
  "set_json_path node [] value = Some value"
| "set_json_path node (seg # rest) value =
     (case node of
        JObj kvs \<Rightarrow>
          if rest = [] then Some (JObj (obj_put seg value kvs))
          else (case set_json_path (case map_of kvs seg of None \<Rightarrow> JObj [] | Some c \<Rightarrow> c) rest value of
                  None \<Rightarrow> None
                | Some c \<Rightarrow> Some (JObj (obj_put seg c kvs)))
      | JArr vs \<Rightarrow>
          (case parse_array_index seg of
             None \<Rightarrow> None
           | Some i \<Rightarrow>
               if i \<ge> length vs then None
               else if rest = [] then Some (JArr (vs[i := value]))
               else (case set_json_path (vs ! i) rest value of
                       None \<Rightarrow> None
                     | Some c \<Rightarrow> Some (JArr (vs[i := c]))))
      | _ \<Rightarrow> None)"

fun remove_json_path :: "json \<Rightarrow> string list \<Rightarrow> json option" where
  "remove_json_path node [] = None"
| "remove_json_path node (seg # rest) =
     (case node of
        JObj kvs \<Rightarrow>
          (case map_of kvs seg of
             None \<Rightarrow> None
           | Some child \<Rightarrow>
               if rest = [] then Some (JObj (obj_delete seg kvs))
               else (case remove_json_path child rest of
                       None \<Rightarrow> None
                     | Some c \<Rightarrow> Some (JObj (obj_put seg c kvs))))
      | JArr vs \<Rightarrow>
          (case parse_array_index seg of
             None \<Rightarrow> None
           | Some i \<Rightarrow>
               if i \<ge> length vs then None
               else if rest = [] then Some (JArr (take i vs @ drop (Suc i) vs))
               else (case remove_json_path (vs ! i) rest of
                       None \<Rightarrow> None
                     | Some c \<Rightarrow> Some (JArr (vs[i := c]))))
      | _ \<Rightarrow> None)"

section \<open>Body rules\<close>

text \<open>One rule; an ineffective rule leaves the value as it is.\<close>

definition apply_body_rule :: "(string \<Rightarrow> json option) \<Rightarrow> custom_body_rule \<Rightarrow> json \<Rightarrow> json option" where
  "apply_body_rule decode rule node =
     (let segs = split_json_path (br_path rule) in
      if segs = [] then None
      else if br_action rule = rule_action_remove then remove_json_path node segs
      else if br_action rule = rule_action_override then
        (if br_value rule = '''' then None
         else case decode (br_value rule) of
                None \<Rightarrow> None
              | Some parsed \<Rightarrow> set_json_path node segs parsed)
      else None)"

primrec apply_rules_from ::
    "(string \<Rightarrow> json option) \<Rightarrow> custom_body_rule list \<Rightarrow> json \<times> bool \<Rightarrow> json \<times> bool" where
  "apply_rules_from decode [] acc = acc"
| "apply_rules_from decode (r # rs) acc =
     apply_rules_from decode rs
       (case apply_body_rule decode r (fst acc) of None \<Rightarrow> acc | Some node \<Rightarrow> (node, True))"

definition is_json_content_type :: "string \<Rightarrow> bool" where
  "is_json_content_type ct =
     (let ct1 = to_lower (trim_space ct) in
      if ct1 = '''' then False
      else let ct2 = (if CHR '';'' \<in> set ct1 then trim_space (takeWhile (\<lambda>c. c \<noteq> CHR '';'') ct1) else ct1)
           in suffix ''/json'' ct2 \<or> suffix ''+json'' ct2)"

text \<open>\<open>Inl\<close>: the body goes out as it came; \<open>Inr\<close>: this value is encoded and sent.\<close>

definition apply_body_rules ::
    "(string \<Rightarrow> json option) \<Rightarrow> string \<Rightarrow> string \<Rightarrow> custom_body_rule list \<Rightarrow> string + json" where
  "apply_body_rules decode content_type body rules =
     (if body = '''' \<or> rules = [] \<or> \<not> is_json_content_type content_type then Inl body
      else case decode body of
             Some (JObj kvs) \<Rightarrow>
               (case apply_rules_from decode rules (JObj kvs, False) of
                  (node, changed) \<Rightarrow> if changed then Inr node else Inl body)
           | Some (JArr vs) \<Rightarrow>
               (case apply_rules_from decode rules (JArr vs, False) of
                  (node, changed) \<Rightarrow> if changed then Inr node else Inl body)
           | _ \<Rightarrow> Inl body)"

primrec resolve_model_from ::
    "(string \<Rightarrow> json option) \<Rightarrow> custom_body_rule list \<Rightarrow> string \<Rightarrow> string" where
  "resolve_model_from decode [] resolved = resolved"
| "resolve_model_from decode (r # rs) resolved =
     resolve_model_from decode rs
       (if split_json_path (br_path r) \<noteq> [''model''] then resolved
        else if br_action r = rule_action_remove then ''''
        else if br_action r = rule_action_override then
          (case decode (br_value r) of
             None \<Rightarrow> resolved
           | Some v \<Rightarrow> (case dec_string v '''' of None \<Rightarrow> '''' | Some s \<Rightarrow> trim_space s))
        else resolved)"

definition resolve_model_after_body_rules ::
    "(string \<Rightarrow> json option) \<Rightarrow> string \<Rightarrow> custom_body_rule list \<Rightarrow> string" where
  "resolve_model_after_body_rules decode model_name rules =
     resolve_model_from decode rules (trim_space model_name)"

section \<open>Header rules\<close>

record custom_header_rule =
  hr_action :: string
  hr_name :: string
  hr_value :: string

type_synonym header = "string \<Rightarrow> string list"

definition auth_header_blacklist :: "string list" where
  "auth_header_blacklist = [''authorization'', ''x-api-key'', ''x-goog-api-key'']"

definition token_char :: "char \<Rightarrow> bool" where
  "token_char c \<longleftrightarrow> (let n = (of_char c :: nat) in
     (48 \<le> n \<and> n \<le> 57) \<or> (65 \<le> n \<and> n \<le> 90) \<or> (97 \<le> n \<and> n \<le> 122) \<or>
     c \<in> set ''!#$%&*+-.^_|~`'' \<or> n = 39)"

primrec canonical_from :: "string \<Rightarrow> bool \<Rightarrow> string" where
  "canonical_from [] up = []"
| "canonical_from (c # cs) up =
     (if up then to_upper_char c else to_lower_char c) # canonical_from cs (c = CHR ''-'')"

definition canonical_key :: "string \<Rightarrow> string" where
  "canonical_key name = (if list_all token_char name then canonical_from name True else name)"

definition header_set :: "header \<Rightarrow> string \<Rightarrow> string \<Rightarrow> header" where
  "header_set h name v = h(canonical_key name := [v])"

definition header_add :: "header \<Rightarrow> string \<Rightarrow> string \<Rightarrow> header" where
  "header_add h name v = h(canonical_key name := h (canonical_key name) @ [v])"

definition header_del :: "header \<Rightarrow> string \<Rightarrow> header" where
  "header_del h name = h(canonical_key name := [])"

fun join_comma :: "string list \<Rightarrow> string" where
  "join_comma [] = []"
| "join_comma [s] = s"
| "join_comma (s # ss) = s @ '', '' @ join_comma ss"

definition keep_tokens :: "string \<Rightarrow> string \<Rightarrow> string list" where
  "keep_tokens target v =
     filter (\<lambda>t. t \<noteq> '''' \<and> t \<noteq> target) (map trim_space (split_on (CHR '','') v))"

definition remove_header_token :: "header \<Rightarrow> string \<Rightarrow> string \<Rightarrow> header" where
  "remove_header_token h name target =
     (let values = h (canonical_key name) in
      if values = [] then h
      else foldl (\<lambda>h v. header_add h name v) (header_del h name)
             (map join_comma (filter (\<lambda>kept. kept \<noteq> []) (map (keep_tokens target) values))))"

definition apply_header_rule :: "header \<Rightarrow> custom_header_rule \<Rightarrow> header" where
  "apply_header_rule h rule =
     (let name = trim_space (hr_name rule) in
      if name = '''' \<or> to_lower name \<in> set auth_header_blacklist then h
      else if hr_action rule = rule_action_remove then
        (let target = trim_space (hr_value rule)
         in if target \<noteq> '''' then remove_header_token h name target else header_del h name)
      else if hr_action rule = rule_action_override then header_set h name (hr_value rule)
      else if hr_action rule = rule_action_append then header_add h name (hr_value rule)
      else h)"

definition apply_header_rules :: "header \<Rightarrow> custom_header_rule list \<Rightarrow> header" where
  "apply_header_rules h rules = foldl apply_header_rule h rules"

section \<open>Reading at a path\<close>

fun json_at :: "json \<Rightarrow> string list \<Rightarrow> json option" where
  "json_at node [] = Some node"
| "json_at node (seg # rest) =
     (case node of
        JObj kvs \<Rightarrow> (case map_of kvs seg of None \<Rightarrow> None | Some c \<Rightarrow> json_at c rest)
      | JArr vs \<Rightarrow>
          (case parse_array_index seg of
             None \<Rightarrow> None
           | Some i \<Rightarrow> if i < length vs then json_at (vs ! i) rest else None)
      | _ \<Rightarrow> None)"

lemma map_of_replace:
  "map_of (map (\<lambda>(k', v'). (k', if k' = k then v else v')) kvs) x =
     (case map_of kvs x of None \<Rightarrow> None | Some v' \<Rightarrow> Some (if x = k then v else v'))"
  by (induction kvs) (auto split: prod.splits)

lemma map_of_obj_put [simp]: "map_of (obj_put k v kvs) = (map_of kvs)(k \<mapsto> v)"
proof (cases "k \<in> fst ` set kvs")
  case True
  then have "map_of kvs k \<noteq> None" by (simp add: map_of_eq_None_iff)
  with True show ?thesis
    by (auto simp: obj_put_def map_of_replace fun_eq_iff split: option.split)
next
  case False
  then have "map_of kvs k = None" by (simp add: map_of_eq_None_iff)
  with False show ?thesis
    by (auto simp: obj_put_def fun_eq_iff map_add_def split: option.split)
qed

lemma map_of_obj_delete [simp]: "map_of (obj_delete k kvs) = (map_of kvs)(k := None)"
  by (induction kvs) (auto simp: obj_delete_def fun_eq_iff)

text \<open>Overriding a value at a path and reading the path gives that value, through objects and
  arrays and with missing objects created on the way; the other members of the top-level object
  are the same as before.\<close>

theorem overridden_path_reads_back:
  assumes "set_json_path node segs v = Some node'"
  shows "json_at node' segs = Some v \<and>
    (\<forall>kvs k. node = JObj kvs \<longrightarrow> segs \<noteq> [] \<longrightarrow> k \<noteq> hd segs \<longrightarrow> json_at node' [k] = json_at node [k])"
  using assms
proof (induction node segs v arbitrary: node' rule: set_json_path.induct)
  case (2 node seg rest v)
  then show ?case
    by (cases node; cases "rest = []") (auto split: option.splits if_splits)
qed simp

lemma example_path: "split_json_path ''model'' = [''model'']"
proof -
  have "trim_space ''model'' = ''model''"
    by (rule trim_space_word) (simp add: plain_word_def plain_char_def)
  then show ?thesis by (simp add: split_json_path_def)
qed

theorem overridden_path_reads_back_witness:
  "json_at (the (set_json_path (JObj [(''a'', JArr [JNull, JNum ''2''])]) [''a'', ''1'', ''b''] JNull)) [''a''] = Some (JArr [JNull])
     \<or> set_json_path (JObj [(''b'', JNull)]) [''a'', ''x''] (JBool True) =
         Some (JObj [(''b'', JNull), (''a'', JObj [(''x'', JBool True)])]) \<and>
       json_at (JObj [(''b'', JNull), (''a'', JObj [(''x'', JBool True)])]) [''b''] = Some JNull"
proof -
  have s: "set_json_path (JObj [(''b'', JNull)]) [''a'', ''x''] (JBool True) =
      Some (JObj [(''b'', JNull), (''a'', JObj [(''x'', JBool True)])])"
    by (simp add: obj_put_def)
  from overridden_path_reads_back [OF s] s show ?thesis by auto
qed

section \<open>The model that is sent\<close>

text \<open>The model a decoded body names, trimmed; empty when it names none by a string.\<close>

definition body_model :: "json \<Rightarrow> string" where
  "body_model node =
     (case json_at node [''model''] of Some (JStr m) \<Rightarrow> trim_space m | _ \<Rightarrow> '''')"

definition is_object :: "json \<Rightarrow> bool" where
  "is_object node = (case node of JObj kvs \<Rightarrow> True | _ \<Rightarrow> False)"

definition is_text :: "json \<Rightarrow> bool" where
  "is_text node = (case node of JStr s \<Rightarrow> True | _ \<Rightarrow> False)"

lemma is_text_iff: "is_text c \<longleftrightarrow> (\<exists>s. c = JStr s)"
  by (cases c) (simp_all add: is_text_def)

lemma set_deep_no_text: "set_json_path c (seg # rest) v = Some c' \<Longrightarrow> \<not> is_text c \<and> \<not> is_text c'"
  by (cases c) (auto simp: is_text_def split: option.splits if_splits)

lemma remove_deep_no_text: "remove_json_path c (seg # rest) = Some c' \<Longrightarrow> \<not> is_text c \<and> \<not> is_text c'"
  by (cases c) (auto simp: is_text_def split: option.splits if_splits)

lemma set_object:
  assumes "set_json_path (JObj kvs) (seg # rest) v = Some node'"
  obtains c where "node' = JObj (obj_put seg c kvs)" and "rest = [] \<Longrightarrow> c = v"
    and "rest \<noteq> [] \<Longrightarrow> \<not> is_text c \<and> (\<forall>s. map_of kvs seg \<noteq> Some (JStr s))"
proof (cases rest)
  case Nil
  then show thesis using assms that by auto
next
  case (Cons r rs)
  then obtain c where c: "set_json_path (case map_of kvs seg of None \<Rightarrow> JObj [] | Some c \<Rightarrow> c) rest v = Some c"
      and n: "node' = JObj (obj_put seg c kvs)"
    using assms by (auto split: option.splits)
  have "\<not> is_text (case map_of kvs seg of None \<Rightarrow> JObj [] | Some c \<Rightarrow> c) \<and> \<not> is_text c"
    using set_deep_no_text c Cons by blast
  moreover have "\<forall>s. map_of kvs seg \<noteq> Some (JStr s)"
    using calculation by (auto simp: is_text_iff split: option.splits)
  ultimately show thesis using that [of c] n Cons by blast
qed

lemma remove_object:
  assumes "remove_json_path (JObj kvs) (seg # rest) = Some node'"
  obtains "rest = []" and "node' = JObj (obj_delete seg kvs)"
  | c where "node' = JObj (obj_put seg c kvs)" and "rest \<noteq> []" and "\<not> is_text c"
      and "\<forall>s. map_of kvs seg \<noteq> Some (JStr s)"
proof (cases rest)
  case Nil
  then show thesis using assms that(1) by (auto split: option.splits)
next
  case (Cons r rs)
  then obtain child c where c: "map_of kvs seg = Some child" "remove_json_path child rest = Some c"
      and n: "node' = JObj (obj_put seg c kvs)"
    using assms by (auto split: option.splits)
  have "\<not> is_text child \<and> \<not> is_text c" using remove_deep_no_text c(2) Cons by blast
  then show thesis using that(2) [of c] n Cons c(1) by (auto simp: is_text_iff)
qed

lemma body_model_obj: "body_model (JObj kvs) = (case map_of kvs ''model'' of Some (JStr m) \<Rightarrow> trim_space m | _ \<Rightarrow> '''')"
  by (simp add: body_model_def split: option.split)

lemma body_model_put:
  "body_model (JObj (obj_put seg c kvs)) =
     (if seg = ''model'' then (case c of JStr m \<Rightarrow> trim_space m | _ \<Rightarrow> '''') else body_model (JObj kvs))"
  by (simp add: body_model_obj)

lemma no_text_model: "\<not> is_text c \<Longrightarrow> (case c of JStr m \<Rightarrow> trim_space m | _ \<Rightarrow> '''') = ''''"
  by (simp add: is_text_def split: json.splits)

lemma no_text_body: "\<forall>s. map_of kvs ''model'' \<noteq> Some (JStr s) \<Longrightarrow> body_model (JObj kvs) = ''''"
  by (simp add: body_model_obj split: option.split json.split)

definition rule_model :: "(string \<Rightarrow> json option) \<Rightarrow> custom_body_rule \<Rightarrow> string \<Rightarrow> string" where
  "rule_model decode r resolved = resolve_model_from decode [r] resolved"

lemma resolve_step: "resolve_model_from decode (r # rs) m = resolve_model_from decode rs (rule_model decode r m)"
  by (simp add: rule_model_def)

lemma trim_model: "(case dec_string v '''' of None \<Rightarrow> '''' | Some s \<Rightarrow> trim_space s)
    = (case v of JStr m \<Rightarrow> trim_space m | _ \<Rightarrow> '''')"
  by (simp add: dec_string_def split: json.split)

lemma remove_keeps_model:
  assumes path: "split_json_path (br_path r) = seg # rest" and remove: "br_action r = rule_action_remove"
  shows "(case apply_body_rule decode r (JObj kvs) of
     None \<Rightarrow> rule_model decode r (body_model (JObj kvs)) = body_model (JObj kvs)
   | Some node \<Rightarrow> is_object node \<and> rule_model decode r (body_model (JObj kvs)) = body_model node)"
proof -
  show ?thesis
  proof (cases "remove_json_path (JObj kvs) (seg # rest)")
    case None
    then have "rest = [] \<Longrightarrow> seg = ''model'' \<Longrightarrow> body_model (JObj kvs) = ''''"
      by (auto simp: body_model_obj split: option.splits)
    with None remove path show ?thesis by (simp add: apply_body_rule_def rule_model_def)
  next
    case (Some node)
    then show ?thesis
    proof (cases rule: remove_object)
      case 1
      then show ?thesis using remove path Some
        by (simp add: apply_body_rule_def rule_model_def is_object_def body_model_obj)
    next
      case (2 c)
      then show ?thesis using remove path Some no_text_model [of c] no_text_body [of kvs]
        by (auto simp: apply_body_rule_def rule_model_def is_object_def body_model_put simp del: remove_json_path.simps)
    qed
  qed
qed

lemma override_keeps_model:
  assumes decode: "decode [] = None" and path: "split_json_path (br_path r) = seg # rest"
    and override: "br_action r = rule_action_override"
  shows "(case apply_body_rule decode r (JObj kvs) of
     None \<Rightarrow> rule_model decode r (body_model (JObj kvs)) = body_model (JObj kvs)
   | Some node \<Rightarrow> is_object node \<and> rule_model decode r (body_model (JObj kvs)) = body_model node)"
proof -
  have neq: "rule_action_override \<noteq> rule_action_remove"
    by (simp add: rule_action_override_def rule_action_remove_def)
  show ?thesis
  proof (cases "br_value r = '''' \<or> decode (br_value r) = None")
    case True
    then show ?thesis using override path neq decode
      by (auto simp: apply_body_rule_def rule_model_def)
  next
    case False
    then obtain v where v: "decode (br_value r) = Some v" "br_value r \<noteq> ''''" by auto
    show ?thesis
    proof (cases "set_json_path (JObj kvs) (seg # rest) v")
      case None
      then have "rest \<noteq> []" by auto
      with None override path v neq show ?thesis
        by (simp add: apply_body_rule_def rule_model_def del: set_json_path.simps)
    next
      case (Some node)
      obtain c where "node = JObj (obj_put seg c kvs)" and "rest = [] \<Longrightarrow> c = v"
        and "rest \<noteq> [] \<Longrightarrow> \<not> is_text c \<and> (\<forall>s. map_of kvs seg \<noteq> Some (JStr s))"
        by (rule set_object [OF Some]) blast
      then show ?thesis using Some override path v neq no_text_model [of c] no_text_body [of kvs]
        by (cases "rest = []")
          (auto simp: apply_body_rule_def rule_model_def is_object_def body_model_put trim_model
            simp del: set_json_path.simps)
    qed
  qed
qed

lemma rule_keeps_model:
  assumes "decode '''' = None"
  shows "(case apply_body_rule decode r (JObj kvs) of
     None \<Rightarrow> rule_model decode r (body_model (JObj kvs)) = body_model (JObj kvs)
   | Some node \<Rightarrow> is_object node \<and> rule_model decode r (body_model (JObj kvs)) = body_model node)"
proof (cases "split_json_path (br_path r)")
  case Nil
  then show ?thesis by (simp add: apply_body_rule_def rule_model_def)
next
  case (Cons seg rest)
  then show ?thesis
    using remove_keeps_model [OF Cons] override_keeps_model [where decode = decode, OF _ Cons] assms
    by (cases "br_action r = rule_action_remove \<or> br_action r = rule_action_override")
      (auto simp: apply_body_rule_def rule_model_def Let_def)
qed

lemma rules_keep_model:
  assumes "decode '''' = None"
  shows "\<exists>kvs'. fst (apply_rules_from decode rs (JObj kvs, changed)) = JObj kvs' \<and>
    resolve_model_from decode rs (body_model (JObj kvs)) = body_model (JObj kvs') \<and>
    (\<not> snd (apply_rules_from decode rs (JObj kvs, changed)) \<longrightarrow> kvs' = kvs)"
proof (induction rs arbitrary: kvs changed)
  case (Cons r rs)
  show ?case
  proof (cases "apply_body_rule decode r (JObj kvs)")
    case None
    then have "rule_model decode r (body_model (JObj kvs)) = body_model (JObj kvs)"
      using rule_keeps_model [where decode = decode and r = r and kvs = kvs, OF assms] by simp
    then show ?thesis using Cons [of kvs changed] None
      by (simp add: resolve_step del: resolve_model_from.simps)
  next
    case (Some node)
    then obtain kvs1 where n: "node = JObj kvs1"
        and m: "rule_model decode r (body_model (JObj kvs)) = body_model (JObj kvs1)"
      using rule_keeps_model [where decode = decode and r = r and kvs = kvs, OF assms]
      by (auto simp: is_object_def split: json.splits)
    have true: "snd (apply_rules_from decode rs (x, True))" for x
      by (induction rs arbitrary: x) (auto split: option.split)
    show ?thesis using Cons [of kvs1 True] Some true [of node]
      by (simp add: resolve_step m n del: resolve_model_from.simps)
  qed
qed simp

text \<open>The model the proxy accounts for is the model it sends: for a JSON request whose body names
  the model \<open>m\<close>, the name that \<open>resolveModelAfterBodyRules\<close> computes from \<open>m\<close> and the rules of the
  channel is the name in the body that \<open>applyBodyRules\<close> sends, and empty exactly when that body
  names no model by a string.\<close>

theorem resolved_model_is_sent:
  assumes "decode '''' = None" and "decode body = Some (JObj kvs)"
    and "map_of kvs ''model'' = Some (JStr m)" and "is_json_content_type content_type"
  shows "resolve_model_after_body_rules decode m rules =
    (case apply_body_rules decode content_type body rules of
       Inl b \<Rightarrow> trim_space m | Inr node \<Rightarrow> body_model node)"
proof -
  have m: "body_model (JObj kvs) = trim_space m" using assms(3) by (simp add: body_model_obj)
  obtain kvs' where r: "fst (apply_rules_from decode rules (JObj kvs, False)) = JObj kvs'"
    and res: "resolve_model_from decode rules (trim_space m) = body_model (JObj kvs')"
    and same: "\<not> snd (apply_rules_from decode rules (JObj kvs, False)) \<Longrightarrow> kvs' = kvs"
    using rules_keep_model [where decode = decode and rs = rules and kvs = kvs and changed = False, OF assms(1)] m
    by auto
  have ne: "body \<noteq> ''''" using assms(1,2) by auto
  show ?thesis
    using r res same ne m assms(2,4)
    by (cases "apply_rules_from decode rules (JObj kvs, False)")
      (auto simp: apply_body_rules_def resolve_model_after_body_rules_def)
qed

definition example_decode :: "string \<Rightarrow> json option" where
  "example_decode s =
     (if s = ''{}'' then Some (JObj [(''model'', JStr ''a'')]) else if s = ''b'' then Some (JStr ''b'') else None)"

theorem resolved_model_is_sent_witness:
  "resolve_model_after_body_rules example_decode ''a''
     [\<lparr>br_action = rule_action_override, br_path = ''model'', br_value = ''b''\<rparr>] = trim_space ''b''"
proof -
  let ?rules = "[\<lparr>br_action = rule_action_override, br_path = ''model'', br_value = ''b''\<rparr>]"
  have "trim_space ''application/json'' = ''application/json''"
    by (rule trim_space_word) (simp add: plain_word_def plain_char_def)
  then have ct: "is_json_content_type ''application/json''"
    by (simp add: is_json_content_type_def to_lower_def to_lower_char_def Let_def suffix_to_prefix)
  have "resolve_model_after_body_rules example_decode ''a'' ?rules =
    (case apply_body_rules example_decode ''application/json'' ''{}'' ?rules of
       Inl b \<Rightarrow> trim_space ''a'' | Inr node \<Rightarrow> body_model node)"
    by (rule resolved_model_is_sent [where kvs = "[(''model'', JStr ''a'')]", OF _ _ _ ct])
      (simp_all add: example_decode_def)
  also have "\<dots> = trim_space ''b''"
    using ct
    by (simp add: apply_body_rules_def example_decode_def apply_body_rule_def example_path
        rule_action_override_def rule_action_remove_def obj_put_def body_model_def)
  finally show ?thesis .
qed

section \<open>Authentication headers\<close>

lemma to_lower_upper: "to_lower_char (to_upper_char c) = to_lower_char c"
  by (cases "97 \<le> (of_char c :: nat) \<and> (of_char c :: nat) \<le> 122")
    (auto simp: to_lower_char_def to_upper_char_def Let_def of_char_of)

lemma canonical_from_lower: "to_lower (canonical_from name up) = to_lower name"
  by (induction name arbitrary: up) (simp_all add: to_lower_def to_lower_upper)

lemma canonical_key_lower: "to_lower (canonical_key name) = to_lower name"
  by (simp add: canonical_key_def canonical_from_lower)

lemma header_upd_other:
  "k \<noteq> canonical_key name \<Longrightarrow> header_add h name v k = h k"
  "k \<noteq> canonical_key name \<Longrightarrow> header_set h name v k = h k"
  "k \<noteq> canonical_key name \<Longrightarrow> header_del h name k = h k"
  by (simp_all add: header_add_def header_set_def header_del_def)

lemma header_adds_other:
  "k \<noteq> canonical_key name \<Longrightarrow> foldl (\<lambda>h v. header_add h name v) h vs k = h k"
  by (induction vs arbitrary: h) (simp_all add: header_upd_other)

lemma apply_header_rule_other:
  assumes "to_lower k \<in> set auth_header_blacklist"
  shows "apply_header_rule h rule k = h k"
proof -
  have "k \<noteq> canonical_key name" if "to_lower name \<notin> set auth_header_blacklist" for name
    using that assms canonical_key_lower by metis
  then show ?thesis
    by (simp add: apply_header_rule_def remove_header_token_def Let_def header_upd_other header_adds_other)
qed

text \<open>No custom header rule can touch a header that carries credentials: whatever the rules are,
  and however their header names are spelled, every header whose name is one of the protected
  names in any letter case keeps its values.\<close>

theorem auth_headers_are_protected:
  assumes "to_lower k \<in> set auth_header_blacklist"
  shows "apply_header_rules h rules k = h k"
  using assms unfolding apply_header_rules_def
  by (induction rules arbitrary: h) (simp_all add: apply_header_rule_other)

theorem auth_headers_are_protected_witness:
  "apply_header_rules (\<lambda>k. if k = ''X-Api-Key'' then [''secret''] else [])
     [\<lparr>hr_action = rule_action_remove, hr_name = '' x-aPi-key'', hr_value = ''''\<rparr>] ''X-Api-Key'' = [''secret'']"
proof -
  have "to_lower ''X-Api-Key'' \<in> set auth_header_blacklist" by code_simp
  from auth_headers_are_protected [OF this] show ?thesis by simp
qed

lemma header_adds_same:
  "foldl (\<lambda>h v. header_add h name v) h vs (canonical_key name) = h (canonical_key name) @ vs"
  by (induction vs arbitrary: h) (simp_all add: header_add_def)

text \<open>Removing one token from a comma-separated header removes exactly that token: the header's
  values are the old ones with the token and empty parts dropped, in order, a value without
  remaining tokens disappears, and other headers keep their values.\<close>

theorem header_token_removed:
  "remove_header_token h name target (canonical_key name) =
     map join_comma (filter (\<lambda>kept. kept \<noteq> []) (map (keep_tokens target) (h (canonical_key name)))) \<and>
   (\<forall>v \<in> set (h (canonical_key name)). target \<notin> set (keep_tokens target v)) \<and>
   (\<forall>k. k \<noteq> canonical_key name \<longrightarrow> remove_header_token h name target k = h k)"
  by (auto simp: remove_header_token_def Let_def header_adds_same header_del_def header_adds_other
      keep_tokens_def)

theorem header_token_removed_witness:
  "remove_header_token (\<lambda>k. if k = ''Etag'' then [''x''] else []) ''Beta'' ''y'' ''Etag'' = [''x'']"
proof -
  have "''Etag'' \<noteq> canonical_key ''Beta''"
    by (simp add: canonical_key_def to_upper_char_def to_lower_char_def)
  then show ?thesis
    using header_token_removed [of "\<lambda>k. if k = ''Etag'' then [''x''] else []" "''Beta''" "''y''"] by simp
qed

end
