(* ===== verification/Model_Routing.thy ===== *)
theory Model_Routing
  imports Protocol_Routing Custom_Rules
begin

text \<open>
  Which model a channel is asked for: alias groups (\<open>internal/model/model_alias.go\<close>,
  \<open>internal/app/model_aliases.go\<close>), \<open>configSupportsModel\<close> of \<open>selector_model_matcher.go\<close> and
  \<open>resolveActualModel\<close> and \<open>resolveFinalUpstreamModel\<close> of \<open>proxy_util.go\<close>.

  A registry is the snapshot it holds, \<open>None\<close> for a nil registry; swapping the snapshot is one
  assignment.  \<open>decode\<close> is the JSON parser of the body rules.
\<close>

section \<open>Alias groups\<close>

record model_alias_group =
  mg_canonical :: string
  mg_aliases :: "string list"
  mg_enabled :: bool

definition trim_canonical :: "model_alias_group \<Rightarrow> model_alias_group" where
  "trim_canonical g = g\<lparr>mg_canonical := trim_space (mg_canonical g)\<rparr>"

text \<open>The exact spelling counts; the canonical name is seeded into the \<open>seen\<close> map.\<close>

definition clean_aliases :: "model_alias_group \<Rightarrow> model_alias_group" where
  "clean_aliases g =
     g\<lparr>mg_aliases := dedup_loop id [mg_canonical g] (filter (\<lambda>a. a \<noteq> '''') (map trim_space (mg_aliases g)))\<rparr>"

definition normalize_model_alias_groups :: "model_alias_group list \<Rightarrow> model_alias_group list" where
  "normalize_model_alias_groups groups =
     map clean_aliases
       (dedup_by (\<lambda>g. to_lower (mg_canonical g))
         (filter (\<lambda>g. mg_canonical g \<noteq> '''') (map trim_canonical groups)))"

section \<open>The index\<close>

record model_alias_index =
  mi_groups :: "model_alias_group list"
  mi_by_name :: "string \<Rightarrow> model_alias_group option"

definition model_alias_key :: "string \<Rightarrow> string" where
  "model_alias_key name = to_lower (trim_space name)"

definition group_names :: "model_alias_group \<Rightarrow> string list" where
  "group_names g = mg_canonical g # mg_aliases g"

primrec index_groups ::
    "(string \<Rightarrow> model_alias_group option) \<Rightarrow> model_alias_group list \<Rightarrow> string \<Rightarrow> model_alias_group option" where
  "index_groups m [] = m"
| "index_groups m (g # gs) =
     index_groups (if mg_enabled g
       then foldl (\<lambda>m name. m(model_alias_key name \<mapsto> g)) m (group_names g) else m) gs"

definition new_model_alias_index :: "model_alias_group list \<Rightarrow> model_alias_index" where
  "new_model_alias_index groups =
     (let gs = normalize_model_alias_groups groups
      in \<lparr>mi_groups = gs, mi_by_name = index_groups (\<lambda>k. None) gs\<rparr>)"

type_synonym registry = "model_alias_index option"

definition names_for :: "registry \<Rightarrow> string \<Rightarrow> string list" where
  "names_for r name =
     (case r of
        None \<Rightarrow> [name]
      | Some index \<Rightarrow>
          (case mi_by_name index (model_alias_key name) of
             None \<Rightarrow> [name] | Some g \<Rightarrow> group_names g))"

text \<open>The first configured model that equals the first possible name, letter case aside.\<close>

primrec first_configured :: "string list \<Rightarrow> string list \<Rightarrow> string option" where
  "first_configured [] models = None"
| "first_configured (name # names) models =
     (case find (equal_fold name) models of
        Some actual \<Rightarrow> Some actual | None \<Rightarrow> first_configured names models)"

definition actual_model_for :: "registry \<Rightarrow> config \<Rightarrow> string \<Rightarrow> string" where
  "actual_model_for r cfg requested =
     (case first_configured (names_for r requested) (get_models cfg) of
        Some actual \<Rightarrow> actual | None \<Rightarrow> requested)"

definition alias_supports :: "registry \<Rightarrow> config \<Rightarrow> string \<Rightarrow> bool" where
  "alias_supports r cfg requested \<longleftrightarrow> list_ex (supports_model cfg) (names_for r requested)"

definition canonical_model_for :: "registry \<Rightarrow> string \<Rightarrow> string" where
  "canonical_model_for r name =
     (case r of
        None \<Rightarrow> name
      | Some index \<Rightarrow>
          (case mi_by_name index (model_alias_key name) of
             None \<Rightarrow> name | Some g \<Rightarrow> mg_canonical g))"

text \<open>
  The map is empty exactly when no group is enabled.  An empty index returns the list as it is, without removing duplicates.
\<close>

definition canonicalize_model_names :: "registry \<Rightarrow> string list \<Rightarrow> string list" where
  "canonicalize_model_names r names =
     (case r of
        None \<Rightarrow> names
      | Some index \<Rightarrow>
          if \<not> list_ex mg_enabled (mi_groups index) \<or> names = [] then names
          else dedup_by id (map (canonical_model_for r) names))"

section \<open>The model of a channel\<close>

definition config_supports_model :: "registry \<Rightarrow> config \<Rightarrow> string \<Rightarrow> bool" where
  "config_supports_model r cfg m =
     (if m = ''*'' then True
      else supports_model cfg m \<or> (r \<noteq> None \<and> alias_supports r cfg m))"

definition resolve_actual_model :: "registry \<Rightarrow> config \<Rightarrow> string \<Rightarrow> string" where
  "resolve_actual_model r cfg original =
     (let redirect = (\<lambda>m. case get_redirect_model cfg m of Some t \<Rightarrow> if t \<noteq> '''' then t else m | None \<Rightarrow> m);
          actual1 = redirect original;
          actual2 = (if actual1 = original \<and> r \<noteq> None then actual_model_for r cfg original else actual1)
      in if actual2 \<noteq> original then redirect actual2 else actual2)"

definition resolve_final_upstream_model ::
    "(string \<Rightarrow> json option) \<Rightarrow> registry \<Rightarrow> config \<Rightarrow> string \<Rightarrow> protocol \<Rightarrow> string" where
  "resolve_final_upstream_model decode r cfg original upstream =
     (let actual = resolve_actual_model r cfg original
      in if to_lower (trim_space upstream) = gemini then actual
         else resolve_model_after_body_rules decode actual (cfg_body_rules cfg))"

definition possible_actual_models ::
    "(string \<Rightarrow> json option) \<Rightarrow> registry \<Rightarrow> config \<Rightarrow> string \<Rightarrow> string \<Rightarrow> string list" where
  "possible_actual_models decode r cfg requested client_protocol =
     (let client = to_lower (trim_space client_protocol);
          models = map (resolve_final_upstream_model decode r cfg requested)
                     (possible_upstream_protocols cfg client)
      in dedup_by id (filter (\<lambda>m. m \<noteq> '''') models))"

section \<open>Normal groups\<close>

lemma dedup_loop_distinct:
  "distinct (map key xs) \<Longrightarrow> set (map key xs) \<inter> set seen = {} \<Longrightarrow> dedup_loop key seen xs = xs"
  by (induction key seen xs rule: dedup_loop.induct) auto

lemma dedup_by_distinct: "distinct (map key xs) \<Longrightarrow> dedup_by key xs = xs"
  by (simp add: dedup_by_def dedup_loop_distinct)

definition normal_group :: "model_alias_group \<Rightarrow> bool" where
  "normal_group g \<longleftrightarrow> distinct (group_names g) \<and> (\<forall>n \<in> set (group_names g). n \<noteq> '''' \<and> trim_space n = n)"

lemma normal_group_clean:
  assumes "mg_canonical g \<noteq> ''''" "trim_space (mg_canonical g) = mg_canonical g"
  shows "normal_group (clean_aliases g)"
proof -
  let ?as = "filter (\<lambda>a. a \<noteq> '''') (map trim_space (mg_aliases g))"
  let ?xs = "dedup_loop id [mg_canonical g] ?as"
  have s: "set ?xs = set ?as - {mg_canonical g}"
    using dedup_loop_keys [of id "[mg_canonical g]" ?as] by simp
  have "distinct ?xs" using distinct_dedup_loop [of id "[mg_canonical g]" ?as] by (simp only: map_idI id_apply)
  have n: "group_names (clean_aliases g) = mg_canonical g # ?xs"
    by (simp add: group_names_def clean_aliases_def)
  have ok: "n \<noteq> '''' \<and> trim_space n = n" if "n \<in> set ?xs" for n
    using that unfolding s by (auto simp del: trim_space_trimmed)
  have "mg_canonical g \<notin> set ?xs" unfolding s by blast
  with \<open>distinct ?xs\<close> have "distinct (mg_canonical g # ?xs)" unfolding distinct.simps(2) by (rule conjI [rotated])
  moreover have "\<forall>n \<in> set (mg_canonical g # ?xs). n \<noteq> '''' \<and> trim_space n = n"
    unfolding list.set(2) ball_simps(7) by (intro conjI ballI assms ok [THEN conjunct1] ok [THEN conjunct2])
  ultimately show ?thesis unfolding normal_group_def n by (rule conjI)
qed

lemma clean_normal: "normal_group g \<Longrightarrow> clean_aliases g = g"
proof -
  assume g: "normal_group g"
  have "map trim_space (mg_aliases g) = mg_aliases g"
    using g by (intro map_idI) (simp add: normal_group_def group_names_def)
  moreover have "filter (\<lambda>a. a \<noteq> '''') (mg_aliases g) = mg_aliases g"
    using g by (simp add: normal_group_def group_names_def)
  moreover have "dedup_loop id [mg_canonical g] (mg_aliases g) = mg_aliases g"
    using g by (intro dedup_loop_distinct) (auto simp: normal_group_def group_names_def)
  ultimately show "clean_aliases g = g" by (simp add: clean_aliases_def)
qed

lemma canonical_clean [simp]: "mg_canonical (clean_aliases g) = mg_canonical g"
  by (simp add: clean_aliases_def)

lemma normal_groups:
  "g \<in> set (normalize_model_alias_groups groups) \<Longrightarrow> normal_group g"
  using set_dedup_by [of "\<lambda>g. to_lower (mg_canonical g)"
      "filter (\<lambda>g. mg_canonical g \<noteq> '''') (map trim_canonical groups)"]
  by (auto simp: normalize_model_alias_groups_def trim_canonical_def intro!: normal_group_clean)

lemma normal_groups_distinct:
  "distinct (map (\<lambda>g. to_lower (mg_canonical g)) (normalize_model_alias_groups groups))"
  using distinct_dedup_by [of "\<lambda>g. to_lower (mg_canonical g)"
      "filter (\<lambda>g. mg_canonical g \<noteq> '''') (map trim_canonical groups)"]
  by (simp add: normalize_model_alias_groups_def comp_def)

text \<open>
  \<open>NormalizeModelAliasGroups\<close>: in the result every name is trimmed and not empty, no group lists a
  name twice or repeats its canonical name, no two canonical names agree letter case aside, and
  normalising again changes nothing.
\<close>

theorem alias_groups_are_normalised:
  "let gs = normalize_model_alias_groups groups
   in normalize_model_alias_groups gs = gs \<and>
      distinct (map (\<lambda>g. to_lower (mg_canonical g)) gs) \<and>
      (\<forall>g \<in> set gs. distinct (group_names g) \<and>
         (\<forall>n \<in> set (group_names g). n \<noteq> '''' \<and> trim_space n = n))"
proof -
  let ?gs = "normalize_model_alias_groups groups"
  have c: "mg_canonical g \<noteq> ''''" "trim_canonical g = g" "clean_aliases g = g" if "g \<in> set ?gs" for g
    using normal_groups [OF that] clean_normal [of g]
    by (auto simp: normal_group_def group_names_def trim_canonical_def)
  have "normalize_model_alias_groups ?gs = ?gs"
  proof -
    have "map trim_canonical ?gs = ?gs" "filter (\<lambda>g. mg_canonical g \<noteq> '''') ?gs = ?gs"
      "map clean_aliases ?gs = ?gs"
      using c by (auto intro!: map_idI simp: filter_id_conv)
    then show ?thesis
      using normal_groups_distinct [of groups]
      by (subst normalize_model_alias_groups_def) (simp add: dedup_by_distinct)
  qed
  then show ?thesis
    using normal_groups normal_groups_distinct unfolding Let_def normal_group_def by blast
qed


section \<open>Looking names up\<close>

lemma foldl_names:
  "foldl (\<lambda>m name. m(model_alias_key name \<mapsto> g)) m names k =
     (if k \<in> model_alias_key ` set names then Some g else m k)"
  by (induction names arbitrary: m) auto

lemma index_groups_find:
  "index_groups m gs k =
     (case find (\<lambda>g. mg_enabled g \<and> k \<in> model_alias_key ` set (group_names g)) (rev gs) of
        Some g \<Rightarrow> Some g | None \<Rightarrow> m k)"
proof (induction gs arbitrary: m)
  case (Cons g gs)
  have find_append: "find P (xs @ ys) = (case find P xs of Some x \<Rightarrow> Some x | None \<Rightarrow> find P ys)"
    for P :: "model_alias_group \<Rightarrow> bool" and xs ys
    by (induction xs) auto
  show ?case unfolding index_groups.simps Cons.IH
    by (simp add: find_append foldl_names split: option.split)
qed simp

text \<open>No name, letter case and white space aside, belongs to two enabled groups.\<close>

definition groups_apart :: "model_alias_group list \<Rightarrow> bool" where
  "groups_apart gs \<longleftrightarrow>
     (\<forall>g \<in> set gs. \<forall>h \<in> set gs. mg_enabled g \<and> mg_enabled h \<and>
        model_alias_key ` set (group_names g) \<inter> model_alias_key ` set (group_names h) \<noteq> {} \<longrightarrow> g = h)"

definition registry_of :: "model_alias_group list \<Rightarrow> registry" where
  "registry_of groups = Some (new_model_alias_index groups)"

lemma find_in_set: "find P xs = Some x \<Longrightarrow> x \<in> set xs \<and> P x"
  by (induction xs) (auto split: if_splits)

lemma by_name_None:
  "mi_by_name (new_model_alias_index groups) k = None \<longleftrightarrow>
     (\<forall>g \<in> set (normalize_model_alias_groups groups).
        mg_enabled g \<longrightarrow> k \<notin> model_alias_key ` set (group_names g))"
  by (auto simp: new_model_alias_index_def Let_def index_groups_find find_None_iff split: option.split
      dest!: find_in_set)

lemma by_name_Some:
  assumes "mi_by_name (new_model_alias_index groups) k = Some g"
  shows "g \<in> set (normalize_model_alias_groups groups) \<and> mg_enabled g \<and>
     k \<in> model_alias_key ` set (group_names g)"
  using assms
  by (simp add: new_model_alias_index_def Let_def index_groups_find split: option.splits)
    (drule find_in_set, simp)

lemma by_name_apart:
  assumes "groups_apart (normalize_model_alias_groups groups)"
    and "g \<in> set (normalize_model_alias_groups groups)" "mg_enabled g"
    and "k \<in> model_alias_key ` set (group_names g)"
  shows "mi_by_name (new_model_alias_index groups) k = Some g"
proof (cases "mi_by_name (new_model_alias_index groups) k")
  case None
  then show ?thesis using assms by (simp add: by_name_None)
next
  case (Some h)
  from by_name_Some [OF this] have "h = g"
    using assms unfolding groups_apart_def by blast
  with Some show ?thesis by simp
qed

lemma canonical_in_own_group:
  "g \<in> set (normalize_model_alias_groups groups) \<Longrightarrow>
     model_alias_key (mg_canonical g) \<in> model_alias_key ` set (group_names g)"
  by (simp add: group_names_def)

lemma canonical_twice:
  assumes apart: "groups_apart (normalize_model_alias_groups groups)"
  shows "canonical_model_for (registry_of groups) (canonical_model_for (registry_of groups) n) =
    canonical_model_for (registry_of groups) n"
proof (cases "mi_by_name (new_model_alias_index groups) (model_alias_key n)")
  case None
  then show ?thesis by (simp add: canonical_model_for_def registry_of_def)
next
  case (Some g)
  note g = by_name_Some [OF Some]
  have "mi_by_name (new_model_alias_index groups) (model_alias_key (mg_canonical g)) = Some g"
    using g canonical_in_own_group by (intro by_name_apart [OF apart]) auto
  then show ?thesis using Some by (simp add: canonical_model_for_def registry_of_def)
qed

lemma set_dedup_id [simp]: "set (dedup_by id xs) = set xs"
  using dedup_by_keys [of id xs] by simp

lemma distinct_dedup_id [simp]: "distinct (dedup_by id xs)"
  using distinct_dedup_by [of id xs] by simp

text \<open>
  Under groups that share no name, every spelling of every member of an enabled group stands for the
  whole group: it has the group's names, its canonical name, and the same channels support it; and
  folding a list of names to canonical names once is folding it for good.
\<close>

theorem alias_members_are_interchangeable:
  assumes apart: "groups_apart (normalize_model_alias_groups groups)"
    and g: "g \<in> set (normalize_model_alias_groups groups)" "mg_enabled g"
    and n: "model_alias_key n \<in> model_alias_key ` set (group_names g)"
  shows "names_for (registry_of groups) n = group_names g \<and>
         canonical_model_for (registry_of groups) n = mg_canonical g \<and>
         alias_supports (registry_of groups) cfg n = list_ex (supports_model cfg) (group_names g) \<and>
         canonicalize_model_names (registry_of groups) (canonicalize_model_names (registry_of groups) ns) =
           canonicalize_model_names (registry_of groups) ns"
proof -
  let ?r = "registry_of groups" and ?f = "canonical_model_for (registry_of groups)"
  have by_name: "mi_by_name (new_model_alias_index groups) (model_alias_key n) = Some g"
    by (rule by_name_apart [OF apart g n])
  have "list_ex mg_enabled (mi_groups (new_model_alias_index groups))"
    using g by (auto simp: new_model_alias_index_def Let_def list_ex_iff)
  then have fold: "canonicalize_model_names ?r xs = (if xs = [] then [] else dedup_by id (map ?f xs))" for xs
    by (simp add: canonicalize_model_names_def registry_of_def)
  have "map ?f (dedup_by id (map ?f ns)) = dedup_by id (map ?f ns)"
    by (rule map_idI) (auto simp: canonical_twice [OF apart])
  then have "canonicalize_model_names ?r (canonicalize_model_names ?r ns) = canonicalize_model_names ?r ns"
    unfolding fold by (simp add: dedup_by_distinct [of id, simplified])
  then show ?thesis
    using by_name by (simp add: names_for_def canonical_model_for_def alias_supports_def registry_of_def)
qed

text \<open>
  Groups that share a name are accepted and do not fold for good: an alias that is the canonical name
  of an earlier group takes that name over.
\<close>

definition chained_groups :: "model_alias_group list" where
  "chained_groups =
     [\<lparr>mg_canonical = ''a'', mg_aliases = [''x''], mg_enabled = True\<rparr>,
      \<lparr>mg_canonical = ''b'', mg_aliases = [''a''], mg_enabled = True\<rparr>]"

lemma plain_abx: "plain_word ''a''" "plain_word ''b''" "plain_word ''x''"
  by (simp_all add: plain_word_def plain_char_def)

lemma trim_abx: "trim_space ''a'' = ''a''" "trim_space ''b'' = ''b''" "trim_space ''x'' = ''x''"
  by (simp_all only: trim_space_word plain_abx)

lemma lower_abx: "to_lower ''a'' = ''a''" "to_lower ''b'' = ''b''" "to_lower ''x'' = ''x''"
  by (simp_all add: to_lower_def to_lower_char_def)

theorem overlapping_groups_chain:
  "normalize_model_alias_groups chained_groups = chained_groups \<and>
   canonicalize_model_names (registry_of chained_groups) [''x''] = [''a''] \<and>
   canonicalize_model_names (registry_of chained_groups) [''a''] = [''b'']"
proof -
  have n: "normalize_model_alias_groups chained_groups = chained_groups"
    by (simp add: normalize_model_alias_groups_def chained_groups_def trim_canonical_def clean_aliases_def
        dedup_by_def trim_abx lower_abx)
  then show ?thesis
    by (simp add: canonicalize_model_names_def canonical_model_for_def registry_of_def new_model_alias_index_def
        Let_def chained_groups_def group_names_def model_alias_key_def trim_abx lower_abx dedup_by_def)
qed


theorem alias_members_are_interchangeable_witness:
  "names_for (registry_of [hd chained_groups]) ''x'' = [''a'', ''x'']"
proof -
  have n: "normalize_model_alias_groups [hd chained_groups] = [hd chained_groups]"
    by (simp add: normalize_model_alias_groups_def chained_groups_def trim_canonical_def clean_aliases_def
        dedup_by_def trim_abx lower_abx)
  have "groups_apart (normalize_model_alias_groups [hd chained_groups])"
    unfolding n by (simp add: groups_apart_def)
  moreover have "hd chained_groups \<in> set (normalize_model_alias_groups [hd chained_groups])"
    "mg_enabled (hd chained_groups)" unfolding n by (simp_all add: chained_groups_def)
  moreover have "model_alias_key ''x'' \<in> model_alias_key ` set (group_names (hd chained_groups))"
    by (simp add: chained_groups_def group_names_def)
  ultimately have "names_for (registry_of [hd chained_groups]) ''x'' = group_names (hd chained_groups)"
    using alias_members_are_interchangeable by blast
  then show ?thesis by (simp add: chained_groups_def group_names_def)
qed

section \<open>A supported model resolves to a configured one\<close>

lemma model_index_None: "model_index cfg m = None \<longleftrightarrow> m \<notin> set (get_models cfg)"
  by (force simp: model_index_def get_models_def map_of_eq_None_iff)

lemma redirect_target:
  assumes "get_redirect_model cfg m = Some t"
  shows "\<exists>e \<in> set (cfg_model_entries cfg). \<not> me_disabled e \<and> me_model e = m \<and> me_redirect_model e = t \<and> t \<noteq> ''''"
  using assms
  by (auto simp: get_redirect_model_def model_index_def split: option.splits if_splits dest!: map_of_SomeD)

text \<open>The names a channel may send upstream: its enabled models and what they redirect to.\<close>

definition upstream_names :: "config \<Rightarrow> string set" where
  "upstream_names cfg =
     set (get_models cfg) \<union> {me_redirect_model e |e. e \<in> set (cfg_model_entries cfg) \<and> \<not> me_disabled e}"

lemma first_configured_Some:
  "first_configured names models = Some actual \<Longrightarrow>
     actual \<in> set models \<and> (\<exists>n \<in> set names. equal_fold n actual)"
  by (induction names) (auto split: option.splits dest!: find_in_set)

lemma first_configured_None:
  "first_configured names models = None \<longleftrightarrow> (\<forall>n \<in> set names. \<forall>m \<in> set models. \<not> equal_fold n m)"
  by (induction names) (auto simp: find_None_iff split: option.splits dest: find_in_set)

lemma actual_model_configured:
  assumes "supports_model cfg requested \<or> alias_supports r cfg requested"
    and "''*'' \<notin> set (get_models cfg)"
  shows "actual_model_for r cfg requested \<in> set (get_models cfg)"
proof -
  have supports: "supports_model cfg m \<longleftrightarrow> m \<in> set (get_models cfg)" for m
    using assms(2) model_index_None [of cfg m] model_index_None [of cfg "''*''"] by (auto simp: supports_model_def)
  show ?thesis
  proof (cases "first_configured (names_for r requested) (get_models cfg)")
    case None
    then have "\<not> alias_supports r cfg requested"
      by (auto simp: first_configured_None alias_supports_def list_ex_iff supports equal_fold_def)
    then show ?thesis using assms(1) None by (simp add: supports actual_model_for_def)
  next
    case (Some actual)
    then show ?thesis using first_configured_Some [OF Some] by (simp add: actual_model_for_def)
  qed
qed

text \<open>
  A channel is only ever asked for a model it is configured with: when the channel supports the
  requested model, directly or through an alias group, and has no catch-all entry, the resolved model
  is an enabled model of the channel or the redirect target of one.
\<close>

theorem resolved_model_is_configured:
  assumes "config_supports_model r cfg requested" and "requested \<noteq> ''*''" and "''*'' \<notin> set (get_models cfg)"
  shows "resolve_actual_model r cfg requested \<in> upstream_names cfg"
proof -
  let ?redirect = "\<lambda>m. case get_redirect_model cfg m of Some t \<Rightarrow> if t \<noteq> '''' then t else m | None \<Rightarrow> m"
  have redirect: "?redirect m \<in> upstream_names cfg" if "m \<in> upstream_names cfg" for m
    using that redirect_target [of cfg m] by (auto simp: upstream_names_def split: option.split)
  have redirect': "?redirect m = m \<or> ?redirect m \<in> upstream_names cfg" for m
    using redirect_target [of cfg m] by (auto simp: upstream_names_def split: option.split)
  have supports: "supports_model cfg requested \<or> alias_supports r cfg requested"
    using assms by (auto simp: config_supports_model_def split: if_splits)
  have actual: "actual_model_for r cfg requested \<in> upstream_names cfg"
    using actual_model_configured [OF supports assms(3)] by (simp add: upstream_names_def)
  have plain: "r = None \<Longrightarrow> requested \<in> upstream_names cfg"
    using assms model_index_None [of cfg requested] model_index_None [of cfg "''*''"]
    by (auto simp: config_supports_model_def supports_model_def upstream_names_def split: if_splits)
  show ?thesis
  proof (cases "?redirect requested = requested \<and> r \<noteq> None")
    case True
    then have "resolve_actual_model r cfg requested =
        (let a = actual_model_for r cfg requested in if a \<noteq> requested then ?redirect a else a)"
      unfolding resolve_actual_model_def Let_def by simp
    then show ?thesis
      using redirect [OF actual] actual by (cases "actual_model_for r cfg requested = requested") (simp_all add: Let_def)
  next
    case False
    then have eq: "resolve_actual_model r cfg requested =
        (if ?redirect requested \<noteq> requested then ?redirect (?redirect requested) else requested)"
      unfolding resolve_actual_model_def Let_def by auto
    show ?thesis
    proof (cases "?redirect requested = requested")
      case True
      with False have "r = None" by simp
      then show ?thesis using eq True plain by simp
    next
      case ne: False
      then have "?redirect requested \<in> upstream_names cfg" using redirect' [of requested] by blast
      then show ?thesis using eq ne redirect by simp
    qed
  qed
qed

lemma example_models: "get_models example_config = [''gpt'']"
  by (simp add: example_config_def get_models_def)

lemma example_no_redirect: "get_redirect_model example_config m = None"
  by (simp add: get_redirect_model_def model_index_def example_config_def)

theorem resolved_model_is_configured_witness:
  "config_supports_model None example_config ''gpt'' \<and>
   resolve_actual_model None example_config ''gpt'' \<in> upstream_names example_config"
proof -
  have c: "config_supports_model None example_config ''gpt''"
    by (simp add: config_supports_model_def supports_model_def model_index_def example_config_def)
  have "''*'' \<notin> set (get_models example_config)" by (simp add: example_models)
  with c show ?thesis using resolved_model_is_configured [OF c] by simp
qed

text \<open>
  Two spellings of one model on a channel are two routing keys, but once a registry exists the
  request for the second spelling is sent with the first one: \<open>actualModelFor\<close> compares letter case
  aside, in the order of the configured models, before it considers the exact name.
\<close>

definition two_spellings :: config where
  "two_spellings = example_config\<lparr>cfg_model_entries :=
     [\<lparr>me_model = ''B'', me_redirect_model = [], me_disabled = False\<rparr>,
      \<lparr>me_model = ''b'', me_redirect_model = [], me_disabled = False\<rparr>]\<rparr>"

lemma lower_B: "to_lower ''B'' = to_lower ''b''"
  by code_simp

theorem exact_spelling_is_overridden:
  "supports_model two_spellings ''b'' \<and>
   resolve_actual_model None two_spellings ''b'' = ''b'' \<and>
   resolve_actual_model (registry_of []) two_spellings ''b'' = ''B''"
  by (simp add: supports_model_def resolve_actual_model_def get_redirect_model_def model_index_def
      two_spellings_def registry_of_def actual_model_for_def names_for_def new_model_alias_index_def
      normalize_model_alias_groups_def dedup_by_def get_models_def equal_fold_def lower_B Let_def)

end
