(* ===== verification/Attempt_Outcome.thy ===== *)
theory Attempt_Outcome
  imports Cooldown_Manager Channel_Cache Model_Routing
begin

text \<open>
  What follows from one attempt at an upstream: \<open>internal/app/proxy_error.go\<close> and the end of
  \<open>forwardAttempt\<close> in \<open>proxy_forward.go\<close>.  The answer of the transport (\<open>fw_result\<close>, an
  error, or both) is turned into a \<open>proxy_result\<close> for the loops over addresses, keys and channels;
  on the way cooldowns are set or cleared, caches forgotten and usage is reported.

  \<open>attempt_state\<close> is what this code changes: the cooldown store, the channel cache (\<open>None\<close> when
  the server has none), the usage events handed to the statistics of the token, and the channel
  the routing session prefers.  Log entries are left out.  \<open>attempt_env\<close> holds the readings of the
  clock, the surroundings of the cooldown manager and the configuration.
\<close>

section \<open>State\<close>

record fw_result =
  fw_status :: int
  fw_upstream_status :: int
  fw_header :: "headers option"
  fw_body :: string
  fw_first_byte_time :: real
  fw_input_tokens :: int
  fw_output_tokens :: int
  fw_cache_read_tokens :: int
  fw_cache_creation_tokens :: int
  fw_stream_diag_msg :: string
  fw_sse_error_event :: "string option"
  fw_response_committed :: bool
  fw_service_tier :: string

record proxy_result =
  pr_status :: int
  pr_header :: "headers option"
  pr_body :: string
  pr_channel_id :: "int option"
  pr_duration :: real
  pr_first_byte_time :: real
  pr_succeeded :: bool
  pr_is_client_canceled :: bool
  pr_next_action :: decision
  pr_deferred_cooldown :: "error_input option"
  pr_protocol_capability_missing :: bool

record usage_event =
  ue_channel :: int
  ue_success :: bool
  ue_duration :: real
  ue_result :: fw_result
  ue_model :: string

record attempt_state =
  as_store :: cooldown_store
  as_cache :: "channel_cache option"
  as_usage :: "usage_event list"
  as_preferred :: "int option"

record attempt_env =
  ae_mgr :: manager_env
  ae_peek_at :: time
  ae_fallback_at :: time
  ae_cache_at :: time
  ae_cache_stored_at :: time
  ae_success_at :: time
  ae_read_ok :: bool
  ae_global_rules :: cooldown_detection_rules
  ae_registry :: registry
  ae_has_session :: bool

abbreviation ae_go :: "attempt_env \<Rightarrow> go_env" where
  "ae_go env \<equiv> de_go (mgr_detect (ae_mgr env))"

text \<open>A result whose other fields are those of a Go composite literal: zero.\<close>

definition blank_result :: "int \<Rightarrow> int \<Rightarrow> decision \<Rightarrow> proxy_result" where
  "blank_result status channel d =
     \<lparr>pr_status = status, pr_header = None, pr_body = '''', pr_channel_id = Some channel, pr_duration = 0,
      pr_first_byte_time = 0, pr_succeeded = False, pr_is_client_canceled = False, pr_next_action = d,
      pr_deferred_cooldown = None, pr_protocol_capability_missing = False\<rparr>"

abbreviation no_action :: decision where
  "no_action \<equiv> plain_decision RetryNone EffectNone"

section \<open>Inputs of the cooldown manager\<close>

definition http_error_input_from_parts :: "int \<Rightarrow> int \<Rightarrow> int \<Rightarrow> string \<Rightarrow> headers option \<Rightarrow> error_input" where
  "http_error_input_from_parts channel key_index status body hdrs =
     \<lparr>in_channel_id = channel, in_model = '''', in_channel_models = [], in_key_index = key_index,
      in_status_code = status, in_upstream_status_code = status, in_error_body = body,
      in_is_network_error = False, in_model_scoped = False, in_headers = hdrs, in_detection_rules = None\<rparr>"

definition http_error_input :: "int \<Rightarrow> int \<Rightarrow> fw_result \<Rightarrow> error_input" where
  "http_error_input channel key_index res =
     (let inp = http_error_input_from_parts channel key_index (fw_status res) (fw_body res) (fw_header res)
      in if fw_upstream_status res \<noteq> 0 then inp\<lparr>in_upstream_status_code := fw_upstream_status res\<rparr> else inp)"

definition network_error_input :: "int \<Rightarrow> int \<Rightarrow> int \<Rightarrow> error_input" where
  "network_error_input channel key_index status =
     (http_error_input_from_parts channel key_index status '''' None)
       \<lparr>in_upstream_status_code := 0, in_is_network_error := True\<rparr>"

definition cooldown_input_for_model :: "error_input \<Rightarrow> string \<Rightarrow> error_input" where
  "cooldown_input_for_model inp m = inp\<lparr>in_model := trim_space m\<rparr>"

definition effective_channel_rules :: "attempt_env \<Rightarrow> cooldown_detection_rules \<Rightarrow> cooldown_detection_rules" where
  "effective_channel_rules env rules = (if rules_is_empty rules then ae_global_rules env else rules)"

definition channel_model_cooldown_keys :: "attempt_env \<Rightarrow> config \<Rightarrow> string list" where
  "channel_model_cooldown_keys env cfg =
     dedup_by id (filter (\<lambda>m. m \<noteq> '''')
       (concat (map (\<lambda>p. map (\<lambda>e. trim_space
            (resolve_final_upstream_model (env_json (ae_go env)) (ae_registry env) cfg (me_model e) p))
          (filter (\<lambda>e. \<not> me_disabled e) (cfg_model_entries cfg))) all_protocols)))"

definition complete_cooldown_input :: "attempt_env \<Rightarrow> config \<Rightarrow> error_input \<Rightarrow> error_input" where
  "complete_cooldown_input env cfg inp =
     (let inp1 = inp\<lparr>in_detection_rules := effective_channel_rules env (cfg_cooldown_detection_rules cfg)\<rparr>
      in if trim_space (in_model inp1) \<noteq> '''' \<and> in_channel_models inp1 = []
         then inp1\<lparr>in_channel_models := channel_model_cooldown_keys env cfg\<rparr> else inp1)"

section \<open>Carrying a decision out\<close>

definition invalidate_channel_related :: "int \<Rightarrow> 'a attempt_state_scheme \<Rightarrow> 'a attempt_state_scheme" where
  "invalidate_channel_related channel st =
     st\<lparr>as_cache := map_option (\<lambda>c. invalidate_cooldowns (invalidate_api_keys c channel)) (as_cache st)\<rparr>"

definition apply_cooldown_decision ::
    "attempt_env \<Rightarrow> config \<Rightarrow> error_input \<Rightarrow> 'a attempt_state_scheme \<Rightarrow> decision \<times> 'a attempt_state_scheme" where
  "apply_cooldown_decision env cfg inp0 st =
     (let inp = complete_cooldown_input env cfg inp0;
          mgr = ae_mgr env;
          (d, store') =
            (if cfg_retry_other_keys_on_failure cfg then
               (case apply_effect_with_key_fallback mgr inp (as_store st) of (d, fallback, s) \<Rightarrow> (d, s))
             else
               let d = decide (mgr_detect mgr) inp (mgr_decided_at mgr)
               in case apply_effect mgr d (in_channel_id inp) (in_key_index inp) (in_status_code inp) (as_store st) of
                    (exhausted, s) \<Rightarrow> (if exhausted then d\<lparr>d_retry := RetryNextChannel\<rparr> else d, s));
          st' = st\<lparr>as_store := store'\<rparr>
      in (d, if d_retry d = RetryNextKey \<or> d_retry d = RetryNextChannel
             then invalidate_channel_related (cfg_id cfg) st' else st'))"

definition decide_cooldown_action :: "attempt_env \<Rightarrow> config \<Rightarrow> error_input \<Rightarrow> decision" where
  "decide_cooldown_action env cfg inp =
     decide (mgr_detect (ae_mgr env)) (complete_cooldown_input env cfg inp) (ae_peek_at env)"

text \<open>The test both handlers make when the cooldown of a channel is put off: the action, if it is.\<close>

definition put_off :: "attempt_env \<Rightarrow> config \<Rightarrow> error_input \<Rightarrow> bool \<Rightarrow> decision option" where
  "put_off env cfg inp defer =
     (if \<not> defer then None
      else let a = decide_cooldown_action env cfg inp;
               inp' = complete_cooldown_input env cfg inp;
               key_fallback = (cfg_retry_other_keys_on_failure cfg \<and>
                  can_fallback_to_other_key inp'
                    (classify_decision (mgr_detect (ae_mgr env)) inp' (ae_fallback_at env)))
           in if d_retry a = RetryNextChannel \<and> \<not> key_fallback then Some a else None)"

section \<open>The handlers\<close>

definition report_usage ::
    "config \<Rightarrow> bool \<Rightarrow> real \<Rightarrow> fw_result \<Rightarrow> string \<Rightarrow> 'a attempt_state_scheme \<Rightarrow> 'a attempt_state_scheme" where
  "report_usage cfg success duration res m st =
     st\<lparr>as_usage := as_usage st @ [\<lparr>ue_channel = cfg_id cfg, ue_success = success, ue_duration = duration,
          ue_result = res, ue_model = m\<rparr>]\<rparr>"

definition has_consumed_tokens :: "fw_result option \<Rightarrow> bool" where
  "has_consumed_tokens r =
     (case r of
        None \<Rightarrow> False
      | Some res \<Rightarrow> fw_input_tokens res > 0 \<or> fw_output_tokens res > 0 \<or>
          fw_cache_read_tokens res > 0 \<or> fw_cache_creation_tokens res > 0)"

definition handle_network_error ::
    "attempt_env \<Rightarrow> config \<Rightarrow> int \<Rightarrow> string \<Rightarrow> real \<Rightarrow> go_error \<Rightarrow> fw_result option \<Rightarrow> bool
       \<Rightarrow> 'a attempt_state_scheme \<Rightarrow> (proxy_result \<times> decision) \<times> 'a attempt_state_scheme" where
  "handle_network_error env cfg key_index m duration err res defer st =
     (case classify_error (Some err) of (status, level, should_retry) \<Rightarrow>
        let failure = (blank_result status (cfg_id cfg) no_action)
              \<lparr>pr_body := err_text err, pr_duration := duration, pr_is_client_canceled := errors_is err ContextCanceled\<rparr>;
            st1 = (case res of
                     Some r \<Rightarrow> if status \<noteq> 499 \<and> has_consumed_tokens res
                               then report_usage cfg False duration r m st else st
                   | None \<Rightarrow> st)
        in if \<not> should_retry then ((failure, no_action), st1)
           else
             let inp = (cooldown_input_for_model (network_error_input (cfg_id cfg) key_index status) m)
                   \<lparr>in_model_scoped := is_model_scoped_network_error (Some err)\<rparr>
             in case put_off env cfg inp defer of
                  Some a \<Rightarrow> ((failure\<lparr>pr_next_action := a\<rparr>, a), st1)
                | None \<Rightarrow>
                    (case apply_cooldown_decision env cfg inp st1 of
                       (d, st2) \<Rightarrow> ((failure\<lparr>pr_next_action := d\<rparr>, d), st2)))"

definition handle_proxy_error_response ::
    "attempt_env \<Rightarrow> config \<Rightarrow> int \<Rightarrow> string \<Rightarrow> real \<Rightarrow> fw_result \<Rightarrow> bool \<Rightarrow> bool
       \<Rightarrow> 'a attempt_state_scheme \<Rightarrow> (proxy_result \<times> decision) \<times> 'a attempt_state_scheme" where
  "handle_proxy_error_response env cfg key_index m duration res defer force_return st =
     (let st1 = (if fw_status res \<noteq> 499 then report_usage cfg False duration res m st else st);
          failure = (blank_result (fw_status res) (cfg_id cfg) no_action)
              \<lparr>pr_header := fw_header res, pr_body := fw_body res, pr_duration := duration\<rparr>
      in if force_return then ((failure, no_action), st1)
         else
           let inp = cooldown_input_for_model (http_error_input (cfg_id cfg) key_index res) m
           in case put_off env cfg inp defer of
                Some a \<Rightarrow> ((failure\<lparr>pr_next_action := a, pr_deferred_cooldown := Some inp\<rparr>, a), st1)
              | None \<Rightarrow>
                  (case apply_cooldown_decision env cfg inp st1 of
                     (d, st2) \<Rightarrow> ((failure\<lparr>pr_next_action := d\<rparr>, d), st2)))"
definition handle_streaming_error_no_retry ::
    "attempt_env \<Rightarrow> config \<Rightarrow> int \<Rightarrow> string \<Rightarrow> real \<Rightarrow> fw_result
       \<Rightarrow> 'a attempt_state_scheme \<Rightarrow> (proxy_result \<times> decision) \<times> 'a attempt_state_scheme" where
  "handle_streaming_error_no_retry env cfg key_index m duration res st =
     (case apply_cooldown_decision env cfg
             (cooldown_input_for_model (http_error_input (cfg_id cfg) key_index res) m) st of
        (d, st') \<Rightarrow>
          (((blank_result (fw_status res) (cfg_id cfg) no_action)\<lparr>pr_duration := duration, pr_succeeded := True\<rparr>,
            no_action), st'))"

text \<open>\<open>hasActiveModelCooldown\<close>: through the cache, else from the store; a failing read counts as active.\<close>

definition has_active_model_cooldown ::
    "attempt_env \<Rightarrow> int \<Rightarrow> string \<Rightarrow> 'a attempt_state_scheme \<Rightarrow> bool \<times> 'a attempt_state_scheme" where
  "has_active_model_cooldown env channel m st =
     (let load = (if ae_read_ok env
                  then Some (\<lambda>c. get_all_model_cooldowns (as_store st) (mgr_queried_at (ae_mgr env)) c) else None);
          (read, st') =
            (case as_cache st of
               None \<Rightarrow> (read_through_channel_cache None load, st)
             | Some cache \<Rightarrow>
                 (case cached_model_cooldowns cache load (ae_cache_at env) (ae_cache_stored_at env) of
                    (r, cache') \<Rightarrow> (read_through_channel_cache (Some r) load, st\<lparr>as_cache := Some cache'\<rparr>)))
      in (case read of
            None \<Rightarrow> True
          | Some cds \<Rightarrow> (case cds channel m of None \<Rightarrow> False | Some until \<Rightarrow> until > ae_success_at env),
          st'))"

definition clear_by_effect ::
    "attempt_env \<Rightarrow> config \<Rightarrow> int \<Rightarrow> int \<Rightarrow> decision \<Rightarrow> 'a attempt_state_scheme \<Rightarrow> 'a attempt_state_scheme" where
  "clear_by_effect env cfg key_index status d st =
     st\<lparr>as_store := snd (apply_effect (ae_mgr env) d (cfg_id cfg) key_index status (as_store st))\<rparr>"

definition handle_proxy_success ::
    "attempt_env \<Rightarrow> config \<Rightarrow> int \<Rightarrow> string \<Rightarrow> real \<Rightarrow> fw_result
       \<Rightarrow> 'a attempt_state_scheme \<Rightarrow> (proxy_result \<times> decision) \<times> 'a attempt_state_scheme" where
  "handle_proxy_success env cfg key_index m duration res st =
     (let clear = clear_by_effect env cfg key_index (fw_status res);
          st1 = clear (plain_decision RetryNone EffectClearChannelCooldown) st;
          st2 = (if key_index \<noteq> no_key_index
                 then clear (plain_decision RetryNone EffectClearKeyCooldown) st1 else st1);
          st3 = (if m = '''' then st2
                 else case has_active_model_cooldown env (cfg_id cfg) m st2 of
                        (False, s) \<Rightarrow> s
                      | (True, s) \<Rightarrow> clear ((plain_decision RetryNone EffectClearModelCooldown)\<lparr>d_model := m\<rparr>) s);
          st4 = invalidate_channel_related (cfg_id cfg) st3;
          st5 = (if cfg_retry_other_keys_on_failure cfg \<and> ae_has_session env
                 then st4\<lparr>as_preferred := Some (cfg_id cfg)\<rparr> else st4)
      in (((blank_result (fw_status res) (cfg_id cfg) no_action)
             \<lparr>pr_header := fw_header res, pr_duration := duration, pr_first_byte_time := fw_first_byte_time res,
              pr_succeeded := True\<rparr>, no_action),
          report_usage cfg True duration res m st5))"

section \<open>Answers with a status of success that are failures\<close>

definition is_rate_limit_error_type :: "string \<Rightarrow> bool" where
  "is_rate_limit_error_type v \<longleftrightarrow>
     to_lower v \<in> {''rate_limit_error'', ''rate_limit_exceeded'', ''too_many_requests'', ''model_cooldown'',
                    ''websocket_connection_limit_reached''}"

definition type_and_code_field :: "string \<Rightarrow> json \<Rightarrow> string \<times> string \<Rightarrow> (string \<times> string) option" where
  "type_and_code_field k v p =
     (if equal_fold k ''type'' then map_option (\<lambda>s. (s, snd p)) (dec_string v (fst p))
      else if equal_fold k ''code'' then map_option (\<lambda>s. (fst p, s)) (dec_string v (snd p))
      else Some p)"

definition is_sse_rate_limit_error :: "go_env \<Rightarrow> string \<Rightarrow> bool" where
  "is_sse_rate_limit_error env body =
     (case env_json env body of
        None \<Rightarrow> False
      | Some v \<Rightarrow>
         (case dec_struct (\<lambda>k v (e, r).
                 if equal_fold k ''error'' then map_option (\<lambda>e. (e, r)) (dec_struct type_and_code_field v e)
                 else if equal_fold k ''response'' then
                   map_option (\<lambda>r. (e, r))
                     (dec_struct (\<lambda>k v r. if equal_fold k ''error'' then dec_struct type_and_code_field v r else Some r) v r)
                 else Some (e, r)) v ((([], []), ([], []))) of
            None \<Rightarrow> False
          | Some ((t, c), (rt, rc)) \<Rightarrow>
              is_rate_limit_error_type t \<or> is_rate_limit_error_type c \<or>
              is_rate_limit_error_type rt \<or> is_rate_limit_error_type rc))"

definition is_forwardable_websocket_error_header :: "string \<Rightarrow> bool" where
  "is_forwardable_websocket_error_header name =
     (let l = to_lower (trim_space name) in
      if l \<in> {''retry-after'', ''request-id'', ''x-request-id'', ''openai-request-id''} then True
      else prefix ''ratelimit-'' l \<or> prefix ''x-ratelimit-'' l)"

text \<open>
  \<open>websocketErrorStatusAndHeaders\<close>; the headers are the list of the values that are set, by their
  names in the order of the map (the code's order is the random one of a Go map).
\<close>

record websocket_error =
  we_status :: int
  we_status_code :: int
  we_headers :: "(string \<times> json) list"

definition websocket_error_field :: "string \<Rightarrow> json \<Rightarrow> websocket_error \<Rightarrow> websocket_error option" where
  "websocket_error_field k v w =
     (if equal_fold k ''status'' then map_option (\<lambda>i. w\<lparr>we_status := i\<rparr>) (dec_int64 v (we_status w))
      else if equal_fold k ''status_code'' then map_option (\<lambda>i. w\<lparr>we_status_code := i\<rparr>) (dec_int64 v (we_status_code w))
      else if equal_fold k ''headers'' then
        (case v of JNull \<Rightarrow> Some (w\<lparr>we_headers := []\<rparr>) | JObj kvs \<Rightarrow> Some (w\<lparr>we_headers := kvs\<rparr>) | _ \<Rightarrow> None)
      else Some w)"

definition websocket_header_value :: "go_env \<Rightarrow> json \<Rightarrow> string option" where
  "websocket_header_value env v =
     (case v of
        JStr s \<Rightarrow> if trim_space s \<noteq> '''' then Some (trim_space s) else None
      | JNum n \<Rightarrow> Some (env_number_text env n)
      | JBool b \<Rightarrow> Some (if b then ''true'' else ''false'')
      | _ \<Rightarrow> None)"

definition websocket_error_status_and_headers :: "go_env \<Rightarrow> string \<Rightarrow> int \<times> headers option" where
  "websocket_error_status_and_headers env body =
     (case env_json env body of
        None \<Rightarrow> (0, None)
      | Some v \<Rightarrow>
         (case dec_struct websocket_error_field v \<lparr>we_status = 0, we_status_code = 0, we_headers = []\<rparr> of
            None \<Rightarrow> (0, None)
          | Some w \<Rightarrow>
              let status = (if we_status w = 0 then we_status_code w else we_status w);
                  hdrs = List.map_filter (\<lambda>(name, v).
                      if is_forwardable_websocket_error_header (trim_space name)
                      then map_option (\<lambda>s. (canonical_key (trim_space name), [s])) (websocket_header_value env v)
                      else None) (we_headers w)
              in (if status < 400 \<or> status > 599 then 0 else status, if hdrs = [] then None else Some hdrs)))"

definition classify_sse_error_status :: "go_env \<Rightarrow> string \<Rightarrow> time \<Rightarrow> int" where
  "classify_sse_error_status env body now =
     (if is_context_length_exceeded_error env body then 400
      else let status = fst (websocket_error_status_and_headers env body) in
      if status \<ge> 400 \<and> status \<le> 599 then status
      else if parse_reset_time_from_1308_error env body now \<noteq> None then status_quota_exceeded
      else if is_sse_rate_limit_error env body then 429
      else status_sse_error)"

text \<open>The diagnostic text also names the event, which only the log shows.\<close>

definition mark_sse_error :: "go_env \<Rightarrow> time \<Rightarrow> string \<Rightarrow> fw_result \<Rightarrow> fw_result" where
  "mark_sse_error env now event res =
     (let r1 = res\<lparr>fw_body := event, fw_status := classify_sse_error_status env event now\<rparr>;
          (status, hdrs) = websocket_error_status_and_headers env event;
          r2 = (if status \<noteq> 0
                then r1\<lparr>fw_status := status, fw_upstream_status := status, fw_header := hdrs\<rparr> else r1)
      in r2\<lparr>fw_stream_diag_msg := (if fw_status r2 = status_quota_exceeded then ''Quota Exceeded (1308): '' @ event
                                   else ''SSE error event: '' @ event)\<rparr>)"

definition mark_incomplete_stream :: "fw_result \<Rightarrow> fw_result" where
  "mark_incomplete_stream res =
     (let r = res\<lparr>fw_body := fw_stream_diag_msg res\<rparr>
      in if is_model_scoped_stream_failure (fw_status r) then r else r\<lparr>fw_status := status_stream_incomplete\<rparr>)"

definition handle_committed_aware_proxy_error ::
    "attempt_env \<Rightarrow> config \<Rightarrow> int \<Rightarrow> string \<Rightarrow> real \<Rightarrow> fw_result \<Rightarrow> bool
       \<Rightarrow> 'a attempt_state_scheme \<Rightarrow> (proxy_result \<times> decision) \<times> 'a attempt_state_scheme" where
  "handle_committed_aware_proxy_error env cfg key_index m duration res defer st =
     (if \<not> fw_response_committed res
      then handle_proxy_error_response env cfg key_index m duration res defer False st
      else handle_streaming_error_no_retry env cfg key_index m duration res st)"

definition handle_successful_forward_anomaly ::
    "attempt_env \<Rightarrow> config \<Rightarrow> int \<Rightarrow> string \<Rightarrow> real \<Rightarrow> fw_result \<Rightarrow> bool
       \<Rightarrow> 'a attempt_state_scheme \<Rightarrow> ((proxy_result \<times> decision) \<times> 'a attempt_state_scheme) option" where
  "handle_successful_forward_anomaly env cfg key_index m duration res defer st =
     (case fw_sse_error_event res of
        Some event \<Rightarrow> Some (handle_committed_aware_proxy_error env cfg key_index m duration
            (mark_sse_error (ae_go env) (ae_success_at env) event res) defer st)
      | None \<Rightarrow>
          if fw_stream_diag_msg res \<noteq> ''''
          then Some (handle_committed_aware_proxy_error env cfg key_index m duration
                       (mark_incomplete_stream res) defer st)
          else None)"

section \<open>The end of an attempt\<close>

text \<open>
  What \<open>forwardOnceAsync\<close> reports besides a result: a translation of the request that failed
  (\<open>protocol.RequestTranslationError\<close>), a channel at its limit, or an error of the transport.
\<close>

datatype attempt_limit = RPMExceeded | ConcurrencyExceeded

datatype transport_failure =
  TranslationFailed string
| LimitExceeded attempt_limit
| TransportFailed go_error

definition capability_missing :: "int \<Rightarrow> int \<Rightarrow> proxy_result" where
  "capability_missing status channel =
     (blank_result status channel (plain_decision RetryNextChannel EffectNone))
       \<lparr>pr_protocol_capability_missing := True\<rparr>"

definition is_protocol_endpoint_missing :: "go_env \<Rightarrow> fw_result \<Rightarrow> bool" where
  "is_protocol_endpoint_missing env res \<longleftrightarrow>
     \<not> fw_response_committed res \<and> should_fallback_protocol env (fw_status res) (fw_body res)"

text \<open>
  The part of \<open>forwardAttempt\<close> after the last answer.  \<open>Inl\<close> is the error of a channel at its limit.
  The transport gives a result whenever it gives no error; without both the code would stop with a
  nil dereference, which is \<open>None\<close>.
\<close>

definition conclude_attempt ::
    "attempt_env \<Rightarrow> config \<Rightarrow> int \<Rightarrow> string \<Rightarrow> real \<Rightarrow> transport_failure option \<Rightarrow> fw_result option \<Rightarrow> bool \<Rightarrow> bool
       \<Rightarrow> 'a attempt_state_scheme \<Rightarrow> ((attempt_limit + proxy_result \<times> decision) \<times> 'a attempt_state_scheme) option" where
  "conclude_attempt env cfg key_index m duration err answer defer force_return st =
     (case err of
        Some (TranslationFailed msg) \<Rightarrow>
          (let r = (if get_protocol_transform_mode cfg = mode_auto
                    then capability_missing 400 (cfg_id cfg)
                    else blank_result 400 (cfg_id cfg) no_action)\<lparr>pr_body := msg\<rparr>
           in Some (Inr (r, pr_next_action r), st))
      | Some (LimitExceeded l) \<Rightarrow> Some (Inl l, st)
      | Some (TransportFailed e) \<Rightarrow>
          (let answer' = (if errors_is e ErrUpstreamStreamTimeout
                          then map_option (\<lambda>r. r\<lparr>fw_stream_diag_msg := err_text e\<rparr>) answer else answer)
           in case answer' of
                Some res \<Rightarrow>
                  if fw_stream_diag_msg res \<noteq> ''''
                  then Some (apfst Inr (handle_committed_aware_proxy_error env cfg key_index m duration
                         (mark_incomplete_stream res) defer st))
                  else Some (apfst Inr (handle_network_error env cfg key_index m duration e answer' defer st))
              | None \<Rightarrow> Some (apfst Inr (handle_network_error env cfg key_index m duration e answer' defer st)))
      | None \<Rightarrow>
          (case answer of
             None \<Rightarrow> None
           | Some res \<Rightarrow>
               if 200 \<le> fw_status res \<and> fw_status res < 300
               then Some (apfst Inr
                 (case handle_successful_forward_anomaly env cfg key_index m duration res defer st of
                    Some r \<Rightarrow> r
                  | None \<Rightarrow> handle_proxy_success env cfg key_index m duration res st))
               else if get_protocol_transform_mode cfg \<noteq> mode_upstream \<and> is_protocol_endpoint_missing (ae_go env) res
               then (let r = (capability_missing (fw_status res) (cfg_id cfg))
                           \<lparr>pr_header := fw_header res, pr_body := fw_body res, pr_duration := duration\<rparr>
                     in Some (Inr (r, pr_next_action r), st))
               else Some (apfst Inr (handle_proxy_error_response env cfg key_index m duration res defer force_return st))))"

section \<open>What every result satisfies\<close>

text \<open>
  A result carries the action that is returned beside it; a success asks for nothing more; a put-off
  cooldown only accompanies a failure that moves on to another channel; the channel is the one tried.
\<close>

definition result_ok :: "config \<Rightarrow> proxy_result \<times> decision \<Rightarrow> bool" where
  "result_ok cfg rd \<longleftrightarrow>
     pr_next_action (fst rd) = snd rd \<and>
     (pr_succeeded (fst rd) \<longrightarrow> snd rd = no_action) \<and>
     (pr_deferred_cooldown (fst rd) \<noteq> None \<longrightarrow> d_retry (snd rd) = RetryNextChannel \<and> \<not> pr_succeeded (fst rd)) \<and>
     pr_channel_id (fst rd) = Some (cfg_id cfg)"

lemma put_off_retry: "put_off env cfg inp defer = Some a \<Longrightarrow> d_retry a = RetryNextChannel"
  by (auto simp: put_off_def Let_def split: if_splits)

lemma blank_result_simps [simp]:
  "pr_status (blank_result s c d) = s" "pr_next_action (blank_result s c d) = d"
  "\<not> pr_succeeded (blank_result s c d)" "pr_deferred_cooldown (blank_result s c d) = None"
  "pr_channel_id (blank_result s c d) = Some c" "\<not> pr_is_client_canceled (blank_result s c d)"
  "\<not> pr_protocol_capability_missing (blank_result s c d)"
  by (simp_all add: blank_result_def)

lemma capability_missing_simps [simp]:
  "pr_next_action (capability_missing s c) = plain_decision RetryNextChannel EffectNone"
  "\<not> pr_succeeded (capability_missing s c)" "pr_deferred_cooldown (capability_missing s c) = None"
  "pr_channel_id (capability_missing s c) = Some c" "pr_protocol_capability_missing (capability_missing s c)"
  "pr_status (capability_missing s c) = s"
  by (simp_all add: capability_missing_def)

lemma network_error_ok: "result_ok cfg (fst (handle_network_error env cfg k m dur e res defer st))"
  by (auto simp: handle_network_error_def result_ok_def Let_def split: prod.split option.split)

lemma error_response_ok: "result_ok cfg (fst (handle_proxy_error_response env cfg k m dur res defer force st))"
  by (auto simp: handle_proxy_error_response_def result_ok_def Let_def dest: put_off_retry
      split: prod.split option.split)

lemma streaming_error_ok: "result_ok cfg (fst (handle_streaming_error_no_retry env cfg k m dur res st))"
  by (simp add: handle_streaming_error_no_retry_def result_ok_def split: prod.split)

lemma success_ok: "result_ok cfg (fst (handle_proxy_success env cfg k m dur res st))"
  by (simp add: handle_proxy_success_def result_ok_def Let_def)

lemma committed_aware_ok: "result_ok cfg (fst (handle_committed_aware_proxy_error env cfg k m dur res defer st))"
  by (simp add: handle_committed_aware_proxy_error_def error_response_ok streaming_error_ok)

lemma anomaly_ok:
  "handle_successful_forward_anomaly env cfg k m dur res defer st = Some r \<Longrightarrow> result_ok cfg (fst r)"
  by (auto simp: handle_successful_forward_anomaly_def committed_aware_ok split: option.splits if_splits)

lemmas handlers_ok = network_error_ok error_response_ok streaming_error_ok success_ok committed_aware_ok

lemma conclude_attempt_ok:
  assumes "conclude_attempt env cfg k m dur err answer defer force st = Some (Inr rd, st')"
  shows "result_ok cfg rd"
proof -
  have ok: "result_ok cfg rd" if "apfst Inr p = (Inr rd, st')" "result_ok cfg (fst p)" for p :: "_ \<times> 'a attempt_state_scheme"
    using that by (cases p) auto
  show ?thesis
  proof (cases err)
    case None
    with assms show ?thesis
      by (auto simp: conclude_attempt_def Let_def result_ok_def [of _ "(_, _)"] split: option.splits if_splits
          dest!: ok intro: handlers_ok anomaly_ok)
  next
    case (Some f)
    with assms show ?thesis
      by (cases f) (auto simp: conclude_attempt_def Let_def result_ok_def [of _ "(_, _)"] split: option.splits if_splits
          dest!: ok intro: handlers_ok)
  qed
qed

text \<open>C28: 
  Whatever the transport answered, the result names the action that is returned with it, a success
  asks for no further attempt, a put-off cooldown only comes with a failure that moves on to another
  channel, and the result names the channel that was tried.
\<close>

theorem attempt_result_is_coherent:
  assumes "conclude_attempt env cfg k m dur err answer defer force st = Some (Inr (r, d), st')"
  shows "pr_next_action r = d \<and> (pr_succeeded r \<longrightarrow> d = no_action) \<and>
     (pr_deferred_cooldown r \<noteq> None \<longrightarrow> d_retry d = RetryNextChannel \<and> \<not> pr_succeeded r) \<and>
     pr_channel_id r = Some (cfg_id cfg)"
  using conclude_attempt_ok [OF assms] by (simp add: result_ok_def)

definition example_attempt_env :: attempt_env where
  "example_attempt_env =
     \<lparr>ae_mgr = example_mgr, ae_peek_at = 0, ae_fallback_at = 0, ae_cache_at = 0, ae_cache_stored_at = 0,
      ae_success_at = 0, ae_read_ok = True, ae_global_rules = None, ae_registry = None, ae_has_session = False\<rparr>"

definition example_attempt_state :: attempt_state where
  "example_attempt_state = \<lparr>as_store = cooled_store, as_cache = None, as_usage = [], as_preferred = None\<rparr>"

definition example_answer :: "int \<Rightarrow> fw_result" where
  "example_answer status =
     \<lparr>fw_status = status, fw_upstream_status = 0, fw_header = None, fw_body = '''', fw_first_byte_time = 0,
      fw_input_tokens = 1, fw_output_tokens = 1, fw_cache_read_tokens = 0, fw_cache_creation_tokens = 0,
      fw_stream_diag_msg = '''', fw_sse_error_event = None, fw_response_committed = True, fw_service_tier = ''''\<rparr>"

theorem attempt_result_is_coherent_witness:
  "\<exists>r d st'. conclude_attempt example_attempt_env example_config 0 ''m'' 1 None (Some (example_answer 200)) False False
       example_attempt_state = Some (Inr (r, d), st') \<and> pr_succeeded r \<and> d = no_action"
proof -
  let ?p = "handle_proxy_success example_attempt_env example_config 0 ''m'' 1 (example_answer 200) example_attempt_state"
  have "conclude_attempt example_attempt_env example_config 0 ''m'' 1 None (Some (example_answer 200)) False False
      example_attempt_state = Some (Inr (fst ?p), snd ?p)"
    by (simp add: conclude_attempt_def handle_successful_forward_anomaly_def example_answer_def apfst_def map_prod_def
        case_prod_beta)
  then have c: "conclude_attempt example_attempt_env example_config 0 ''m'' 1 None (Some (example_answer 200)) False False
      example_attempt_state = Some (Inr (fst (fst ?p), snd (fst ?p)), snd ?p)" by simp
  have "pr_succeeded (fst (fst ?p))" by (simp add: handle_proxy_success_def Let_def)
  with attempt_result_is_coherent [OF c] c show ?thesis by blast
qed

section \<open>Putting a cooldown off\<close>

text \<open>C29: 
  Putting the cooldown of a channel off only postpones it: the attempt leaves the store and the caches
  as they were, and applying the input it hands back gives the decision and the state that the
  handler would have given at once.
\<close>

theorem deferral_only_postpones:
  assumes "handle_proxy_error_response env cfg k m dur res True False st = ((r, d), st1)"
    and "pr_deferred_cooldown r = Some inp"
  shows "as_store st1 = as_store st \<and> as_cache st1 = as_cache st \<and>
     (case apply_cooldown_decision env cfg inp st1 of
        (d', st2) \<Rightarrow> handle_proxy_error_response env cfg k m dur res False False st =
          ((r\<lparr>pr_next_action := d', pr_deferred_cooldown := None\<rparr>, d'), st2))"
proof -
  let ?inp = "cooldown_input_for_model (http_error_input (cfg_id cfg) k res) m"
  have "put_off env cfg ?inp True \<noteq> None"
    using assms by (auto simp: handle_proxy_error_response_def Let_def split: option.splits prod.splits)
  then obtain a where a: "put_off env cfg ?inp True = Some a" by auto
  then have "inp = ?inp" using assms by (auto simp: handle_proxy_error_response_def Let_def)
  moreover have "put_off env cfg ?inp False = None" by (simp add: put_off_def)
  ultimately show ?thesis using assms(1) a
    by (auto simp: handle_proxy_error_response_def report_usage_def Let_def blank_result_def split: prod.splits)
qed

text \<open>C30: 
  A response that has reached the client is never repeated: when a stream that was already passed on
  turns out to be broken, the attempt counts as a success and asks for nothing more - and still the
  cooldowns of the store become those of a failure that was noticed in time and is not put off.
\<close>

theorem committed_failure_cools_without_retry:
  assumes "fw_response_committed res"
  shows "case handle_committed_aware_proxy_error env cfg k m dur res defer st of
     ((r, d), st') \<Rightarrow>
       pr_succeeded r \<and> d = no_action \<and> as_usage st' = as_usage st \<and>
       as_store st' = as_store (snd (handle_committed_aware_proxy_error env cfg k m dur
          (res\<lparr>fw_response_committed := False\<rparr>) False st))"
proof -
  let ?inp = "cooldown_input_for_model (http_error_input (cfg_id cfg) k res) m"
  have inp: "http_error_input c k (res\<lparr>fw_response_committed := x\<rparr>) = http_error_input c k res" for c x
    by (simp add: http_error_input_def Let_def)
  have store: "as_store (snd (apply_cooldown_decision env cfg i s)) = as_store (snd (apply_cooldown_decision env cfg i t))"
    if "as_store s = as_store t" for i and s t :: "'a attempt_state_scheme"
    using that unfolding apply_cooldown_decision_def Let_def invalidate_channel_related_def
    by (simp add: case_prod_beta)
  have usage: "as_usage (snd (apply_cooldown_decision env cfg i st)) = as_usage st" for i
    unfolding apply_cooldown_decision_def Let_def invalidate_channel_related_def by (simp add: case_prod_beta)
  show ?thesis
    unfolding handle_committed_aware_proxy_error_def handle_streaming_error_no_retry_def
      handle_proxy_error_response_def put_off_def Let_def inp
    using assms by (simp add: case_prod_beta usage report_usage_def) (auto intro!: store)
qed

theorem committed_failure_cools_without_retry_witness:
  "pr_succeeded (fst (fst (handle_committed_aware_proxy_error example_attempt_env example_config 0 ''m'' 1
     (example_answer 599) True example_attempt_state)))"
  using committed_failure_cools_without_retry
    [of "example_answer 599" example_attempt_state example_attempt_env example_config 0 "''m''" 1 True]
  by (simp add: example_answer_def case_prod_beta)

lemma example_oauth_401:
  "put_off example_attempt_env example_config
     (cooldown_input_for_model (http_error_input (cfg_id example_config) no_key_index (example_answer 401)) '''') True =
   Some (plain_decision RetryNextChannel EffectCoolChannel)"
proof -
  let ?inp = "cooldown_input_for_model (http_error_input (cfg_id example_config) no_key_index (example_answer 401)) ''''"
  let ?full = "complete_cooldown_input example_attempt_env example_config ?inp"
  have full: "in_status_code ?full = 401" "in_detection_rules ?full = None" "in_error_body ?full = ''''"
    "in_key_index ?full = no_key_index" "\<not> in_is_network_error ?full" "in_upstream_status_code ?full = 401"
    by (simp_all add: complete_cooldown_input_def cooldown_input_for_model_def http_error_input_def Let_def
        http_error_input_from_parts_def example_answer_def effective_channel_rules_def example_config_def
        example_attempt_env_def)
  have "classify_decision example_detect_env ?full 0 = blank_decision ActionRetryChannel"
    using full by (simp add: classify_decision_def classify_builtin_def Let_def
        example_detect_env_def
        classify_http_response_with_meta_at_def silent_env_parses_nothing status_constants
        is_model_scoped_stream_failure_def of_level_def copy_classification_def blank_decision_def
        move_key_until_to_model_def scope_to_model_def is_model_scoped_http_status_def
        action_of_level_def)
  then show ?thesis
    by (simp add: put_off_def decide_cooldown_action_def decide_def Let_def example_attempt_env_def
        legacy_to_decision_def blank_decision_def plain_decision_def example_config_def)
qed

theorem deferral_only_postpones_witness:
  "\<exists>r d st1 inp. handle_proxy_error_response example_attempt_env example_config no_key_index '''' 1 (example_answer 401)
       True False example_attempt_state = ((r, d), st1) \<and>
     pr_deferred_cooldown r = Some inp \<and> as_store st1 = cooled_store"
proof -
  let ?p = "handle_proxy_error_response example_attempt_env example_config no_key_index '''' 1 (example_answer 401)
       True False example_attempt_state"
  obtain r d st1 where p: "?p = ((r, d), st1)" by (metis surj_pair)
  then have "pr_deferred_cooldown r =
      Some (cooldown_input_for_model (http_error_input (cfg_id example_config) no_key_index (example_answer 401)) '''')"
    unfolding handle_proxy_error_response_def Let_def example_oauth_401 by auto
  from deferral_only_postpones [OF p this] p this show ?thesis by (auto simp: example_attempt_state_def)
qed

section \<open>Usage\<close>

lemma apply_cooldown_usage [simp]: "as_usage (snd (apply_cooldown_decision env cfg i st)) = as_usage st"
  unfolding apply_cooldown_decision_def Let_def invalidate_channel_related_def by (simp add: case_prod_beta)

lemma active_model_usage [simp]: "as_usage (snd (has_active_model_cooldown env c m st)) = as_usage st"
  unfolding has_active_model_cooldown_def Let_def by (simp add: case_prod_beta split: option.split)

lemma clear_usage [simp]: "as_usage (clear_by_effect env cfg k s d st) = as_usage st"
  by (simp add: clear_by_effect_def)

lemma invalidate_usage [simp]: "as_usage (invalidate_channel_related c st) = as_usage st"
  by (simp add: invalidate_channel_related_def)

definition usage_of :: "config \<Rightarrow> bool \<Rightarrow> real \<Rightarrow> fw_result \<Rightarrow> string \<Rightarrow> usage_event" where
  "usage_of cfg success dur res m =
     \<lparr>ue_channel = cfg_id cfg, ue_success = success, ue_duration = dur, ue_result = res, ue_model = m\<rparr>"

lemma report_usage_usage [simp]: "as_usage (report_usage cfg ok dur res m st) = as_usage st @ [usage_of cfg ok dur res m]"
  by (simp add: report_usage_def usage_of_def)

lemma clear_if_active_usage [simp]:
  "as_usage (case has_active_model_cooldown env c m s of (False, s) \<Rightarrow> s | (True, s) \<Rightarrow> clear_by_effect env cfg k code d s)
     = as_usage s"
  using active_model_usage [of env c m s] by (cases "has_active_model_cooldown env c m s") (auto split: bool.split)

lemma success_usage:
  "as_usage (snd (handle_proxy_success env cfg k m dur res st)) = as_usage st @ [usage_of cfg True dur res m]"
  unfolding handle_proxy_success_def Let_def by (simp add: if_distrib [of as_usage])

lemma network_usage:
  "as_usage (snd (handle_network_error env cfg k m dur e res defer st)) =
     as_usage st @ (case res of
        Some r \<Rightarrow> if fst (classify_error (Some e)) \<noteq> 499 \<and> has_consumed_tokens res then [usage_of cfg False dur r m] else []
      | None \<Rightarrow> [])"
  unfolding handle_network_error_def Let_def
  by (cases "classify_error (Some e)") (auto simp: case_prod_beta split: option.split)

lemma error_response_usage:
  "as_usage (snd (handle_proxy_error_response env cfg k m dur res defer force st)) =
     as_usage st @ (if fw_status res \<noteq> 499 then [usage_of cfg False dur res m] else [])"
  unfolding handle_proxy_error_response_def Let_def by (auto simp: case_prod_beta split: option.split)

lemma streaming_usage:
  "as_usage (snd (handle_streaming_error_no_retry env cfg k m dur res st)) = as_usage st"
  by (simp add: handle_streaming_error_no_retry_def case_prod_beta)

text \<open>The one usage event of an attempt, if there is one.\<close>

definition clean_success :: "transport_failure option \<Rightarrow> fw_result option \<Rightarrow> bool" where
  "clean_success err answer \<longleftrightarrow>
     (case answer of
        None \<Rightarrow> False
      | Some r \<Rightarrow> err = None \<and> 200 \<le> fw_status r \<and> fw_status r < 300 \<and> fw_sse_error_event r = None \<and>
          fw_stream_diag_msg r = '''')"

lemma committed_usage:
  "\<exists>evs. as_usage (snd (handle_committed_aware_proxy_error env cfg k m dur res defer st)) = as_usage st @ evs \<and>
     length evs \<le> 1 \<and> (\<forall>e \<in> set evs. ue_channel e = cfg_id cfg \<and> \<not> ue_success e \<and> \<not> fw_response_committed res)"
  by (auto simp: handle_committed_aware_proxy_error_def error_response_usage streaming_usage usage_of_def)

lemma conclude_usage_answered:
  assumes "conclude_attempt env cfg k m dur err answer defer force st = Some (x, st')" and None: "err = None"
  shows "\<exists>evs. as_usage st' = as_usage st @ evs \<and> length evs \<le> 1 \<and> (\<forall>e \<in> set evs. ue_channel e = cfg_id cfg) \<and>
     ((\<exists>e \<in> set evs. ue_success e) \<longleftrightarrow> clean_success err answer)"
proof -
  obtain res where a: "answer = Some res" using assms by (auto simp: conclude_attempt_def split: option.splits)
  show ?thesis
  proof (cases "200 \<le> fw_status res \<and> fw_status res < 300")
    case True
    show ?thesis
    proof (cases "handle_successful_forward_anomaly env cfg k m dur res defer st")
      case none: None
      then have "fw_sse_error_event res = None \<and> fw_stream_diag_msg res = ''''"
        by (auto simp: handle_successful_forward_anomaly_def split: option.splits if_splits)
      moreover have "st' = snd (handle_proxy_success env cfg k m dur res st)"
        using assms(1) None a True none by (auto simp: conclude_attempt_def apfst_def map_prod_def case_prod_beta)
      ultimately show ?thesis using None a True
        by (intro exI [of _ "[usage_of cfg True dur res m]"])
          (simp add: success_usage clean_success_def, simp add: usage_of_def)
    next
      case (Some p)
      then have "fw_sse_error_event res \<noteq> None \<or> fw_stream_diag_msg res \<noteq> ''''"
        by (auto simp: handle_successful_forward_anomaly_def)
      moreover obtain r where "p = handle_committed_aware_proxy_error env cfg k m dur r defer st"
        using Some by (auto simp: handle_successful_forward_anomaly_def split: option.splits if_splits)
      moreover have "st' = snd p"
        using assms(1) None a True Some by (auto simp: conclude_attempt_def apfst_def map_prod_def case_prod_beta)
      ultimately show ?thesis using None a committed_usage [of env cfg k m dur r "defer" st]
        by (auto simp: clean_success_def)
    qed
  next
    case False
    then have "\<not> clean_success err answer" using None a by (auto simp: clean_success_def)
    moreover have "st' = st \<or> st' = snd (handle_proxy_error_response env cfg k m dur res defer force st)"
      using assms(1) None a False
      by (auto simp: conclude_attempt_def Let_def apfst_def map_prod_def case_prod_beta split: if_splits)
    ultimately show ?thesis by (auto simp: error_response_usage usage_of_def)
  qed
qed

lemma conclude_usage_failed:
  assumes "conclude_attempt env cfg k m dur err answer defer force st = Some (x, st')" and Some: "err = Some f"
  shows "\<exists>evs. as_usage st' = as_usage st @ evs \<and> length evs \<le> 1 \<and> (\<forall>e \<in> set evs. ue_channel e = cfg_id cfg) \<and>
     ((\<exists>e \<in> set evs. ue_success e) \<longleftrightarrow> clean_success err answer)"
proof -
  have n: "\<not> clean_success err answer" using Some by (auto simp: clean_success_def split: option.splits)
  have "st' = st \<or> (\<exists>e a. st' = snd (handle_network_error env cfg k m dur e a defer st)) \<or>
      (\<exists>r. st' = snd (handle_committed_aware_proxy_error env cfg k m dur r defer st))"
    using assms(1) Some
    by (cases f) (auto simp: conclude_attempt_def Let_def apfst_def map_prod_def case_prod_beta split: if_splits option.splits)
  then consider "st' = st" | e a where "st' = snd (handle_network_error env cfg k m dur e a defer st)"
    | r where "st' = snd (handle_committed_aware_proxy_error env cfg k m dur r defer st)" by blast
  then show ?thesis
  proof cases
    case 1
    then show ?thesis using n by auto
  next
    case 2
    then show ?thesis using n by (auto simp: network_usage usage_of_def split: option.split)
  next
    case 3
    then show ?thesis using n committed_usage [of env cfg k m dur r "defer" st] by auto
  qed
qed

lemma conclude_usage:
  assumes "conclude_attempt env cfg k m dur err answer defer force st = Some (x, st')"
  shows "\<exists>evs. as_usage st' = as_usage st @ evs \<and> length evs \<le> 1 \<and> (\<forall>e \<in> set evs. ue_channel e = cfg_id cfg) \<and>
     ((\<exists>e \<in> set evs. ue_success e) \<longleftrightarrow> clean_success err answer)"
  using conclude_usage_answered [OF assms] conclude_usage_failed [OF assms] by (cases err) blast+

text \<open>
  The usage of an attempt is booked at most once and on its own channel, and it is booked as a success
  exactly when the answer was clean: no error of the transport, a status of success, and no failure
  inside the stream.
\<close>

theorem attempt_reports_usage_once:
  assumes "conclude_attempt env cfg k m dur err answer defer force st = Some (x, st')"
  shows "\<exists>evs. as_usage st' = as_usage st @ evs \<and> length evs \<le> 1 \<and> (\<forall>e \<in> set evs. ue_channel e = cfg_id cfg) \<and>
     ((\<exists>e \<in> set evs. ue_success e) \<longleftrightarrow> clean_success err answer)"
  by (rule conclude_usage [OF assms])

theorem attempt_reports_usage_once_witness:
  "\<exists>x st'. conclude_attempt example_attempt_env example_config 0 ''m'' 1 None (Some (example_answer 200)) False False
     example_attempt_state = Some (x, st') \<and> length (as_usage st') = 1"
proof -
  let ?c = "conclude_attempt example_attempt_env example_config 0 ''m'' 1 None (Some (example_answer 200)) False False
     example_attempt_state"
  have "?c \<noteq> None" by (simp add: conclude_attempt_def)
  then obtain x st' where c: "?c = Some (x, st')" by (metis option.exhaust surj_pair)
  have "clean_success None (Some (example_answer 200))" by (simp add: clean_success_def example_answer_def)
  with attempt_reports_usage_once [OF c] obtain evs where
    "as_usage st' = as_usage example_attempt_state @ evs" "length evs \<le> 1" "\<exists>e \<in> set evs. ue_success e" by blast
  then have "as_usage st' = evs" "length evs \<le> 1" "evs \<noteq> []" by (auto simp: example_attempt_state_def)
  then show ?thesis using c by (cases evs) auto
qed

section \<open>A success ends the cooldowns\<close>

lemma apply_clear_channel:
  "snd (apply_effect env (plain_decision RetryNone EffectClearChannelCooldown) c k status s) =
     tolerate env CallResetChannel s (Inr (reset_channel_cooldown s c (mgr_stored_at env)))"
  by (simp add: apply_effect_def plain_decision_def)

lemma apply_clear_key:
  "k \<noteq> no_key_index \<Longrightarrow> snd (apply_effect env (plain_decision RetryNone EffectClearKeyCooldown) c k status s) =
     tolerate env CallResetKey s (Inr (reset_key_cooldown s c k (mgr_stored_at env)))"
  by (simp add: apply_effect_def plain_decision_def)

lemma apply_clear_model:
  "m \<noteq> '''' \<Longrightarrow> snd (apply_effect env ((plain_decision RetryNone EffectClearModelCooldown)\<lparr>d_model := m\<rparr>) c k status s) =
     tolerate env CallResetModel s (reset_model_cooldown s c m)"
  by (simp add: apply_effect_def plain_decision_def)

lemma reset_channel_not_cooling: "\<not> fst (channel_cell (reset_channel_cooldown s c now) c) > 0"
proof (cases "0 < fst (channel_cell s c)")
  case True
  then have "channel_cell (reset_channel_cooldown s c now) c = (0, 0)"
    using channel_cooldowns.reset_cell [of s c now] by simp
  then show ?thesis by simp
next
  case False
  then show ?thesis
    by (auto simp: channel_cell_def reset_channel_cooldown_def find_update_where split: option.splits)
qed

lemma listed_model_until:
  assumes "distinct (map (\<lambda>r. (mc_channel_id r, mc_model r)) (model_cooldowns_table s))"
    and r: "r \<in> set (model_cooldowns_table s)" "mc_channel_id r = c" "time_to_unix now < mc_cooldown_until r"
  shows "get_all_model_cooldowns s now c (mc_model r) = Some (unix_to_time (mc_cooldown_until r))"
proof -
  let ?P = "\<lambda>r. mc_cooldown_until r > time_to_unix now \<and> mc_channel_id r = c"
  let ?rows = "filter ?P (model_cooldowns_table s)"
  have "distinct (map (\<lambda>r. (mc_channel_id r, mc_model r)) ?rows)" by (rule distinct_map_filter [OF assms(1)])
  then have "inj_on (\<lambda>r. (mc_channel_id r, mc_model r)) (set ?rows)" "distinct ?rows"
    by (simp_all add: distinct_map)
  then have "distinct (map mc_model ?rows)" by (auto simp: distinct_map inj_on_def)
  then have "distinct (map fst (rev (map (\<lambda>r. (mc_model r, unix_to_time (mc_cooldown_until r))) ?rows)))"
    by (simp add: rev_map [symmetric] comp_def)
  moreover have "(mc_model r, unix_to_time (mc_cooldown_until r)) \<in>
      set (rev (map (\<lambda>r. (mc_model r, unix_to_time (mc_cooldown_until r))) ?rows))"
    using r by auto
  ultimately show ?thesis unfolding get_all_model_cooldowns_def by (rule map_of_is_SomeI)
qed

lemma reset_key_not_cooling: "\<not> fst (key_cell (reset_key_cooldown s c k now) (c, k)) > 0"
proof (cases "0 < fst (key_cell s (c, k))")
  case True
  then have "key_cell (reset_key_cooldown s c k now) (c, k) = (0, 0)"
    using key_cooldowns.reset_cell [of s "(c, k)" now] by simp
  then show ?thesis by simp
next
  case False
  have table: "api_keys_table (reset_key_cooldown s c k now) =
      update_where (\<lambda>r. is_key_row c k r \<and> ak_cooldown_until r > 0)
        (\<lambda>r. r\<lparr>ak_cooldown_until := 0, ak_cooldown_duration_ms := 0, ak_updated_at := time_to_unix now\<rparr>)
        (api_keys_table s)"
    by (simp add: reset_key_cooldown_def)
  have "find (is_key_row c k) (api_keys_table (reset_key_cooldown s c k now)) =
      map_option (\<lambda>r. if ak_cooldown_until r > 0
        then r\<lparr>ak_cooldown_until := 0, ak_cooldown_duration_ms := 0, ak_updated_at := time_to_unix now\<rparr> else r)
        (find (is_key_row c k) (api_keys_table s))"
    unfolding table by (rule find_update_where) (auto simp: is_key_row_def)
  then show ?thesis using False by (auto simp: key_cell_def split: option.splits)
qed

lemma not_cooling: "\<not> 0 < fst c \<Longrightarrow> 0 \<le> t \<Longrightarrow> \<not> cooling c t"
  by (auto simp: cooling_iff unix_to_time_def)

lemma success_model_step:
  fixes cfg :: config
  defines "c \<equiv> cfg_id cfg"
  assumes "as_cache st = None" "ae_read_ok env" "mgr_queried_at (ae_mgr env) \<le> ae_success_at env" "0 \<le> ae_success_at env"
    and "mgr_store_ok (ae_mgr env) CallResetModel" "normalize_cooldown_model m = Inr m"
    and rows: "distinct (map (\<lambda>r. (mc_channel_id r, mc_model r)) (model_cooldowns_table (as_store st)))"
  shows "let st' = (case has_active_model_cooldown env c m st of
       (False, s) \<Rightarrow> s
     | (True, s) \<Rightarrow> clear_by_effect env cfg k code ((plain_decision RetryNone EffectClearModelCooldown)\<lparr>d_model := m\<rparr>) s)
     in channels_table (as_store st') = channels_table (as_store st) \<and>
        api_keys_table (as_store st') = api_keys_table (as_store st) \<and>
        \<not> cooling (model_cell (as_store st') (c, m)) (ae_success_at env) \<and>
        agree_except c (as_store st) (as_store st')"
proof -
  let ?s = "as_store st"
  let ?cds = "get_all_model_cooldowns ?s (mgr_queried_at (ae_mgr env)) c"
  have m: "m \<noteq> ''''" "trim_space m = m"
    using assms(7) by (auto simp: normalize_cooldown_model_def Let_def split: if_splits)
  have act: "has_active_model_cooldown env c m st =
      ((case ?cds m of None \<Rightarrow> False | Some until \<Rightarrow> until > ae_success_at env), st)"
    using assms(2,3) by (simp add: has_active_model_cooldown_def read_through_channel_cache_def)
  show ?thesis
  proof (cases "fst (has_active_model_cooldown env c m st)")
    case True
    obtain s' where s': "reset_model_cooldown ?s c m = Inr s'"
      using assms(7) by (auto simp: reset_model_cooldown_def)
    have "\<not> cooling (model_cell s' (c, m)) (ae_success_at env)"
      using reset_model_effect [OF s', of "(c, m)"] assms(5) by (simp add: same_model_def not_cooling)
    moreover have "agree_except c ?s s'" by (rule reset_model_agree [OF s'])
    ultimately show ?thesis using True assms(6) model_op_tables(2) [OF s'] s'
      by (simp add: act clear_by_effect_def apply_clear_model [OF m(1)] tolerate_def c_def [symmetric])
  next
    case False
    have "\<not> cooling (model_cell ?s (c, m)) (ae_success_at env)"
    proof (cases "find (is_model_row c m) (model_cooldowns_table ?s)")
      case None
      then show ?thesis using assms(5) by (simp add: model_cell_def m(2) not_cooling)
    next
      case (Some r)
      then have r: "r \<in> set (model_cooldowns_table ?s)" "mc_channel_id r = c" "mc_model r = m"
        using find_in_set [OF Some] by (auto simp: is_model_row_def)
      show ?thesis
      proof (cases "time_to_unix (mgr_queried_at (ae_mgr env)) < mc_cooldown_until r")
        case True
        from listed_model_until [OF rows r(1,2) True] False
        show ?thesis by (simp add: act r(3) model_cell_def m(2) Some cooling_iff)
      next
        case no: False
        then show ?thesis using time_to_unix_mono [OF assms(4)]
          by (simp add: model_cell_def m(2) Some cooling_def)
      qed
    qed
    then show ?thesis using False by (simp add: act)
  qed
qed

text \<open>
  A success ends the cooldowns of what served it: afterwards neither the channel nor the key nor the
  model that answered is cooling, if the store works and is read without a cache; the records of every
  other channel are unchanged.
\<close>

theorem success_ends_its_cooldowns:
  fixes cfg :: config
  assumes "as_cache st = None" "ae_read_ok env" "mgr_queried_at (ae_mgr env) \<le> ae_success_at env" "0 \<le> ae_success_at env"
    and ok: "\<forall>call. mgr_store_ok (ae_mgr env) call" and m: "normalize_cooldown_model m = Inr m"
    and rows: "distinct (map (\<lambda>r. (mc_channel_id r, mc_model r)) (model_cooldowns_table (as_store st)))"
  shows "let c = cfg_id cfg; s' = as_store (snd (handle_proxy_success env cfg k m dur res st)) in
     \<not> cooling (channel_cell s' c) (ae_success_at env) \<and>
     (k \<noteq> no_key_index \<longrightarrow> \<not> cooling (key_cell s' (c, k)) (ae_success_at env)) \<and>
     \<not> cooling (model_cell s' (c, m)) (ae_success_at env) \<and> agree_except c (as_store st) s'"
proof -
  let ?c = "cfg_id cfg" and ?now = "mgr_stored_at (ae_mgr env)" and ?code = "fw_status res"
  define s1 where "s1 = reset_channel_cooldown (as_store st) ?c ?now"
  define s2 where "s2 = (if k \<noteq> no_key_index then reset_key_cooldown s1 ?c k ?now else s1)"
  have t2: "channels_table s2 = channels_table s1" "model_cooldowns_table s2 = model_cooldowns_table (as_store st)"
    by (simp_all add: s2_def s1_def key_op_tables channel_op_tables)
  have st2: "(if k \<noteq> no_key_index
       then clear_by_effect env cfg k ?code (plain_decision RetryNone EffectClearKeyCooldown)
              (clear_by_effect env cfg k ?code (plain_decision RetryNone EffectClearChannelCooldown) st)
       else clear_by_effect env cfg k ?code (plain_decision RetryNone EffectClearChannelCooldown) st) =
      st\<lparr>as_store := s2\<rparr>"
    using ok by (simp add: clear_by_effect_def apply_clear_channel apply_clear_key tolerate_def s1_def s2_def)
  have m0: "m \<noteq> ''''" using m by (auto simp: normalize_cooldown_model_def Let_def split: if_splits)
  have rows2: "distinct (map (\<lambda>r. (mc_channel_id r, mc_model r)) (model_cooldowns_table (as_store (st\<lparr>as_store := s2\<rparr>))))"
    using rows t2(2) by simp
  define st3 where "st3 = (case has_active_model_cooldown env ?c m (st\<lparr>as_store := s2\<rparr>) of
       (False, s) \<Rightarrow> s
     | (True, s) \<Rightarrow> clear_by_effect env cfg k ?code ((plain_decision RetryNone EffectClearModelCooldown)\<lparr>d_model := m\<rparr>) s)"
  have "as_cache (st\<lparr>as_store := s2\<rparr>) = None" using assms(1) by simp
  from success_model_step [OF this assms(2-4) ok [THEN spec] m rows2, of cfg k ?code, unfolded Let_def]
  have st3: "channels_table (as_store st3) = channels_table s2" "api_keys_table (as_store st3) = api_keys_table s2"
    "\<not> cooling (model_cell (as_store st3) (?c, m)) (ae_success_at env)" "agree_except ?c s2 (as_store st3)"
    by (simp_all add: st3_def)
  have store: "as_store (snd (handle_proxy_success env cfg k m dur res st)) = as_store st3"
    unfolding handle_proxy_success_def Let_def st2 using m0
    by (simp add: st3_def [symmetric] report_usage_def invalidate_channel_related_def)
  have "channel_cell (as_store st3) ?c = channel_cell s1 ?c" by (rule cells_cong(1)) (simp add: st3(1) t2(1))
  then have ch: "\<not> cooling (channel_cell (as_store st3) ?c) (ae_success_at env)"
    using reset_channel_not_cooling [of "as_store st" ?c ?now] assms(4) not_cooling by (simp add: s1_def)
  have "key_cell (as_store st3) (?c, k) = key_cell s2 (?c, k)" by (rule cells_cong(2)) (simp add: st3(2))
  then have key: "k \<noteq> no_key_index \<longrightarrow> \<not> cooling (key_cell (as_store st3) (?c, k)) (ae_success_at env)"
    using reset_key_not_cooling [of s1 ?c k ?now] assms(4) not_cooling by (simp add: s2_def)
  have "agree_except ?c (as_store st) s2" unfolding s2_def s1_def
    by (auto intro: agree_except_trans reset_channel_agree reset_key_agree)
  then have "agree_except ?c (as_store st) (as_store st3)" using st3(4) by (rule agree_except_trans)
  then show ?thesis unfolding Let_def store using ch key st3(3) by blast
qed

theorem success_ends_its_cooldowns_witness:
  "let s' = as_store (snd (handle_proxy_success example_attempt_env example_config 0 ''gpt'' 1 (example_answer 200)
        example_attempt_state))
   in \<not> cooling (key_cell s' (7, 0)) 0 \<and> \<not> cooling (model_cell s' (7, ''gpt'')) 0"
proof -
  have "\<not> contains_any ''gpt'' (bytes [0, 13, 10])" by code_simp
  then have "normalize_cooldown_model ''gpt'' = Inr ''gpt''"
    by (simp add: normalize_cooldown_model_def trim_space_word plain_word_def plain_char_def)
  moreover have "model_cooldowns_table (as_store example_attempt_state) = []"
    by (simp add: example_attempt_state_def cooled_store_def example_store_def set_key_cooldown_def)
  ultimately show ?thesis
    using success_ends_its_cooldowns [of example_attempt_state example_attempt_env "''gpt''" example_config 0 1 "example_answer 200"]
    by (simp add: example_attempt_state_def example_attempt_env_def example_config_def no_key_index_def example_mgr_def Let_def)
qed

end
