(* ===== verification/Weighted_Round_Robin.thy ===== *)
theory Weighted_Round_Robin
  imports Channel_Config Cooldown_Tables
begin

text \<open>
  The smooth weighted round robin of \<open>internal/app/smooth_weighted_rr.go\<close> and the balancing of
  channels of equal priority, \<open>balanceSamePriorityChannels\<close> of \<open>selector_balancer.go\<close>.

  The state of a group is the map from channel to its current weight; a channel that is not in
  Go's map reads as 0, so the map is a total function.  \<open>sha256\<close> is a parameter.  The mutex makes
  every operation one step.  Weights are sums of key counts, far from the 64-bit range; the
  fairness proof bounds the current weights by multiples of the total weight.
\<close>

section \<open>State\<close>

record rr_group =
  rr_current :: "int \<Rightarrow> int"
  rr_last_access :: time

type_synonym rr_scope = "string \<times> int"
type_synonym rr_states = "rr_scope \<Rightarrow> rr_group option"

definition new_rr :: rr_states where
  "new_rr = (\<lambda>scope. None)"

section \<open>One selection\<close>

definition add_weights :: "(int \<Rightarrow> int) \<Rightarrow> config list \<Rightarrow> int list \<Rightarrow> int \<Rightarrow> int" where
  "add_weights cw channels weights =
     foldl (\<lambda>cw (c, w). cw(cfg_id c := cw (cfg_id c) + w)) cw (zip channels weights)"

text \<open>The loop for the largest current weight; ties go to the smaller identifier.\<close>

primrec pick_from ::
    "(int \<Rightarrow> int) \<Rightarrow> config list \<Rightarrow> nat \<Rightarrow> nat \<times> config \<Rightarrow> nat \<times> config" where
  "pick_from cw [] i best = best"
| "pick_from cw (c # cs) i best =
     pick_from cw cs (Suc i)
       (if cw (cfg_id c) > cw (cfg_id (snd best)) \<or>
           cw (cfg_id c) = cw (cfg_id (snd best)) \<and> cfg_id c < cfg_id (snd best)
        then (i, c) else best)"

definition select_by_weight ::
    "rr_states \<Rightarrow> config list \<Rightarrow> int list \<Rightarrow> rr_scope \<Rightarrow> time \<Rightarrow> config list \<times> rr_states" where
  "select_by_weight states channels weights scope now =
     (if length channels \<le> 1 \<or> length weights \<noteq> length channels then (channels, states)
      else
        let current = (case states scope of None \<Rightarrow> (\<lambda>c. 0) | Some g \<Rightarrow> rr_current g);
            cw = add_weights current channels weights;
            total = sum_list weights
        in if total = 0
           then (channels, states(scope \<mapsto> \<lparr>rr_current = cw, rr_last_access = now\<rparr>))
           else let (selected, c) = pick_from cw (tl channels) 1 (0, hd channels);
                    cw' = cw(cfg_id c := cw (cfg_id c) - total)
                in (move_to_front selected channels,
                    states(scope \<mapsto> \<lparr>rr_current = cw', rr_last_access = now\<rparr>)))"

text \<open>The key cooldowns of a channel are a list of key and end, as in \<open>get_all_key_cooldowns\<close>.\<close>

definition calc_effective_key_count ::
    "config \<Rightarrow> (int \<Rightarrow> (int \<times> time) list option) \<Rightarrow> time \<Rightarrow> int" where
  "calc_effective_key_count cfg key_cooldowns now =
     (let total = cfg_key_count cfg in
      if total \<le> 0 then 1
      else case key_cooldowns (cfg_id cfg) of
        None \<Rightarrow> total
      | Some keys \<Rightarrow>
          if keys = [] then total
          else let cooled = int (length (filter (\<lambda>(k, until). until > now) keys));
                   effective = total - cooled
               in if effective \<le> 0 then 1 else effective)"

definition select_with_cooldown ::
    "rr_states \<Rightarrow> config list \<Rightarrow> (int \<Rightarrow> (int \<times> time) list option) \<Rightarrow> time \<Rightarrow> rr_scope
       \<Rightarrow> config list \<times> rr_states" where
  "select_with_cooldown states channels key_cooldowns now scope =
     (if length channels \<le> 1 then (channels, states)
      else select_by_weight states channels
             (map (\<lambda>c. calc_effective_key_count c key_cooldowns now) channels) scope now)"

section \<open>The key of a candidate set\<close>

text \<open>\<open>binary.BigEndian.PutUint64(uint64(id))\<close>.\<close>

definition be64 :: "int \<Rightarrow> string" where
  "be64 i = map (\<lambda>k. char_of (nat ((i mod 2 ^ 64) div 256 ^ k mod 256))) (rev [0 ..< 8])"

definition rr_universe_key :: "(string \<Rightarrow> string) \<Rightarrow> config list \<Rightarrow> string" where
  "rr_universe_key sha channels = sha (concat (map be64 (sort (map cfg_id channels))))"

section \<open>Maintenance\<close>

definition rr_cleanup :: "rr_states \<Rightarrow> duration \<Rightarrow> time \<Rightarrow> rr_states" where
  "rr_cleanup states max_age now = (\<lambda>scope.
     case states scope of
       None \<Rightarrow> None
     | Some g \<Rightarrow> if time_sub now (rr_last_access g) > max_age then None else Some g)"

definition rr_reset_all :: "rr_states \<Rightarrow> rr_states" where
  "rr_reset_all states = (\<lambda>scope. None)"

section \<open>Balancing channels of equal priority\<close>

text \<open>The loop over the groups of a list that is sorted by priority.\<close>

function balance_groups ::
    "rr_states \<Rightarrow> config list \<Rightarrow> (int \<Rightarrow> (int \<times> time) list option) \<Rightarrow> time \<Rightarrow> string
       \<Rightarrow> config list \<times> rr_states" where
  "balance_groups states [] key_cooldowns now universe = ([], states)"
| "balance_groups states (c # cs) key_cooldowns now universe =
     (let group = c # takeWhile (\<lambda>d. cfg_priority d = cfg_priority c) cs;
          rest = dropWhile (\<lambda>d. cfg_priority d = cfg_priority c) cs;
          (group', states') = select_with_cooldown states group key_cooldowns now
                                (universe, cfg_priority c);
          (rest', states'') = balance_groups states' rest key_cooldowns now universe
      in (group' @ rest', states''))"
  by pat_completeness auto
termination
  by (relation "measure (\<lambda>(states, cs, k, now, u). length cs)")
    (auto simp: le_imp_less_Suc length_dropWhile_le)

definition balance_same_priority_channels ::
    "rr_states \<Rightarrow> config list \<Rightarrow> (int \<Rightarrow> (int \<times> time) list option) \<Rightarrow> time \<Rightarrow> string
       \<Rightarrow> config list \<times> rr_states" where
  "balance_same_priority_channels states channels key_cooldowns now universe =
     (if length channels \<le> 1 then (channels, states)
      else balance_groups states (sort_key (\<lambda>c. - cfg_priority c) channels) key_cooldowns now
             universe)"

section \<open>What one selection does\<close>

lemma pick_from_result:
  assumes "\<forall>c \<in> set seen. cw (cfg_id c) < cw (cfg_id (snd best)) \<or>
      cw (cfg_id c) = cw (cfg_id (snd best)) \<and> cfg_id (snd best) \<le> cfg_id c"
    and "i = length seen" and "fst best < i" and "snd best = seen ! fst best"
    and "pick_from cw cs i best = (n, c)"
  shows "n < length (seen @ cs) \<and> c = (seen @ cs) ! n \<and>
    (\<forall>d \<in> set (seen @ cs). cw (cfg_id d) < cw (cfg_id c) \<or>
       cw (cfg_id d) = cw (cfg_id c) \<and> cfg_id c \<le> cfg_id d)"
  using assms
proof (induction cs arbitrary: seen i best)
  case Nil
  then show ?case by (metis append.right_neutral fst_conv pick_from.simps(1) snd_conv)
next
  case (Cons d cs)
  let ?best = "if cw (cfg_id d) > cw (cfg_id (snd best)) \<or>
        cw (cfg_id d) = cw (cfg_id (snd best)) \<and> cfg_id d < cfg_id (snd best)
      then (i, d) else best"
  have step: "n < length ((seen @ [d]) @ cs) \<and> c = ((seen @ [d]) @ cs) ! n \<and>
    (\<forall>e \<in> set ((seen @ [d]) @ cs). cw (cfg_id e) < cw (cfg_id c) \<or>
       cw (cfg_id e) = cw (cfg_id c) \<and> cfg_id c \<le> cfg_id e)"
  proof (rule Cons.IH [of "seen @ [d]" ?best "Suc i"])
    show "pick_from cw cs (Suc i) ?best = (n, c)" using Cons.prems(5) by simp
    show "\<forall>e \<in> set (seen @ [d]). cw (cfg_id e) < cw (cfg_id (snd ?best)) \<or>
        cw (cfg_id e) = cw (cfg_id (snd ?best)) \<and> cfg_id (snd ?best) \<le> cfg_id e"
      using Cons.prems(1) by fastforce
    show "snd ?best = (seen @ [d]) ! fst ?best"
      using Cons.prems(2-4) by (simp add: nth_append)
  qed (use Cons.prems(2,3) in auto)
  have eq: "(seen @ [d]) @ cs = seen @ d # cs" by simp
  show ?case using step unfolding eq .
qed

text \<open>The selected channel of a non-empty list.\<close>

lemma pick_channels:
  assumes "channels \<noteq> []" and "pick_from cw (tl channels) 1 (0, hd channels) = (n, c)"
  shows "n < length channels" and "c = channels ! n"
    and "\<forall>d \<in> set channels. cw (cfg_id d) \<le> cw (cfg_id c)"
proof -
  have "n < length ([hd channels] @ tl channels) \<and> c = ([hd channels] @ tl channels) ! n \<and>
    (\<forall>d \<in> set ([hd channels] @ tl channels). cw (cfg_id d) < cw (cfg_id c) \<or>
       cw (cfg_id d) = cw (cfg_id c) \<and> cfg_id c \<le> cfg_id d)"
    using assms(2) by (intro pick_from_result [of _ cw "(0, hd channels)" 1]) auto
  with assms(1) show "n < length channels" and "c = channels ! n"
    and "\<forall>d \<in> set channels. cw (cfg_id d) \<le> cw (cfg_id c)"
    by (auto simp: less_le_not_le)
qed

lemma add_weights_result:
  assumes "distinct (map cfg_id channels)"
  shows "add_weights cw channels (map weight channels) i =
    cw i + (case find (\<lambda>c. cfg_id c = i) channels of None \<Rightarrow> 0 | Some c \<Rightarrow> weight c)"
  using assms
proof (induction channels arbitrary: cw)
  case (Cons c cs)
  let ?cw = "cw(cfg_id c := cw (cfg_id c) + weight c)"
  have d: "distinct (map cfg_id cs)" using Cons.prems by simp
  have step: "add_weights cw (c # cs) (map weight (c # cs)) = add_weights ?cw cs (map weight cs)"
    by (simp add: add_weights_def)
  have ih: "add_weights ?cw cs (map weight cs) i =
      ?cw i + (case find (\<lambda>c. cfg_id c = i) cs of None \<Rightarrow> 0 | Some c \<Rightarrow> weight c)"
    by (rule Cons.IH [OF d])
  show ?case
  proof (cases "cfg_id c = i")
    case True
    then have "\<forall>d \<in> set cs. cfg_id d \<noteq> i"
      using Cons.prems by (metis distinct.simps(2) image_eqI list.set_map list.simps(9))
    then have "find (\<lambda>c. cfg_id c = i) cs = None" unfolding find_None_iff by blast
    then show ?thesis unfolding step ih using True by simp
  next
    case False
    then show ?thesis unfolding step ih by simp
  qed
qed (simp add: add_weights_def)

text \<open>The current weight of a channel in a group, 0 before the first selection.\<close>

definition current_weight :: "rr_states \<Rightarrow> rr_scope \<Rightarrow> int \<Rightarrow> int" where
  "current_weight states scope i = (case states scope of None \<Rightarrow> 0 | Some g \<Rightarrow> rr_current g i)"

definition ids_of :: "config list \<Rightarrow> int set" where
  "ids_of channels = cfg_id ` set channels"

lemma find_id:
  assumes "distinct (map cfg_id channels)" and "c \<in> set channels"
  shows "find (\<lambda>d. cfg_id d = cfg_id c) channels = Some c"
  using assms by (induction channels) (auto simp: inj_on_def rev_image_eqI)

lemma find_id_None: "find (\<lambda>d. cfg_id d = i) channels = None \<longleftrightarrow> i \<notin> ids_of channels"
  by (auto simp: find_None_iff ids_of_def)

lemma sum_ids:
  assumes "distinct (map cfg_id channels)"
  shows "(\<Sum>i \<in> ids_of channels. w i) = sum_list (map (\<lambda>c. w (cfg_id c)) channels)"
  using assms
  using sum_list_distinct_conv_sum_set [OF assms, of w] by (simp add: ids_of_def comp_def)

lemma select_step:
  assumes len: "2 \<le> length channels" and d: "distinct (map cfg_id channels)"
    and pos: "\<forall>c \<in> set channels. 0 < w (cfg_id c)"
  shows "\<exists>r states'. select_by_weight states channels (map (\<lambda>c. w (cfg_id c)) channels) scope now = (r, states') \<and>
    mset r = mset channels \<and> r \<noteq> [] \<and>
    (\<forall>i \<in> ids_of channels.
       current_weight states scope i + w i
         \<le> current_weight states scope (cfg_id (hd r)) + w (cfg_id (hd r))) \<and>
    (\<forall>i. current_weight states' scope i = current_weight states scope i +
       (if i \<in> ids_of channels then w i else 0) -
       (if i = cfg_id (hd r) then \<Sum>j \<in> ids_of channels. w j else 0)) \<and>
    (\<forall>scope'. scope' \<noteq> scope \<longrightarrow> states' scope' = states scope')"
proof -
  let ?ws = "map (\<lambda>c. w (cfg_id c)) channels"
  let ?cw = "add_weights (current_weight states scope) channels ?ws"
  have ne: "channels \<noteq> []" using len by auto
  obtain n c where p: "pick_from ?cw (tl channels) 1 (0, hd channels) = (n, c)" by fastforce
  note pick = pick_channels [OF ne p]
  have cur: "(case states scope of None \<Rightarrow> \<lambda>c. 0 | Some g \<Rightarrow> rr_current g) = current_weight states scope"
    by (auto simp: current_weight_def fun_eq_iff split: option.split)
  have "0 < w (cfg_id (hd channels))" using pos ne by simp
  moreover have "0 \<le> sum_list (map (\<lambda>c. w (cfg_id c)) (tl channels))"
    using pos ne by (intro sum_list_nonneg) (auto dest: list.set_sel(2) less_imp_le)
  moreover have "sum_list ?ws = w (cfg_id (hd channels)) + sum_list (map (\<lambda>c. w (cfg_id c)) (tl channels))"
    using ne by (cases channels) auto
  ultimately have tot: "sum_list ?ws \<noteq> 0" by simp
  have sel: "select_by_weight states channels ?ws scope now = (move_to_front n channels,
      states(scope \<mapsto> \<lparr>rr_current = ?cw(cfg_id c := ?cw (cfg_id c) - sum_list ?ws),
        rr_last_access = now\<rparr>))"
    using len tot by (simp add: select_by_weight_def cur p [simplified] Let_def)
  have hd: "hd (move_to_front n channels) = c" using pick by (simp add: hd_move_to_front)
  have cw: "?cw i = current_weight states scope i + (if i \<in> ids_of channels then w i else 0)" for i
  proof (cases "i \<in> ids_of channels")
    case True
    then obtain e where e: "e \<in> set channels" "cfg_id e = i" by (auto simp: ids_of_def)
    then show ?thesis using add_weights_result [OF d] find_id [OF d e(1)] True by simp
  next
    case False
    then show ?thesis using add_weights_result [OF d] find_id_None [of i channels] by simp
  qed
  have c: "c \<in> set channels" using pick by simp
  have "\<forall>i \<in> ids_of channels. current_weight states scope i + w i
      \<le> current_weight states scope (cfg_id c) + w (cfg_id c)"
  proof
    fix i assume "i \<in> ids_of channels"
    then obtain e where e: "e \<in> set channels" "cfg_id e = i" by (auto simp: ids_of_def)
    then have "?cw i \<le> ?cw (cfg_id c)" using pick(3) by auto
    then show "current_weight states scope i + w i
        \<le> current_weight states scope (cfg_id c) + w (cfg_id c)"
      using e c \<open>i \<in> ids_of channels\<close> by (simp add: cw) (simp add: ids_of_def)
  qed
  then show ?thesis
    using ne c by (auto simp: sel hd current_weight_def [of "states(scope \<mapsto> x)" for x] cw
        sum_ids [OF d])
qed

section \<open>Fairness over many rounds\<close>

text \<open>
  A run of selections in one scope.  Every round comes with the order in which the candidates
  arrive and its instant; the run records the identifiers of the selected channels.
\<close>

primrec rr_run ::
    "rr_states \<Rightarrow> rr_scope \<Rightarrow> (int \<Rightarrow> (int \<times> time) list option) \<Rightarrow> (config list \<times> time) list
       \<Rightarrow> int list \<times> rr_states" where
  "rr_run states scope kc [] = ([], states)"
| "rr_run states scope kc (rd # rounds) =
     (let (r, states') = select_with_cooldown states (fst rd) kc (snd rd) scope;
          (picks, states'') = rr_run states' scope kc rounds
      in (cfg_id (hd r) # picks, states''))"

text \<open>A round over the channels \<open>I\<close> in which channel \<open>i\<close> has \<open>w i\<close> usable keys.\<close>

definition round_over ::
    "int set \<Rightarrow> (int \<Rightarrow> int) \<Rightarrow> (int \<Rightarrow> (int \<times> time) list option) \<Rightarrow> config list \<times> time \<Rightarrow> bool" where
  "round_over I w kc rd \<longleftrightarrow>
     distinct (map cfg_id (fst rd)) \<and> ids_of (fst rd) = I \<and>
     (\<forall>c \<in> set (fst rd). calc_effective_key_count c kc (snd rd) = w (cfg_id c))"

text \<open>The invariant of a group: its weights sum to 0 and none is below minus the total.\<close>

definition rr_balanced :: "int set \<Rightarrow> (int \<Rightarrow> int) \<Rightarrow> rr_states \<Rightarrow> rr_scope \<Rightarrow> bool" where
  "rr_balanced I w states scope \<longleftrightarrow>
     (\<Sum>i \<in> I. current_weight states scope i) = 0 \<and>
     (\<forall>i \<in> I. - (\<Sum>j \<in> I. w j) < current_weight states scope i)"

lemma effective_key_count_pos: "1 \<le> calc_effective_key_count cfg kc now"
  by (auto simp: calc_effective_key_count_def Let_def split: option.split)

lemma finite_ids [simp]: "finite (ids_of channels)"
  by (simp add: ids_of_def)

lemma card_ids: "distinct (map cfg_id channels) \<Longrightarrow> card (ids_of channels) = length channels"
  by (metis distinct_card ids_of_def length_map set_map)

lemma round_select:
  assumes r: "round_over I w kc rd" and card: "2 \<le> card I"
  obtains r states' where
    "select_with_cooldown states (fst rd) kc (snd rd) scope = (r, states')"
    and "cfg_id (hd r) \<in> I"
    and "\<And>i. i \<in> I \<Longrightarrow> current_weight states scope i + w i
         \<le> current_weight states scope (cfg_id (hd r)) + w (cfg_id (hd r))"
    and "\<And>i. i \<in> I \<Longrightarrow> current_weight states' scope i = current_weight states scope i + w i -
       (if i = cfg_id (hd r) then \<Sum>j \<in> I. w j else 0)"
proof -
  let ?chs = "fst rd"
  have d: "distinct (map cfg_id ?chs)" and I: "ids_of ?chs = I"
    and w: "\<forall>c \<in> set ?chs. calc_effective_key_count c kc (snd rd) = w (cfg_id c)"
    using r by (auto simp: round_over_def)
  have len: "2 \<le> length ?chs" using card card_ids [OF d] I by simp
  have pos: "\<forall>c \<in> set ?chs. 0 < w (cfg_id c)"
    using w effective_key_count_pos by (metis zero_less_one_class.zero_less_one order_less_le_trans)
  have ws: "map (\<lambda>c. calc_effective_key_count c kc (snd rd)) ?chs = map (\<lambda>c. w (cfg_id c)) ?chs"
    using w by simp
  have sel: "select_with_cooldown states ?chs kc (snd rd) scope
      = select_by_weight states ?chs (map (\<lambda>c. w (cfg_id c)) ?chs) scope (snd rd)"
    using len by (simp add: select_with_cooldown_def ws)
  obtain r states' where
    "select_by_weight states ?chs (map (\<lambda>c. w (cfg_id c)) ?chs) scope (snd rd) = (r, states')"
    and r: "mset r = mset ?chs" "r \<noteq> []"
    and max: "\<forall>i \<in> ids_of ?chs. current_weight states scope i + w i
         \<le> current_weight states scope (cfg_id (hd r)) + w (cfg_id (hd r))"
    and step: "\<forall>i. current_weight states' scope i = current_weight states scope i +
       (if i \<in> ids_of ?chs then w i else 0) -
       (if i = cfg_id (hd r) then \<Sum>j \<in> ids_of ?chs. w j else 0)"
    using select_step [OF len d pos, of states scope "snd rd"] by blast
  moreover have "cfg_id (hd r) \<in> I"
    using r I by (metis hd_in_set ids_of_def image_eqI mset_eq_setD)
  ultimately show thesis using that sel I by simp
qed

lemma round_weights_pos:
  assumes "round_over I w kc rd" and "i \<in> I" shows "1 \<le> w i"
proof -
  obtain c where "c \<in> set (fst rd)" "cfg_id c = i" using assms by (auto simp: round_over_def ids_of_def)
  then show ?thesis using assms(1) effective_key_count_pos [of c kc "snd rd"]
    by (auto simp: round_over_def)
qed

lemma round_finite: "round_over I w kc rd \<Longrightarrow> finite I"
  by (auto simp: round_over_def)

lemma balanced_step:
  assumes r: "round_over I w kc rd" and card: "2 \<le> card I"
    and bal: "rr_balanced I w states scope"
    and sel: "select_with_cooldown states (fst rd) kc (snd rd) scope = (r, states')"
  shows "rr_balanced I w states' scope"
proof -
  let ?cw = "current_weight states scope" and ?W = "\<Sum>j \<in> I. w j"
  let ?p = "cfg_id (hd r)"
  have fin: "finite I" using r by (rule round_finite)
  have p: "?p \<in> I"
    and max: "\<And>i. i \<in> I \<Longrightarrow> ?cw i + w i \<le> ?cw ?p + w ?p"
    and step: "\<And>i. i \<in> I \<Longrightarrow>
      current_weight states' scope i = ?cw i + w i - (if i = ?p then ?W else 0)"
    using round_select [OF r card, of states scope] sel by (metis prod.inject)+
  have pos: "\<And>i. i \<in> I \<Longrightarrow> 1 \<le> w i" using round_weights_pos [OF r] .
  have ne: "I \<noteq> {}" using card by auto
  have sum: "(\<Sum>i \<in> I. ?cw i + w i) = ?W" using bal by (simp add: rr_balanced_def sum.distrib)
  have W: "0 < ?W" using pos ne fin by (intro sum_pos) force+
  have "0 < ?cw ?p + w ?p"
  proof (rule ccontr)
    assume "\<not> 0 < ?cw ?p + w ?p"
    then have "\<And>i. i \<in> I \<Longrightarrow> ?cw i + w i \<le> 0" using max by force
    then have "(\<Sum>i \<in> I. ?cw i + w i) \<le> 0" by (rule sum_nonpos)
    with sum W show False by simp
  qed
  moreover have "- ?W < ?cw i + w i" if "i \<in> I" for i
    using bal pos [OF that] that by (force simp: rr_balanced_def)
  ultimately have low: "\<forall>i \<in> I. - ?W < current_weight states' scope i"
    by (simp add: step)
  have "(\<Sum>i \<in> I. current_weight states' scope i)
      = (\<Sum>i \<in> I. ?cw i + w i) - (\<Sum>i \<in> I. if i = ?p then ?W else 0)"
    by (simp add: step sum_subtractf)
  also have "\<dots> = 0" using sum p fin by (simp add: sum.delta)
  finally show ?thesis using low by (simp add: rr_balanced_def)
qed

lemma run_accounting:
  assumes "\<forall>rd \<in> set rounds. round_over I w kc rd" and "2 \<le> card I"
    and "rr_balanced I w states scope"
    and "rr_run states scope kc rounds = (picks, states')"
  shows "rr_balanced I w states' scope \<and> set picks \<subseteq> I \<and> length picks = length rounds \<and>
    (\<forall>i \<in> I. current_weight states' scope i = current_weight states scope i +
       int (length rounds) * w i - (\<Sum>j \<in> I. w j) * int (count_list picks i))"
  using assms
proof (induction rounds arbitrary: states picks)
  case (Cons rd rounds)
  let ?W = "\<Sum>j \<in> I. w j"
  have r: "round_over I w kc rd" using Cons.prems(1) by simp
  obtain r st where sel: "select_with_cooldown states (fst rd) kc (snd rd) scope = (r, st)"
    and p: "cfg_id (hd r) \<in> I"
    and step: "\<And>i. i \<in> I \<Longrightarrow> current_weight st scope i = current_weight states scope i + w i -
       (if i = cfg_id (hd r) then ?W else 0)"
    using round_select [OF r Cons.prems(2), of states scope] by metis
  obtain ps where run: "rr_run st scope kc rounds = (ps, states')"
    and picks: "picks = cfg_id (hd r) # ps"
    using Cons.prems(4) by (auto simp: sel split: prod.splits)
  have "rr_balanced I w st scope" using balanced_step [OF r Cons.prems(2,3) sel] .
  then have ih: "rr_balanced I w states' scope \<and> set ps \<subseteq> I \<and> length ps = length rounds \<and>
    (\<forall>i \<in> I. current_weight states' scope i = current_weight st scope i +
       int (length rounds) * w i - ?W * int (count_list ps i))"
    using Cons.IH [OF _ Cons.prems(2) _ run] Cons.prems(1) by simp
  then show ?case using p by (auto simp: picks step algebra_simps)
qed simp

lemma sum_count_list: "finite I \<Longrightarrow> set xs \<subseteq> I \<Longrightarrow> (\<Sum>i \<in> I. count_list xs i) = length xs"
proof (induction xs)
  case (Cons x xs)
  then have "(\<Sum>i \<in> I. count_list (x # xs) i) = (\<Sum>i \<in> I. count_list xs i + (if x = i then 1 else 0))"
    by (intro sum.cong) auto
  then show ?case using Cons by (simp add: sum.distrib sum.delta')
qed simp

lemma run_share:
  assumes "\<forall>rd \<in> set rounds. round_over I w kc rd" and "2 \<le> card I"
    and "rr_balanced I w states scope"
    and "rr_run states scope kc rounds = (picks, states')"
    and "\<forall>j \<in> I. current_weight states scope j = 0" and "i \<in> I"
  shows "(\<Sum>j \<in> I. w j) * int (count_list picks i)
      < int (length rounds) * w i + (\<Sum>j \<in> I. w j)"
proof -
  note acc = run_accounting [OF assms(1-4)]
  have "- (\<Sum>j \<in> I. w j) < current_weight states' scope i"
    using acc assms(6) unfolding rr_balanced_def by blast
  moreover have "current_weight states' scope i = current_weight states scope i +
      int (length rounds) * w i - (\<Sum>j \<in> I. w j) * int (count_list picks i)"
    using acc assms(6) by blast
  ultimately show ?thesis using assms(5,6) by simp
qed

lemma zero_balanced:
  assumes "finite I" and "I \<noteq> {}" and "\<forall>i \<in> I. 1 \<le> w i" and "\<forall>j \<in> I. current_weight states scope j = 0"
  shows "rr_balanced I w states scope"
proof -
  have "0 < (\<Sum>j \<in> I. w j)" using assms(1-3) by (intro sum_pos) force+
  then show ?thesis using assms(4) by (simp add: rr_balanced_def)
qed

text \<open>C3: Smooth weighted round robin is fair.  Take channels \<open>I\<close> of one priority, at least two,
  channel \<open>i\<close> having \<open>w i\<close> usable keys throughout, and a group whose current weights are 0 (as
  in a fresh process).  In any number of selections with any orders of arrival, no channel is
  ahead of its share \<open>k * w i / W\<close> by a whole turn; after \<open>m * W\<close> selections, \<open>W\<close> the total of
  the weights, channel \<open>i\<close> was chosen exactly \<open>m * w i\<close> times and every current weight is 0
  again.\<close>

theorem weighted_rotation_is_fair:
  assumes rounds: "\<forall>rd \<in> set rounds. round_over I w kc rd" and some: "rounds \<noteq> []"
    and card: "2 \<le> card I" and zero: "\<forall>j \<in> I. current_weight states scope j = 0"
    and run: "rr_run states scope kc rounds = (picks, states')"
  shows "(\<forall>i \<in> I. (\<Sum>j \<in> I. w j) * int (count_list picks i)
        < int (length rounds) * w i + (\<Sum>j \<in> I. w j)) \<and>
    (\<forall>m. int (length rounds) = m * (\<Sum>j \<in> I. w j) \<longrightarrow>
      (\<forall>i \<in> I. int (count_list picks i) = m * w i \<and> current_weight states' scope i = 0))"
proof (intro conjI allI impI)
  let ?W = "\<Sum>j \<in> I. w j"
  have fin: "finite I" and ne: "I \<noteq> {}" using card by (auto intro: card_ge_0_finite)
  have pos: "\<forall>i \<in> I. 1 \<le> w i" using rounds some round_weights_pos by (metis list.set_sel(1))
  have bal: "rr_balanced I w states scope" by (rule zero_balanced [OF fin ne pos zero])
  note share = run_share [OF rounds card bal run zero]
  show "\<forall>i \<in> I. ?W * int (count_list picks i) < int (length rounds) * w i + ?W"
    using share by blast
  have W: "0 < ?W" using pos fin ne by (intro sum_pos) force+
  have acc: "set picks \<subseteq> I" "length picks = length rounds"
    and cw: "\<And>i. i \<in> I \<Longrightarrow> current_weight states' scope i =
      int (length rounds) * w i - ?W * int (count_list picks i)"
    using run_accounting [OF rounds card bal run] zero by auto
  fix m assume len: "int (length rounds) = m * ?W"
  have le: "int (count_list picks i) \<le> m * w i" if i: "i \<in> I" for i
  proof -
    have "?W * int (count_list picks i) < ?W * (m * w i + 1)"
      using share [OF i] by (simp add: len algebra_simps)
    then show ?thesis using W by (simp add: mult_less_cancel_left_pos)
  qed
  have "int (\<Sum>i \<in> I. count_list picks i) = m * ?W"
    using sum_count_list [OF fin acc(1)] acc(2) len by simp
  then have "(\<Sum>i \<in> I. int (count_list picks i)) = (\<Sum>i \<in> I. m * w i)"
    by (simp add: sum_distrib_left)
  then have eq: "\<forall>i \<in> I. int (count_list picks i) = m * w i"
    using le fin sum_mono_inv [of "\<lambda>i. int (count_list picks i)" I "\<lambda>i. m * w i"] by blast
  then show "\<forall>i \<in> I. int (count_list picks i) = m * w i \<and> current_weight states' scope i = 0"
    by (simp add: cw len)
qed

definition example_pair :: "config list" where
  "example_pair = [example_config\<lparr>cfg_id := 1, cfg_key_count := 2\<rparr>,
     example_config\<lparr>cfg_id := 2, cfg_key_count := 1\<rparr>]"

theorem weighted_rotation_is_fair_witness:
  "\<exists>picks states'. rr_run new_rr (''u'', 0) (\<lambda>c. None) (replicate 3 (example_pair, 0)) = (picks, states') \<and>
     count_list picks 1 = 2 \<and> count_list picks 2 = 1 \<and> current_weight states' (''u'', 0) 1 = 0"
proof -
  let ?w = "\<lambda>i. if i = 1 then 2 else 1 :: int"
  obtain picks states' where run:
    "rr_run new_rr (''u'', 0) (\<lambda>c. None) (replicate 3 (example_pair, 0)) = (picks, states')"
    by fastforce
  have rounds: "\<forall>rd \<in> set (replicate 3 (example_pair, 0)). round_over {1, 2} ?w (\<lambda>c. None) rd"
    by (simp add: round_over_def example_pair_def ids_of_def calc_effective_key_count_def)
  have zero: "\<forall>j \<in> {1, 2}. current_weight new_rr (''u'', 0) j = 0"
    by (simp add: current_weight_def new_rr_def)
  have "\<forall>i \<in> {1, 2}. int (count_list picks i) = 1 * ?w i \<and> current_weight states' (''u'', 0) i = 0"
    using weighted_rotation_is_fair [OF rounds _ _ zero run, THEN conjunct2, rule_format, of 1]
    by simp
  then show ?thesis using run by auto
qed

section \<open>The key of a candidate set and the balanced list\<close>

text \<open>The scope of a rotation depends only on which channels are candidates, not on the order
  in which they arrive, so that the accumulated weights survive a reordering.\<close>

theorem universe_key_ignores_order:
  assumes "mset channels = mset channels'"
  shows "rr_universe_key sha channels = rr_universe_key sha channels'"
proof -
  have "sort (map cfg_id channels) = sort (map cfg_id channels')"
    by (rule properties_for_sort) (simp_all add: assms)
  then show ?thesis by (simp add: rr_universe_key_def)
qed

theorem universe_key_ignores_order_witness:
  "rr_universe_key id example_pair = rr_universe_key id (rev example_pair)"
  using universe_key_ignores_order [of example_pair "rev example_pair" id] by simp

lemma select_by_weight_perm: "mset (fst (select_by_weight states channels weights scope now)) = mset channels"
  by (simp add: select_by_weight_def Let_def split: prod.split)

lemma select_with_cooldown_perm:
  "mset (fst (select_with_cooldown states channels kc now scope)) = mset channels"
  by (simp add: select_with_cooldown_def select_by_weight_perm)

lemma same_value_perm:
  assumes "\<forall>x \<in> set xs. f x = a" and "mset ys = mset xs" shows "map f ys = map f xs"
proof -
  have "set ys = set xs" "length ys = length xs"
    using assms(2) by (auto dest: mset_eq_setD mset_eq_length)
  then show ?thesis using assms(1)
    by (metis (no_types, lifting) map_replicate_const map_eq_conv)
qed

text \<open>
  The loop over tiers that both balancers of \<open>selector_balancer.go\<close> write: the list is cut into runs
  of one tier and each run is rearranged by a selection that permutes it.
\<close>

locale tier_balancer =
  fixes tier :: "'a \<Rightarrow> 'k" and pick :: "'s \<Rightarrow> 'a list \<Rightarrow> 'a list \<times> 's"
    and balance :: "'s \<Rightarrow> 'a list \<Rightarrow> 'a list \<times> 's"
  assumes pick_perm: "mset (fst (pick s xs)) = mset xs"
    and balance_Nil: "balance s [] = ([], s)"
    and balance_Cons: "balance s (c # cs) =
      (let (group', s') = pick s (c # takeWhile (\<lambda>d. tier d = tier c) cs);
           (rest', s'') = balance s' (dropWhile (\<lambda>d. tier d = tier c) cs)
       in (group' @ rest', s''))"
begin

lemma balance_result:
  "mset (fst (balance s cs)) = mset cs \<and> map tier (fst (balance s cs)) = map tier cs"
proof (induction cs arbitrary: s rule: length_induct)
  case (1 cs)
  show ?case
  proof (cases cs)
    case Nil
    then show ?thesis by (simp add: balance_Nil)
  next
    case (Cons c ds)
    let ?g = "c # takeWhile (\<lambda>d. tier d = tier c) ds" and ?d = "dropWhile (\<lambda>d. tier d = tier c) ds"
    obtain g' s' where sel: "pick s ?g = (g', s')" by fastforce
    obtain r' s'' where bal: "balance s' ?d = (r', s'')" by fastforce
    have g: "mset g' = mset ?g" using pick_perm [of s ?g] sel by simp
    have "\<forall>d \<in> set ?g. tier d = tier c" by (auto dest: set_takeWhileD)
    then have tg: "map tier g' = map tier ?g" using g by (rule same_value_perm)
    have "length ?d < length cs" using Cons by (simp add: le_imp_less_Suc length_dropWhile_le)
    then have r: "mset r' = mset ?d" "map tier r' = map tier ?d"
      using "1.IH" bal by (metis fst_conv)+
    have split: "?g @ ?d = cs" using Cons by simp
    have "mset (g' @ r') = mset (?g @ ?d)" unfolding mset_append g r ..
    moreover have "map tier (g' @ r') = map tier (?g @ ?d)" unfolding map_append tg r ..
    ultimately show ?thesis unfolding split using Cons by (simp add: balance_Cons sel bal)
  qed
qed

end

interpretation priority: tier_balancer cfg_priority
    "\<lambda>states group. select_with_cooldown states group kc now (u, cfg_priority (hd group))"
    "\<lambda>states cs. balance_groups states cs kc now u" for kc now u
  by unfold_locales (simp_all add: select_with_cooldown_perm)

lemmas balance_groups_result = priority.balance_result

lemma balance_same_priority_result:
  "mset (fst (balance_same_priority_channels states channels kc now u)) = mset channels \<and>
   sorted (map (\<lambda>c. - cfg_priority c) (fst (balance_same_priority_channels states channels kc now u)))"
proof (cases "length channels \<le> 1")
  case True
  then show ?thesis
    by (cases channels) (auto simp: balance_same_priority_channels_def)
next
  case False
  let ?s = "sort_key (\<lambda>c. - cfg_priority c) channels"
  let ?r = "fst (balance_groups states ?s kc now u)"
  have eq: "fst (balance_same_priority_channels states channels kc now u) = ?r"
    using False by (simp add: balance_same_priority_channels_def)
  have "map (\<lambda>c. - cfg_priority c) ?r = map uminus (map cfg_priority ?r)" by simp
  also have "\<dots> = map (\<lambda>c. - cfg_priority c) ?s"
    using balance_groups_result [where s = states and cs = ?s and kc = kc and now = now and u = u] by simp
  finally show ?thesis using balance_groups_result [where s = states and cs = ?s and kc = kc and now = now and u = u] unfolding eq by simp
qed

text \<open>Balancing keeps the priorities: the result is a permutation of the candidates in
  descending order of priority, whatever the state of the rotation.\<close>

theorem balanced_channels_keep_priority:
  "mset (fst (balance_same_priority_channels states channels kc now u)) = mset channels \<and>
   sorted (map (\<lambda>c. - cfg_priority c) (fst (balance_same_priority_channels states channels kc now u)))"
  by (rule balance_same_priority_result)

end
