(* ===== verification/Health_Balancing.thy ===== *)
theory Health_Balancing
  imports Weighted_Round_Robin
begin

text \<open>
  Ordering channels by health: \<open>sortChannelsByHealth\<close>, \<open>calculateEffectivePriority\<close>,
  \<open>medianFloat64\<close> and \<open>effPriorityBucket\<close> of \<open>internal/app/selector_balancer.go\<close>, the records of
  \<open>internal/model/health.go\<close> and the reading side of \<open>health_cache.go\<close>.

  A \<open>float64\<close> is a real number here: the rounding of each operation, NaN and the infinities are
  not modelled.  The statistics snapshot is a map; a nil snapshot reads like the empty one.
\<close>

section \<open>Statistics and configuration\<close>

record channel_health_stats =
  hs_success_rate :: real
  hs_sample_count :: int
  hs_avg_first_byte :: real
  hs_first_byte_count :: int

record health_score_config =
  hc_enabled :: bool
  hc_success_rate_penalty_weight :: int
  hc_min_confident_sample :: int
  hc_enable_ttfb_score :: bool
  hc_ttfb_penalty_weight :: real
  hc_ttfb_max_slow_ratio :: real
  hc_ttfb_min_confident_sample :: int

type_synonym health_snapshot = "int \<Rightarrow> channel_health_stats option"

definition get_health_stats :: "health_snapshot \<Rightarrow> int \<Rightarrow> channel_health_stats" where
  "get_health_stats snapshot channel =
     (case snapshot channel of
        Some v \<Rightarrow> v
      | None \<Rightarrow> \<lparr>hs_success_rate = 1, hs_sample_count = 0, hs_avg_first_byte = 0, hs_first_byte_count = 0\<rparr>)"

definition default_health_score_config :: health_score_config where
  "default_health_score_config =
     \<lparr>hc_enabled = False, hc_success_rate_penalty_weight = 100, hc_min_confident_sample = 20,
      hc_enable_ttfb_score = False, hc_ttfb_penalty_weight = 20, hc_ttfb_max_slow_ratio = 2,
      hc_ttfb_min_confident_sample = 10\<rparr>"

section \<open>The effective priority\<close>

definition confidence :: "int \<Rightarrow> int \<Rightarrow> real" where
  "confidence samples needed =
     (if needed > 0 then min 1 (real_of_int samples / real_of_int needed) else 1)"

definition calculate_effective_priority ::
    "config \<Rightarrow> channel_health_stats \<Rightarrow> health_score_config \<Rightarrow> real \<Rightarrow> real" where
  "calculate_effective_priority ch stats cfg median_ttfb =
     (let success_rate = (if hs_success_rate stats < 0 then 0
                          else if hs_success_rate stats > 1 then 1 else hs_success_rate stats);
          penalty_fail = (1 - success_rate) * real_of_int (hc_success_rate_penalty_weight cfg) *
                           confidence (hs_sample_count stats) (hc_min_confident_sample cfg);
          penalty_ttfb =
            (if hc_enable_ttfb_score cfg \<and> median_ttfb > 0 \<and> hs_first_byte_count stats > 0 \<and>
                hs_avg_first_byte stats > 0 \<and> hc_ttfb_penalty_weight cfg > 0
             then let slow0 = hs_avg_first_byte stats / median_ttfb - 1;
                      slow = (if slow0 < 0 then 0 else slow0);
                      max_slow = (if hc_ttfb_max_slow_ratio cfg < 0 then 0 else hc_ttfb_max_slow_ratio cfg);
                      capped = (if slow > max_slow then max_slow else slow)
                  in capped * hc_ttfb_penalty_weight cfg *
                       confidence (hs_first_byte_count stats) (hc_ttfb_min_confident_sample cfg)
             else 0)
      in real_of_int (cfg_priority ch) - penalty_fail - penalty_ttfb)"

definition median_float64 :: "real list \<Rightarrow> real" where
  "median_float64 values =
     (let n = length values in
      if n = 0 then 0
      else if n < 2 then 0
      else let cp = sort values; mid = n div 2
           in if n mod 2 = 1 then cp ! mid else (cp ! (mid - 1) + cp ! mid) / 2)"

definition trunc :: "real \<Rightarrow> int" where
  "trunc x = (if 0 \<le> x then \<lfloor>x\<rfloor> else \<lceil>x\<rceil>)"

definition eff_priority_precision :: int where "eff_priority_precision = 10"

definition eff_priority_bucket :: "real \<Rightarrow> int" where
  "eff_priority_bucket p =
     (let scaled = p * real_of_int eff_priority_precision
      in trunc (if scaled \<ge> 0 then scaled + 1 / 10 ^ 9 else scaled - 1 / 10 ^ 9))"

section \<open>Sorting by health\<close>

type_synonym scored = "config \<times> real"

text \<open>The selected channel trades places with the first one of its tier.\<close>

definition swap_to_front :: "nat \<Rightarrow> 'a list \<Rightarrow> 'a list" where
  "swap_to_front i xs = xs[0 := xs ! i, i := xs ! 0]"

definition balance_scored_channels ::
    "rr_states \<Rightarrow> scored list \<Rightarrow> (int \<Rightarrow> (int \<times> time) list option) \<Rightarrow> time \<Rightarrow> string
       \<Rightarrow> scored list \<times> rr_states" where
  "balance_scored_channels states items key_cooldowns now universe =
     (if length items \<le> 1 then (items, states)
      else
        let scope = (universe, eff_priority_bucket (snd (hd items)));
            (balanced, states') = select_with_cooldown states (map fst items) key_cooldowns now scope;
            selected_id = cfg_id (hd balanced)
        in (case find_index (\<lambda>item. cfg_id (fst item) = selected_id) (tl items) of
              None \<Rightarrow> items
            | Some i \<Rightarrow> swap_to_front (Suc i) items,
            states'))"

function balance_buckets ::
    "rr_states \<Rightarrow> scored list \<Rightarrow> (int \<Rightarrow> (int \<times> time) list option) \<Rightarrow> time \<Rightarrow> string
       \<Rightarrow> scored list \<times> rr_states" where
  "balance_buckets states [] key_cooldowns now universe = ([], states)"
| "balance_buckets states (c # cs) key_cooldowns now universe =
     (let same = (\<lambda>d. eff_priority_bucket (snd d) = eff_priority_bucket (snd c));
          (group', states') = balance_scored_channels states (c # takeWhile same cs) key_cooldowns now universe;
          (rest', states'') = balance_buckets states' (dropWhile same cs) key_cooldowns now universe
      in (group' @ rest', states''))"
  by pat_completeness auto
termination
  by (relation "measure (\<lambda>(states, cs, k, now, u). length cs)")
    (auto simp: le_imp_less_Suc length_dropWhile_le)

definition ttfb_samples :: "health_snapshot \<Rightarrow> config list \<Rightarrow> real list" where
  "ttfb_samples snapshot channels =
     map hs_avg_first_byte
       (filter (\<lambda>st. hs_first_byte_count st > 0 \<and> hs_avg_first_byte st > 0)
         (map (\<lambda>ch. get_health_stats snapshot (cfg_id ch)) channels))"

definition health_priority :: "health_snapshot \<Rightarrow> health_score_config \<Rightarrow> config list \<Rightarrow> config \<Rightarrow> real" where
  "health_priority snapshot cfg channels ch =
     calculate_effective_priority ch (get_health_stats snapshot (cfg_id ch)) cfg
       (median_float64 (ttfb_samples snapshot channels))"

definition sort_channels_by_health ::
    "rr_states \<Rightarrow> health_snapshot \<Rightarrow> health_score_config \<Rightarrow> config list
       \<Rightarrow> (int \<Rightarrow> (int \<times> time) list option) \<Rightarrow> time \<Rightarrow> string \<Rightarrow> config list \<times> rr_states" where
  "sort_channels_by_health states snapshot cfg channels key_cooldowns now universe =
     (if channels = [] then (channels, states)
      else
        let scored = map (\<lambda>ch. (ch, health_priority snapshot cfg channels ch)) channels;
            (balanced, states') = balance_buckets states (sort_key (\<lambda>item. - snd item) scored)
                                    key_cooldowns now universe
        in (map fst balanced, states'))"

section \<open>Bounds of the penalty\<close>

lemma confidence_bounds: "0 \<le> samples \<Longrightarrow> 0 \<le> confidence samples needed \<and> confidence samples needed \<le> 1"
  by (simp add: confidence_def)

lemma clip_low: "(if x < 0 then 0 else x) = max (0::real) x"
  by simp

lemma clip_high: "(if a > b then b else a) = min (a::real) b"
  by simp

lemma product_bounds:
  fixes a b w :: real
  assumes "0 \<le> a" "a \<le> m" "0 \<le> w" "0 \<le> b" "b \<le> 1"
  shows "0 \<le> a * w * b \<and> a * w * b \<le> m * w"
proof -
  have "a * w * b \<le> a * w" using assms by (simp add: mult_left_le)
  also have "\<dots> \<le> m * w" using assms by (simp add: mult_right_mono)
  finally show ?thesis using assms by simp
qed

text \<open>
  Health only ever lowers a channel's priority, by at most the failure weight plus the capped slowness
  weight; without samples, or with a perfect record and no slowness, it changes nothing.
\<close>

theorem health_penalty_is_bounded:
  assumes samples: "0 \<le> hs_sample_count stats" and weight: "0 \<le> hc_success_rate_penalty_weight cfg"
  shows "let p = calculate_effective_priority ch stats cfg median;
             slow = (if hc_enable_ttfb_score cfg then max 0 (hc_ttfb_max_slow_ratio cfg) *
                       max 0 (hc_ttfb_penalty_weight cfg) else 0)
         in p \<le> cfg_priority ch \<and>
            cfg_priority ch - hc_success_rate_penalty_weight cfg - slow \<le> p \<and>
            (hs_sample_count stats = 0 \<and> 0 < hc_min_confident_sample cfg \<and> hs_first_byte_count stats \<le> 0
               \<longrightarrow> p = cfg_priority ch)"
proof -
  let ?sr = "if hs_success_rate stats < 0 then 0 else min (hs_success_rate stats) 1"
  let ?w = "real_of_int (hc_success_rate_penalty_weight cfg)"
  let ?c = "confidence (hs_sample_count stats) (hc_min_confident_sample cfg)"
  let ?slow = "max 0 (hs_avg_first_byte stats / median - 1)"
  let ?cap = "min ?slow (max 0 (hc_ttfb_max_slow_ratio cfg))"
  let ?ttfb = "if hc_enable_ttfb_score cfg \<and> median > 0 \<and> hs_first_byte_count stats > 0 \<and>
      hs_avg_first_byte stats > 0 \<and> hc_ttfb_penalty_weight cfg > 0
    then ?cap * hc_ttfb_penalty_weight cfg *
           confidence (hs_first_byte_count stats) (hc_ttfb_min_confident_sample cfg) else 0"
  have p: "calculate_effective_priority ch stats cfg median =
      real_of_int (cfg_priority ch) - (1 - ?sr) * ?w * ?c - ?ttfb"
    by (simp only: calculate_effective_priority_def Let_def clip_low clip_high)
  have fail: "0 \<le> (1 - ?sr) * ?w * ?c \<and> (1 - ?sr) * ?w * ?c \<le> 1 * ?w"
    using weight confidence_bounds [OF samples] by (intro product_bounds) auto
  have ttfb: "0 \<le> ?ttfb \<and> ?ttfb \<le> (if hc_enable_ttfb_score cfg then max 0 (hc_ttfb_max_slow_ratio cfg) *
      max 0 (hc_ttfb_penalty_weight cfg) else 0)"
  proof (cases "hc_enable_ttfb_score cfg \<and> median > 0 \<and> hs_first_byte_count stats > 0 \<and>
      hs_avg_first_byte stats > 0 \<and> hc_ttfb_penalty_weight cfg > 0")
    case True
    then have "0 \<le> hs_first_byte_count stats" by simp
    note c = confidence_bounds [OF this, of "hc_ttfb_min_confident_sample cfg"]
    have "0 \<le> ?cap * hc_ttfb_penalty_weight cfg *
           confidence (hs_first_byte_count stats) (hc_ttfb_min_confident_sample cfg) \<and>
        ?cap * hc_ttfb_penalty_weight cfg *
           confidence (hs_first_byte_count stats) (hc_ttfb_min_confident_sample cfg)
        \<le> max 0 (hc_ttfb_max_slow_ratio cfg) * hc_ttfb_penalty_weight cfg"
      using True c by (intro product_bounds) auto
    then show ?thesis using True by (simp add: max_def)
  qed (auto simp: max_def)
  have zero: "(1 - ?sr) * ?w * ?c = 0 \<and> ?ttfb = 0"
    if "hs_sample_count stats = 0 \<and> 0 < hc_min_confident_sample cfg \<and> hs_first_byte_count stats \<le> 0"
    using that by (simp add: confidence_def)
  obtain F T where F: "F = (1 - ?sr) * ?w * ?c" and T: "T = ?ttfb" by blast
  show ?thesis
    using fail ttfb zero unfolding Let_def p F [symmetric] T [symmetric] by auto
qed


section \<open>The order\<close>

lemma find_index_lt: "find_index P xs = Some i \<Longrightarrow> i < length xs"
  using find_index_Some by blast

lemma mset_swap_to_front:
  assumes "i < length xs" shows "mset (swap_to_front i xs) = mset xs"
proof -
  have "0 < length xs" using assms by linarith
  from mset_swap [OF assms this] show ?thesis by (simp add: swap_to_front_def)
qed

lemma balance_scored_perm:
  "mset (fst (balance_scored_channels states items kc now u)) = mset items"
proof (cases "length items \<le> 1")
  case False
  then obtain x xs where items: "items = x # xs" by (cases items) auto
  show ?thesis
    using False by (auto simp: balance_scored_channels_def Let_def items split: prod.split option.split
        intro!: mset_swap_to_front [of _ "x # xs", simplified] dest: find_index_lt)
qed (simp add: balance_scored_channels_def)

interpretation health: tier_balancer "\<lambda>item. eff_priority_bucket (snd item)"
    "\<lambda>states items. balance_scored_channels states items kc now u"
    "\<lambda>states items. balance_buckets states items kc now u" for kc now u
  by unfold_locales (simp_all add: balance_scored_perm Let_def)

lemma trunc_mono: "x \<le> y \<Longrightarrow> trunc x \<le> trunc y"
  unfolding trunc_def by (auto intro: floor_mono ceiling_mono) (metis ceiling_le_zero floor_of_nat
      less_le_not_le linorder_not_le of_nat_0 order_trans zero_le_floor)

lemma bucket_mono: "p \<le> q \<Longrightarrow> eff_priority_bucket p \<le> eff_priority_bucket q"
  unfolding eff_priority_bucket_def Let_def eff_priority_precision_def
  by (rule trunc_mono) simp

lemma health_order:
  "let r = fst (sort_channels_by_health states snapshot cfg channels kc now u);
       tier = (\<lambda>c. eff_priority_bucket (health_priority snapshot cfg channels c))
   in mset r = mset channels \<and> sorted_wrt (\<lambda>a b. tier a \<ge> tier b) r"
proof (cases "channels = []")
  case True
  then show ?thesis by (simp add: sort_channels_by_health_def)
next
  case False
  let ?prio = "health_priority snapshot cfg channels"
  let ?scored = "map (\<lambda>ch. (ch, ?prio ch)) channels"
  let ?s = "sort_key (\<lambda>item. - snd item) ?scored"
  let ?bucket = "\<lambda>item. eff_priority_bucket (snd item)"
  let ?b = "fst (balance_buckets states ?s kc now u)"
  have r: "fst (sort_channels_by_health states snapshot cfg channels kc now u) = map fst ?b"
    using False by (simp add: sort_channels_by_health_def Let_def split: prod.split)
  have perm: "mset ?b = mset ?scored" and buckets: "map ?bucket ?b = map ?bucket ?s"
    using health.balance_result [where kc = kc and now = now and u = u and s = states and cs = ?s] by simp_all
  have "mset (map fst ?b) = image_mset fst (mset ?scored)" unfolding perm [symmetric] by simp
  also have "\<dots> = mset channels" by (simp add: image_mset.compositionality comp_def)
  finally have "mset (map fst ?b) = mset channels" .
  moreover have snd: "snd item = ?prio (fst item)" if "item \<in> set ?b" for item
    using that mset_eq_setD [OF perm] by auto
  have "sorted_wrt (\<lambda>x y. snd y \<le> snd x) ?s"
    using sorted_sort_key [of "\<lambda>item. - snd item" ?scored] by (simp add: sorted_map)
  then have "sorted_wrt (\<lambda>x y. ?bucket y \<le> ?bucket x) ?s"
    by (rule sorted_wrt_mono_rel [rotated]) (rule bucket_mono)
  then have "sorted_wrt (\<lambda>x y. y \<le> x) (map ?bucket ?s)" by (simp add: sorted_wrt_map)
  then have "sorted_wrt (\<lambda>x y. ?bucket y \<le> ?bucket x) ?b"
    unfolding buckets [symmetric] by (simp add: sorted_wrt_map)
  then have "sorted_wrt (\<lambda>x y. eff_priority_bucket (?prio (fst y)) \<le> eff_priority_bucket (?prio (fst x))) ?b"
    by (rule sorted_wrt_mono_rel [rotated]) (simp add: snd)
  then have "sorted_wrt (\<lambda>x y. eff_priority_bucket (?prio y) \<le> eff_priority_bucket (?prio x)) (map fst ?b)"
    by (simp add: sorted_wrt_map)
  ultimately show ?thesis unfolding r Let_def by simp
qed

text \<open>
  \<open>sortChannelsByHealth\<close> returns every candidate once, in tiers of falling health-adjusted priority,
  whatever the state of the rotation.
\<close>

theorem health_order_is_tiered:
  "let r = fst (sort_channels_by_health states snapshot cfg channels kc now u);
       tier = (\<lambda>c. eff_priority_bucket (health_priority snapshot cfg channels c))
   in mset r = mset channels \<and> sorted_wrt (\<lambda>a b. tier a \<ge> tier b) r"
  by (rule health_order)

definition example_stats :: channel_health_stats where
  "example_stats = \<lparr>hs_success_rate = 1 / 2, hs_sample_count = 10, hs_avg_first_byte = 0, hs_first_byte_count = 0\<rparr>"

theorem health_penalty_is_bounded_witness:
  "calculate_effective_priority example_config example_stats default_health_score_config 0 = - 25 \<and>
   calculate_effective_priority example_config example_stats default_health_score_config 0 \<le>
     cfg_priority example_config"
proof -
  have "0 \<le> hs_sample_count example_stats"
    "0 \<le> hc_success_rate_penalty_weight default_health_score_config"
    by (simp_all add: example_stats_def default_health_score_config_def)
  from health_penalty_is_bounded [OF this, of example_config 0]
  show ?thesis
    by (simp add: Let_def calculate_effective_priority_def example_stats_def default_health_score_config_def
        example_config_def confidence_def)
qed

text \<open>The comment above \<open>medianFloat64\<close> promises the median of a single value; the code returns 0.\<close>

lemma median_of_one: "median_float64 [x] = 0"
  by (simp add: median_float64_def)

lemma median_of_two: "x \<le> y \<Longrightarrow> median_float64 [y, x] = (x + y) / 2"
  by (simp add: median_float64_def Let_def insort_key.simps)

end
