(* ===== verification/URL_Selector.thy ===== *)
theory URL_Selector
  imports Channel_Config Health_Balancing
begin

text \<open>
  The runtime state of upstream addresses and the order in which they are tried:
  \<open>internal/app/url_selector.go\<close> and \<open>internal/app/url_fallback.go\<close>.

  Latencies are real numbers (milliseconds).  Randomness is an argument: the permutation of
  \<open>rand.Shuffle\<close>, the index of \<open>rand.IntN\<close>, the number in [0, 1) of \<open>rand.Float64\<close>.  The conversion
  of a \<open>float64\<close> to an integer outside the 64-bit range depends on the machine in Go; it is the
  argument \<open>overflow\<close>.  Four maps share the key of channel and address.
\<close>

section \<open>State\<close>

type_synonym url_key = "int \<times> string"

record ewma_value =
  ew_value :: real
  ew_last_seen :: time

record url_cooldown_state =
  uc_until :: time
  uc_consecutive_fails :: nat

record url_request_count =
  rq_success :: int
  rq_failure :: int

record url_selector =
  us_latencies :: "url_key \<Rightarrow> ewma_value option"
  us_cooldowns :: "url_key \<Rightarrow> url_cooldown_state option"
  us_requests :: "url_key \<Rightarrow> url_request_count option"
  us_disabled :: "url_key \<Rightarrow> bool"
  us_alpha :: real
  us_cooldown_base :: duration
  us_cooldown_max :: duration
  us_cleanup_interval :: duration
  us_latency_max_age :: duration
  us_next_cleanup :: time

definition new_url_selector :: "time \<Rightarrow> url_selector" where
  "new_url_selector now =
     \<lparr>us_latencies = (\<lambda>k. None), us_cooldowns = (\<lambda>k. None), us_requests = (\<lambda>k. None),
      us_disabled = (\<lambda>k. False), us_alpha = 3 / 10, us_cooldown_base = 2 * minute,
      us_cooldown_max = 30 * minute, us_cleanup_interval = hour, us_latency_max_age = 24 * hour,
      us_next_cleanup = now + hour\<rparr>"

definition normalize_latency_ms :: "duration \<Rightarrow> real" where
  "normalize_latency_ms ttfb =
     (let ms = real_of_int ttfb / real_of_int millisecond in if ms \<le> 0 then 1 / 10 else ms)"

definition upsert_latency :: "url_selector \<Rightarrow> url_key \<Rightarrow> real \<Rightarrow> time \<Rightarrow> url_selector" where
  "upsert_latency s key ms now =
     s\<lparr>us_latencies := (us_latencies s)(key \<mapsto>
        (case us_latencies s key of
           Some e \<Rightarrow> \<lparr>ew_value = us_alpha s * ms + (1 - us_alpha s) * ew_value e, ew_last_seen = now\<rparr>
         | None \<Rightarrow> \<lparr>ew_value = ms, ew_last_seen = now\<rparr>))\<rparr>"

section \<open>Cleaning up\<close>

definition stale :: "url_selector \<Rightarrow> time \<Rightarrow> duration \<Rightarrow> url_key \<Rightarrow> bool" where
  "stale s now max_age key \<longleftrightarrow>
     max_age > 0 \<and>
     (case us_latencies s key of
        None \<Rightarrow> False
      | Some e \<Rightarrow> is_zero (ew_last_seen e) \<or> ew_last_seen e < now - max_age)"

definition url_gc :: "url_selector \<Rightarrow> time \<Rightarrow> duration \<Rightarrow> url_selector" where
  "url_gc s now age =
     (let max_age = (if age \<le> 0 then us_latency_max_age s else age)
      in s\<lparr>us_latencies := (\<lambda>k. if stale s now max_age k then None else us_latencies s k),
           us_requests := (\<lambda>k. if stale s now max_age k then None else us_requests s k),
           us_cooldowns := (\<lambda>k. case us_cooldowns s k of
              None \<Rightarrow> None | Some cd \<Rightarrow> if \<not> now < uc_until cd then None else Some cd)\<rparr>)"

definition maybe_cleanup :: "url_selector \<Rightarrow> time \<Rightarrow> url_selector" where
  "maybe_cleanup s now =
     (if us_cleanup_interval s \<le> 0 then s
      else if \<not> is_zero (us_next_cleanup s) \<and> now < us_next_cleanup s then s
      else (url_gc s now (us_latency_max_age s))\<lparr>us_next_cleanup := now + us_cleanup_interval s\<rparr>)"

definition prune_channel :: "url_selector \<Rightarrow> int \<Rightarrow> string list \<Rightarrow> url_selector" where
  "prune_channel s channel keep =
     (let gone = (\<lambda>(c, u). c = channel \<and> u \<notin> set keep)
      in s\<lparr>us_latencies := (\<lambda>k. if gone k then None else us_latencies s k),
           us_cooldowns := (\<lambda>k. if gone k then None else us_cooldowns s k),
           us_requests := (\<lambda>k. if gone k then None else us_requests s k),
           us_disabled := (\<lambda>k. if gone k then False else us_disabled s k)\<rparr>)"

definition remove_channel_urls :: "url_selector \<Rightarrow> int \<Rightarrow> url_selector" where
  "remove_channel_urls s channel = prune_channel s channel []"

section \<open>Recording\<close>

definition record_latency :: "url_selector \<Rightarrow> int \<Rightarrow> string \<Rightarrow> duration \<Rightarrow> time \<Rightarrow> url_selector" where
  "record_latency s channel url ttfb now =
     (let s' = upsert_latency (maybe_cleanup s now) (channel, url) (normalize_latency_ms ttfb) now
      in s'\<lparr>us_cooldowns := (us_cooldowns s')((channel, url) := None)\<rparr>)"

definition record_request_result :: "url_selector \<Rightarrow> int \<Rightarrow> string \<Rightarrow> int \<Rightarrow> time \<Rightarrow> url_selector" where
  "record_request_result s channel url status_code now =
     (if channel \<le> 0 \<or> url = '''' \<or> status_code = 499 then s
      else let s' = maybe_cleanup s now;
               rc = (case us_requests s' (channel, url) of
                       Some rc \<Rightarrow> rc | None \<Rightarrow> \<lparr>rq_success = 0, rq_failure = 0\<rparr>)
           in s'\<lparr>us_requests := (us_requests s')((channel, url) \<mapsto>
                (if status_code \<ge> 200 \<and> status_code < 300 then rc\<lparr>rq_success := rq_success rc + 1\<rparr>
                 else rc\<lparr>rq_failure := rq_failure rc + 1\<rparr>))\<rparr>)"

record url_log_stat =
  ul_channel_id :: int
  ul_base_url :: string
  ul_latency_ms :: real
  ul_last_seen :: time
  ul_requests :: int
  ul_failures :: int

definition load_stat :: "time \<Rightarrow> url_selector \<Rightarrow> url_log_stat \<Rightarrow> url_selector" where
  "load_stat now s st =
     (if ul_channel_id st \<le> 0 \<or> ul_base_url st = '''' then s
      else let key = (ul_channel_id st, ul_base_url st);
               s1 = (if ul_latency_ms st \<ge> 0
                     then s\<lparr>us_latencies := (us_latencies s)(key \<mapsto>
                            \<lparr>ew_value = ul_latency_ms st,
                             ew_last_seen = (if is_zero (ul_last_seen st) then now else ul_last_seen st)\<rparr>)\<rparr>
                     else s)
           in if ul_requests st > 0 \<or> ul_failures st > 0
              then s1\<lparr>us_requests := (us_requests s1)(key \<mapsto>
                     \<lparr>rq_success = ul_requests st, rq_failure = ul_failures st\<rparr>)\<rparr>
              else s1)"

definition load_persisted_stats :: "url_selector \<Rightarrow> url_log_stat list \<Rightarrow> time \<Rightarrow> url_selector" where
  "load_persisted_stats s stats now =
     (if stats = [] then s else foldl (load_stat now) (maybe_cleanup s now) stats)"

text \<open>\<open>time.Duration(f)\<close> of a \<open>float64\<close>.\<close>

definition to_duration :: "(real \<Rightarrow> int) \<Rightarrow> real \<Rightarrow> duration" where
  "to_duration overflow x = (if - (2 ^ 63) \<le> x \<and> x < 2 ^ 63 then trunc x else overflow x)"

definition url_backoff :: "(real \<Rightarrow> int) \<Rightarrow> url_selector \<Rightarrow> nat \<Rightarrow> duration" where
  "url_backoff overflow s fails =
     (let d = to_duration overflow (real_of_int (us_cooldown_base s) * 2 ^ (fails - 1))
      in if d > us_cooldown_max s then us_cooldown_max s else d)"

definition cooldown_url :: "(real \<Rightarrow> int) \<Rightarrow> url_selector \<Rightarrow> int \<Rightarrow> string \<Rightarrow> time \<Rightarrow> url_selector" where
  "cooldown_url overflow s channel url now =
     (let s' = maybe_cleanup s now;
          fails = Suc (case us_cooldowns s' (channel, url) of Some cd \<Rightarrow> uc_consecutive_fails cd | None \<Rightarrow> 0)
      in s'\<lparr>us_cooldowns := (us_cooldowns s')((channel, url) \<mapsto>
           \<lparr>uc_until = now + url_backoff overflow s' fails, uc_consecutive_fails = fails\<rparr>)\<rparr>)"

definition is_cooled_down :: "url_selector \<Rightarrow> int \<Rightarrow> string \<Rightarrow> time \<Rightarrow> bool" where
  "is_cooled_down s channel url now =
     (case us_cooldowns s (channel, url) of Some cd \<Rightarrow> now < uc_until cd | None \<Rightarrow> False)"

definition disable_url :: "url_selector \<Rightarrow> int \<Rightarrow> string \<Rightarrow> url_selector" where
  "disable_url s channel url = s\<lparr>us_disabled := (us_disabled s)((channel, url) := True)\<rparr>"

definition enable_url :: "url_selector \<Rightarrow> int \<Rightarrow> string \<Rightarrow> url_selector" where
  "enable_url s channel url = s\<lparr>us_disabled := (us_disabled s)((channel, url) := False)\<rparr>"

definition load_disabled :: "url_selector \<Rightarrow> (int \<times> string list) list \<Rightarrow> url_selector" where
  "load_disabled s disabled =
     s\<lparr>us_disabled := (\<lambda>(c, u). list_ex (\<lambda>(d, us). d = c \<and> u \<in> set us) disabled \<or> us_disabled s (c, u))\<rparr>"

record url_stat =
  st_url :: string
  st_latency_ms :: real
  st_cooled_down :: bool
  st_cooldown_remain_ms :: int
  st_requests :: int
  st_failures :: int
  st_disabled :: bool

definition get_url_stats :: "url_selector \<Rightarrow> int \<Rightarrow> string list \<Rightarrow> time \<Rightarrow> url_stat list" where
  "get_url_stats s channel urls now =
     map (\<lambda>u. let key = (channel, u) in
       \<lparr>st_url = u,
        st_latency_ms = (case us_latencies s key of Some e \<Rightarrow> ew_value e | None \<Rightarrow> - 1),
        st_cooled_down = is_cooled_down s channel u now,
        st_cooldown_remain_ms = (case us_cooldowns s key of
           Some cd \<Rightarrow> if now < uc_until cd then go_div (time_sub (uc_until cd) now) millisecond else 0
         | None \<Rightarrow> 0),
        st_requests = (case us_requests s key of Some rc \<Rightarrow> rq_success rc | None \<Rightarrow> 0),
        st_failures = (case us_requests s key of Some rc \<Rightarrow> rq_failure rc | None \<Rightarrow> 0),
        st_disabled = us_disabled s key\<rparr>) urls"

section \<open>Ordering addresses\<close>

text \<open>
  The rank of a candidate: cooled ones last, unexplored ones first (no latency), explored ones by
  latency.  The comparison function of \<open>SortURLs\<close> is the order of this type.
\<close>

datatype url_rank = Rank (rk_cooled: bool) (rk_latency: "real option")

instantiation url_rank :: linorder
begin

definition less_eq_url_rank :: "url_rank \<Rightarrow> url_rank \<Rightarrow> bool" where
  "less_eq_url_rank a b \<longleftrightarrow>
     (if rk_cooled a \<noteq> rk_cooled b then \<not> rk_cooled a
      else case (rk_latency a, rk_latency b) of
        (None, _) \<Rightarrow> True | (Some x, None) \<Rightarrow> False | (Some x, Some y) \<Rightarrow> x \<le> y)"

definition less_url_rank :: "url_rank \<Rightarrow> url_rank \<Rightarrow> bool" where
  "less_url_rank a b \<longleftrightarrow> a \<le> b \<and> \<not> b \<le> a"

instance
proof
  fix a b c :: url_rank
  show "a < b \<longleftrightarrow> a \<le> b \<and> \<not> b \<le> a" by (rule less_url_rank_def)
  show "a \<le> a" by (simp add: less_eq_url_rank_def split: option.split)
  show "a \<le> b \<Longrightarrow> b \<le> c \<Longrightarrow> a \<le> c"
    by (auto simp: less_eq_url_rank_def split: if_splits option.splits)
  show "a \<le> b \<Longrightarrow> b \<le> a \<Longrightarrow> a = b"
    by (cases a; cases b) (auto simp: less_eq_url_rank_def split: if_splits option.splits)
  show "a \<le> b \<or> b \<le> a" by (auto simp: less_eq_url_rank_def split: option.splits)
qed

end

record candidate_url =
  ca_url :: string
  ca_idx :: nat
  ca_rank :: url_rank

text \<open>A latency below 0 counts as unexplored.\<close>

definition rank_of :: "url_selector \<Rightarrow> url_key \<Rightarrow> time \<Rightarrow> url_rank" where
  "rank_of s key now =
     Rank (case us_cooldowns s key of Some cd \<Rightarrow> now < uc_until cd | None \<Rightarrow> False)
          (case us_latencies s key of Some e \<Rightarrow> if ew_value e < 0 then None else Some (ew_value e) | None \<Rightarrow> None)"

definition enabled_candidates :: "url_selector \<Rightarrow> int \<Rightarrow> string list \<Rightarrow> time \<Rightarrow> candidate_url list" where
  "enabled_candidates s channel urls now =
     map (\<lambda>(i, u). \<lparr>ca_url = u, ca_idx = i, ca_rank = rank_of s (channel, u) now\<rparr>)
       (filter (\<lambda>(i, u). \<not> us_disabled s (channel, u)) (enumerate 0 urls))"

type_synonym sorted_url = "string \<times> nat"

definition sort_urls ::
    "(candidate_url list \<Rightarrow> candidate_url list) \<Rightarrow> url_selector \<Rightarrow> int \<Rightarrow> string list \<Rightarrow> time \<Rightarrow> sorted_url list" where
  "sort_urls shuffle s channel urls now =
     (if urls = [] then []
      else if length urls = 1 then [(hd urls, 0)]
      else let candidates = enabled_candidates s channel urls now
           in if candidates = [] then map (\<lambda>(i, u). (u, i)) (enumerate 0 urls)
              else map (\<lambda>c. (ca_url c, ca_idx c)) (sort_key ca_rank (shuffle candidates)))"

text \<open>
  The weighted choice walks along the weights until the drawn number is used up.  Weights are positive,
  so the fallback for a total of 0 has no counterpart.
\<close>

primrec weighted_pick :: "(real \<times> 'a) list \<Rightarrow> real \<Rightarrow> 'a \<Rightarrow> 'a" where
  "weighted_pick [] r d = d"
| "weighted_pick (x # xs) r d =
     (if r - fst x \<le> 0 then snd x else weighted_pick xs (r - fst x) d)"

definition weight_of :: "candidate_url \<Rightarrow> real" where
  "weight_of c = (case rk_latency (ca_rank c) of
      Some l \<Rightarrow> 1 / (if l \<le> 0 then 1 / 10 else l) | None \<Rightarrow> 1 / (1 / 10))"

definition select_url ::
    "(nat \<Rightarrow> nat) \<Rightarrow> real \<Rightarrow> url_selector \<Rightarrow> int \<Rightarrow> string list \<Rightarrow> time \<Rightarrow> (string \<times> nat) option" where
  "select_url intn float64 s channel urls now =
     (if urls = [] then None
      else if length urls = 1 then Some (hd urls, 0)
      else
        let candidates = enabled_candidates s channel urls now in
        if candidates = [] then Some (hd urls, 0)
        else
          let warm = filter (\<lambda>c. \<not> rk_cooled (ca_rank c)) candidates;
              available = (if warm = [] then filter (\<lambda>c. rk_cooled (ca_rank c)) candidates else warm);
              unknown = filter (\<lambda>c. rk_latency (ca_rank c) = None) available;
              known = filter (\<lambda>c. rk_latency (ca_rank c) \<noteq> None) available
          in if unknown \<noteq> []
             then let pick = unknown ! intn (length unknown) in Some (ca_url pick, ca_idx pick)
             else let total = sum_list (map weight_of known);
                      pick = weighted_pick (map (\<lambda>c. (weight_of c, c)) known) (float64 * total) (last known)
                  in Some (ca_url pick, ca_idx pick))"

section \<open>Falling back\<close>

definition configured_url_from :: "channel_url list \<Rightarrow> nat \<Rightarrow> string \<Rightarrow> channel_url" where
  "configured_url_from configured index url =
     (if index < length configured \<and> runtime_url (configured ! index) = url then configured ! index
      else case find (\<lambda>entry. runtime_url entry = url) configured of
        Some entry \<Rightarrow> entry
      | None \<Rightarrow> \<lparr>cu_url = strip_exact_upstream_url_marker url,
                  cu_exact = has_exact_upstream_url_marker url, cu_protocols = []\<rparr>)"

definition prioritize_protocol_urls :: "sorted_url list \<Rightarrow> channel_url list \<Rightarrow> bool \<Rightarrow> sorted_url list" where
  "prioritize_protocol_urls ordered configured automatic_first =
     (let p = (\<lambda>(u, i). uses_automatic_protocol_detection (configured_url_from configured i u) = automatic_first)
      in filter p ordered @ filter (\<lambda>c. \<not> p c) ordered)"

definition order_urls_with_selector ::
    "(candidate_url list \<Rightarrow> candidate_url list) \<Rightarrow> (nat \<Rightarrow> nat) \<Rightarrow> real \<Rightarrow> url_selector option \<Rightarrow> int
       \<Rightarrow> string list \<Rightarrow> time \<Rightarrow> sorted_url list" where
  "order_urls_with_selector shuffle intn float64 selector channel urls now =
     (if urls = [] then []
      else if length urls = 1 then [(hd urls, 0)]
      else case selector of
        None \<Rightarrow> map (\<lambda>(i, u). (u, i)) (enumerate 0 urls)
      | Some s \<Rightarrow>
          let ordered = sort_urls shuffle s channel urls now
          in if length ordered \<le> 1 then ordered
             else case select_url intn float64 s channel urls now of
               None \<Rightarrow> ordered
             | Some (preferred_url, i) \<Rightarrow>
                 (case find_index (\<lambda>(u, j). u = preferred_url) ordered of
                    None \<Rightarrow> ordered | Some i \<Rightarrow> move_to_front i ordered))"

section \<open>The order is complete\<close>

lemma enumerate_props:
  "(i, u) \<in> set (enumerate 0 urls) \<longleftrightarrow> i < length urls \<and> urls ! i = u"
  by (auto simp: in_set_enumerate_eq)

lemma distinct_enumerate_fst: "distinct (map fst (filter P (enumerate 0 urls)))"
  using distinct_map_filter [of fst "enumerate 0 urls" P] by simp

lemma enabled_candidates_members:
  "c \<in> set (enabled_candidates s channel urls now) \<longleftrightarrow>
     (\<exists>i < length urls. \<not> us_disabled s (channel, urls ! i) \<and>
        c = \<lparr>ca_url = urls ! i, ca_idx = i, ca_rank = rank_of s (channel, urls ! i) now\<rparr>)"
  by (force simp: enabled_candidates_def in_set_enumerate_eq)

lemma enabled_candidates_idx: "distinct (map ca_idx (enabled_candidates s channel urls now))"
proof -
  have "map ca_idx (enabled_candidates s channel urls now) =
      map fst (filter (\<lambda>(i, u). \<not> us_disabled s (channel, u)) (enumerate 0 urls))"
    by (simp add: enabled_candidates_def comp_def case_prod_beta)
  then show ?thesis using distinct_enumerate_fst by metis
qed

definition covers :: "sorted_url list \<Rightarrow> string list \<Rightarrow> (nat \<Rightarrow> bool) \<Rightarrow> bool" where
  "covers r urls P \<longleftrightarrow> distinct (map snd r) \<and> (\<forall>(u, i) \<in> set r. i < length urls \<and> urls ! i = u) \<and>
     set (map snd r) = {i. i < length urls \<and> P i}"

lemma covers_perm: "mset r' = mset r \<Longrightarrow> covers r urls P \<Longrightarrow> covers r' urls P"
  unfolding covers_def by (metis (no_types, lifting) mset_map mset_eq_setD mset_eq_imp_distinct_iff)

lemma covers_all: "covers (map (\<lambda>(i, u). (u, i)) (enumerate 0 urls)) urls (\<lambda>i. True)"
proof -
  have "map snd (map (\<lambda>(i, u). (u, i)) (enumerate 0 urls)) = [0 ..< length urls]"
    by (simp add: comp_def case_prod_beta)
  then show ?thesis by (auto simp: covers_def in_set_enumerate_eq)
qed

text \<open>The addresses an order has to list: the enabled ones, or all when none is enabled.\<close>

definition wanted_index :: "url_selector \<Rightarrow> int \<Rightarrow> string list \<Rightarrow> nat \<Rightarrow> bool" where
  "wanted_index s channel urls i \<longleftrightarrow>
     length urls = 1 \<or> (\<forall>u \<in> set urls. us_disabled s (channel, u)) \<or> \<not> us_disabled s (channel, urls ! i)"

lemma enabled_indices:
  "ca_idx ` set (enabled_candidates s channel urls now) = {i. i < length urls \<and> \<not> us_disabled s (channel, urls ! i)}"
  (is "?L = ?R")
proof (rule set_eqI)
  fix i show "i \<in> ?L \<longleftrightarrow> i \<in> ?R"
    by (simp add: image_iff enabled_candidates_members Bex_def)
      (metis candidate_url.select_convs(2))
qed

lemma no_candidates:
  "enabled_candidates s channel urls now = [] \<longleftrightarrow> (\<forall>u \<in> set urls. us_disabled s (channel, u))"
proof -
  have "enabled_candidates s channel urls now = [] \<longleftrightarrow>
      {i. i < length urls \<and> \<not> us_disabled s (channel, urls ! i)} = {}"
    unfolding enabled_indices [of s channel urls now, symmetric] by simp
  then show ?thesis by (auto simp: all_set_conv_all_nth)
qed

lemma sort_urls_covers:
  assumes "\<And>xs. mset (shuffle xs) = mset xs"
  shows "covers (sort_urls shuffle s channel urls now) urls (wanted_index s channel urls)"
proof -
  let ?cs = "enabled_candidates s channel urls now"
  consider "urls = []" | "length urls = 1" | "length urls \<ge> 2" "?cs = []" | "length urls \<ge> 2" "?cs \<noteq> []"
    by (metis One_nat_def Suc_leI length_0_conv less_2_cases_iff not_less)
  then show ?thesis
  proof cases
    case 1
    then show ?thesis by (simp add: sort_urls_def covers_def)
  next
    case 2
    then show ?thesis by (cases urls) (auto simp: sort_urls_def covers_def wanted_index_def)
  next
    case 3
    then have "wanted_index s channel urls = (\<lambda>i. True)"
      using no_candidates [of s channel urls now] by (auto simp: wanted_index_def)
    moreover have "sort_urls shuffle s channel urls now = map (\<lambda>(i, u). (u, i)) (enumerate 0 urls)"
      using 3 by (auto simp: sort_urls_def)
    ultimately show ?thesis using covers_all by metis
  next
    case 4
    let ?r = "map (\<lambda>c. (ca_url c, ca_idx c)) ?cs"
    have eq: "sort_urls shuffle s channel urls now =
        map (\<lambda>c. (ca_url c, ca_idx c)) (sort_key ca_rank (shuffle ?cs))"
      using 4 by (auto simp: sort_urls_def)
    have perm: "mset (sort_urls shuffle s channel urls now) = mset ?r"
      unfolding eq by (simp add: assms)
    have idx: "map snd ?r = map ca_idx ?cs" by simp
    have some: "\<not> (\<forall>u \<in> set urls. us_disabled s (channel, u))" using 4(2) no_candidates by blast
    have "set (map snd ?r) = {i. i < length urls \<and> wanted_index s channel urls i}"
      unfolding idx set_map enabled_indices using 4(1) some by (auto simp: wanted_index_def)
    then have "covers ?r urls (wanted_index s channel urls)"
      unfolding covers_def idx using enabled_candidates_idx [of s channel urls now]
      by (auto simp: enabled_candidates_members)
    then show ?thesis by (rule covers_perm [OF perm])
  qed
qed

lemma order_is_a_reordering:
  "mset (order_urls_with_selector shuffle intn float64 (Some s) channel urls now) =
     mset (sort_urls shuffle s channel urls now)"
  by (auto simp: order_urls_with_selector_def sort_urls_def Let_def split: option.split prod.split)

lemma covers_lookup:
  "covers r urls P \<Longrightarrow> (u, i) \<in> set r \<Longrightarrow> i < length urls \<and> urls ! i = u"
  unfolding covers_def by auto

lemma order_covers:
  assumes "\<And>xs. mset (shuffle xs) = mset xs"
  shows "covers (order_urls_with_selector shuffle intn float64 (Some s) channel urls now) urls
     (wanted_index s channel urls)"
  by (rule covers_perm [OF order_is_a_reordering sort_urls_covers [OF assms]])

lemma weighted_pick_in: "d \<in> set (map snd xs) \<Longrightarrow> weighted_pick xs r d \<in> set (map snd xs)"
proof (induction xs arbitrary: r)
  case (Cons x xs)
  have "weighted_pick ys q d \<in> insert d (snd ` set ys)" for ys q by (induction ys arbitrary: q) auto
  from this [of xs "r - fst x"] Cons.prems show ?case by auto
qed simp

lemma filter_complement: "xs \<noteq> [] \<Longrightarrow> filter P xs = [] \<Longrightarrow> filter (\<lambda>x. \<not> P x) xs \<noteq> []"
  by (cases xs) (auto simp: filter_empty_conv)

lemma select_url_warm:
  assumes intn: "\<And>n. 0 < n \<Longrightarrow> intn n < n"
    and warm: "c \<in> set (enabled_candidates s channel urls now)" "\<not> rk_cooled (ca_rank c)"
    and len: "length urls \<ge> 2"
  shows "\<exists>d \<in> set (enabled_candidates s channel urls now). \<not> rk_cooled (ca_rank d) \<and>
     select_url intn float64 s channel urls now = Some (ca_url d, ca_idx d)"
proof -
  let ?cs = "enabled_candidates s channel urls now"
  let ?warm = "filter (\<lambda>c. \<not> rk_cooled (ca_rank c)) ?cs"
  let ?unknown = "filter (\<lambda>c. rk_latency (ca_rank c) = None) ?warm"
  let ?known = "filter (\<lambda>c. rk_latency (ca_rank c) \<noteq> None) ?warm"
  have ne: "?cs \<noteq> []" "?warm \<noteq> []" using warm by (auto simp: filter_empty_conv)
  have urls: "urls \<noteq> []" "length urls \<noteq> 1" using len by auto
  show ?thesis
  proof (cases "?unknown = []")
    case False
    then have "?unknown ! intn (length ?unknown) \<in> set ?unknown" using intn by (intro nth_mem) simp
    moreover have "select_url intn float64 s channel urls now =
        Some (ca_url (?unknown ! intn (length ?unknown)), ca_idx (?unknown ! intn (length ?unknown)))"
      unfolding select_url_def Let_def using False ne urls by (simp del: filter_filter)
    ultimately show ?thesis by (intro bexI [of _ "?unknown ! intn (length ?unknown)"]) auto
  next
    case True
    let ?xs = "map (\<lambda>c. (weight_of c, c)) ?known"
    let ?pick = "weighted_pick ?xs (float64 * sum_list (map weight_of ?known)) (last ?known)"
    have "?known \<noteq> []" using filter_complement [OF ne(2) True] by simp
    then have "last ?known \<in> set ?known" by (rule last_in_set)
    moreover have xs: "map snd ?xs = ?known" by (simp add: comp_def)
    ultimately have "?pick \<in> set ?known" using weighted_pick_in [of "last ?known" ?xs] by simp
    moreover have "select_url intn float64 s channel urls now = Some (ca_url ?pick, ca_idx ?pick)"
      unfolding select_url_def Let_def using True ne urls by (simp del: filter_filter)
    ultimately show ?thesis by (intro bexI [of _ ?pick]) auto
  qed
qed

lemma candidate_rank:
  "c \<in> set (enabled_candidates s channel urls now) \<Longrightarrow> ca_rank c = rank_of s (channel, ca_url c) now"
  by (auto simp: enabled_candidates_members)

lemma usable_url_first:
  assumes shuffle: "\<And>xs. mset (shuffle xs) = mset xs" and intn: "\<And>n. 0 < n \<Longrightarrow> intn n < n"
    and len: "2 \<le> length urls"
    and ex: "\<exists>u \<in> set urls. \<not> us_disabled s (channel, u) \<and> \<not> is_cooled_down s channel u now"
  shows "\<not> is_cooled_down s channel (fst (hd (order_urls_with_selector shuffle intn float64 (Some s) channel urls now))) now"
proof -
  let ?r = "order_urls_with_selector shuffle intn float64 (Some s) channel urls now"
  let ?sorted = "sort_urls shuffle s channel urls now"
  let ?cs = "enabled_candidates s channel urls now"
  have cool: "rk_cooled (rank_of s (channel, u) now) = is_cooled_down s channel u now" for u
    by (simp add: rank_of_def is_cooled_down_def split: option.split)
  from ex obtain i where i: "i < length urls" "\<not> us_disabled s (channel, urls ! i)"
      "\<not> is_cooled_down s channel (urls ! i) now" by (metis in_set_conv_nth)
  then have "\<lparr>ca_url = urls ! i, ca_idx = i, ca_rank = rank_of s (channel, urls ! i) now\<rparr> \<in> set ?cs"
    by (auto simp: enabled_candidates_members)
  from select_url_warm [OF intn this _ len, of float64] i(3) obtain d where
    d: "d \<in> set ?cs" "\<not> rk_cooled (ca_rank d)"
      "select_url intn float64 s channel urls now = Some (ca_url d, ca_idx d)" by (auto simp: cool)
  have warm: "\<not> is_cooled_down s channel (ca_url d) now"
    using d candidate_rank [OF d(1)] by (simp add: cool)
  have cs: "?cs \<noteq> []" using d(1) by auto
  have urls: "urls \<noteq> []" "length urls \<noteq> Suc 0" using len by auto
  have sorted: "?sorted = map (\<lambda>c. (ca_url c, ca_idx c)) (sort_key ca_rank (shuffle ?cs))"
    using cs urls by (simp add: sort_urls_def Let_def)
  have "set (sort_key ca_rank (shuffle ?cs)) = set ?cs" using mset_eq_setD [OF shuffle [of ?cs]] by simp
  then have mem: "(ca_url d, ca_idx d) \<in> set ?sorted" unfolding sorted using d(1) by auto
  show ?thesis
  proof (cases "length ?sorted \<le> 1")
    case True
    then have "?sorted = [(ca_url d, ca_idx d)]" using mem by (cases ?sorted) auto
    moreover have "?r = ?sorted" using True urls by (simp add: order_urls_with_selector_def)
    ultimately show ?thesis using warm by simp
  next
    case False
    obtain k where k: "find_index (\<lambda>(u, j). u = ca_url d) ?sorted = Some k"
      using mem find_index_None [of "\<lambda>(u, j). u = ca_url d" ?sorted]
      by (cases "find_index (\<lambda>(u, j). u = ca_url d) ?sorted") auto
    then have kk: "k < length ?sorted" "fst (?sorted ! k) = ca_url d"
      using find_index_Some [OF k] by (auto simp: case_prod_beta)
    have "?r = move_to_front k ?sorted"
      using False urls d(3) k by (simp add: order_urls_with_selector_def Let_def)
    then have "hd ?r = ?sorted ! k" using hd_move_to_front [OF kk(1)] by simp
    then show ?thesis using kk(2) warm by simp
  qed
qed


section \<open>Backing off\<close>

lemma trunc_of_int [simp]: "trunc (real_of_int k) = k"
  by (simp add: trunc_def)

lemma url_backoff_in_range:
  assumes "0 \<le> us_cooldown_base s" and "us_cooldown_base s * 2 ^ (n - 1) < 2 ^ 63"
  shows "url_backoff overflow s n = min (us_cooldown_max s) (us_cooldown_base s * 2 ^ (n - 1))"
proof -
  define k where "k = us_cooldown_base s * 2 ^ (n - 1)"
  have eq: "real_of_int (us_cooldown_base s) * 2 ^ (n - 1) = real_of_int k" by (simp add: k_def)
  have "0 \<le> k" using assms(1) by (simp add: k_def)
  then have "0 \<le> real_of_int k" by simp
  moreover have "real_of_int k < 2 ^ 63"
    using assms(2) unfolding k_def [symmetric] by (metis of_int_less_iff of_int_numeral of_int_power)
  ultimately have "to_duration overflow (real_of_int k) = k" by (simp add: to_duration_def)
  then show ?thesis unfolding url_backoff_def eq Let_def k_def [symmetric] by (simp add: min_def)
qed

text \<open>Failures without a cleanup in between.\<close>

definition cooldown_run :: "(real \<Rightarrow> int) \<Rightarrow> url_selector \<Rightarrow> int \<Rightarrow> string \<Rightarrow> time list \<Rightarrow> url_selector" where
  "cooldown_run overflow s channel url ts = foldl (\<lambda>s t. cooldown_url overflow s channel url t) s ts"

lemma no_cleanup [simp]: "us_cleanup_interval s \<le> 0 \<or> now < us_next_cleanup s \<and> zero_time < us_next_cleanup s \<Longrightarrow>
    maybe_cleanup s now = s"
  by (auto simp: maybe_cleanup_def is_zero_def)

lemma cooldown_url_fields [simp]:
  "us_cleanup_interval (cooldown_url overflow s c u t) = us_cleanup_interval s"
  "us_cooldown_base (cooldown_url overflow s c u t) = us_cooldown_base s"
  "us_cooldown_max (cooldown_url overflow s c u t) = us_cooldown_max s"
  by (simp_all add: cooldown_url_def maybe_cleanup_def url_gc_def Let_def)

lemma cooldown_run_state:
  assumes "us_cooldowns s (channel, url) = None"
    and "\<forall>t \<in> set ts. t < us_next_cleanup s" and "zero_time < us_next_cleanup s" and "ts \<noteq> []"
  shows "let s' = cooldown_run overflow s channel url ts in
     us_cooldowns s' (channel, url) =
       Some \<lparr>uc_until = last ts + url_backoff overflow s (length ts), uc_consecutive_fails = length ts\<rparr> \<and>
     us_next_cleanup s' = us_next_cleanup s \<and> us_cooldown_base s' = us_cooldown_base s \<and>
     us_cooldown_max s' = us_cooldown_max s"
  using assms
proof (induction ts rule: rev_induct)
  case (snoc t ts)
  let ?s = "cooldown_run overflow s channel url ts"
  have run: "cooldown_run overflow s channel url (ts @ [t]) = cooldown_url overflow ?s channel url t"
    by (simp add: cooldown_run_def)
  have st: "us_next_cleanup ?s = us_next_cleanup s \<and> us_cooldown_base ?s = us_cooldown_base s \<and>
      us_cooldown_max ?s = us_cooldown_max s \<and>
      (case us_cooldowns ?s (channel, url) of Some cd \<Rightarrow> uc_consecutive_fails cd | None \<Rightarrow> 0) = length ts"
  proof (cases "ts = []")
    case True
    then show ?thesis using snoc.prems(1) by (simp add: cooldown_run_def)
  next
    case False
    then show ?thesis using snoc.IH snoc.prems by (simp add: Let_def)
  qed
  have "t < us_next_cleanup ?s" "zero_time < us_next_cleanup ?s" using st snoc.prems by simp_all
  then have "maybe_cleanup ?s t = ?s" by simp
  then show ?case unfolding run using st by (simp add: cooldown_url_def Let_def url_backoff_def)
qed simp

text \<open>
  Consecutive failures of one address double its cooldown up to the maximum: after the n-th failure
  it is cooling exactly until the time of that failure plus the base times 2 to the power n - 1, or
  plus the maximum - as long as that product fits a 64-bit duration.
\<close>

theorem failing_url_backs_off:
  assumes "us_cooldowns s (channel, url) = None" and "ts \<noteq> []"
    and "\<forall>t \<in> set ts. t < us_next_cleanup s" and "zero_time < us_next_cleanup s"
    and "0 \<le> us_cooldown_base s" and "us_cooldown_base s * 2 ^ (length ts - 1) < 2 ^ 63"
  shows "is_cooled_down (cooldown_run overflow s channel url ts) channel url now \<longleftrightarrow>
     now < last ts + min (us_cooldown_max s) (us_cooldown_base s * 2 ^ (length ts - 1))"
  using cooldown_run_state [OF assms(1,3,4,2), of overflow] url_backoff_in_range [OF assms(5,6)]
  by (simp add: is_cooled_down_def Let_def)

theorem failing_url_backs_off_witness:
  "is_cooled_down (cooldown_run (\<lambda>x. 0) (new_url_selector 0) 1 ''u'' [5, 6, 7]) 1 ''u'' (8 * minute) \<and>
   \<not> is_cooled_down (cooldown_run (\<lambda>x. 0) (new_url_selector 0) 1 ''u'' [5, 6, 7]) 1 ''u'' (9 * minute)"
proof -
  have "us_cooldowns (new_url_selector 0) (1, ''u'') = None" "[5, 6, 7 :: int] \<noteq> []"
    "\<forall>t \<in> set [5, 6, 7]. t < us_next_cleanup (new_url_selector 0)"
    "zero_time < us_next_cleanup (new_url_selector 0)" "0 \<le> us_cooldown_base (new_url_selector 0)"
    "us_cooldown_base (new_url_selector 0) * 2 ^ (length [5, 6, 7 :: int] - 1) < 2 ^ 63"
    by (simp_all add: new_url_selector_def zero_time_def)
  from failing_url_backs_off [OF this] show ?thesis by (simp add: new_url_selector_def)
qed

text \<open>
  From the 28th failure on the product leaves the 64-bit range.  On machines whose conversion then
  gives the smallest integer, such as amd64, the cooldown ends before it begins, and the address that
  fails most is not cooled at all.
\<close>

theorem backoff_overflows:
  "length ts = 28 \<Longrightarrow> \<forall>t \<in> set ts. 0 \<le> t \<and> t < hour \<Longrightarrow>
     \<not> is_cooled_down (cooldown_run (\<lambda>x. - (2 ^ 63)) (new_url_selector 0) channel url ts) channel url (last ts)"
proof -
  assume ts: "length ts = 28" "\<forall>t \<in> set ts. 0 \<le> t \<and> t < hour"
  then have ne: "ts \<noteq> []" by auto
  have "url_backoff (\<lambda>x. - (2 ^ 63)) (new_url_selector 0) 28 = - (2 ^ 63)"
    by (simp add: url_backoff_def to_duration_def new_url_selector_def)
  moreover have "us_cooldowns (new_url_selector 0) (channel, url) = None"
    "\<forall>t \<in> set ts. t < us_next_cleanup (new_url_selector 0)" "zero_time < us_next_cleanup (new_url_selector 0)"
    using ts by (simp_all add: new_url_selector_def zero_time_def)
  note cooldown_run_state [OF this ne, of "\<lambda>x. - (2 ^ 63)"]
  ultimately show ?thesis using ts(1) by (simp add: is_cooled_down_def Let_def)
qed

theorem backoff_overflows_witness:
  "\<not> is_cooled_down (cooldown_run (\<lambda>x. - (2 ^ 63)) (new_url_selector 0) 1 ''u'' (replicate 28 5)) 1 ''u'' 5"
  using backoff_overflows [of "replicate 28 5" 1 "''u''"] by simp

text \<open>A success ends the cooldown; the average stays between the smallest and largest sample.\<close>

lemma success_ends_cooldown: "\<not> is_cooled_down (record_latency s channel url ttfb now) channel url t"
  by (simp add: is_cooled_down_def record_latency_def Let_def)

lemma ewma_between:
  assumes "us_latencies s key = Some e" and "lo \<le> ew_value e" "ew_value e \<le> hi" and "lo \<le> ms" "ms \<le> hi"
    and "0 \<le> us_alpha s" "us_alpha s \<le> 1"
  shows "\<exists>e'. us_latencies (upsert_latency s key ms now) key = Some e' \<and> lo \<le> ew_value e' \<and> ew_value e' \<le> hi"
proof -
  let ?a = "us_alpha s"
  have "lo = ?a * lo + (1 - ?a) * lo" "hi = ?a * hi + (1 - ?a) * hi" by (simp_all add: algebra_simps)
  moreover have "?a * lo \<le> ?a * ms" "?a * ms \<le> ?a * hi" "(1 - ?a) * lo \<le> (1 - ?a) * ew_value e"
    "(1 - ?a) * ew_value e \<le> (1 - ?a) * hi"
    using assms by (auto intro: mult_left_mono)
  ultimately have "lo \<le> ?a * ms + (1 - ?a) * ew_value e" "?a * ms + (1 - ?a) * ew_value e \<le> hi" by linarith+
  then show ?thesis using assms(1) by (simp add: upsert_latency_def)
qed


end
