(* ===== verification/Key_Selection.thy ===== *)
theory Key_Selection
  imports Channel_Config Cooldown_Tables Go_Text
begin

text \<open>
  The choice of an API key inside a channel, \<open>internal/app/key_selector.go\<close>, and
  \<open>selectKeyWithFallback\<close> of \<open>proxy_forward.go\<close>.

  A call reads the clock once, \<open>now\<close>.  The set of keys already tried in the request is a
  predicate on key indices.  The lists never hold a nil key (the loaders build every element), so
  the nil guards of the loops have no branch here.  The atomic 32-bit counter is a word and wraps
  like it.  The error texts are the constructors of \<open>key_error\<close>; on an error Go returns the index
  -1 and an empty key with them.
\<close>

section \<open>State\<close>

datatype key_error =
  NoKeysConfigured int
| SingleKeyDisabled int
| SingleKeyTried int
| SingleKeyCooling int int
| KeysCoolingOrTried
| KeysTried

record rr_counter =
  ctr_counter :: "32 word"
  ctr_last_access :: int

type_synonym counter_scope = "int \<times> string"
type_synonym key_counters = "counter_scope \<Rightarrow> rr_counter option"

definition new_key_selector :: key_counters where
  "new_key_selector = (\<lambda>scope. None)"

definition unix_nano :: "time \<Rightarrow> int" where
  "unix_nano t = wrap64 t"

definition filter_api_keys_for_model :: "api_key list \<Rightarrow> string \<Rightarrow> api_key list" where
  "filter_api_keys_for_model keys model_name = filter (\<lambda>k. allows_model k model_name) keys"

section \<open>The scope of a counter\<close>

text \<open>\<open>strconv.Itoa\<close>.\<close>

fun dec_digits :: "nat \<Rightarrow> string" where
  "dec_digits n = (if n < 10 then [char_of (48 + n)] else dec_digits (n div 10) @ [char_of (48 + n mod 10)])"

declare dec_digits.simps [simp del]

definition itoa :: "int \<Rightarrow> string" where
  "itoa i = (if i < 0 then CHR ''-'' # dec_digits (nat (- i)) else dec_digits (nat i))"

text \<open>The loop over the sorted indices that skips one equal to the previous one.\<close>

primrec key_set_text :: "int list \<Rightarrow> int option \<Rightarrow> string" where
  "key_set_text [] previous = ''''"
| "key_set_text (i # is) previous =
     (if previous = Some i then key_set_text is previous
      else itoa i @ '','' @ key_set_text is (Some i))"

definition new_rr_counter_scope :: "int \<Rightarrow> api_key list \<Rightarrow> counter_scope" where
  "new_rr_counter_scope channel keys = (channel, key_set_text (sort (map key_idx keys)) None)"

section \<open>Selection\<close>

text \<open>The guards shared by the loops: enabled, not tried, not cooling.\<close>

definition usable :: "(int \<Rightarrow> bool) \<Rightarrow> time \<Rightarrow> api_key \<Rightarrow> bool" where
  "usable tried now k \<longleftrightarrow> \<not> key_disabled k \<and> \<not> tried (key_idx k) \<and> \<not> key_is_cooling_down k now"

definition found_key :: "api_key option \<Rightarrow> key_error + int \<times> string" where
  "found_key r =
     (case r of None \<Rightarrow> Inl KeysCoolingOrTried | Some k \<Rightarrow> Inr (key_idx k, key_api_key k))"

definition select_sequential ::
    "api_key list \<Rightarrow> (int \<Rightarrow> bool) \<Rightarrow> time \<Rightarrow> key_error + int \<times> string" where
  "select_sequential keys tried now = found_key (find (usable tried now) keys)"

text \<open>The order in which \<open>selectRoundRobin\<close> visits the keys.\<close>

definition rr_order :: "nat \<Rightarrow> api_key list \<Rightarrow> api_key list" where
  "rr_order start keys = map (\<lambda>i. keys ! ((start + i) mod length keys)) [0 ..< length keys]"

definition next_counter :: "key_counters \<Rightarrow> counter_scope \<Rightarrow> 32 word" where
  "next_counter counters scope =
     (case counters scope of None \<Rightarrow> 0 | Some c \<Rightarrow> ctr_counter c) + 1"

definition select_round_robin ::
    "key_counters \<Rightarrow> int \<Rightarrow> api_key list \<Rightarrow> (int \<Rightarrow> bool) \<Rightarrow> time
       \<Rightarrow> (key_error + int \<times> string) \<times> key_counters" where
  "select_round_robin counters channel keys tried now =
     (let scope = new_rr_counter_scope channel keys;
          count = next_counter counters scope;
          start = unat (count mod word_of_nat (length keys))
      in (found_key (find (usable tried now) (rr_order start keys)),
          counters(scope \<mapsto> \<lparr>ctr_counter = count, ctr_last_access = unix_nano now\<rparr>)))"

definition select_available_key ::
    "key_counters \<Rightarrow> int \<Rightarrow> api_key list \<Rightarrow> (int \<Rightarrow> bool) \<Rightarrow> time
       \<Rightarrow> (key_error + int \<times> string) \<times> key_counters" where
  "select_available_key counters channel keys tried now =
     (case keys of
        [] \<Rightarrow> (Inl (NoKeysConfigured channel), counters)
      | [k] \<Rightarrow>
          (if key_disabled k then Inl (SingleKeyDisabled (key_idx k))
           else if tried (key_idx k) then Inl (SingleKeyTried (key_idx k))
           else if key_is_cooling_down k now
             then Inl (SingleKeyCooling (key_idx k) (key_cooldown_until k))
           else Inr (key_idx k, key_api_key k), counters)
      | k # _ \<Rightarrow>
          let strategy = (if key_strategy k = '''' then key_strategy_sequential else key_strategy k)
          in if strategy = key_strategy_round_robin
             then select_round_robin counters channel keys tried now
             else (select_sequential keys tried now, counters))"

text \<open>The loop of \<open>SelectCooldownFallbackKey\<close>; \<open>best\<close> is the soonest recovering key so far.\<close>

definition sooner :: "api_key \<Rightarrow> api_key option \<Rightarrow> api_key" where
  "sooner k best =
     (case best of
        None \<Rightarrow> k
      | Some b \<Rightarrow>
          if key_cooldown_until k < key_cooldown_until b \<or>
             key_cooldown_until k = key_cooldown_until b \<and> key_idx k < key_idx b
          then k else b)"

primrec fallback_scan ::
    "api_key list \<Rightarrow> (int \<Rightarrow> bool) \<Rightarrow> time \<Rightarrow> api_key option \<Rightarrow> api_key option" where
  "fallback_scan [] tried now best = best"
| "fallback_scan (k # ks) tried now best =
     (if key_disabled k \<or> tried (key_idx k) then fallback_scan ks tried now best
      else if \<not> key_is_cooling_down k now then Some k
      else fallback_scan ks tried now (Some (sooner k best)))"

definition select_cooldown_fallback_key ::
    "int \<Rightarrow> api_key list \<Rightarrow> (int \<Rightarrow> bool) \<Rightarrow> time \<Rightarrow> key_error + int \<times> string" where
  "select_cooldown_fallback_key channel keys tried now =
     (if keys = [] then Inl (NoKeysConfigured channel)
      else case fallback_scan keys tried now None of
             None \<Rightarrow> Inl KeysTried
           | Some k \<Rightarrow> Inr (key_idx k, key_api_key k))"

text \<open>
  \<open>selectKeyWithFallback\<close>: the fallback only for a channel that came in through the path for
  all-cooling candidates.  Each selection reads the clock on its own.
\<close>

definition select_key_with_fallback ::
    "key_counters \<Rightarrow> config \<Rightarrow> api_key list \<Rightarrow> (int \<Rightarrow> bool) \<Rightarrow> time \<Rightarrow> time
       \<Rightarrow> (key_error + int \<times> string) \<times> key_counters" where
  "select_key_with_fallback counters cfg keys tried now now' =
     (case select_available_key counters (cfg_id cfg) keys tried now of
        (Inl e, counters') \<Rightarrow>
          (if cfg_cooldown_fallback cfg
           then select_cooldown_fallback_key (cfg_id cfg) keys tried now' else Inl e, counters')
      | (Inr r, counters') \<Rightarrow> (Inr r, counters'))"

section \<open>Maintenance\<close>

definition remove_channel_counter :: "key_counters \<Rightarrow> int \<Rightarrow> key_counters" where
  "remove_channel_counter counters channel =
     (\<lambda>scope. if fst scope = channel then None else counters scope)"

definition cleanup_inactive_counters :: "key_counters \<Rightarrow> duration \<Rightarrow> time \<Rightarrow> key_counters" where
  "cleanup_inactive_counters counters max_idle now =
     (if max_idle \<le> 0 then counters
      else let cutoff = unix_nano (now - max_idle) in
        (\<lambda>scope. case counters scope of
           None \<Rightarrow> None
         | Some c \<Rightarrow> if ctr_last_access c < cutoff then None else Some c))"

section \<open>Soundness and completeness\<close>

lemma rr_order_rotate: "rr_order start keys = rotate start keys"
  by (rule nth_equalityI) (simp_all add: rr_order_def nth_rotate)

lemma set_rr_order [simp]: "set (rr_order start keys) = set keys"
  by (simp add: rr_order_rotate)

lemma found_key_find:
  "case found_key (find P keys) of
     Inl e \<Rightarrow> \<forall>k \<in> set keys. \<not> P k
   | Inr (i, a) \<Rightarrow> \<exists>k \<in> set keys. P k \<and> key_idx k = i \<and> key_api_key k = a"
proof (cases "find P keys")
  case None
  then show ?thesis by (simp add: found_key_def) (simp add: find_None_iff)
qed (auto simp: found_key_def dest!: find_SomeD)

lemma select_cases:
  obtains (none) "keys = []" | (one) k where "keys = [k]" | (more) "2 \<le> length keys"
  by (cases keys rule: remdups_adj.cases) auto

lemma select_more:
  assumes "2 \<le> length keys"
  shows "select_available_key counters channel keys tried now =
    (if key_strategy (hd keys) = key_strategy_round_robin
     then select_round_robin counters channel keys tried now
     else (select_sequential keys tried now, counters))"
  using assms
  by (cases keys rule: remdups_adj.cases)
    (auto simp: select_available_key_def key_strategy_round_robin_def key_strategy_sequential_def)

lemma selected_key_found:
  "case fst (select_available_key counters channel keys tried now) of
     Inl e \<Rightarrow> \<forall>k \<in> set keys. \<not> usable tried now k
   | Inr (i, a) \<Rightarrow> \<exists>k \<in> set keys. usable tried now k \<and> key_idx k = i \<and> key_api_key k = a"
proof (cases keys rule: select_cases)
  case none
  then show ?thesis by (simp add: select_available_key_def)
next
  case (one k)
  then show ?thesis by (simp add: select_available_key_def usable_def)
next
  case more
  obtain xs where xs: "fst (select_available_key counters channel keys tried now)
      = found_key (find (usable tried now) xs)" and set: "set xs = set keys"
    by (cases "key_strategy (hd keys) = key_strategy_round_robin")
      (auto simp: select_more [OF more] select_round_robin_def select_sequential_def Let_def)
  show ?thesis using found_key_find [of xs "usable tried now"] unfolding xs set .
qed

text \<open>C4: The key selector is sound and complete under both strategies and for a single key: a
  key it returns is an enabled key of the list, not tried before in the request and not cooling;
  and it returns an error only when the list has no such key.\<close>

theorem selected_key_is_usable:
  "case fst (select_available_key counters channel keys tried now) of
     Inl e \<Rightarrow> \<forall>k \<in> set keys. \<not> usable tried now k
   | Inr (i, a) \<Rightarrow> \<exists>k \<in> set keys. usable tried now k \<and> key_idx k = i \<and> key_api_key k = a"
  by (rule selected_key_found)

definition example_key :: "int \<Rightarrow> api_key" where
  "example_key i = \<lparr>key_channel_id = 7, key_idx = i, key_api_key = ''sk'',
     key_strategy = key_strategy_round_robin, key_disabled = False, key_allowed_models = [],
     key_model_scope_empty = False, key_cooldown_until = 0\<rparr>"

theorem selected_key_is_usable_witness:
  "\<exists>i a. fst (select_available_key new_key_selector 7 [example_key 0, example_key 3]
      (\<lambda>i. i = 0) (5 * second)) = Inr (i, a) \<and> i = 3"
proof -
  let ?r = "fst (select_available_key new_key_selector 7 [example_key 0, example_key 3]
      (\<lambda>i. i = 0) (5 * second))"
  have u: "usable (\<lambda>i. i = 0) (5 * second) (example_key 3)"
    by (simp add: usable_def example_key_def key_is_cooling_down_def time_to_unix_def)
  have n: "\<not> usable (\<lambda>i. i = 0) now (example_key 0)" for now
    by (simp add: usable_def example_key_def)
  have "case ?r of
     Inl e \<Rightarrow> \<forall>k \<in> set [example_key 0, example_key 3]. \<not> usable (\<lambda>i. i = 0) (5 * second) k
   | Inr (i, a) \<Rightarrow> \<exists>k \<in> set [example_key 0, example_key 3].
       usable (\<lambda>i. i = 0) (5 * second) k \<and> key_idx k = i \<and> key_api_key k = a"
    by (rule selected_key_is_usable)
  then show ?thesis using u n by (auto simp: example_key_def split: sum.splits prod.splits)
qed

section \<open>The fallback\<close>

abbreviation eligible :: "(int \<Rightarrow> bool) \<Rightarrow> api_key \<Rightarrow> bool" where
  "eligible tried k \<equiv> \<not> key_disabled k \<and> \<not> tried (key_idx k)"

definition recovers_before :: "api_key \<Rightarrow> api_key \<Rightarrow> bool" where
  "recovers_before k k' \<longleftrightarrow> key_cooldown_until k < key_cooldown_until k' \<or>
     key_cooldown_until k = key_cooldown_until k' \<and> key_idx k \<le> key_idx k'"

lemma recovers_before_trans: "recovers_before a b \<Longrightarrow> recovers_before b c \<Longrightarrow> recovers_before a c"
  by (auto simp: recovers_before_def)

lemma sooner_cases: "sooner k best = k \<or> best = Some (sooner k best)"
  by (simp add: sooner_def split: option.split)

lemma sooner_first: "b \<in> insert k (set_option best) \<Longrightarrow> recovers_before (sooner k best) b"
  by (cases best) (auto simp: sooner_def recovers_before_def)

lemma fallback_scan_None:
  "fallback_scan keys tried now best = None \<longleftrightarrow> best = None \<and> (\<forall>k \<in> set keys. \<not> eligible tried k)"
  by (induction keys arbitrary: best) auto

lemma fallback_scan_Some:
  assumes "fallback_scan keys tried now best = Some k"
    and "\<forall>b \<in> set_option best. eligible tried b \<and> key_is_cooling_down b now"
  shows "eligible tried k \<and> (k \<in> set keys \<or> best = Some k) \<and>
    (key_is_cooling_down k now \<longrightarrow>
       (\<forall>k' \<in> set keys \<union> set_option best. eligible tried k' \<longrightarrow>
          key_is_cooling_down k' now \<and> recovers_before k k'))"
  using assms
proof (induction keys arbitrary: best)
  case Nil
  then show ?case by (auto simp: recovers_before_def)
next
  case (Cons x xs)
  consider "\<not> eligible tried x" | "eligible tried x" "\<not> key_is_cooling_down x now"
    | "eligible tried x" "key_is_cooling_down x now" by blast
  then show ?case
  proof cases
    case 1
    then show ?thesis using Cons.IH [of best] Cons.prems by auto
  next
    case 2
    then show ?thesis using Cons.prems by auto
  next
    case 3
    let ?b = "sooner x best"
    have b: "eligible tried ?b \<and> key_is_cooling_down ?b now"
      using 3 Cons.prems(2) sooner_cases [of x best] by (metis elem_set)
    have "fallback_scan xs tried now (Some ?b) = Some k" using 3 Cons.prems(1) by simp
    then have ih: "eligible tried k \<and> (k \<in> set xs \<or> ?b = k) \<and>
      (key_is_cooling_down k now \<longrightarrow>
         (\<forall>k' \<in> set xs \<union> {?b}. eligible tried k' \<longrightarrow>
            key_is_cooling_down k' now \<and> recovers_before k k'))"
      using Cons.IH [of "Some ?b"] b by simp
    then have "k \<in> set (x # xs) \<or> best = Some k" using sooner_cases [of x best] by auto
    moreover have "key_is_cooling_down k' now \<and> recovers_before k k'"
      if k: "key_is_cooling_down k now"
        and k': "k' \<in> set (x # xs) \<union> set_option best" "eligible tried k'" for k'
    proof (cases "k' \<in> set xs")
      case True
      then show ?thesis using ih k k'(2) by blast
    next
      case False
      then have "k' \<in> insert x (set_option best)" using k'(1) by auto
      then have "recovers_before ?b k'" and "key_is_cooling_down k' now"
        using sooner_first [of k' x best] 3 Cons.prems(2) by auto
      then show ?thesis using ih k b recovers_before_trans by blast
    qed
    ultimately show ?thesis using ih by blast
  qed
qed

text \<open>The last resort for a channel whose keys may all be cooling, at one instant: it fails
  only when every key is disabled or was already tried; and if the key it returns is still
  cooling, then so is every other key that could have been taken, and none of them recovers
  sooner.\<close>

theorem fallback_takes_soonest:
  assumes "cfg_cooldown_fallback cfg"
  shows "case fst (select_key_with_fallback counters cfg keys tried now now) of
     Inl e \<Rightarrow> \<forall>k \<in> set keys. \<not> eligible tried k
   | Inr (i, a) \<Rightarrow> \<exists>k \<in> set keys. eligible tried k \<and> key_idx k = i \<and> key_api_key k = a \<and>
       (key_is_cooling_down k now \<longrightarrow>
          (\<forall>k' \<in> set keys. eligible tried k' \<longrightarrow> key_is_cooling_down k' now \<and> recovers_before k k'))"
proof (cases "fst (select_available_key counters (cfg_id cfg) keys tried now)")
  case (Inr r)
  obtain i a where r: "r = (i, a)" by fastforce
  have "\<exists>k \<in> set keys. usable tried now k \<and> key_idx k = i \<and> key_api_key k = a"
    using selected_key_found [where counters = counters and channel = "cfg_id cfg" and keys = keys
        and tried = tried and now = now] by (simp add: Inr r)
  then show ?thesis
    using Inr by (auto simp: select_key_with_fallback_def r usable_def split: prod.splits)
next
  case (Inl e)
  then have eq: "fst (select_key_with_fallback counters cfg keys tried now now)
      = select_cooldown_fallback_key (cfg_id cfg) keys tried now"
    using assms by (auto simp: select_key_with_fallback_def split: prod.splits)
  show ?thesis
  proof (cases "fallback_scan keys tried now None")
    case None
    then have "\<forall>k \<in> set keys. \<not> eligible tried k" by (simp add: fallback_scan_None)
    then show ?thesis by (simp add: eq select_cooldown_fallback_key_def None)
  next
    case (Some k)
    then have "keys \<noteq> []" by auto
    then show ?thesis
      using fallback_scan_Some [OF Some] by (auto simp: eq select_cooldown_fallback_key_def Some)
  qed
qed

theorem fallback_takes_soonest_witness:
  "\<exists>i a. fst (select_key_with_fallback new_key_selector (example_config\<lparr>cfg_cooldown_fallback := True\<rparr>)
     [(example_key 0)\<lparr>key_cooldown_until := 60\<rparr>, (example_key 1)\<lparr>key_cooldown_until := 50\<rparr>] (\<lambda>i. False)
     (5 * second) (5 * second)) = Inr (i, a) \<and> i = 1"
proof -
  let ?cfg = "example_config\<lparr>cfg_cooldown_fallback := True\<rparr>"
  let ?keys = "[(example_key 0)\<lparr>key_cooldown_until := 60\<rparr>, (example_key 1)\<lparr>key_cooldown_until := 50\<rparr>]"
  have "case fst (select_key_with_fallback new_key_selector ?cfg ?keys (\<lambda>i. False) (5 * second) (5 * second)) of
     Inl e \<Rightarrow> \<forall>k \<in> set ?keys. \<not> eligible (\<lambda>i. False) k
   | Inr (i, a) \<Rightarrow> \<exists>k \<in> set ?keys. eligible (\<lambda>i. False) k \<and> key_idx k = i \<and> key_api_key k = a \<and>
       (key_is_cooling_down k (5 * second) \<longrightarrow>
          (\<forall>k' \<in> set ?keys. eligible (\<lambda>i. False) k' \<longrightarrow>
             key_is_cooling_down k' (5 * second) \<and> recovers_before k k'))"
    by (rule fallback_takes_soonest) simp
  then show ?thesis
    by (auto simp: example_key_def key_is_cooling_down_def time_to_unix_def recovers_before_def
        split: sum.splits prod.splits)
qed

section \<open>The scope of a counter depends on the set of keys only\<close>

lemma is_digit_char_of: "n < 10 \<Longrightarrow> is_digit (char_of (48 + n :: nat)) \<and> of_char (char_of (48 + n) :: char) = 48 + n"
  by (simp add: is_digit_def of_char_of Let_def)

lemma decimal_snoc: "decimal (s @ [c]) = 10 * decimal s + (int (of_char c) - 48)"
  by (simp add: decimal_def)

lemma dec_digits_props: "decimal (dec_digits n) = int n \<and> list_all is_digit (dec_digits n)"
proof (induction n rule: dec_digits.induct)
  case (1 n)
  show ?case
  proof (cases "n < 10")
    case True
    then show ?thesis
      using is_digit_char_of [of n] by (subst (1 2) dec_digits.simps) (simp add: decimal_def)
  next
    case False
    have m: "n mod 10 < 10" by simp
    have "decimal (dec_digits (n div 10)) = int (n div 10) \<and> list_all is_digit (dec_digits (n div 10))"
      using 1 False by blast
    moreover have "10 * int (n div 10) + int (n mod 10) = int n"
      by (metis mult_div_mod_eq of_nat_add of_nat_mult of_nat_numeral)
    ultimately show ?thesis
      using False is_digit_char_of [OF m]
      by (subst (1 2) dec_digits.simps) (simp add: decimal_snoc del: of_char_of)
  qed
qed

lemma dec_digits_inj: "dec_digits n = dec_digits m \<longleftrightarrow> n = m"
  by (metis dec_digits_props of_nat_eq_iff)

lemma not_digit: "\<not> is_digit CHR ''-''" "\<not> is_digit CHR '',''"
  by (simp_all add: is_digit_def)

lemma itoa_inj: "itoa i = itoa j \<longleftrightarrow> i = j"
proof -
  have "CHR ''-'' # s \<noteq> dec_digits n" for s n
    using dec_digits_props [of n] not_digit(1) by (auto dest!: arg_cong [where f = "list_all is_digit"])
  then show ?thesis by (auto simp: itoa_def dec_digits_inj dest: sym)
qed

lemma itoa_no_comma: "CHR '','' \<notin> set (itoa i)"
  using dec_digits_props [of "nat i"] dec_digits_props [of "nat (- i)"] not_digit(2)
  by (auto simp: itoa_def list_all_iff)

lemma comma_split:
  assumes "a @ '','' @ r = b @ '','' @ s" and "CHR '','' \<notin> set a" and "CHR '','' \<notin> set b"
  shows "a = b \<and> r = s"
  using assms
proof (induction a arbitrary: b)
  case Nil
  then show ?case by (cases b) auto
next
  case (Cons c a)
  then show ?case by (cases b) auto
qed

lemma key_set_text_adj:
  "key_set_text is prev = concat (map (\<lambda>i. itoa i @ '','')
     (case prev of None \<Rightarrow> remdups_adj is | Some p \<Rightarrow> tl (remdups_adj (p # is))))"
proof (induction "is" arbitrary: prev)
  case (Cons i "is")
  have hd: "remdups_adj (i # is) = i # tl (remdups_adj (i # is))" for i :: int and "is"
    by (metis list.collapse remdups_adj_Cons_alt)
  show ?case
  proof (cases prev)
    case None
    have "key_set_text (i # is) None
        = concat (map (\<lambda>i. itoa i @ '','') (i # tl (remdups_adj (i # is))))"
      by (simp add: Cons del: remdups_adj_Cons_alt)
    then show ?thesis unfolding None option.case(1) using hd [of i "is"] by metis
  next
    case (Some p)
    show ?thesis
    proof (cases "p = i")
      case False
      then have "tl (remdups_adj (p # i # is)) = remdups_adj (i # is)" by simp
      moreover have "key_set_text (i # is) prev
          = concat (map (\<lambda>i. itoa i @ '','') (i # tl (remdups_adj (i # is))))"
        using False by (simp add: Some Cons del: remdups_adj_Cons_alt)
      ultimately show ?thesis unfolding Some option.case(2) using hd [of i "is"] by metis
    qed (simp add: Some Cons)
  qed
qed (simp split: option.split)

lemma concat_itoa_inj:
  "concat (map (\<lambda>i. itoa i @ '','') is) = concat (map (\<lambda>i. itoa i @ '','') js) \<Longrightarrow> is = js"
proof (induction "is" arbitrary: js)
  case Nil
  then show ?case by (cases js) auto
next
  case (Cons i "is")
  then obtain j js' where js: "js = j # js'" by (cases js) auto
  have "itoa i @ '','' @ concat (map (\<lambda>i. itoa i @ '','') is)
      = itoa j @ '','' @ concat (map (\<lambda>i. itoa i @ '','') js')"
    using Cons.prems by (simp add: js)
  from comma_split [OF this itoa_no_comma itoa_no_comma] Cons.IH show ?case
    by (simp add: js itoa_inj)
qed

lemma distinct_sorted_remdups_adj: "sorted xs \<Longrightarrow> distinct (remdups_adj (xs :: int list))"
  by (induction xs rule: remdups_adj.induct) (auto simp: order_antisym)

text \<open>Two candidate lists share a rotation counter exactly when they belong to the same channel
  and hold the same key indices, in any order and with any repetitions: subsets of keys used by
  different models never advance each other's counters.\<close>

theorem counter_scope_is_the_key_set:
  "new_rr_counter_scope c ks = new_rr_counter_scope c' ks' \<longleftrightarrow>
     c = c' \<and> key_idx ` set ks = key_idx ` set ks'"
proof -
  have set_text: "key_set_text (sort xs) None = concat (map (\<lambda>i. itoa i @ '','') (sorted_list_of_set (set xs)))"
    for xs :: "int list"
  proof -
    have "remdups_adj (sort xs) = sorted_list_of_set (set xs)"
      by (metis remdups_adj_set sorted_list_of_set.idem_if_sorted_distinct sorted_remdups_adj
          sorted_sort set_sort distinct_sorted_remdups_adj)
    then show ?thesis by (simp add: key_set_text_adj)
  qed
  have "key_idx ` set ks = key_idx ` set ks'"
    if "new_rr_counter_scope c ks = new_rr_counter_scope c' ks'"
  proof -
    have "concat (map (\<lambda>i. itoa i @ '','') (sorted_list_of_set (set (map key_idx ks))))
        = concat (map (\<lambda>i. itoa i @ '','') (sorted_list_of_set (set (map key_idx ks'))))"
      using that unfolding new_rr_counter_scope_def set_text by blast
    then have "sorted_list_of_set (set (map key_idx ks)) = sorted_list_of_set (set (map key_idx ks'))"
      by (rule concat_itoa_inj)
    then show ?thesis by (metis set_map List.finite_set set_sorted_list_of_set)
  qed
  moreover have "new_rr_counter_scope c ks = new_rr_counter_scope c ks'"
    if "key_idx ` set ks = key_idx ` set ks'"
    unfolding new_rr_counter_scope_def set_text set_map that ..
  ultimately show ?thesis by (metis fst_conv new_rr_counter_scope_def)
qed

section \<open>Rotation\<close>

text \<open>Successive calls with the same candidates, one instant per call, nothing tried yet.\<close>

primrec select_calls ::
    "key_counters \<Rightarrow> int \<Rightarrow> api_key list \<Rightarrow> time list \<Rightarrow> (key_error + int \<times> string) list \<times> key_counters" where
  "select_calls counters channel keys [] = ([], counters)"
| "select_calls counters channel keys (now # nows) =
     (let (r, counters') = select_available_key counters channel keys (\<lambda>i. False) now;
          (rs, counters'') = select_calls counters' channel keys nows
      in (r # rs, counters''))"

definition counter_value :: "key_counters \<Rightarrow> counter_scope \<Rightarrow> 32 word" where
  "counter_value counters scope = (case counters scope of None \<Rightarrow> 0 | Some c \<Rightarrow> ctr_counter c)"

lemma word_mod_length:
  assumes "length keys < 2 ^ 32"
  shows "unat ((w :: 32 word) mod word_of_nat (length keys)) = unat w mod length keys"
  using assms by (simp add: unat_mod_distrib unat_of_nat take_bit_eq_mod)

lemma rotation_step:
  assumes more: "2 \<le> length keys" and len: "length keys < 2 ^ 32"
    and rr: "key_strategy (hd keys) = key_strategy_round_robin"
    and ok: "\<forall>k \<in> set keys. usable (\<lambda>i. False) now k"
    and scope: "scope = new_rr_counter_scope channel keys"
    and room: "unat (counter_value counters scope) + 1 < 2 ^ 32"
  obtains counters' where
    "select_available_key counters channel keys (\<lambda>i. False) now =
       (let k = keys ! ((unat (counter_value counters scope) + 1) mod length keys)
        in Inr (key_idx k, key_api_key k), counters')"
    and "unat (counter_value counters' scope) = unat (counter_value counters scope) + 1"
proof -
  let ?c = "counter_value counters scope" and ?n = "length keys"
  let ?start = "(unat ?c + 1) mod ?n"
  let ?k = "keys ! ?start"
  have nxt: "next_counter counters scope = ?c + 1"
    by (simp add: next_counter_def counter_value_def)
  have plus: "unat (?c + 1) = unat ?c + 1"
    using room by (simp add: unat_word_ariths)
  have n: "0 < ?n" using more by linarith
  have "rr_order ?start keys = ?k # tl (rr_order ?start keys)"
    using n by (simp add: rr_order_def upt_conv_Cons)
  moreover have "usable (\<lambda>i. False) now ?k" using ok n by simp
  ultimately have "find (usable (\<lambda>i. False) now) (rr_order ?start keys) = Some ?k"
    by (metis find.simps(2))
  then show thesis
    using that [of "counters(scope \<mapsto> \<lparr>ctr_counter = ?c + 1, ctr_last_access = unix_nano now\<rparr>)"] plus
    by (simp add: select_more [OF more] rr select_round_robin_def scope [symmetric] nxt
        word_mod_length [OF len] found_key_def Let_def counter_value_def)
qed

lemma rotation_run:
  assumes "2 \<le> length keys" and "length keys < 2 ^ 32"
    and "key_strategy (hd keys) = key_strategy_round_robin"
    and "\<forall>now \<in> set nows. \<forall>k \<in> set keys. usable (\<lambda>i. False) now k"
    and "scope = new_rr_counter_scope channel keys"
    and "unat (counter_value counters scope) + length nows < 2 ^ 32"
  shows "fst (select_calls counters channel keys nows) =
    map (\<lambda>j. let k = keys ! ((unat (counter_value counters scope) + 1 + j) mod length keys)
             in Inr (key_idx k, key_api_key k)) [0 ..< length nows]"
  using assms(4,6)
proof (induction nows arbitrary: counters)
  case (Cons now nows)
  let ?c = "unat (counter_value counters scope)"
  have ok: "\<forall>k \<in> set keys. usable (\<lambda>i. False) now k" using Cons.prems(1) by simp
  have room: "?c + 1 < 2 ^ 32" using Cons.prems(2) by simp
  obtain counters' where
    sel: "select_available_key counters channel keys (\<lambda>i. False) now =
       (let k = keys ! ((?c + 1) mod length keys) in Inr (key_idx k, key_api_key k), counters')"
    and c': "unat (counter_value counters' scope) = ?c + 1"
    by (rule rotation_step [OF assms(1-3) ok assms(5) room])
  have "fst (select_calls counters' channel keys nows) =
    map (\<lambda>j. let k = keys ! ((?c + 1 + 1 + j) mod length keys)
             in Inr (key_idx k, key_api_key k)) [0 ..< length nows]"
    using Cons.IH [of counters'] Cons.prems by (simp add: c')
  moreover have "[0 ..< length (now # nows)] = 0 # map Suc [0 ..< length nows]"
    by (simp add: map_Suc_upt upt_conv_Cons del: upt_Suc)
  ultimately show ?case
    by (simp add: sel Let_def comp_def case_prod_unfold del: upt_Suc)
qed simp

lemma rotation_mset:
  assumes "xs \<noteq> []"
  shows "mset (map (\<lambda>j. f (xs ! ((s + j) mod length xs))) [0 ..< m * length xs]) =
    repeat_mset m (mset (map f xs))"
proof (induction m)
  case (Suc m)
  let ?g = "\<lambda>j. f (xs ! ((s + j) mod length xs))" and ?n = "length xs"
  have "map ?g [m * ?n ..< m * ?n + ?n] = map f (rotate s xs)"
    by (rule nth_equalityI) (simp_all add: nth_rotate add.left_commute [of s])
  moreover have "mset (rotate s xs) = mset xs"
    by (metis append_take_drop_id mset_append rotate_drop_take union_commute)
  ultimately have "mset (map ?g [m * ?n ..< m * ?n + ?n]) = mset (map f xs)" by simp
  moreover have "[0 ..< Suc m * ?n] = [0 ..< m * ?n] @ [m * ?n ..< m * ?n + ?n]"
    by (simp add: upt_add_eq_append [of 0] add.commute [of ?n])
  ultimately show ?case using Suc by simp
qed simp

text \<open>C5: Round robin over keys is fair: while all \<open>n\<close> candidate keys stay usable and the 32-bit
  counter does not wrap, \<open>m * n\<close> successive selections take every key exactly \<open>m\<close> times,
  wherever the counter stands at the start.\<close>

theorem round_robin_takes_every_key:
  assumes "2 \<le> length keys" and "length keys < 2 ^ 32"
    and "key_strategy (hd keys) = key_strategy_round_robin"
    and "\<forall>now \<in> set nows. \<forall>k \<in> set keys. usable (\<lambda>i. False) now k"
    and "unat (counter_value counters (new_rr_counter_scope channel keys)) + length nows < 2 ^ 32"
    and "length nows = m * length keys"
  shows "mset (fst (select_calls counters channel keys nows)) =
    repeat_mset m (mset (map (\<lambda>k. Inr (key_idx k, key_api_key k)) keys))"
proof -
  let ?scope = "new_rr_counter_scope channel keys"
  have eq: "fst (select_calls counters channel keys nows) =
    map (\<lambda>j. (\<lambda>k. Inr (key_idx k, key_api_key k))
             (keys ! ((unat (counter_value counters ?scope) + 1 + j) mod length keys)))
      [0 ..< m * length keys]"
    using rotation_run [OF assms(1-4) refl assms(5)] by (simp add: assms(6) Let_def)
  have "keys \<noteq> []" using assms(1) by auto
  then show ?thesis
    unfolding eq by (rule rotation_mset [where f = "\<lambda>k. Inr (key_idx k, key_api_key k)"])
qed

lemma example_key_usable: "0 \<le> now \<Longrightarrow> usable (\<lambda>i. False) now (example_key i)"
  by (simp add: usable_def example_key_def key_is_cooling_down_def time_to_unix_def)

theorem round_robin_takes_every_key_witness:
  "mset (fst (select_calls new_key_selector 7 [example_key 0, example_key 3] [1, 2, 3, 4])) =
     {#Inr (0, ''sk''), Inr (3, ''sk''), Inr (0, ''sk''), Inr (3, ''sk'')#}"
proof -
  have "mset (fst (select_calls new_key_selector 7 [example_key 0, example_key 3] [1, 2, 3, 4])) =
    repeat_mset 2 (mset (map (\<lambda>k. Inr (key_idx k, key_api_key k)) [example_key 0, example_key 3]))"
    by (rule round_robin_takes_every_key)
      (simp_all add: example_key_usable counter_value_def new_key_selector_def,
       simp add: example_key_def)
  then show ?thesis by (simp add: example_key_def numeral_2_eq_2)
qed

text \<open>A selection in one scope leaves the rotation of every other channel and of every other
  set of keys where it was; a sequential or a single-key selection leaves all of them.\<close>

theorem rotations_are_independent:
  "(\<forall>scope. scope \<noteq> new_rr_counter_scope channel keys \<longrightarrow>
      snd (select_available_key counters channel keys tried now) scope = counters scope) \<and>
   (key_strategy (hd keys) \<noteq> key_strategy_round_robin \<or> length keys < 2 \<longrightarrow>
      snd (select_available_key counters channel keys tried now) = counters)"
proof (cases keys rule: select_cases)
  case more
  then show ?thesis by (simp add: select_more select_round_robin_def Let_def)
qed (simp_all add: select_available_key_def)

theorem rotations_are_independent_witness:
  "snd (select_available_key (new_key_selector((8, ''0,3,'') \<mapsto> \<lparr>ctr_counter = 5, ctr_last_access = 1\<rparr>)) 7
      [example_key 0, example_key 3] (\<lambda>i. False) 9) (8, ''0,3,'') =
    Some \<lparr>ctr_counter = 5, ctr_last_access = 1\<rparr>"
  using rotations_are_independent [of 7 "[example_key 0, example_key 3]"
      "new_key_selector((8, ''0,3,'') \<mapsto> \<lparr>ctr_counter = 5, ctr_last_access = 1\<rparr>)" "\<lambda>i. False" 9]
  by (simp add: new_rr_counter_scope_def)

section \<open>Keys read from the tables\<close>

text \<open>
  The rows a request works on are read with \<open>GetAPIKeys\<close>: \<open>reads_row\<close> says which columns of
  a row the selector sees; the key text and the strategy are columns the cooldown tables leave out.
\<close>

definition reads_row :: "api_key_row \<Rightarrow> api_key \<Rightarrow> bool" where
  "reads_row r k \<longleftrightarrow> key_channel_id k = ak_channel_id r \<and> key_idx k = ak_key_index r \<and>
     key_disabled k = ak_disabled r \<and> key_cooldown_until k = ak_cooldown_until r"

lemma find_key_row:
  assumes "r \<in> set rows" and "is_key_row c i r"
    and "distinct (map (\<lambda>r. (ak_channel_id r, ak_key_index r)) rows)"
  shows "find (is_key_row c i) rows = Some r"
  using assms by (induction rows) (auto simp: is_key_row_def inj_on_def rev_image_eqI)

lemma cooling_row_not_selected:
  assumes "distinct (map (\<lambda>r. (ak_channel_id r, ak_key_index r)) (api_keys_table s))"
    and "list_all2 reads_row (get_api_keys s channel) keys"
    and "t < unix_to_time (fst (key_cell s (channel, index)))"
    and "fst (select_available_key counters channel keys tried t) = Inr (i, a)"
  shows "i \<noteq> index"
proof
  assume "i = index"
  obtain k where k: "k \<in> set keys" "usable tried t k" "key_idx k = i"
    using selected_key_found [where counters = counters and channel = channel and keys = keys
        and tried = tried and now = t] by (auto simp: assms(4))
  obtain row where row: "row \<in> set (get_api_keys s channel)" "reads_row row k"
    using assms(2) k(1) by (metis in_set_conv_nth list_all2_conv_all_nth)
  then have "row \<in> set (api_keys_table s)" "is_key_row channel index row"
    using k(3) \<open>i = index\<close> by (auto simp: get_api_keys_def reads_row_def is_key_row_def)
  then have "find (is_key_row channel index) (api_keys_table s) = Some row"
    using assms(1) by (rule find_key_row)
  then have "ak_cooldown_until row = fst (key_cell s (channel, index))"
    by (simp add: key_cell_def)
  then have "key_is_cooling_down k t"
    using row(2) assms(3) by (simp add: key_is_cooling_down_def reads_row_def time_to_unix_less_iff)
  then show False using k(2) by (simp add: usable_def)
qed



text \<open>The maintenance of the counters: removing a channel drops all its counters and nothing
  else; the periodic cleanup drops exactly the counters that were idle for longer than the limit
  (for instants within the 64-bit range of nanoseconds) and keeps their values.\<close>

theorem counter_maintenance:
  "(\<forall>scope. remove_channel_counter counters channel scope =
      (if fst scope = channel then None else counters scope)) \<and>
   (0 < max_idle \<longrightarrow> in_int64 (now - max_idle) \<longrightarrow>
      (\<forall>scope c. counters scope = Some c \<longrightarrow>
         cleanup_inactive_counters counters max_idle now scope =
           (if max_idle < now - ctr_last_access c then None else Some c)))"
  by (auto simp: remove_channel_counter_def cleanup_inactive_counters_def unix_nano_def Let_def)

theorem counter_maintenance_witness:
  "cleanup_inactive_counters [(7, ''0,'') \<mapsto> \<lparr>ctr_counter = 5, ctr_last_access = 100\<rparr>] 10 500 (7, ''0,'') = None"
  using counter_maintenance [of "[(7, ''0,'') \<mapsto> \<lparr>ctr_counter = 5, ctr_last_access = 100\<rparr>]" 7 10 500]
  by simp

end
