(* ===== verification/Codex_Retry.thy ===== *)
theory Codex_Retry
  imports Custom_Rules Model_Routing Key_Selection
begin

text \<open>
  Request bodies for Codex upstreams: the rewriting before a request is sent and the reduced bodies
  that are sent after an upstream answered 400 (\<open>internal/app/proxy_forward.go\<close>, from
  \<open>shouldRetryCodexInvalidEncryptedContent\<close> to \<open>removeEncryptedContentFields\<close>, and
  \<open>sanitizeCodexInputItemIDs\<close> of \<open>codex_upstream_websocket.go\<close>).

  A body is rewritten on its JSON tree; \<open>decode\<close> and \<open>encode\<close> stand for \<open>sonic\<close> (a failing
  \<open>encode\<close> gives \<open>None\<close>).  The code changes the decoded maps in place; here each step returns
  the new tree.  The hash that shortens a name (the first eight bytes of SHA-256 in hexadecimal) is
  the argument \<open>hash\<close>.  Texts are taken to be valid UTF-8.
\<close>

section \<open>Objects\<close>

type_synonym members = "(string \<times> json) list"

text \<open>\<open>obj["type"].(string)\<close>, empty when there is none.\<close>

definition member_string :: "string \<Rightarrow> members \<Rightarrow> string" where
  "member_string k kvs = (case map_of kvs k of Some (JStr s) \<Rightarrow> s | _ \<Rightarrow> '''')"

definition has_member :: "string \<Rightarrow> members \<Rightarrow> bool" where
  "has_member k kvs \<longleftrightarrow> map_of kvs k \<noteq> None"

definition input_items :: "members \<Rightarrow> json list option" where
  "input_items doc = (case map_of doc ''input'' of Some (JArr items) \<Rightarrow> Some items | _ \<Rightarrow> None)"

text \<open>Decode an object, change it, encode it: \<open>None\<close> when nothing was changed or a step fails.\<close>

definition rewrite_body ::
    "(string \<Rightarrow> json option) \<Rightarrow> (json \<Rightarrow> string option) \<Rightarrow> (members \<Rightarrow> members option) \<Rightarrow> string \<Rightarrow> string option" where
  "rewrite_body decode encode f body =
     (case decode body of
        Some (JObj doc) \<Rightarrow> (case f doc of None \<Rightarrow> None | Some doc' \<Rightarrow> encode (JObj doc'))
      | _ \<Rightarrow> None)"

text \<open>Drop the objects of \<open>input\<close> that satisfy a test; other items stay.\<close>

definition item_drops :: "(members \<Rightarrow> bool) \<Rightarrow> json \<Rightarrow> bool" where
  "item_drops p item = (case item of JObj kvs \<Rightarrow> p kvs | _ \<Rightarrow> False)"

definition drop_input_items :: "(members \<Rightarrow> bool) \<Rightarrow> members \<Rightarrow> members option" where
  "drop_input_items p doc =
     (case input_items doc of
        None \<Rightarrow> None
      | Some items \<Rightarrow>
          if \<not> list_ex (item_drops p) items then None
          else Some (obj_put ''input'' (JArr (filter (\<lambda>i. \<not> item_drops p i) items)) doc))"

section \<open>The reduced bodies\<close>

definition encrypted_item :: "members \<Rightarrow> bool" where
  "encrypted_item kvs \<longleftrightarrow> member_string ''type'' kvs = ''reasoning'' \<or> has_member ''encrypted_content'' kvs"

definition reasoning_item :: "members \<Rightarrow> bool" where
  "reasoning_item kvs \<longleftrightarrow> member_string ''type'' kvs = ''reasoning''"

definition tool_search_item :: "members \<Rightarrow> bool" where
  "tool_search_item kvs \<longleftrightarrow> prefix ''tool_search_'' (member_string ''type'' kvs)"

definition codex_body_without_encrypted_input_items where
  "codex_body_without_encrypted_input_items decode encode body =
     rewrite_body decode encode (drop_input_items encrypted_item) body"

definition codex_body_without_tool_search_items where
  "codex_body_without_tool_search_items decode encode body =
     rewrite_body decode encode (drop_input_items tool_search_item) body"

definition thinking_include :: "json \<Rightarrow> bool" where
  "thinking_include v = (case v of JStr s \<Rightarrow> prefix ''reasoning.'' s | _ \<Rightarrow> False)"

definition filter_codex_thinking_includes :: "members \<Rightarrow> members option" where
  "filter_codex_thinking_includes doc =
     (case map_of doc ''include'' of
        Some (JArr vs) \<Rightarrow>
          if \<not> list_ex thinking_include vs then None
          else let kept = filter (\<lambda>v. \<not> thinking_include v) vs
               in Some (if kept = [] then obj_delete ''include'' doc else obj_put ''include'' (JArr kept) doc)
      | _ \<Rightarrow> None)"

text \<open>The three parts of \<open>codexBodyWithoutThinking\<close>, each keeping the object when it finds nothing.\<close>

definition or_same :: "(members \<Rightarrow> members option) \<Rightarrow> members \<times> bool \<Rightarrow> members \<times> bool" where
  "or_same f acc = (case f (fst acc) of None \<Rightarrow> acc | Some doc \<Rightarrow> (doc, True))"

definition drop_reasoning :: "members \<Rightarrow> members option" where
  "drop_reasoning doc = (if has_member ''reasoning'' doc then Some (obj_delete ''reasoning'' doc) else None)"

definition without_thinking :: "members \<Rightarrow> members option" where
  "without_thinking doc =
     (case or_same (drop_input_items reasoning_item) (or_same filter_codex_thinking_includes
             (or_same drop_reasoning (doc, False))) of
        (doc', removed) \<Rightarrow> if removed then Some doc' else None)"

definition codex_body_without_thinking where
  "codex_body_without_thinking decode encode body = rewrite_body decode encode without_thinking body"

text \<open>\<open>removeEncryptedContentFields\<close>: the tree without the member, and whether there was one.\<close>

primrec remove_encrypted_content :: "json \<Rightarrow> json" where
  "remove_encrypted_content JNull = JNull"
| "remove_encrypted_content (JBool b) = JBool b"
| "remove_encrypted_content (JNum n) = JNum n"
| "remove_encrypted_content (JStr s) = JStr s"
| "remove_encrypted_content (JArr vs) = JArr (map remove_encrypted_content vs)"
| "remove_encrypted_content (JObj kvs) =
     JObj (obj_delete ''encrypted_content'' (map (map_prod id remove_encrypted_content) kvs))"

primrec holds_encrypted_content :: "json \<Rightarrow> bool" where
  "holds_encrypted_content JNull = False"
| "holds_encrypted_content (JBool b) = False"
| "holds_encrypted_content (JNum n) = False"
| "holds_encrypted_content (JStr s) = False"
| "holds_encrypted_content (JArr vs) = list_ex id (map holds_encrypted_content vs)"
| "holds_encrypted_content (JObj kvs) =
     list_ex (\<lambda>(k, b). k = ''encrypted_content'' \<or> b) (map (map_prod id holds_encrypted_content) kvs)"

definition without_encrypted_content :: "members \<Rightarrow> members option" where
  "without_encrypted_content doc =
     (if \<not> holds_encrypted_content (JObj doc) then None
      else case remove_encrypted_content (JObj doc) of JObj doc' \<Rightarrow> Some doc' | _ \<Rightarrow> None)"

definition codex_body_without_encrypted_content where
  "codex_body_without_encrypted_content decode encode body =
     rewrite_body decode encode without_encrypted_content body"
section \<open>When an upstream answered 400\<close>

record error_shape =
  es_code :: string
  es_message :: string
  es_param :: string
  es_type :: string

text \<open>
  The anonymous structs of the three classifiers; \<open>typed\<close> and \<open>with_param\<close> tell which of the
  fields \<open>type\<close> and \<open>param\<close> a struct has (a field it lacks is not decoded at all).
\<close>

definition error_shape_field :: "bool \<Rightarrow> bool \<Rightarrow> string \<Rightarrow> json \<Rightarrow> error_shape \<Rightarrow> error_shape option" where
  "error_shape_field typed with_param k v e =
     (if equal_fold k ''code'' then map_option (\<lambda>s. e\<lparr>es_code := s\<rparr>) (dec_string v (es_code e))
      else if equal_fold k ''message'' then map_option (\<lambda>s. e\<lparr>es_message := s\<rparr>) (dec_string v (es_message e))
      else if with_param \<and> equal_fold k ''param'' then map_option (\<lambda>s. e\<lparr>es_param := s\<rparr>) (dec_string v (es_param e))
      else if typed \<and> equal_fold k ''type'' then map_option (\<lambda>s. e\<lparr>es_type := s\<rparr>) (dec_string v (es_type e))
      else Some e)"

definition decode_error_shape :: "(string \<Rightarrow> json option) \<Rightarrow> bool \<Rightarrow> bool \<Rightarrow> string \<Rightarrow> error_shape option" where
  "decode_error_shape decode typed with_param body =
     (case decode body of
        None \<Rightarrow> None
      | Some v \<Rightarrow>
          dec_struct (\<lambda>k v e. if equal_fold k ''error'' then dec_struct (error_shape_field typed with_param) v e
                              else Some e) v
            \<lparr>es_code = [], es_message = [], es_param = [], es_type = []\<rparr>)"

definition is_invalid_encrypted_content_error :: "(string \<Rightarrow> json option) \<Rightarrow> string \<Rightarrow> bool" where
  "is_invalid_encrypted_content_error decode body =
     (case decode_error_shape decode True False body of
        None \<Rightarrow> False
      | Some e \<Rightarrow>
          let message = to_lower (es_message e) in
          to_lower (es_code e) = ''invalid_encrypted_content'' \<or>
          str_contains message ''invalid_encrypted_content'' \<or>
          (str_contains message ''encrypted content'' \<and>
           (str_contains message ''could not be verified'' \<or> str_contains message ''could not be decrypted'' \<or>
            str_contains message ''could not be parsed'')))"

definition is_invalid_responses_request_error :: "(string \<Rightarrow> json option) \<Rightarrow> string \<Rightarrow> bool" where
  "is_invalid_responses_request_error decode body =
     (case decode_error_shape decode False False body of
        None \<Rightarrow> False
      | Some e \<Rightarrow> to_lower (es_code e) = ''invalid_responses_request'' \<or>
                  str_contains (to_lower (es_message e)) ''invalid_responses_request'')"

definition is_unsupported_thinking_error :: "(string \<Rightarrow> json option) \<Rightarrow> string \<Rightarrow> bool" where
  "is_unsupported_thinking_error decode body =
     (case decode_error_shape decode True True body of
        None \<Rightarrow> False
      | Some e \<Rightarrow>
          let code = to_lower (trim_space (es_code e)); message = to_lower (trim_space (es_message e));
              param = to_lower (trim_space (es_param e)); typ = to_lower (trim_space (es_type e));
              mentions = str_contains message ''reasoning'' \<or> str_contains message ''thinking'' \<or>
                 str_contains param ''reasoning'' \<or> str_contains param ''thinking''
          in if \<not> mentions then False
             else if code \<in> {''unsupported_parameter'', ''invalid_request_error'', ''invalid_responses_request'',
                             ''unknown_parameter''} then True
             else if typ = ''invalid_request_error'' then True
             else str_contains message ''unsupported'' \<or> str_contains message ''unknown parameter'' \<or>
                  str_contains message ''not support'' \<or> str_contains message ''does not support'' \<or>
                  str_contains message ''invalid'')"

text \<open>The name of a channel is an argument: the model's channels carry none.\<close>

fun join_lines :: "string list \<Rightarrow> string" where
  "join_lines [] = ''''"
| "join_lines [s] = s"
| "join_lines (s # ss) = s @ bytes [10] @ join_lines ss"

definition is_anyrouter_channel :: "string \<Rightarrow> config \<Rightarrow> bool" where
  "is_anyrouter_channel name cfg \<longleftrightarrow>
     str_contains (to_lower (name @ bytes [10] @ join_lines (get_urls cfg))) ''anyrouter''"

datatype retry_strategy_400 = StripEncryptedInput | StripEncryptedContent | StripThinking

text \<open>Status and body of the answer; \<open>None\<close> when there was none.\<close>

definition codex_retry_body_for_400 ::
    "(string \<Rightarrow> json option) \<Rightarrow> (json \<Rightarrow> string option) \<Rightarrow> string \<Rightarrow> config \<Rightarrow> protocol \<Rightarrow> bool \<Rightarrow> string
       \<Rightarrow> (int \<times> string) option \<Rightarrow> (string \<times> retry_strategy_400) option" where
  "codex_retry_body_for_400 decode encode name cfg upstream needs_transform sent answer =
     (case answer of
        None \<Rightarrow> None
      | Some (status, body) \<Rightarrow>
          let bad = upstream = codex \<and> status = 400;
              attempt = (\<lambda>wanted f strategy other.
                 if bad \<and> wanted then (case f decode encode sent of Some b \<Rightarrow> Some (b, strategy) | None \<Rightarrow> other)
                 else other)
          in attempt (\<not> needs_transform \<and> is_invalid_encrypted_content_error decode body)
               codex_body_without_encrypted_input_items StripEncryptedInput
             (attempt (is_anyrouter_channel name cfg \<and> is_invalid_responses_request_error decode body)
               codex_body_without_encrypted_content StripEncryptedContent
             (attempt (is_unsupported_thinking_error decode body)
               codex_body_without_thinking StripThinking None)))"

section \<open>Before a request is sent\<close>

text \<open>
  Items of the tool search keep or get an object of arguments.  \<open>None\<close>: the item is dropped; the
  flag tells whether the item was changed.
\<close>

definition normalize_tool_search_item :: "(string \<Rightarrow> json option) \<Rightarrow> json \<Rightarrow> (json \<times> bool) option" where
  "normalize_tool_search_item decode item =
     (case item of
        JObj kvs \<Rightarrow>
          if \<not> tool_search_item kvs then Some (item, False)
          else (case map_of kvs ''arguments'' of
                  None \<Rightarrow> Some (item, False)
                | Some (JObj args) \<Rightarrow> Some (item, False)
                | Some (JStr s) \<Rightarrow>
                    (case decode s of
                       Some (JObj args) \<Rightarrow> Some (JObj (obj_put ''arguments'' (JObj args) kvs), True)
                     | _ \<Rightarrow> None)
                | _ \<Rightarrow> None)
      | _ \<Rightarrow> Some (item, False))"

definition normalize_tool_search :: "(string \<Rightarrow> json option) \<Rightarrow> members \<Rightarrow> members option" where
  "normalize_tool_search decode doc =
     (case input_items doc of
        None \<Rightarrow> None
      | Some items \<Rightarrow>
          let rs = map (normalize_tool_search_item decode) items
          in if \<not> list_ex (\<lambda>r. case r of None \<Rightarrow> True | Some (i, c) \<Rightarrow> c) rs then None
             else Some (obj_put ''input'' (JArr (map fst (map the (filter (\<lambda>r. r \<noteq> None) rs)))) doc))"

definition normalize_codex_tool_search_input_items where
  "normalize_codex_tool_search_input_items decode encode body =
     rewrite_body decode encode (normalize_tool_search decode) body"

subsection \<open>Names of input items\<close>

definition codex_input_item_id_limit :: nat where "codex_input_item_id_limit = 64"

text \<open>\<open>[]rune(s)\<close> of valid UTF-8: a character starts at every byte that does not continue one.\<close>

definition continues :: "char \<Rightarrow> bool" where
  "continues c \<longleftrightarrow> (let n = (of_char c :: nat) in 128 \<le> n \<and> n < 192)"

function runes :: "string \<Rightarrow> string list" where
  "runes [] = []"
| "runes (c # cs) = (c # takeWhile continues cs) # runes (dropWhile continues cs)"
  by pat_completeness auto
termination
  by (relation "measure length") (auto simp: le_imp_less_Suc length_dropWhile_le)

definition id_hash_input :: "string \<Rightarrow> nat \<Rightarrow> string" where
  "id_hash_input i attempt = (if attempt > 0 then i @ [char_of (0::nat)] @ dec_digits attempt else i)"

definition shorten_codex_input_item_id :: "(string \<Rightarrow> string) \<Rightarrow> string \<Rightarrow> nat \<Rightarrow> string" where
  "shorten_codex_input_item_id hash i attempt =
     (if length (runes i) \<le> codex_input_item_id_limit then i
      else let suf = CHR ''_'' # hash (id_hash_input i attempt)
           in concat (take (codex_input_item_id_limit - length suf) (runes i)) @ suf)"

text \<open>The item's name, when it is a string.\<close>

definition item_id :: "json \<Rightarrow> string option" where
  "item_id item = (case item of JObj kvs \<Rightarrow> (case map_of kvs ''id'' of Some (JStr s) \<Rightarrow> Some s | _ \<Rightarrow> None) | _ \<Rightarrow> None)"

definition long_id :: "string \<Rightarrow> bool" where
  "long_id i \<longleftrightarrow> length (runes i) > codex_input_item_id_limit"

definition should_drop_encrypted_reasoning :: "json \<Rightarrow> bool" where
  "should_drop_encrypted_reasoning item =
     (case item of
        JObj kvs \<Rightarrow>
          if member_string ''type'' kvs \<noteq> ''reasoning'' then False
          else (case item_id item of
                  None \<Rightarrow> False
                | Some i \<Rightarrow> long_id i \<and> member_string ''encrypted_content'' kvs \<noteq> '''')
      | _ \<Rightarrow> False)"

text \<open>The loop that looks for a free name; it need not end.\<close>

partial_function (option) free_id ::
    "(string \<Rightarrow> string) \<Rightarrow> string set \<Rightarrow> string \<Rightarrow> nat \<Rightarrow> string option" where
  "free_id hash occupied i attempt =
     (let short = shorten_codex_input_item_id hash i attempt
      in if short \<in> occupied then free_id hash occupied i (Suc attempt) else Some short)"

definition with_id :: "string \<Rightarrow> json \<Rightarrow> json" where
  "with_id i item = (case item of JObj kvs \<Rightarrow> JObj (obj_put ''id'' (JStr i) kvs) | _ \<Rightarrow> item)"

text \<open>The second loop, with the names in use and the renamings so far.\<close>

primrec sanitize_from ::
    "(string \<Rightarrow> string) \<Rightarrow> string set \<Rightarrow> (string \<times> string) list \<Rightarrow> json list \<Rightarrow> (json list \<times> bool) option" where
  "sanitize_from hash occupied mapped [] = Some ([], False)"
| "sanitize_from hash occupied mapped (item # items) =
     (if should_drop_encrypted_reasoning item
      then map_option (\<lambda>(r, c). (r, True)) (sanitize_from hash occupied mapped items)
      else case item_id item of
        None \<Rightarrow> map_option (\<lambda>(r, c). (item # r, c)) (sanitize_from hash occupied mapped items)
      | Some i \<Rightarrow>
          if \<not> long_id i
          then map_option (\<lambda>(r, c). (item # r, c)) (sanitize_from hash occupied mapped items)
          else (case map_of mapped i of
                  Some short \<Rightarrow> map_option (\<lambda>(r, c). (with_id short item # r, True))
                                  (sanitize_from hash occupied mapped items)
                | None \<Rightarrow>
                    (case free_id hash occupied i 0 of
                       None \<Rightarrow> None
                     | Some short \<Rightarrow> map_option (\<lambda>(r, c). (with_id short item # r, True))
                         (sanitize_from hash (insert short occupied) ((i, short) # mapped) items))))"

definition occupied_ids :: "json list \<Rightarrow> string set" where
  "occupied_ids items =
     set (filter (\<lambda>i. \<not> long_id i)
       (List.map_filter (\<lambda>item. if should_drop_encrypted_reasoning item then None else item_id item) items))"

text \<open>\<open>None\<close>: the search for a name does not end.  \<open>Some None\<close>: nothing to change.\<close>

definition sanitize_codex_input_item_ids :: "(string \<Rightarrow> string) \<Rightarrow> members \<Rightarrow> members option option" where
  "sanitize_codex_input_item_ids hash doc =
     (case input_items doc of
        None \<Rightarrow> Some None
      | Some items \<Rightarrow>
          (case sanitize_from hash (occupied_ids items) [] items of
             None \<Rightarrow> None
           | Some (rebuilt, changed) \<Rightarrow>
               Some (if changed then Some (obj_put ''input'' (JArr rebuilt) doc) else None)))"

section \<open>Encrypted content is gone\<close>

lemma keys_map_prod [simp]: "fst ` set (map (map_prod id f) kvs) = fst ` set kvs"
  by force

lemma holds_in_object [simp]:
  "holds_encrypted_content (JObj kvs) \<longleftrightarrow>
     (\<exists>kv \<in> set kvs. fst kv = ''encrypted_content'' \<or> holds_encrypted_content (snd kv))"
  by (auto simp: list_ex_iff case_prod_beta)

lemma holds_in_array [simp]:
  "holds_encrypted_content (JArr vs) \<longleftrightarrow> (\<exists>v \<in> set vs. holds_encrypted_content v)"
  by (auto simp: list_ex_iff)

declare holds_encrypted_content.simps(5,6) [simp del]

text \<open>
  The reduced body holds no encrypted content at any depth, is not reduced again, and a tree without
  encrypted content is left as it is.
\<close>

lemma remove_encrypted_content_removes: "\<not> holds_encrypted_content (remove_encrypted_content v)"
  by (induction v) (force simp: obj_delete_def)+

lemma remove_encrypted_content_id: "\<not> holds_encrypted_content v \<Longrightarrow> remove_encrypted_content v = v"
proof (induction v)
  case (JArr vs)
  then show ?case by (auto intro: map_idI)
next
  case (JObj kvs)
  have eq: "map (map_prod id remove_encrypted_content) kvs = kvs"
  proof (rule map_idI)
    fix kv assume kv: "kv \<in> set kvs"
    then have "\<not> holds_encrypted_content (snd kv)" using JObj.prems by auto
    then show "map_prod id remove_encrypted_content kv = kv"
      using JObj.IH [of kv "snd kv"] kv by (cases kv) auto
  qed
  have "obj_delete ''encrypted_content'' kvs = kvs"
    using JObj.prems unfolding obj_delete_def by (intro filter_True) force
  then show ?case by (simp add: eq)
qed simp_all

text \<open>Members at other paths keep their place.\<close>

lemma remove_encrypted_content_at:
  "''encrypted_content'' \<notin> set path \<Longrightarrow>
     json_at (remove_encrypted_content v) path = map_option remove_encrypted_content (json_at v path)"
proof (induction path arbitrary: v)
  case (Cons seg path)
  have m: "map_of (map (map_prod id remove_encrypted_content) kvs) seg =
      map_option remove_encrypted_content (map_of kvs seg)" for kvs
    by (induction kvs) auto
  show ?case using Cons by (cases v) (auto simp: m split: option.splits)
qed simp

text \<open>C27: 
  Stripping encrypted content: when it applies, nothing encrypted is left anywhere in the body,
  everything at a path that does not go through encrypted content is still there (itself stripped),
  and a second pass has nothing to do.
\<close>

theorem stripped_body_holds_no_secret:
  assumes "without_encrypted_content doc = Some doc'"
  shows "\<not> holds_encrypted_content (JObj doc') \<and> without_encrypted_content doc' = None \<and>
     (\<forall>path. ''encrypted_content'' \<notin> set path \<longrightarrow>
        json_at (JObj doc') path = map_option remove_encrypted_content (json_at (JObj doc) path))"
proof -
  have doc: "JObj doc' = remove_encrypted_content (JObj doc)"
    using assms by (auto simp: without_encrypted_content_def split: if_splits)
  have gone: "\<not> holds_encrypted_content (JObj doc')" unfolding doc by (rule remove_encrypted_content_removes)
  then have "without_encrypted_content doc' = None" by (simp add: without_encrypted_content_def)
  then show ?thesis using gone unfolding doc by (blast intro: remove_encrypted_content_at)
qed

theorem stripped_body_holds_no_secret_witness:
  "without_encrypted_content [(''input'', JArr [JObj [(''encrypted_content'', JNull), (''id'', JStr ''a'')]])] =
     Some [(''input'', JArr [JObj [(''id'', JStr ''a'')]])] \<and>
   \<not> holds_encrypted_content (JObj [(''input'', JArr [JObj [(''id'', JStr ''a'')]])])"
proof -
  have "without_encrypted_content [(''input'', JArr [JObj [(''encrypted_content'', JNull), (''id'', JStr ''a'')]])] =
      Some [(''input'', JArr [JObj [(''id'', JStr ''a'')]])]"
    by (simp add: without_encrypted_content_def obj_delete_def)
  from stripped_body_holds_no_secret [OF this] this show ?thesis by blast
qed

section \<open>Shortened names\<close>

lemma length_runes: "length (runes s) \<le> length s"
proof (induction s rule: runes.induct)
  case (2 c cs)
  then show ?case using length_dropWhile_le [of continues cs] by simp
qed simp

lemma takeWhile_stop: "(ys = [] \<or> \<not> P (hd ys)) \<Longrightarrow> \<forall>x \<in> set xs. P x \<Longrightarrow> takeWhile P (xs @ ys) = xs"
  by (cases ys) (auto simp: takeWhile_append2)

lemma dropWhile_stop: "(ys = [] \<or> \<not> P (hd ys)) \<Longrightarrow> \<forall>x \<in> set xs. P x \<Longrightarrow> dropWhile P (xs @ ys) = ys"
  by (cases ys) (auto simp: dropWhile_append2)

lemma runes_prefix:
  assumes "s \<noteq> []" "\<not> continues (hd s)"
  shows "runes (concat (take n (runes i)) @ s) = take n (runes i) @ runes s"
proof (induction i arbitrary: n rule: runes.induct)
  case (2 c cs)
  show ?case
  proof (cases n)
    case (Suc m)
    let ?cont = "takeWhile continues cs" and ?left = "dropWhile continues cs"
    let ?y = "concat (take m (runes ?left)) @ s"
    have start: "\<not> continues (hd ?y)"
    proof (cases "take m (runes ?left) = []")
      case True
      then have "?y = s" by (simp only: concat.simps append.simps)
      then show ?thesis using assms(2) by (simp only: not_False_eq_True)
    next
      case False
      then obtain l ls k where l: "?left = l # ls" "m = Suc k" by (metis runes.simps(1) take_eq_Nil list.exhaust not0_implies_Suc)
      then have "\<not> continues l" using hd_dropWhile [of continues cs] by simp
      then show ?thesis by (simp add: l)
    qed
    have "\<forall>x \<in> set ?cont. continues x" by (auto dest: set_takeWhileD)
    then have "takeWhile continues (?cont @ ?y) = ?cont" "dropWhile continues (?cont @ ?y) = ?y"
      using start by (simp_all only: takeWhile_stop dropWhile_stop simp_thms)
    then show ?thesis using 2 [of m] Suc by simp
  qed simp
qed simp

lemma shortened_is_short:
  assumes "\<And>x. length (hash x) = 16"
  shows "\<not> long_id (shorten_codex_input_item_id hash i n)"
proof (cases "long_id i")
  case True
  define h where "h = CHR ''_'' # hash (id_hash_input i n)"
  have "shorten_codex_input_item_id hash i n = concat (take (64 - length h) (runes i)) @ h"
    using True by (simp add: shorten_codex_input_item_id_def long_id_def codex_input_item_id_limit_def h_def)
  moreover have "h \<noteq> []" "\<not> continues (hd h)" by (simp_all add: h_def continues_def)
  moreover have "length h = 17" by (simp add: h_def assms)
  ultimately show ?thesis using length_runes [of h]
    by (simp add: runes_prefix long_id_def codex_input_item_id_limit_def)
qed (simp add: shorten_codex_input_item_id_def long_id_def)

lemma free_id_result:
  assumes "free_id hash occupied i attempt = Some short"
  shows "short \<notin> occupied \<and> (\<exists>n. short = shorten_codex_input_item_id hash i n)"
  by (rule free_id.raw_induct [OF _ assms]) (auto simp: Let_def split: if_splits)

lemma free_id_found:
  "attempt \<le> n \<Longrightarrow> shorten_codex_input_item_id hash i n \<notin> occupied \<Longrightarrow> free_id hash occupied i attempt \<noteq> None"
proof (induction "n - attempt" arbitrary: attempt)
  case 0
  then show ?case by (subst free_id.simps) (simp add: Let_def)
next
  case (Suc k)
  then have "free_id hash occupied i (Suc attempt) \<noteq> None" by (intro Suc.hyps(1)) simp_all
  then show ?case by (subst free_id.simps) (simp add: Let_def)
qed

lemma shorten_differs:
  assumes "long_id i" and "\<And>x. length (hash x) = 16"
    and "inj_on (\<lambda>n. hash (id_hash_input i n)) A"
  shows "inj_on (shorten_codex_input_item_id hash i) A"
proof (rule inj_onI)
  fix m n assume mn: "m \<in> A" "n \<in> A" "shorten_codex_input_item_id hash i m = shorten_codex_input_item_id hash i n"
  let ?h = "\<lambda>n. hash (id_hash_input i n)"
  have "shorten_codex_input_item_id hash i n = concat (take 47 (runes i)) @ CHR ''_'' # ?h n" for n
    using assms(1,2) by (simp add: shorten_codex_input_item_id_def long_id_def codex_input_item_id_limit_def Let_def)
  then have "?h m = ?h n" using mn(3) by simp
  then show "m = n" using assms(3) mn(1,2) by (auto dest: inj_onD)
qed

lemma free_attempt:
  assumes "finite occ" "card occ \<le> N" "inj_on f {0..N}"
  shows "\<exists>n \<le> N. f n \<notin> (occ :: string set)"
proof (rule ccontr)
  assume "\<not> ?thesis"
  then have "f ` {0..N} \<subseteq> occ" by auto
  then have "card {0..N} \<le> card occ" using assms by (metis card_image card_mono)
  then show False using assms(2) by simp
qed

subsection \<open>Names stay different\<close>

definition kept_items :: "json list \<Rightarrow> json list" where
  "kept_items items = filter (\<lambda>i. \<not> should_drop_encrypted_reasoning i) items"

text \<open>The names of the items that stay.\<close>

definition item_ids :: "json list \<Rightarrow> string set" where
  "item_ids items = {i. \<exists>item \<in> set items. item_id item = Some i}"

definition renamed :: "(string \<Rightarrow> string) \<Rightarrow> json \<Rightarrow> json" where
  "renamed g item =
     (case item_id item of None \<Rightarrow> item | Some i \<Rightarrow> if long_id i then with_id (g i) item else item)"

lemma item_ids_simps [simp]:
  "item_ids [] = {}"
  "item_ids (item # items) = (case item_id item of None \<Rightarrow> item_ids items | Some i \<Rightarrow> insert i (item_ids items))"
  by (auto simp: item_ids_def split: option.splits)

lemma kept_items_simps [simp]:
  "kept_items [] = []"
  "kept_items (item # items) = (if should_drop_encrypted_reasoning item then kept_items items else item # kept_items items)"
  by (simp_all add: kept_items_def)

text \<open>What the renaming of the long names among \<open>ids\<close> satisfies.\<close>

definition renaming_ok ::
    "(string \<Rightarrow> string) \<Rightarrow> string set \<Rightarrow> (string \<times> string) list \<Rightarrow> string set \<Rightarrow> (string \<Rightarrow> string) \<Rightarrow> bool" where
  "renaming_ok hash occupied mapped ids g \<longleftrightarrow>
     (\<forall>i s. map_of mapped i = Some s \<longrightarrow> g i = s) \<and>
     (\<forall>i \<in> ids. long_id i \<longrightarrow> map_of mapped i = None \<longrightarrow>
        g i \<notin> occupied \<and> (\<exists>n. g i = shorten_codex_input_item_id hash i n)) \<and>
     inj_on g {i \<in> ids. long_id i \<and> map_of mapped i = None}"

lemma renaming_ok_known:
  "renaming_ok hash occ mapped ids g \<Longrightarrow> map_of mapped i \<noteq> None \<or> \<not> long_id i \<Longrightarrow>
     renaming_ok hash occ mapped (insert i ids) g"
  unfolding renaming_ok_def by (auto simp: inj_on_def)

lemma renaming_ok_new:
  assumes "renaming_ok hash (insert s occ) ((i, s) # mapped) ids g"
    and "map_of mapped i = None" "s \<notin> occ" "s = shorten_codex_input_item_id hash i n"
  shows "renaming_ok hash occ mapped (insert i ids) g"
proof -
  have r: "\<forall>j t. map_of ((i, s) # mapped) j = Some t \<longrightarrow> g j = t"
    "\<forall>j \<in> ids. long_id j \<longrightarrow> map_of ((i, s) # mapped) j = None \<longrightarrow>
       g j \<notin> insert s occ \<and> (\<exists>n. g j = shorten_codex_input_item_id hash j n)"
    "inj_on g {j \<in> ids. long_id j \<and> map_of ((i, s) # mapped) j = None}"
    using assms(1) unfolding renaming_ok_def by blast+
  have g1: "g i = s" using r(1) by simp
  have g2: "g j = t" if "map_of mapped j = Some t" for j t using r(1) that assms(2) by (cases "j = i") auto
  have g3: "g j \<noteq> s \<and> g j \<notin> occ \<and> (\<exists>n. g j = shorten_codex_input_item_id hash j n)"
    if "j \<in> ids" "long_id j" "map_of mapped j = None" "j \<noteq> i" for j
    using r(2) that by simp
  have g4: "inj_on g {j \<in> ids. long_id j \<and> map_of mapped j = None \<and> j \<noteq> i}"
    using r(3) by (rule inj_on_subset) auto
  note g = g1 g2 g3 g4
  have "inj_on g {j \<in> insert i ids. long_id j \<and> map_of mapped j = None}"
  proof (rule inj_onI)
    fix j k assume jk: "j \<in> {j \<in> insert i ids. long_id j \<and> map_of mapped j = None}"
      "k \<in> {j \<in> insert i ids. long_id j \<and> map_of mapped j = None}" "g j = g k"
    consider "j = i" | "k = i" "j \<noteq> i" | "j \<noteq> i" "k \<noteq> i" by blast
    then show "j = k"
    proof cases
      case 1
      then show ?thesis using jk g(1) g(3) [of k] by auto
    next
      case 2
      then show ?thesis using jk g(1) g(3) [of j] by auto
    next
      case 3
      then show ?thesis using jk g(4) by (auto dest: inj_onD)
    qed
  qed
  moreover have "g j \<notin> occ \<and> (\<exists>n. g j = shorten_codex_input_item_id hash j n)"
    if "j \<in> insert i ids" "long_id j" "map_of mapped j = None" for j
    using g1 g3 [of j] that assms(3,4) by (cases "j = i") auto
  ultimately show ?thesis unfolding renaming_ok_def using g2 by blast
qed

lemma sanitize_from_result:
  assumes "sanitize_from hash occ mapped items = Some (r, c)"
  shows "\<exists>g. r = map (renamed g) (kept_items items) \<and> renaming_ok hash occ mapped (item_ids (kept_items items)) g \<and>
     (c \<longleftrightarrow> (\<exists>item \<in> set items. should_drop_encrypted_reasoning item) \<or>
            (\<exists>i \<in> item_ids (kept_items items). long_id i))"
  using assms
proof (induction items arbitrary: occ mapped r c)
  case Nil
  have "renaming_ok hash occ mapped {} (\<lambda>i. the (map_of mapped i))" by (simp add: renaming_ok_def)
  then show ?case using Nil by auto
next
  case (Cons item items)
  let ?drop = "should_drop_encrypted_reasoning item"
  consider (drop) "?drop" | (plain) "\<not> ?drop" "item_id item = None"
    | (short) i where "\<not> ?drop" "item_id item = Some i" "\<not> long_id i"
    | (known) i s where "\<not> ?drop" "item_id item = Some i" "long_id i" "map_of mapped i = Some s"
    | (new) i where "\<not> ?drop" "item_id item = Some i" "long_id i" "map_of mapped i = None"
    by (cases "item_id item"; cases "map_of mapped (the (item_id item))") auto
  then show ?case
  proof cases
    case drop
    then obtain c' where "sanitize_from hash occ mapped items = Some (r, c')" "c" using Cons.prems by auto
    with Cons.IH [OF this(1)] drop show ?thesis by auto
  next
    case plain
    then obtain r' where r': "sanitize_from hash occ mapped items = Some (r', c)" "r = item # r'"
      using Cons.prems by auto
    from Cons.IH [OF r'(1)] show ?thesis using plain r'(2) by (auto simp: renamed_def)
  next
    case short
    then obtain r' where r': "sanitize_from hash occ mapped items = Some (r', c)" "r = item # r'"
      using Cons.prems by auto
    from Cons.IH [OF r'(1)] short r'(2) show ?thesis
      by (auto simp: renamed_def intro!: renaming_ok_known)
  next
    case known
    then obtain r' c' where r': "sanitize_from hash occ mapped items = Some (r', c')" "r = with_id s item # r'" "c"
      using Cons.prems by auto
    from Cons.IH [OF r'(1)] obtain g where g: "r' = map (renamed g) (kept_items items)"
      "renaming_ok hash occ mapped (item_ids (kept_items items)) g" by blast
    then have "g i = s" using known(4) by (simp add: renaming_ok_def)
    then show ?thesis using known r' g renaming_ok_known [OF g(2), of i]
      by (intro exI [of _ g]) (auto simp: renamed_def)
  next
    case new
    then obtain s r' c' where r': "free_id hash occ i 0 = Some s"
        "sanitize_from hash (insert s occ) ((i, s) # mapped) items = Some (r', c')" "r = with_id s item # r'" "c"
      using Cons.prems by (auto split: option.splits)
    from Cons.IH [OF r'(2)] obtain g where g: "r' = map (renamed g) (kept_items items)"
      "renaming_ok hash (insert s occ) ((i, s) # mapped) (item_ids (kept_items items)) g" by blast
    then have "g i = s" by (simp add: renaming_ok_def)
    moreover have "renaming_ok hash occ mapped (insert i (item_ids (kept_items items))) g"
      using free_id_result [OF r'(1)] renaming_ok_new [OF g(2) new(4)] by blast
    ultimately show ?thesis using new r' g(1) by (intro exI [of _ g]) (auto simp: renamed_def)
  qed
qed

lemma sanitize_from_total:
  assumes "\<And>i. i \<in> item_ids items \<Longrightarrow> inj_on (shorten_codex_input_item_id hash i) {0..N} \<or> \<not> long_id i"
    and "finite occ" "card occ + length items \<le> Suc N"
  shows "sanitize_from hash occ mapped items \<noteq> None"
  using assms
proof (induction items arbitrary: occ mapped)
  case (Cons item items)
  have ids: "i \<in> item_ids items \<Longrightarrow> i \<in> item_ids (item # items)" for i by (auto split: option.splits)
  have IH: "\<exists>r c. sanitize_from hash occ' mapped' items = Some (r, c)"
    if "finite occ'" "card occ' \<le> Suc (card occ)" for occ' mapped'
    using Cons.IH [of occ' mapped'] Cons.prems that ids by fastforce
  have same: "\<exists>r c. sanitize_from hash occ mapped' items = Some (r, c)" for mapped'
    using IH Cons.prems(2) by auto
  show ?case
  proof (cases "\<not> should_drop_encrypted_reasoning item \<and> (\<exists>i. item_id item = Some i \<and> long_id i \<and> map_of mapped i = None)")
    case True
    then obtain i where i: "item_id item = Some i" "long_id i" "map_of mapped i = None" by auto
    have "inj_on (shorten_codex_input_item_id hash i) {0..N}" using Cons.prems(1) [of i] i by auto
    moreover have "card occ \<le> N" using Cons.prems(3) by simp
    ultimately obtain n where "shorten_codex_input_item_id hash i n \<notin> occ"
      using free_attempt [OF Cons.prems(2)] by blast
    then obtain s where s: "free_id hash occ i 0 = Some s" using free_id_found [of 0 n hash i occ] by auto
    have "\<exists>r c. sanitize_from hash (insert s occ) ((i, s) # mapped) items = Some (r, c)"
      using Cons.prems(2) by (intro IH) (simp_all add: card_insert_if)
    then show ?thesis using True i s by auto
  next
    case False
    then show ?thesis using same [of mapped] by (auto split: option.splits)
  qed
qed simp

lemma occupied_ids_kept: "occupied_ids items = {i \<in> item_ids (kept_items items). \<not> long_id i}"
proof -
  have "set (List.map_filter (\<lambda>item. if should_drop_encrypted_reasoning item then None else item_id item) items) =
      item_ids (kept_items items)"
    by (induction items) (auto simp: map_filter_simps split: option.splits)
  then show ?thesis by (auto simp: occupied_ids_def)
qed

lemma card_occupied: "card (occupied_ids items) \<le> length items"
proof -
  let ?ids = "List.map_filter (\<lambda>item. if should_drop_encrypted_reasoning item then None else item_id item) items"
  have "length ?ids \<le> length items" by (induction items) (auto simp: map_filter_simps split: option.splits)
  moreover have "length (filter (\<lambda>i. \<not> long_id i) ?ids) \<le> length ?ids" by simp
  ultimately show ?thesis unfolding occupied_ids_def
    by (meson card_length le_trans)
qed

lemma item_id_kept:
  assumes "item \<in> set (kept_items items)" "item_id item = Some i"
  shows "i \<in> item_ids (kept_items items)" "i \<in> item_ids items"
  using assms by (auto simp: item_ids_def kept_items_def)

lemma item_id_with_id [simp]: "item_id item = Some i \<Longrightarrow> item_id (with_id j item) = Some j"
  by (auto simp: item_id_def with_id_def split: json.splits option.splits)

lemma item_id_renamed:
  "item_id (renamed g item) = map_option (\<lambda>i. if long_id i then g i else i) (item_id item)"
  by (auto simp: renamed_def split: option.splits)

text \<open>C26: 
  The names of the input items of a Codex request: if the hash gives 16 characters and, for every
  long name, different results for as many attempts as there are names, then the search ends.  The
  reasoning items that are encrypted under a long name are dropped and all others stay in order; a
  name of up to 64 characters stays, a longer one is replaced by one of at most 64; and items had
  different names before exactly when they have different names after.
\<close>

theorem item_names_stay_different:
  assumes len: "\<And>x. length (hash x) = 16"
    and distinct: "\<And>i. i \<in> item_ids items \<Longrightarrow> long_id i \<Longrightarrow> inj_on (\<lambda>n. hash (id_hash_input i n)) {0..2 * length items}"
  shows "\<exists>g changed.
     sanitize_from hash (occupied_ids items) [] items = Some (map (renamed g) (kept_items items), changed) \<and>
     (\<forall>i \<in> item_ids (kept_items items). long_id i \<longrightarrow> \<not> long_id (g i)) \<and>
     (\<forall>item \<in> set (kept_items items). \<forall>item' \<in> set (kept_items items).
        item_id (renamed g item) = item_id (renamed g item') \<longleftrightarrow> item_id item = item_id item') \<and>
     (changed \<longleftrightarrow> kept_items items \<noteq> items \<or> (\<exists>i \<in> item_ids (kept_items items). long_id i))"
proof -
  have "sanitize_from hash (occupied_ids items) [] items \<noteq> None"
    using distinct shorten_differs [OF _ len] card_occupied [of items]
    by (intro sanitize_from_total [where N = "2 * length items"]) (auto simp: occupied_ids_def)
  then obtain r c where run: "sanitize_from hash (occupied_ids items) [] items = Some (r, c)" by auto
  from sanitize_from_result [OF run] obtain g where g: "r = map (renamed g) (kept_items items)"
      "renaming_ok hash (occupied_ids items) [] (item_ids (kept_items items)) g"
      "c \<longleftrightarrow> (\<exists>item \<in> set items. should_drop_encrypted_reasoning item) \<or> (\<exists>i \<in> item_ids (kept_items items). long_id i)"
    by blast
  have free: "i \<in> item_ids (kept_items items) \<Longrightarrow> long_id i \<Longrightarrow> g i \<notin> occupied_ids items \<and> \<not> long_id (g i)" for i
    using g(2) shortened_is_short [OF len] unfolding renaming_ok_def by fastforce
  have inj: "inj_on g {i \<in> item_ids (kept_items items). long_id i}" using g(2) by (simp add: renaming_ok_def)
  have "item_id (renamed g item) = item_id (renamed g item') \<longleftrightarrow> item_id item = item_id item'"
    if "item \<in> set (kept_items items)" "item' \<in> set (kept_items items)" for item item'
  proof (cases "item_id item = None \<or> item_id item' = None")
    case True
    then show ?thesis by (auto simp: item_id_renamed)
  next
    case False
    then obtain i j where ij: "item_id item = Some i" "item_id item' = Some j" by auto
    then have mem: "i \<in> item_ids (kept_items items)" "j \<in> item_ids (kept_items items)"
      using that item_id_kept by blast+
    have "(if long_id i then g i else i) = (if long_id j then g j else j) \<longleftrightarrow> i = j"
      using free [OF mem(1)] free [OF mem(2)] inj mem by (auto simp: occupied_ids_kept dest: inj_onD)
    then show ?thesis by (simp add: item_id_renamed ij)
  qed
  moreover have "kept_items items \<noteq> items \<longleftrightarrow> (\<exists>item \<in> set items. should_drop_encrypted_reasoning item)"
    unfolding kept_items_def filter_id_conv by blast
  ultimately show ?thesis using run g(1,3) free by blast
qed

theorem item_names_stay_different_witness:
  "let hash = (\<lambda>s. replicate 15 (CHR ''a'') @ [last s]); items = [JObj [(''id'', JStr (replicate 70 (CHR ''x'')))]]
   in \<exists>g changed. sanitize_from hash (occupied_ids items) [] items = Some (map (renamed g) (kept_items items), changed) \<and>
        (\<forall>i \<in> item_ids (kept_items items). long_id i \<longrightarrow> \<not> long_id (g i))"
proof -
  let ?hash = "\<lambda>s. replicate 15 (CHR ''a'') @ [last s]"
  let ?x = "replicate 70 (CHR ''x'')"
  let ?items = "[JObj [(''id'', JStr ?x)]]"
  have "{0..2 * length ?items} = {0, 1, 2}" by auto
  moreover have "char_of (49 :: nat) = CHR ''1''" "char_of (50 :: nat) = CHR ''2''" by code_simp+
  ultimately have "inj_on (\<lambda>n. ?hash (id_hash_input ?x n)) {0..2 * length ?items}"
    by (simp add: id_hash_input_def dec_digits.simps)
  then have "inj_on (\<lambda>n. ?hash (id_hash_input i n)) {0..2 * length ?items}" if "i \<in> item_ids ?items" for i
    using that by (auto simp: item_ids_def item_id_def)
  from item_names_stay_different [of ?hash ?items, OF _ this] show ?thesis unfolding Let_def by auto
qed

section \<open>The rewriting before a request\<close>

text \<open>\<open>prepareCodexResponsesBodyForUpstream\<close>; a search for a name that does not end is \<open>None\<close>.\<close>

definition prepare_codex_responses_body ::
    "(string \<Rightarrow> json option) \<Rightarrow> (json \<Rightarrow> string option) \<Rightarrow> (string \<Rightarrow> string) \<Rightarrow> string \<Rightarrow> config \<Rightarrow> protocol \<Rightarrow> string
       \<Rightarrow> string \<Rightarrow> string option" where
  "prepare_codex_responses_body decode encode hash name cfg upstream path body =
     (if upstream \<noteq> codex \<or> detect_request_family path \<noteq> Responses then Some body
      else case (case decode body of Some (JObj doc) \<Rightarrow> sanitize_codex_input_item_ids hash doc | _ \<Rightarrow> Some None) of
        None \<Rightarrow> None
      | Some sanitized \<Rightarrow>
          let body1 = (case sanitized of None \<Rightarrow> body
                       | Some doc \<Rightarrow> (case encode (JObj doc) of None \<Rightarrow> body | Some b \<Rightarrow> b));
              body2 = (case normalize_codex_tool_search_input_items decode encode body1 of
                         None \<Rightarrow> body1 | Some b \<Rightarrow> b)
          in Some (if is_anyrouter_channel name cfg
                   then (case codex_body_without_tool_search_items decode encode body2 of
                           None \<Rightarrow> body2 | Some b \<Rightarrow> b)
                   else body2))"

text \<open>What is dropped is gone, and what stays keeps its order.\<close>

lemma dropped_items:
  assumes "drop_input_items p doc = Some doc'"
  shows "\<exists>items. input_items doc = Some items \<and> input_items doc' = Some (filter (\<lambda>i. \<not> item_drops p i) items) \<and>
     drop_input_items p doc' = None"
proof -
  obtain items where items: "input_items doc = Some items"
      "doc' = obj_put ''input'' (JArr (filter (\<lambda>i. \<not> item_drops p i) items)) doc"
    using assms by (auto simp: drop_input_items_def split: option.splits if_splits)
  then have "input_items doc' = Some (filter (\<lambda>i. \<not> item_drops p i) items)" by (simp add: input_items_def)
  then show ?thesis using items(1) by (simp add: drop_input_items_def list_ex_iff)
qed

text \<open>The thinking parts of a body.\<close>

definition thinking_free :: "members \<Rightarrow> bool" where
  "thinking_free doc \<longleftrightarrow> \<not> has_member ''reasoning'' doc \<and>
     (\<forall>vs. map_of doc ''include'' = Some (JArr vs) \<longrightarrow> (\<forall>v \<in> set vs. \<not> thinking_include v)) \<and>
     (\<forall>items. input_items doc = Some items \<longrightarrow> (\<forall>i \<in> set items. \<not> item_drops reasoning_item i))"

lemma or_same_snd [simp]: "snd (or_same f acc) \<longleftrightarrow> snd acc \<or> f (fst acc) \<noteq> None"
  by (auto simp: or_same_def split: option.splits)

definition kept_or :: "(members \<Rightarrow> members option) \<Rightarrow> members \<Rightarrow> members" where
  "kept_or f doc = (case f doc of None \<Rightarrow> doc | Some doc' \<Rightarrow> doc')"

lemma fst_or_same [simp]: "fst (or_same f acc) = kept_or f (fst acc)"
  by (auto simp: or_same_def kept_or_def split: option.splits)

lemma without_reasoning [simp]:
  "map_of (kept_or drop_reasoning doc) k = (if k = ''reasoning'' then None else map_of doc k)"
  by (auto simp: kept_or_def drop_reasoning_def has_member_def)

lemma filtered_include:
  "map_of (kept_or filter_codex_thinking_includes doc) k =
     (case map_of doc ''include'' of
        Some (JArr vs) \<Rightarrow>
          if k = ''include'' \<and> list_ex thinking_include vs
          then (if list_all thinking_include vs then None else Some (JArr (filter (\<lambda>v. \<not> thinking_include v) vs)))
          else map_of doc k
      | _ \<Rightarrow> map_of doc k)"
  by (auto simp: kept_or_def filter_codex_thinking_includes_def Let_def filter_empty_conv list_all_iff
      split: option.splits json.splits)

lemma dropped_input:
  "map_of (kept_or (drop_input_items p) doc) k =
     (case input_items doc of
        None \<Rightarrow> map_of doc k
      | Some items \<Rightarrow> if k = ''input'' then Some (JArr (filter (\<lambda>i. \<not> item_drops p i) items)) else map_of doc k)"
proof (cases "input_items doc")
  case (Some items)
  then have "map_of doc ''input'' = Some (JArr items)" by (auto simp: input_items_def split: option.splits json.splits)
  moreover have "filter (\<lambda>i. \<not> item_drops p i) items = items" if "\<not> list_ex (item_drops p) items"
    using that by (intro filter_True) (simp add: list_ex_iff)
  ultimately show ?thesis using Some by (auto simp: kept_or_def drop_input_items_def)
qed (simp add: kept_or_def drop_input_items_def)

lemma without_thinking_spec:
  "without_thinking doc =
     (if thinking_free doc then None
      else Some (kept_or (drop_input_items reasoning_item) (kept_or filter_codex_thinking_includes (kept_or drop_reasoning doc))))"
proof -
  let ?d1 = "kept_or drop_reasoning doc"
  let ?d2 = "kept_or filter_codex_thinking_includes ?d1"
  have inp: "input_items ?d2 = input_items doc"
    by (simp add: input_items_def filtered_include split: option.splits json.splits)
  have "drop_reasoning doc = None \<longleftrightarrow> \<not> has_member ''reasoning'' doc" by (simp add: drop_reasoning_def)
  moreover have "filter_codex_thinking_includes ?d1 = None \<longleftrightarrow>
      (\<forall>vs. map_of doc ''include'' = Some (JArr vs) \<longrightarrow> (\<forall>v \<in> set vs. \<not> thinking_include v))"
    by (simp add: filter_codex_thinking_includes_def Let_def list_ex_iff split: option.splits json.splits)
  moreover have "drop_input_items reasoning_item ?d2 = None \<longleftrightarrow>
      (\<forall>items. input_items doc = Some items \<longrightarrow> (\<forall>i \<in> set items. \<not> item_drops reasoning_item i))"
    by (simp add: drop_input_items_def inp list_ex_iff split: option.splits)
  ultimately show ?thesis
    unfolding without_thinking_def thinking_free_def
    by (simp add: case_prod_beta)
qed

text \<open>
  The body of the thinking repetition: when the reduction applies, nothing in the new body asks for
  reasoning any more and a second pass has nothing to do; it applies only to a body that did ask; the
  members other than \<open>reasoning\<close>, \<open>include\<close> and \<open>input\<close> are unchanged, and of the input items
  exactly the reasoning ones are gone.
\<close>

theorem reduced_body_is_free_of_thinking:
  assumes "without_thinking doc = Some doc'"
  shows "thinking_free doc' \<and> without_thinking doc' = None \<and> \<not> thinking_free doc \<and>
     (\<forall>k. k \<notin> {''reasoning'', ''include'', ''input''} \<longrightarrow> map_of doc' k = map_of doc k) \<and>
     (\<forall>items. input_items doc = Some items \<longrightarrow>
        input_items doc' = Some (filter (\<lambda>i. \<not> item_drops reasoning_item i) items))"
proof -
  have doc': "doc' = kept_or (drop_input_items reasoning_item) (kept_or filter_codex_thinking_includes (kept_or drop_reasoning doc))"
    and had: "\<not> thinking_free doc"
    using assms by (auto simp: without_thinking_spec split: if_splits)
  have free: "thinking_free doc'"
    unfolding doc' thinking_free_def
    by (auto simp: has_member_def input_items_def dropped_input filtered_include list_ex_iff split: option.splits json.splits if_splits)
  then show ?thesis using had
    by (auto simp: without_thinking_spec doc' dropped_input filtered_include input_items_def
        split: option.splits json.splits)
qed

theorem reduced_body_is_free_of_thinking_witness:
  "\<exists>doc'. without_thinking [(''reasoning'', JNull), (''model'', JStr ''m'')] = Some doc' \<and>
     map_of doc' ''model'' = Some (JStr ''m'') \<and> thinking_free doc'"
proof -
  let ?doc = "[(''reasoning'', JNull), (''model'', JStr ''m'')]"
  have "\<not> thinking_free ?doc" by (simp add: thinking_free_def has_member_def)
  then obtain doc' where d: "without_thinking ?doc = Some doc'" by (simp add: without_thinking_spec)
  from reduced_body_is_free_of_thinking [OF d] have "map_of doc' ''model'' = map_of ?doc ''model''" "thinking_free doc'"
    by auto
  then show ?thesis using d by auto
qed

end
