(* ===== verification/Request_Body.thy ===== *)
theory Request_Body
  imports Codex_Retry
begin

text \<open>
  The request a channel receives: body, path and address of one attempt, from
  \<open>internal/app/proxy_util.go\<close> (\<open>prepareRequestBody\<close>, \<open>replaceJSONRequestModel\<close>,
  \<open>stripAnthropicBillingHeaders\<close>, \<open>replaceModelInPath\<close>, \<open>buildUpstreamURL\<close>).

  Bodies are rewritten on their JSON tree (see \<open>Codex_Retry\<close>): \<open>decode\<close> and \<open>encode\<close> stand for
  \<open>sonic\<close>.  The code keeps the members it does not touch as raw text, so their encoding is not
  altered; on the tree that is the same value.  \<open>query\<close> stands for \<open>net/url\<close>: it takes the query
  apart into names and values.
\<close>

section \<open>The model in body and path\<close>

text \<open>
  \<open>None\<close>: the run-time panic of Go.  The body \<open>null\<close> is decoded into a nil map without an error,
  and the assignment to it panics.
\<close>

definition replace_json_request_model ::
    "(string \<Rightarrow> json option) \<Rightarrow> (json \<Rightarrow> string option) \<Rightarrow> string \<Rightarrow> string \<Rightarrow> string \<Rightarrow> string option" where
  "replace_json_request_model decode encode body original actual =
     (if body = '''' \<or> actual = '''' \<or> actual = original then Some body
      else case decode body of
        Some (JObj doc) \<Rightarrow>
          Some (case encode (JObj (obj_put ''model'' (JStr actual) doc)) of None \<Rightarrow> body | Some b \<Rightarrow> b)
      | Some JNull \<Rightarrow> None
      | _ \<Rightarrow> Some body)"

text \<open>\<open>strings.Index\<close>: the text before and after the first occurrence.\<close>

fun split_at_first :: "string \<Rightarrow> string \<Rightarrow> (string \<times> string) option" where
  "split_at_first s sub =
     (if prefix sub s then Some ([], drop (length sub) s)
      else case s of
        [] \<Rightarrow> None
      | c # cs \<Rightarrow> map_option (\<lambda>(a, b). (c # a, b)) (split_at_first cs sub))"

declare split_at_first.simps [simp del]

definition replace_model_in_path :: "string \<Rightarrow> string \<Rightarrow> string \<Rightarrow> string" where
  "replace_model_in_path path original actual =
     (if original = '''' \<or> actual = '''' \<or> original = actual then path
      else case split_at_first path (''/models/'' @ original) of
        None \<Rightarrow> path
      | Some (before, after) \<Rightarrow>
          if after \<noteq> '''' \<and> hd after \<noteq> CHR '':'' \<and> hd after \<noteq> CHR ''/'' then path
          else before @ ''/models/'' @ actual @ after)"

section \<open>Billing headers in the system prompt\<close>

definition anthropic_billing_header_prefix :: string where
  "anthropic_billing_header_prefix = ''x-anthropic-billing-header:''"
text \<open>\<open>strings.Cut(part, "=")\<close>: the key of a part, none without a separator.\<close>

definition cut_key :: "string \<Rightarrow> string option" where
  "cut_key part = (if CHR ''='' \<in> set part then Some (takeWhile (\<lambda>c. c \<noteq> CHR ''='') part) else None)"

text \<open>Whether the parts are all pairs with a key, and the keys.\<close>

primrec pair_keys :: "string list \<Rightarrow> string list option" where
  "pair_keys [] = Some []"
| "pair_keys (p # ps) =
     (let part = trim_space p in
      if part = '''' then pair_keys ps
      else case cut_key part of
        None \<Rightarrow> None
      | Some k \<Rightarrow> if trim_space k = '''' then None else map_option ((#) (trim_space k)) (pair_keys ps))"

definition known_billing_keys :: "string list" where
  "known_billing_keys = [''cc_version'', ''cc_entrypoint'', ''cch'']"

definition type_text_field :: "string \<Rightarrow> json \<Rightarrow> string \<times> string \<Rightarrow> (string \<times> string) option" where
  "type_text_field k v p =
     (if equal_fold k ''type'' then map_option (\<lambda>s. (s, snd p)) (dec_string v (fst p))
      else if equal_fold k ''text'' then map_option (\<lambda>s. (fst p, s)) (dec_string v (snd p))
      else Some p)"

definition is_billing_header_block :: "json \<Rightarrow> bool" where
  "is_billing_header_block raw =
     (case dec_struct type_text_field raw ('''', '''') of
        None \<Rightarrow> False
      | Some (typ, txt) \<Rightarrow>
          typ = ''text'' \<and>
          (let t = trim_space txt;
               payload = trim_space (drop (length anthropic_billing_header_prefix) t)
           in prefix anthropic_billing_header_prefix t \<and> payload \<noteq> '''' \<and>
              (case pair_keys (split_on (CHR '';'') payload) of
                 None \<Rightarrow> False
               | Some keys \<Rightarrow> list_ex (\<lambda>k. k \<in> set known_billing_keys) keys)))"

definition strip_billing :: "members \<Rightarrow> members option" where
  "strip_billing doc =
     (case map_of doc ''system'' of
        Some (JArr blocks) \<Rightarrow>
          if \<not> list_ex is_billing_header_block blocks then None
          else let kept = filter (\<lambda>b. \<not> is_billing_header_block b) blocks
               in Some (if kept = [] then obj_delete ''system'' doc else obj_put ''system'' (JArr kept) doc)
      | _ \<Rightarrow> None)"

definition strip_anthropic_billing_headers ::
    "(string \<Rightarrow> json option) \<Rightarrow> (json \<Rightarrow> string option) \<Rightarrow> string \<Rightarrow> string" where
  "strip_anthropic_billing_headers decode encode body =
     (if \<not> str_contains body anthropic_billing_header_prefix then body
      else case rewrite_body decode encode strip_billing body of None \<Rightarrow> body | Some b \<Rightarrow> b)"

section \<open>The prepared request\<close>

record proxy_request =
  rq_original_model :: string
  rq_client_protocol :: protocol
  rq_path :: string
  rq_raw_query :: string
  rq_body :: string
  rq_header :: header
  rq_streaming :: bool
  rq_token_hash :: string

definition header_get :: "header \<Rightarrow> string \<Rightarrow> string" where
  "header_get h name = (case h (canonical_key name) of [] \<Rightarrow> '''' | v # vs \<Rightarrow> v)"

definition is_native_claude_code_request :: "proxy_request \<Rightarrow> bool" where
  "is_native_claude_code_request rq \<longleftrightarrow>
     rq_client_protocol rq = anthropic \<and> str_contains (rq_body rq) anthropic_billing_header_prefix \<and>
     prefix ''claude-cli/'' (to_lower (trim_space (header_get (rq_header rq) ''User-Agent''))) \<and>
     equal_fold (trim_space (header_get (rq_header rq) ''X-App'')) ''cli'' \<and>
     str_contains (to_lower (header_get (rq_header rq) ''Anthropic-Beta'')) ''claude-code-'' \<and>
     trim_space (header_get (rq_header rq) ''X-Claude-Code-Session-Id'') \<noteq> ''''"

definition prepare_request_body ::
    "(string \<Rightarrow> json option) \<Rightarrow> (json \<Rightarrow> string option) \<Rightarrow> registry \<Rightarrow> config \<Rightarrow> proxy_request \<Rightarrow> protocol
       \<Rightarrow> (string \<times> string) option" where
  "prepare_request_body decode encode r cfg rq upstream =
     (let actual = resolve_final_upstream_model decode r cfg (rq_original_model rq) upstream;
          body = (if rq_client_protocol rq = anthropic \<and>
                     (upstream \<noteq> anthropic \<or> \<not> is_native_claude_code_request rq)
                  then strip_anthropic_billing_headers decode encode (rq_body rq) else rq_body rq)
      in map_option (Pair actual) (replace_json_request_model decode encode body (rq_original_model rq) actual))"

text \<open>\<open>strings.TrimRight(s, "/")\<close>, and the query without the key of the client.\<close>

definition trim_right_slash :: "string \<Rightarrow> string" where
  "trim_right_slash s = rev (dropWhile (\<lambda>c. c = CHR ''/'') (rev s))"

record url_library =
  ul_parse_query :: "string \<Rightarrow> (string \<times> string) list option"
  ul_encode_query :: "(string \<times> string) list \<Rightarrow> string"

definition build_upstream_url :: "url_library \<Rightarrow> string \<Rightarrow> string \<Rightarrow> string \<Rightarrow> string" where
  "build_upstream_url lib base path raw_query =
     (let bare = strip_exact_upstream_url_marker base;
          u = (if has_exact_upstream_url_marker base then bare else trim_right_slash bare @ path);
          q = (if raw_query = '''' then raw_query
               else case ul_parse_query lib raw_query of
                 None \<Rightarrow> raw_query
               | Some values \<Rightarrow> ul_encode_query lib (filter (\<lambda>(k, v). k \<noteq> ''key'') values))
      in if q \<noteq> '''' then u @ ''?'' @ q else u)"

section \<open>What is sent\<close>

text \<open>
  A request whose body is \<open>null\<close> and whose model is named by the path stops with a panic as soon as
  the channel uses another name for the model.
\<close>

theorem null_body_panics:
  assumes "decode body = Some JNull" "body \<noteq> ''''" "actual \<noteq> ''''" "actual \<noteq> original"
  shows "replace_json_request_model decode encode body original actual = None"
  using assms by (simp add: replace_json_request_model_def)

theorem null_body_panics_witness:
  "replace_json_request_model (\<lambda>s. if s = ''null'' then Some JNull else None) (\<lambda>v. None) ''null'' ''a'' ''b'' = None"
  by (rule null_body_panics) simp_all

text \<open>Billing headers are gone from the system prompt, other blocks and members stay.\<close>

lemma strip_billing_result:
  assumes "strip_billing doc = Some doc'"
  shows "strip_billing doc' = None \<and> (\<forall>k. k \<noteq> ''system'' \<longrightarrow> map_of doc' k = map_of doc k) \<and>
     (\<exists>blocks. map_of doc ''system'' = Some (JArr blocks) \<and>
        map_of doc' ''system'' = (let kept = filter (\<lambda>b. \<not> is_billing_header_block b) blocks
                                  in if kept = [] then None else Some (JArr kept)))"
proof -
  obtain blocks where b: "map_of doc ''system'' = Some (JArr blocks)" "list_ex is_billing_header_block blocks"
    using assms by (auto simp: strip_billing_def split: option.splits json.splits if_splits)
  let ?kept = "filter (\<lambda>b. \<not> is_billing_header_block b) blocks"
  have doc': "doc' = (if ?kept = [] then obj_delete ''system'' doc else obj_put ''system'' (JArr ?kept) doc)"
    using assms b by (simp add: strip_billing_def Let_def)
  then show ?thesis using b(1) by (auto simp: strip_billing_def Let_def list_ex_iff)
qed

end
