(* ===== verification/Candidate_Selection.thy ===== *)
theory Candidate_Selection
  imports Model_Routing Health_Balancing Channel_Cache
begin

text \<open>
  Choosing the channels of a request: \<open>internal/app/selector.go\<close>, \<open>selector_cooldown.go\<close>,
  \<open>selector_sticky.go\<close> and \<open>cost_cache.go\<close>.

  What the selection reads from its surroundings is the record \<open>selector_env\<close>: the clock readings,
  the answers of the cached queries (\<open>None\<close> for an error), the cost cache, the health cache and the
  settings.  Its state is the rotation of the balancer and the sticky routes.  Channels are not nil.
  Costs are real numbers.
\<close>

section \<open>Sticky routes\<close>

type_synonym sticky_routes = "string \<times> string \<Rightarrow> (int \<times> time) option"

definition route_strategy_balanced :: string where "route_strategy_balanced = ''balanced''"
definition route_strategy_sticky :: string where "route_strategy_sticky = ''sticky''"
definition sticky_entry_ttl :: duration where "sticky_entry_ttl = 30 * minute"

definition new_sticky_router :: sticky_routes where "new_sticky_router = (\<lambda>k. None)"

definition sticky_scope_key :: "string \<Rightarrow> string" where
  "sticky_scope_key token_hash =
     (let t = trim_space token_hash in if t = '''' then ''anonymous'' else ''token:'' @ t)"

definition remember :: "sticky_routes \<Rightarrow> string \<Rightarrow> string \<Rightarrow> int \<Rightarrow> time \<Rightarrow> sticky_routes" where
  "remember r scope model_name channel now =
     (if scope = '''' \<or> model_name = '''' \<or> channel \<le> 0 then r
      else r((scope, model_name) \<mapsto> (channel, now)))"

definition forget_route :: "sticky_routes \<Rightarrow> string \<Rightarrow> string \<Rightarrow> sticky_routes" where
  "forget_route r scope model_name =
     (if scope = '''' \<or> model_name = '''' then r else r((scope, model_name) := None))"

definition forget_channel :: "sticky_routes \<Rightarrow> int \<Rightarrow> sticky_routes" where
  "forget_channel r channel =
     (\<lambda>k. case r k of None \<Rightarrow> None | Some (c, t) \<Rightarrow> if c = channel then None else Some (c, t))"

definition preferred :: "sticky_routes \<Rightarrow> string \<Rightarrow> string \<Rightarrow> time \<Rightarrow> int \<times> sticky_routes" where
  "preferred r scope model_name now =
     (if scope = '''' \<or> model_name = '''' then (0, r)
      else case r (scope, model_name) of
        None \<Rightarrow> (0, r)
      | Some (c, t) \<Rightarrow>
          if time_sub now t > sticky_entry_ttl then (0, forget_route r scope model_name) else (c, r))"

definition sticky_snapshot :: "sticky_routes \<Rightarrow> string \<Rightarrow> string \<Rightarrow> time \<Rightarrow> (int \<times> time) option" where
  "sticky_snapshot r scope model_name now =
     (if scope = '''' \<or> model_name = '''' then None
      else case r (scope, model_name) of
        None \<Rightarrow> None
      | Some (c, t) \<Rightarrow> if time_sub now t > sticky_entry_ttl then None else Some (c, t))"

definition sticky_cleanup :: "sticky_routes \<Rightarrow> duration \<Rightarrow> time \<Rightarrow> sticky_routes" where
  "sticky_cleanup r max_age now =
     (if max_age \<le> 0 then r
      else (\<lambda>k. case r k of None \<Rightarrow> None | Some (c, t) \<Rightarrow> if t < now - max_age then None else Some (c, t)))"

definition normalize_route_strategy :: "string \<Rightarrow> string" where
  "normalize_route_strategy v = (if v = route_strategy_sticky then route_strategy_sticky else route_strategy_balanced)"

definition apply_sticky_preference :: "config list \<Rightarrow> int \<Rightarrow> config list" where
  "apply_sticky_preference channels preferred_id =
     (if length channels \<le> 1 \<or> preferred_id \<le> 0 then channels
      else if cfg_id (hd channels) = preferred_id then channels
      else case find_index (\<lambda>c. cfg_id c = preferred_id) channels of
        None \<Rightarrow> channels
      | Some i \<Rightarrow> if cfg_priority (channels ! i) \<noteq> cfg_priority (hd channels) then channels
                   else move_to_front i channels)"

section \<open>Daily costs\<close>

text \<open>The start of a day is the function \<open>midnight\<close> of the local time zone.\<close>

record cost_cache =
  co_costs :: "int \<Rightarrow> real option"
  co_day_start :: time

definition new_cost_cache :: "(time \<Rightarrow> time) \<Rightarrow> time \<Rightarrow> cost_cache" where
  "new_cost_cache midnight now = \<lparr>co_costs = (\<lambda>c. None), co_day_start = midnight now\<rparr>"

definition check_and_reset_if_new_day :: "(time \<Rightarrow> time) \<Rightarrow> cost_cache \<Rightarrow> time \<Rightarrow> cost_cache" where
  "check_and_reset_if_new_day midnight c now =
     (let today = midnight now
      in if today \<noteq> co_day_start c then \<lparr>co_costs = (\<lambda>c. None), co_day_start = today\<rparr> else c)"

definition cost_of :: "cost_cache \<Rightarrow> int \<Rightarrow> real" where
  "cost_of c channel = (case co_costs c channel of Some v \<Rightarrow> v | None \<Rightarrow> 0)"

definition cost_add :: "(time \<Rightarrow> time) \<Rightarrow> cost_cache \<Rightarrow> int \<Rightarrow> real \<Rightarrow> time \<Rightarrow> cost_cache" where
  "cost_add midnight c channel cost now =
     (if cost \<le> 0 then c
      else let c' = check_and_reset_if_new_day midnight c now
           in c'\<lparr>co_costs := (co_costs c')(channel \<mapsto> cost_of c' channel + cost)\<rparr>)"

definition cost_get :: "(time \<Rightarrow> time) \<Rightarrow> cost_cache \<Rightarrow> int \<Rightarrow> time \<Rightarrow> real \<times> cost_cache" where
  "cost_get midnight c channel now =
     (let c' = check_and_reset_if_new_day midnight c now in (cost_of c' channel, c'))"

definition cost_get_all :: "(time \<Rightarrow> time) \<Rightarrow> cost_cache \<Rightarrow> time \<Rightarrow> (int \<Rightarrow> real option) \<times> cost_cache" where
  "cost_get_all midnight c now =
     (let c' = check_and_reset_if_new_day midnight c now in (co_costs c', c'))"

definition cost_load :: "(time \<Rightarrow> time) \<Rightarrow> cost_cache \<Rightarrow> (int \<Rightarrow> real option) \<Rightarrow> time \<Rightarrow> cost_cache" where
  "cost_load midnight c costs now = \<lparr>co_costs = costs, co_day_start = midnight now\<rparr>"

text \<open>\<open>costs\<close> is \<open>None\<close> without a cost cache.\<close>

definition filter_cost_limit_exceeded :: "(int \<Rightarrow> real option) option \<Rightarrow> config list \<Rightarrow> config list" where
  "filter_cost_limit_exceeded costs channels =
     (case costs of
        None \<Rightarrow> channels
      | Some used \<Rightarrow>
          if \<not> list_ex (\<lambda>ch. cfg_daily_cost_limit ch > 0) channels then channels
          else filter (\<lambda>ch. cfg_daily_cost_limit ch \<le> 0 \<or>
                 (case used (cfg_id ch) of Some v \<Rightarrow> v | None \<Rightarrow> 0) < cfg_daily_cost_limit ch) channels)"

section \<open>Cooldowns of a channel\<close>

definition wildcard :: "string \<Rightarrow> bool" where
  "wildcard m \<longleftrightarrow> m = '''' \<or> m = ''*''"

text \<open>The loop over the possible models; an empty map of the channel fails on the first one.\<close>

primrec earliest_until :: "(string \<Rightarrow> time option) \<Rightarrow> time \<Rightarrow> string list \<Rightarrow> time \<Rightarrow> time option" where
  "earliest_until models clock [] earliest = Some earliest"
| "earliest_until models clock (m # ms) earliest =
     (case models m of
        None \<Rightarrow> None
      | Some until \<Rightarrow>
          if \<not> until > clock then None
          else earliest_until models clock ms
                 (if is_zero earliest \<or> until < earliest then until else earliest))"

definition model_cooldown_until ::
    "(string \<Rightarrow> time option) \<Rightarrow> string list \<Rightarrow> string \<Rightarrow> time \<Rightarrow> time option" where
  "model_cooldown_until models possible wanted clock =
     (if wildcard wanted \<or> possible = [] then None
      else earliest_until models clock possible zero_time)"

definition all_keys_cooling :: "config \<Rightarrow> (int \<times> time) list option \<Rightarrow> time \<Rightarrow> bool" where
  "all_keys_cooling ch keys now =
     (case keys of
        None \<Rightarrow> False
      | Some ks \<Rightarrow> cfg_key_count ch > 0 \<and> int (length ks) \<ge> cfg_key_count ch \<and>
                   list_all (\<lambda>(k, until). until > now) ks)"

record cooldown_view =
  cv_channels :: channel_cooldowns
  cv_keys :: key_cooldowns
  cv_models :: model_cooldowns

definition cooled :: "cooldown_view \<Rightarrow> (config \<Rightarrow> string list) \<Rightarrow> string \<Rightarrow> time \<Rightarrow> time \<Rightarrow> config \<Rightarrow> bool" where
  "cooled v possible wanted now clock cfg \<longleftrightarrow>
     (case cv_channels v (cfg_id cfg) of Some until \<Rightarrow> until > now | None \<Rightarrow> False) \<or>
     (case model_cooldown_until (cv_models v (cfg_id cfg)) (possible cfg) wanted clock of
        Some until \<Rightarrow> until > now | None \<Rightarrow> False) \<or>
     all_keys_cooling cfg (cv_keys v (cfg_id cfg)) now"

definition filter_cooled_channels ::
    "cooldown_view \<Rightarrow> (config \<Rightarrow> string list) \<Rightarrow> string \<Rightarrow> time \<Rightarrow> time \<Rightarrow> config list \<Rightarrow> config list" where
  "filter_cooled_channels v possible wanted now clock channels =
     filter (\<lambda>cfg. \<not> cooled v possible wanted now clock cfg) channels"

text \<open>When a channel recovers: the latest of its channel and model cooldown and its first key.\<close>

definition first_key :: "(int \<times> time) list \<Rightarrow> time" where
  "first_key ks = foldl (\<lambda>earliest (k, until). if is_zero earliest \<or> until < earliest then until else earliest)
     zero_time ks"

definition ready_at :: "cooldown_view \<Rightarrow> (config \<Rightarrow> string list) \<Rightarrow> string \<Rightarrow> time \<Rightarrow> time \<Rightarrow> config \<Rightarrow> time" where
  "ready_at v possible wanted now clock ch =
     (let later = (\<lambda>t until. case until of Some u \<Rightarrow> if u > t then u else t | None \<Rightarrow> t);
          r1 = later now (cv_channels v (cfg_id ch));
          r2 = later r1 (model_cooldown_until (cv_models v (cfg_id ch)) (possible ch) wanted clock)
      in case cv_keys v (cfg_id ch) of
           None \<Rightarrow> r2
         | Some ks \<Rightarrow>
             if all_keys_cooling ch (Some ks) now \<and> \<not> is_zero (first_key ks) \<and> first_key ks > r2
             then first_key ks else r2)"

definition better_fallback :: "(config \<Rightarrow> time) \<Rightarrow> (config \<Rightarrow> real) \<Rightarrow> config \<Rightarrow> config \<Rightarrow> bool" where
  "better_fallback ready eff a b \<longleftrightarrow>
     (if ready a \<noteq> ready b then ready a < ready b
      else if eff a \<noteq> eff b then eff a > eff b
      else cfg_priority a > cfg_priority b)"

text \<open>\<open>slices.MinFunc\<close> keeps the first of equal ones.\<close>

primrec min_from :: "('a \<Rightarrow> 'a \<Rightarrow> bool) \<Rightarrow> 'a list \<Rightarrow> 'a \<Rightarrow> 'a" where
  "min_from better [] best = best"
| "min_from better (x # xs) best = min_from better xs (if better x best then x else best)"

definition pick_best_channel_when_all_cooled ::
    "(config \<Rightarrow> time) \<Rightarrow> (config \<Rightarrow> real) \<Rightarrow> config list \<Rightarrow> config option" where
  "pick_best_channel_when_all_cooled ready eff channels =
     (case channels of [] \<Rightarrow> None | c # cs \<Rightarrow> Some (min_from (better_fallback ready eff) cs c))"

section \<open>Filtering\<close>

record selector_env =
  se_now :: time
  se_filter_clock :: time
  se_fallback_clock :: time
  se_now_tod :: int
  se_sha :: "string \<Rightarrow> string"
  se_decode :: "string \<Rightarrow> json option"
  se_registry :: registry
  se_channel_cooldowns :: "channel_cooldowns option"
  se_key_cooldowns :: "key_cooldowns option"
  se_model_cooldowns :: "model_cooldowns option"
  se_costs :: "(int \<Rightarrow> real option) option"
  se_fallback_enabled :: bool
  se_health :: "(health_score_config \<times> health_snapshot) option"
  se_route_strategy :: string

record selector_state =
  ss_rotation :: rr_states
  ss_sticky :: sticky_routes

definition cooldown_view_of :: "selector_env \<Rightarrow> string \<Rightarrow> cooldown_view" where
  "cooldown_view_of env wanted =
     \<lparr>cv_channels = (case se_channel_cooldowns env of Some m \<Rightarrow> m | None \<Rightarrow> (\<lambda>c. None)),
      cv_keys = (case se_key_cooldowns env of Some m \<Rightarrow> m | None \<Rightarrow> (\<lambda>c. None)),
      cv_models = (if wildcard wanted then (\<lambda>c m. None)
                   else case se_model_cooldowns env of Some m \<Rightarrow> m | None \<Rightarrow> (\<lambda>c m. None))\<rparr>"

definition order_candidates ::
    "selector_env \<Rightarrow> selector_state \<Rightarrow> config list \<Rightarrow> key_cooldowns \<Rightarrow> string \<Rightarrow> config list \<times> rr_states" where
  "order_candidates env s filtered keys universe =
     (case se_health env of
        Some (hcfg, snapshot) \<Rightarrow>
          if hc_enabled hcfg
          then sort_channels_by_health (ss_rotation s) snapshot hcfg filtered keys (se_now env) universe
          else balance_same_priority_channels (ss_rotation s) filtered keys (se_now env) universe
      | None \<Rightarrow> balance_same_priority_channels (ss_rotation s) filtered keys (se_now env) universe)"

definition fallback_priority :: "selector_env \<Rightarrow> config list \<Rightarrow> config \<Rightarrow> real" where
  "fallback_priority env channels ch =
     (case se_health env of
        Some (hcfg, snapshot) \<Rightarrow>
          if hc_enabled hcfg then health_priority snapshot hcfg channels ch else real_of_int (cfg_priority ch)
      | None \<Rightarrow> real_of_int (cfg_priority ch))"

definition cooldown_fallback_candidate :: "config \<Rightarrow> config" where
  "cooldown_fallback_candidate cfg = cfg\<lparr>cfg_cooldown_fallback := True\<rparr>"

definition filter_cooldown_channels_internal ::
    "selector_env \<Rightarrow> selector_state \<Rightarrow> config list \<Rightarrow> string \<Rightarrow> string \<Rightarrow> string \<Rightarrow> bool
       \<Rightarrow> config list \<times> selector_state" where
  "filter_cooldown_channels_internal env s channels wanted request_protocol sticky_scope allow_fallback =
     (if channels = [] then (channels, s)
      else
        let universe = rr_universe_key (se_sha env) channels;
            available = filter (\<lambda>c. is_available_at c (se_now_tod env)) channels;
            affordable = filter_cost_limit_exceeded (se_costs env) available;
            v = cooldown_view_of env wanted;
            possible = (\<lambda>cfg. possible_actual_models (se_decode env) (se_registry env) cfg wanted request_protocol);
            filtered = filter_cooled_channels v possible wanted (se_now env) (se_filter_clock env) affordable
        in if affordable = [] then ([], s)
           else if filtered = [] then
             (if \<not> allow_fallback \<or> \<not> se_fallback_enabled env then ([], s)
              else (case pick_best_channel_when_all_cooled
                       (ready_at v possible wanted (se_now env) (se_fallback_clock env))
                       (fallback_priority env affordable) affordable of
                  Some best \<Rightarrow> ([cooldown_fallback_candidate best], s)
                | None \<Rightarrow> ([], s)))
           else
             let (ordered, rotation) = order_candidates env s filtered (cv_keys v) universe;
                 s' = s\<lparr>ss_rotation := rotation\<rparr>
             in if \<not> wildcard wanted \<and>
                   normalize_route_strategy (se_route_strategy env) = route_strategy_sticky
                then let (c, sticky) = preferred (ss_sticky s') sticky_scope wanted (se_now env)
                     in (apply_sticky_preference ordered c, s'\<lparr>ss_sticky := sticky\<rparr>)
                else (ordered, s'))"

section \<open>The selector\<close>

definition normalize_optional_protocol :: "string \<Rightarrow> string" where
  "normalize_optional_protocol value =
     (let v = trim_space value in if v = '''' then '''' else to_lower (trim_space v))"

text \<open>\<open>enabled\<close> is the cached query for the enabled channels of a model.\<close>

primrec merge_channels :: "(string \<Rightarrow> config list option) \<Rightarrow> string list \<Rightarrow> config list \<Rightarrow> config list option" where
  "merge_channels enabled [] merged = Some merged"
| "merge_channels enabled (name # names) merged =
     (case enabled name of
        None \<Rightarrow> None
      | Some channels \<Rightarrow>
          merge_channels enabled names (merged @ dedup_loop cfg_id (map cfg_id merged) channels))"

definition get_enabled_by_unified_model ::
    "registry \<Rightarrow> (string \<Rightarrow> config list option) \<Rightarrow> string \<Rightarrow> config list option" where
  "get_enabled_by_unified_model r enabled m =
     (if m = ''*'' \<or> r = None then enabled m
      else let names = names_for r m
           in if length names \<le> 1 then enabled m else merge_channels enabled names [])"

definition select_candidates_by_client_protocol ::
    "selector_env \<Rightarrow> selector_state \<Rightarrow> (string \<Rightarrow> config list option) \<Rightarrow> string \<Rightarrow> string
       \<Rightarrow> config list option \<times> selector_state" where
  "select_candidates_by_client_protocol env s enabled client_protocol sticky_scope =
     (case enabled ''*'' of
        None \<Rightarrow> (None, s)
      | Some channels \<Rightarrow>
          let (r, s') = filter_cooldown_channels_internal env s channels ''*'' client_protocol sticky_scope True
          in (Some r, s'))"

text \<open>
  The second and third filtering run later than the first one: each has its own surroundings.
\<close>

definition select_candidates_by_model ::
    "selector_env \<Rightarrow> selector_env \<Rightarrow> selector_env \<Rightarrow> selector_state \<Rightarrow> (string \<Rightarrow> config list option)
       \<Rightarrow> config list option \<Rightarrow> string \<Rightarrow> string \<Rightarrow> string \<Rightarrow> config list option \<times> selector_state" where
  "select_candidates_by_model env1 env2 env3 s enabled list_configs m client_protocol sticky_scope =
     (let p = normalize_optional_protocol client_protocol in
      case get_enabled_by_unified_model (se_registry env1) enabled m of
        None \<Rightarrow> (None, s)
      | Some channels \<Rightarrow>
          let (filtered, s1) = filter_cooldown_channels_internal env1 s channels m p sticky_scope False
          in if filtered \<noteq> [] then (Some filtered, s1)
             else
               let source = (if m = ''*'' then Some []
                             else case enabled ''*'' of
                               None \<Rightarrow> None
                             | Some [] \<Rightarrow> list_configs
                             | Some cs \<Rightarrow> Some cs)
               in case source of
                    None \<Rightarrow> (None, s1)
                  | Some cs \<Rightarrow>
                      let candidates = filter (\<lambda>c. cfg_enabled c \<and> config_supports_model (se_registry env1) c m) cs;
                          (filtered2, s2) = filter_cooldown_channels_internal env2 s1 candidates m p sticky_scope False
                      in if filtered2 \<noteq> [] then (Some filtered2, s2)
                         else let (r, s3) = filter_cooldown_channels_internal env3 s2 candidates m p sticky_scope True
                              in (Some r, s3))"

text \<open>\<open>url_path\<close> is \<open>url.Parse\<close> followed by the field \<open>Path\<close>.\<close>

definition alpha_search_upstream_urls ::
    "(string \<Rightarrow> string option) \<Rightarrow> capability_cache \<Rightarrow> time \<Rightarrow> config \<Rightarrow> string list \<times> capability_cache" where
  "alpha_search_upstream_urls url_path cache now cfg =
     foldl (\<lambda>(compatible, c) raw.
       let key = \<lparr>ck_channel = cfg_id cfg, ck_base_url = raw, ck_client = codex, ck_family = AlphaSearch\<rparr>;
           ((cached, known), c') = capability_get c key now
       in if known \<and> cached = protocol_unsupported then (compatible, c')
          else if \<not> has_exact_upstream_url_marker raw then (compatible @ [raw], c')
          else case url_path (strip_exact_upstream_url_marker raw) of
            None \<Rightarrow> (compatible, c')
          | Some path \<Rightarrow>
              if detect_request_family path = AlphaSearch then (compatible @ [raw], c') else (compatible, c'))
       ([], cache) (get_urls cfg)"

definition narrow_urls :: "config \<Rightarrow> string list \<Rightarrow> config" where
  "narrow_urls cfg urls =
     (if length urls \<noteq> length (get_urls cfg)
      then cfg\<lparr>cfg_urls := filter (\<lambda>entry. runtime_url entry \<in> set urls) (cfg_urls cfg)\<rparr> else cfg)"

definition alpha_search_candidates ::
    "(string \<Rightarrow> string option) \<Rightarrow> capability_cache \<Rightarrow> time \<Rightarrow> config list \<Rightarrow> config list \<times> capability_cache" where
  "alpha_search_candidates url_path cache now channels =
     foldl (\<lambda>(compatible, c) cfg.
       let (urls, c') = alpha_search_upstream_urls url_path c now cfg
       in if urls = [] then (compatible, c') else (compatible @ [narrow_urls cfg urls], c'))
       ([], cache) channels"

definition select_alpha_search_candidates ::
    "(string \<Rightarrow> string option) \<Rightarrow> selector_env \<Rightarrow> selector_state \<Rightarrow> capability_cache \<Rightarrow> (string \<Rightarrow> config list option)
       \<Rightarrow> string \<Rightarrow> string \<Rightarrow> config list option \<times> selector_state \<times> capability_cache" where
  "select_alpha_search_candidates url_path env s cache enabled model_name sticky_scope =
     (let route_model = (if model_name = '''' then ''*'' else model_name) in
      case enabled route_model of
        None \<Rightarrow> (None, s, cache)
      | Some channels \<Rightarrow>
          let (compatible, cache') = alpha_search_candidates url_path cache (se_now env) channels;
              (r, s') = filter_cooldown_channels_internal env s compatible route_model codex sticky_scope True
          in (Some r, s', cache'))"

section \<open>What a filtering returns\<close>

definition within_cost :: "(int \<Rightarrow> real option) option \<Rightarrow> config \<Rightarrow> bool" where
  "within_cost costs ch \<longleftrightarrow>
     (case costs of
        None \<Rightarrow> True
      | Some used \<Rightarrow> cfg_daily_cost_limit ch \<le> 0 \<or>
          (case used (cfg_id ch) of Some v \<Rightarrow> v | None \<Rightarrow> 0) < cfg_daily_cost_limit ch)"

lemma filter_cost_limit: "filter_cost_limit_exceeded costs channels = filter (within_cost costs) channels"
proof (cases costs)
  case (Some used)
  show ?thesis
  proof (cases "list_ex (\<lambda>ch. cfg_daily_cost_limit ch > 0) channels")
    case False
    then have "\<forall>ch \<in> set channels. within_cost costs ch"
      using Some by (auto simp: within_cost_def list_ex_iff)
    then have "filter (within_cost costs) channels = channels" by (simp add: filter_id_conv)
    then show ?thesis using False Some by (simp add: filter_cost_limit_exceeded_def)
  qed (simp add: filter_cost_limit_exceeded_def within_cost_def [abs_def] Some)
qed (simp add: filter_cost_limit_exceeded_def within_cost_def [abs_def])

definition serviceable :: "selector_env \<Rightarrow> config \<Rightarrow> bool" where
  "serviceable env c \<longleftrightarrow> is_available_at c (se_now_tod env) \<and> within_cost (se_costs env) c"

definition possible_models :: "selector_env \<Rightarrow> string \<Rightarrow> string \<Rightarrow> config \<Rightarrow> string list" where
  "possible_models env wanted proto cfg =
     possible_actual_models (se_decode env) (se_registry env) cfg wanted proto"

definition is_cooled :: "selector_env \<Rightarrow> string \<Rightarrow> string \<Rightarrow> config \<Rightarrow> bool" where
  "is_cooled env wanted proto c \<longleftrightarrow>
     cooled (cooldown_view_of env wanted) (possible_models env wanted proto) wanted (se_now env) (se_filter_clock env) c"

definition recovery :: "selector_env \<Rightarrow> string \<Rightarrow> string \<Rightarrow> config \<Rightarrow> time" where
  "recovery env wanted proto =
     ready_at (cooldown_view_of env wanted) (possible_models env wanted proto) wanted (se_now env) (se_fallback_clock env)"

lemma order_candidates_perm: "mset (fst (order_candidates env s filtered keys u)) = mset filtered"
  using health_order [of "ss_rotation s" _ _ filtered keys "se_now env" u]
    balance_same_priority_result [of "ss_rotation s" filtered keys "se_now env" u]
  by (auto simp: order_candidates_def Let_def split: option.split)

lemma apply_sticky_perm [simp]: "mset (apply_sticky_preference channels c) = mset channels"
  by (simp add: apply_sticky_preference_def split: option.split)

text \<open>The filtering in terms of the three conditions.\<close>

lemma filter_internal:
  "filter_cooldown_channels_internal env s channels wanted proto scope allow =
     (let good = filter (\<lambda>c. \<not> is_cooled env wanted proto c) (filter (serviceable env) channels);
          affordable = filter (serviceable env) channels
      in if affordable = [] then ([], s)
         else if good = [] then
           (if allow \<and> se_fallback_enabled env then
              ([cooldown_fallback_candidate (min_from (better_fallback (recovery env wanted proto)
                  (fallback_priority env affordable)) (tl affordable) (hd affordable))], s)
            else ([], s))
         else
           let (ordered, rotation) = order_candidates env s good (cv_keys (cooldown_view_of env wanted))
                                       (rr_universe_key (se_sha env) channels)
           in if \<not> wildcard wanted \<and> normalize_route_strategy (se_route_strategy env) = route_strategy_sticky
              then (apply_sticky_preference ordered (fst (preferred (ss_sticky s) scope wanted (se_now env))),
                    s\<lparr>ss_rotation := rotation, ss_sticky := snd (preferred (ss_sticky s) scope wanted (se_now env))\<rparr>)
              else (ordered, s\<lparr>ss_rotation := rotation\<rparr>))"
proof (cases "channels = []")
  case False
  have aff: "filter_cost_limit_exceeded (se_costs env) (filter (\<lambda>c. is_available_at c (se_now_tod env)) channels) =
      filter (serviceable env) channels"
    by (simp add: filter_cost_limit serviceable_def conj_commute cong: filter_cong)
  show ?thesis
    using False
    by (simp add: filter_cooldown_channels_internal_def aff Let_def filter_cooled_channels_def is_cooled_def
        recovery_def possible_models_def [abs_def] pick_best_channel_when_all_cooled_def
        split: prod.split list.split)
qed (simp add: filter_cooldown_channels_internal_def)

lemma filter_internal_members:
  assumes "fst (filter_cooldown_channels_internal env s channels wanted proto scope False) = r"
  shows "mset r = mset (filter (\<lambda>c. serviceable env c \<and> \<not> is_cooled env wanted proto c) channels)"
proof -
  let ?good = "filter (\<lambda>c. \<not> is_cooled env wanted proto c) (filter (serviceable env) channels)"
  have good: "filter (\<lambda>c. serviceable env c \<and> \<not> is_cooled env wanted proto c) channels = ?good"
    by (simp add: conj_commute)
  obtain ordered rotation where ord: "order_candidates env s ?good (cv_keys (cooldown_view_of env wanted))
      (rr_universe_key (se_sha env) channels) = (ordered, rotation)" by fastforce
  have "mset ordered = mset ?good"
    using order_candidates_perm [of env s ?good "cv_keys (cooldown_view_of env wanted)"
        "rr_universe_key (se_sha env) channels"] ord by simp
  moreover have "filter (serviceable env) channels = [] \<Longrightarrow> ?good = []" by simp
  ultimately have "mset r = mset ?good"
    using assms by (cases "?good = []") (auto simp add: filter_internal Let_def ord simp del: filter_filter)
  then show ?thesis unfolding good .
qed

text \<open>
  Without the fallback the selector returns exactly the channels that may serve the request, each as
  often as it was offered: inside their time window, below their daily cost, and with neither a channel
  nor a model cooldown running nor all keys cooling.  A failed cooldown query counts as no cooldown.
\<close>

theorem strict_selection_is_exact:
  "mset (fst (filter_cooldown_channels_internal env s channels wanted proto scope False)) =
   mset (filter (\<lambda>c. is_available_at c (se_now_tod env) \<and> within_cost (se_costs env) c \<and>
      \<not> cooled (cooldown_view_of env wanted)
          (\<lambda>c. possible_actual_models (se_decode env) (se_registry env) c wanted proto)
          wanted (se_now env) (se_filter_clock env) c) channels)"
  using filter_internal_members [OF refl, of env s channels wanted proto scope]
  by (simp add: serviceable_def is_cooled_def possible_models_def [abs_def] conj_assoc)

section \<open>When a channel recovers\<close>

lemma foldl_earliest:
  "(\<forall>(k, u) \<in> set ks. zero_time < u) \<Longrightarrow> zero_time \<le> e \<Longrightarrow>
   foldl (\<lambda>earliest (k, until). if is_zero earliest \<or> until < earliest then until else earliest) e ks =
     (if ks = [] then e else if is_zero e then Min (snd ` set ks) else min e (Min (snd ` set ks)))"
proof (induction ks arbitrary: e)
  case (Cons x ks)
  obtain k u where x: "x = (k, u)" by fastforce
  let ?e = "if is_zero e \<or> u < e then u else e"
  have "zero_time < u" using Cons.prems x by simp
  then have e: "zero_time \<le> ?e" "\<not> is_zero ?e" using Cons.prems(2) by (auto simp: is_zero_def)
  have ih: "foldl (\<lambda>earliest (k, until). if is_zero earliest \<or> until < earliest then until else earliest) ?e ks =
     (if ks = [] then ?e else min ?e (Min (snd ` set ks)))"
    using Cons.IH [OF _ e(1)] Cons.prems(1) e(2) by simp
  show ?case
    unfolding x foldl_Cons prod.case ih by (cases "ks = []") (auto simp: min_def not_less)
qed simp

lemma first_key_Min:
  assumes "ks \<noteq> []" and "\<forall>(k, u) \<in> set ks. now < u" and "zero_time \<le> now"
  shows "first_key ks = Min (snd ` set ks)" and "now < first_key ks"
proof -
  have "\<forall>(k, u) \<in> set ks. zero_time < u" using assms(2,3) by auto
  from foldl_earliest [OF this, of zero_time] show eq: "first_key ks = Min (snd ` set ks)"
    using assms(1) by (simp add: first_key_def is_zero_def)
  have "Min (snd ` set ks) \<in> snd ` set ks" using assms(1) by simp
  then show "now < first_key ks" unfolding eq using assms(2) by auto
qed

lemma ready_at_iff:
  assumes zero: "zero_time \<le> now" and t: "now \<le> t"
  shows "ready_at v possible wanted now clock ch \<le> t \<longleftrightarrow>
     (\<forall>u. cv_channels v (cfg_id ch) = Some u \<longrightarrow> u \<le> t) \<and>
     (\<forall>u. model_cooldown_until (cv_models v (cfg_id ch)) (possible ch) wanted clock = Some u \<longrightarrow> u \<le> t) \<and>
     (all_keys_cooling ch (cv_keys v (cfg_id ch)) now \<longrightarrow>
        (\<exists>ks. cv_keys v (cfg_id ch) = Some ks \<and> (\<exists>(k, u) \<in> set ks. u \<le> t)))"
proof -
  define later where "later = (\<lambda>t until. case until of Some u \<Rightarrow> if u > t then u else t | None \<Rightarrow> (t::time))"
  define r where "r = later (later now (cv_channels v (cfg_id ch)))
      (model_cooldown_until (cv_models v (cfg_id ch)) (possible ch) wanted clock)"
  have later: "later a o' \<le> t \<longleftrightarrow> a \<le> t \<and> (\<forall>u. o' = Some u \<longrightarrow> u \<le> t)" for a o'
    by (auto simp: later_def split: option.splits)
  have r: "r \<le> t \<longleftrightarrow> (\<forall>u. cv_channels v (cfg_id ch) = Some u \<longrightarrow> u \<le> t) \<and>
     (\<forall>u. model_cooldown_until (cv_models v (cfg_id ch)) (possible ch) wanted clock = Some u \<longrightarrow> u \<le> t)"
    unfolding r_def later using t by auto
  have ready: "ready_at v possible wanted now clock ch =
     (case cv_keys v (cfg_id ch) of None \<Rightarrow> r
      | Some ks \<Rightarrow> if all_keys_cooling ch (Some ks) now \<and> \<not> is_zero (first_key ks) \<and> first_key ks > r
                   then first_key ks else r)"
    unfolding ready_at_def Let_def r_def later_def ..
  show ?thesis
  proof (cases "all_keys_cooling ch (cv_keys v (cfg_id ch)) now")
    case False
    then have "ready_at v possible wanted now clock ch = r"
      unfolding ready by (auto simp: all_keys_cooling_def split: option.split)
    then show ?thesis using False r by simp
  next
    case True
    then obtain ks where k: "cv_keys v (cfg_id ch) = Some ks" by (auto simp: all_keys_cooling_def split: option.splits)
    with True have "0 < int (length ks)" "\<forall>(k, u) \<in> set ks. now < u"
      by (auto simp: all_keys_cooling_def list_all_iff)
    with k have ks: "cv_keys v (cfg_id ch) = Some ks" "ks \<noteq> []" "\<forall>(k, u) \<in> set ks. now < u" by auto
    note fk = first_key_Min [OF ks(2,3) zero]
    have "\<not> is_zero (first_key ks)" using fk(2) zero by (simp add: is_zero_def)
    then have "ready_at v possible wanted now clock ch = max r (first_key ks)"
      unfolding ready ks(1) using True ks(1) by simp
    moreover have "first_key ks \<le> t \<longleftrightarrow> (\<exists>(k, u) \<in> set ks. u \<le> t)"
      unfolding fk(1) using ks(2) by (force simp: Min_le_iff)
    ultimately show ?thesis using r True ks(1) by auto
  qed
qed

lemma min_from_result:
  assumes "\<And>a b c. \<not> better b a \<Longrightarrow> \<not> better c b \<Longrightarrow> \<not> better c a"
    and "\<And>a. \<not> better a a" and "\<And>a b. better a b \<Longrightarrow> \<not> better b a"
  shows "min_from better xs best \<in> set (best # xs) \<and> (\<forall>x \<in> set (best # xs). \<not> better x (min_from better xs best))"
proof (induction xs arbitrary: best)
  case (Cons x xs)
  let ?b = "if better x best then x else best"
  from Cons.IH [of ?b] have ih: "min_from better xs ?b \<in> set (?b # xs)"
    "\<And>y. y \<in> set (?b # xs) \<Longrightarrow> \<not> better y (min_from better xs ?b)" by auto
  have b: "\<not> better ?b (min_from better xs ?b)" by (rule ih(2)) simp
  have "\<not> better x (min_from better xs ?b) \<and> \<not> better best (min_from better xs ?b)"
  proof (cases "better x best")
    case True
    then show ?thesis using b assms(1) [of x "min_from better xs x" best] assms(3) by auto
  next
    case False
    then show ?thesis using b assms(1) [of best "min_from better xs best" x] by auto
  qed
  then show ?case using ih by (auto split: if_splits)
qed (simp add: assms(2))

lemma better_fallback_trans:
    "\<not> better_fallback ready eff b a \<Longrightarrow> \<not> better_fallback ready eff c b \<Longrightarrow> \<not> better_fallback ready eff c a"
  and better_fallback_irrefl: "\<not> better_fallback ready eff a a"
  and better_fallback_asym: "better_fallback ready eff a b \<Longrightarrow> \<not> better_fallback ready eff b a"
  by (auto simp: better_fallback_def split: if_splits)

text \<open>By a time: the recorded channel and model cooldowns have ended and some key is free.\<close>

definition recovered_by :: "selector_env \<Rightarrow> string \<Rightarrow> string \<Rightarrow> time \<Rightarrow> config \<Rightarrow> bool" where
  "recovered_by env wanted proto t ch \<longleftrightarrow>
     (let v = cooldown_view_of env wanted in
      (\<forall>u. cv_channels v (cfg_id ch) = Some u \<longrightarrow> u \<le> t) \<and>
      (\<forall>u. model_cooldown_until (cv_models v (cfg_id ch)) (possible_models env wanted proto ch) wanted
             (se_fallback_clock env) = Some u \<longrightarrow> u \<le> t) \<and>
      (all_keys_cooling ch (cv_keys v (cfg_id ch)) (se_now env) \<longrightarrow>
         (\<exists>ks. cv_keys v (cfg_id ch) = Some ks \<and> (\<exists>(k, u) \<in> set ks. u \<le> t))))"

lemma recovery_iff:
  "zero_time \<le> se_now env \<Longrightarrow> se_now env \<le> t \<Longrightarrow>
     recovery env wanted proto ch \<le> t \<longleftrightarrow> recovered_by env wanted proto t ch"
  by (simp add: recovery_def recovered_by_def ready_at_iff Let_def)

text \<open>C32: 
  When every serviceable channel is cooling, the fallback hands out exactly one of them, marked as
  fallback, and no other serviceable channel recovers earlier: at any later time at which some other
  one is free of all its recorded cooldowns, this one is, too.
\<close>

theorem fallback_channel_recovers_first:
  assumes clock: "zero_time \<le> se_now env" and "se_fallback_enabled env"
    and "\<forall>c \<in> set channels. serviceable env c \<longrightarrow> is_cooled env wanted proto c"
    and "c \<in> set channels" "serviceable env c"
  shows "\<exists>b \<in> set channels. serviceable env b \<and>
     filter_cooldown_channels_internal env s channels wanted proto scope True = ([cooldown_fallback_candidate b], s) \<and>
     (\<forall>d \<in> set channels. serviceable env d \<longrightarrow>
        (\<forall>t \<ge> se_now env. recovered_by env wanted proto t d \<longrightarrow> recovered_by env wanted proto t b))"
proof -
  let ?aff = "filter (serviceable env) channels"
  let ?better = "better_fallback (recovery env wanted proto) (fallback_priority env ?aff)"
  let ?b = "min_from ?better (tl ?aff) (hd ?aff)"
  have ne: "?aff \<noteq> []" using assms(4,5) by (auto simp: filter_empty_conv)
  then have cons: "set (hd ?aff # tl ?aff) = set ?aff" by simp
  have none: "filter (\<lambda>c. \<not> is_cooled env wanted proto c) ?aff = []"
    using assms(3) by (auto simp: filter_empty_conv)
  have eq: "filter_cooldown_channels_internal env s channels wanted proto scope True =
      ([cooldown_fallback_candidate ?b], s)"
    unfolding filter_internal Let_def none using ne assms(2) by simp
  have b: "?b \<in> set ?aff" "\<forall>d \<in> set ?aff. \<not> ?better d ?b"
    using min_from_result [where better = ?better and xs = "tl ?aff" and best = "hd ?aff",
        OF better_fallback_trans better_fallback_irrefl better_fallback_asym] unfolding cons by auto
  have "recovered_by env wanted proto t ?b"
    if "d \<in> set channels" "serviceable env d" "se_now env \<le> t" "recovered_by env wanted proto t d" for d t
  proof -
    have "\<not> ?better d ?b" using b(2) that by simp
    then have "recovery env wanted proto ?b \<le> recovery env wanted proto d"
      by (auto simp: better_fallback_def split: if_splits)
    then show ?thesis using that(3,4) by (simp flip: recovery_iff [OF clock])
  qed
  then show ?thesis using eq b(1) by (intro bexI [of _ ?b]) auto
qed

section \<open>Sticky routes keep the tiers\<close>

lemma sticky_sorted:
  assumes "sorted (map (\<lambda>c. - cfg_priority c) channels)"
  shows "map cfg_priority (apply_sticky_preference channels c) = map cfg_priority channels"
proof (cases "find_index (\<lambda>d. cfg_id d = c) channels")
  case None
  then show ?thesis by (simp add: apply_sticky_preference_def)
next
  case (Some i)
  show ?thesis
  proof (cases "cfg_priority (channels ! i) = cfg_priority (hd channels)")
    case True
    have i: "i < length channels" using find_index_Some [OF Some] by blast
    have top: "cfg_priority (channels ! j) = cfg_priority (hd channels)" if "j \<le> i" for j
    proof -
      have zero: "0 < length channels" and j: "j < length channels" using i that by linarith+
      have "map (\<lambda>c. - cfg_priority c) channels ! 0 \<le> map (\<lambda>c. - cfg_priority c) channels ! j"
        "map (\<lambda>c. - cfg_priority c) channels ! j \<le> map (\<lambda>c. - cfg_priority c) channels ! i"
        using that i j by (simp_all only: sorted_nth_mono [OF assms] length_map le0)
      then have "- cfg_priority (channels ! 0) \<le> - cfg_priority (channels ! j)"
        "- cfg_priority (channels ! j) \<le> - cfg_priority (channels ! i)"
        unfolding nth_map [OF zero] nth_map [OF j] nth_map [OF i] .
      moreover have "hd channels = channels ! 0" using i by (intro hd_conv_nth) auto
      ultimately show ?thesis using True by simp
    qed
    have split: "channels = take (Suc i) channels @ drop (Suc i) channels" by simp
    have "map cfg_priority (channels ! i # take i channels) = replicate (Suc i) (cfg_priority (hd channels))"
      using i top by (intro replicate_eqI) (auto simp: in_set_conv_nth min_def)
    moreover have "map cfg_priority (take (Suc i) channels) = replicate (Suc i) (cfg_priority (hd channels))"
      using i top by (intro replicate_eqI) (auto simp: in_set_conv_nth less_Suc_eq_le)
    ultimately have "map cfg_priority (move_to_front i channels) = map cfg_priority channels"
      using i split by (metis (no_types, lifting) append_Cons map_append move_to_front_def)
    then show ?thesis using Some by (simp add: apply_sticky_preference_def)
  qed (use Some in \<open>simp add: apply_sticky_preference_def\<close>)
qed

text \<open>
  A sticky route never overrides priorities: with the plain balancing the result stays in descending
  order of priority, and among the channels of the top tier the remembered one comes first when it
  may serve the request.
\<close>

theorem sticky_channel_keeps_priority:
  assumes "se_health env = None" and "\<not> wildcard wanted" and "se_route_strategy env = route_strategy_sticky"
    and "fst (preferred (ss_sticky s) scope wanted (se_now env)) = i" and "0 < i"
  shows "let r = fst (filter_cooldown_channels_internal env s channels wanted proto scope False) in
     sorted (map (\<lambda>c. - cfg_priority c) r) \<and>
     (\<forall>c \<in> set channels. cfg_id c = i \<and> serviceable env c \<and> \<not> is_cooled env wanted proto c \<and>
         (\<forall>d \<in> set channels. cfg_id d = i \<longrightarrow> cfg_priority d = cfg_priority c) \<and>
         (\<forall>d \<in> set r. cfg_priority d \<le> cfg_priority c) \<longrightarrow> cfg_id (hd r) = i)"
proof -
  let ?good = "filter (\<lambda>c. \<not> is_cooled env wanted proto c) (filter (serviceable env) channels)"
  let ?r = "fst (filter_cooldown_channels_internal env s channels wanted proto scope False)"
  obtain ordered rotation where ord: "order_candidates env s ?good (cv_keys (cooldown_view_of env wanted))
      (rr_universe_key (se_sha env) channels) = (ordered, rotation)" by fastforce
  have ordered: "mset ordered = mset ?good" "sorted (map (\<lambda>c. - cfg_priority c) ordered)"
    using ord balance_same_priority_result [of "ss_rotation s" ?good "cv_keys (cooldown_view_of env wanted)"
        "se_now env" "rr_universe_key (se_sha env) channels"] assms(1) by (simp_all add: order_candidates_def)
  have r: "?r = (if ?good = [] then [] else apply_sticky_preference ordered i)"
    using assms(2-4) ord
    by (auto simp: filter_internal Let_def normalize_route_strategy_def simp del: filter_filter)
  have pr: "map cfg_priority (apply_sticky_preference ordered i) = map cfg_priority ordered"
    by (rule sticky_sorted [OF ordered(2)])
  have "map (\<lambda>c. - cfg_priority c) (apply_sticky_preference ordered i) = map uminus (map cfg_priority ordered)"
    unfolding pr [symmetric] by simp
  also have "\<dots> = map (\<lambda>c. - cfg_priority c) ordered" by simp
  finally have "sorted (map (\<lambda>c. - cfg_priority c) ?r)" using ordered(2) r by simp
  moreover have "cfg_id (hd ?r) = i"
    if c: "c \<in> set channels" "cfg_id c = i" "serviceable env c" "\<not> is_cooled env wanted proto c"
      and same: "\<forall>d \<in> set channels. cfg_id d = i \<longrightarrow> cfg_priority d = cfg_priority c"
      and top: "\<forall>d \<in> set ?r. cfg_priority d \<le> cfg_priority c" for c
  proof -
    have mem: "c \<in> set ordered" using c mset_eq_setD [OF ordered(1)] by simp
    have ne: "?good \<noteq> []" using c by (auto simp: filter_empty_conv)
    then have r': "?r = apply_sticky_preference ordered i" using r by simp
    have "ordered \<noteq> []" using mem by auto
    have set: "set ?r = set ordered"
      unfolding r' using mset_eq_setD [OF apply_sticky_perm [of ordered i]] .
    obtain k where k: "find_index (\<lambda>d. cfg_id d = i) ordered = Some k"
      using mem c(2) find_index_None [of "\<lambda>d. cfg_id d = i" ordered] by (cases "find_index (\<lambda>d. cfg_id d = i) ordered") auto
    then have kk: "k < length ordered" "cfg_id (ordered ! k) = i" using find_index_Some [OF k] by auto
    have "ordered ! k \<in> set channels" using kk(1) mset_eq_setD [OF ordered(1)] nth_mem [OF kk(1)] by auto
    then have pk: "cfg_priority (ordered ! k) = cfg_priority c" using same kk(2) by blast
    have "cfg_priority c \<le> cfg_priority (hd ordered)"
      using sorted_nth_mono [OF ordered(2), of 0 k] kk(1) pk \<open>ordered \<noteq> []\<close> by (simp add: hd_conv_nth)
    moreover have "cfg_priority (hd ordered) \<le> cfg_priority c"
      using top set \<open>ordered \<noteq> []\<close> hd_in_set by blast
    ultimately have "cfg_priority (ordered ! k) = cfg_priority (hd ordered)" using pk by simp
    then show ?thesis
      unfolding r' using k kk assms(5)
      by (cases ordered) (auto simp: apply_sticky_preference_def hd_move_to_front)
  qed
  ultimately show ?thesis unfolding Let_def by blast
qed

section \<open>Costs of the day\<close>

type_synonym expense = "int \<times> real \<times> time"

definition cost_run :: "(time \<Rightarrow> time) \<Rightarrow> cost_cache \<Rightarrow> expense list \<Rightarrow> cost_cache" where
  "cost_run midnight c es = foldl (\<lambda>c (channel, cost, t). cost_add midnight c channel cost t) c es"

definition spent_today :: "(time \<Rightarrow> time) \<Rightarrow> expense list \<Rightarrow> int \<Rightarrow> time \<Rightarrow> real" where
  "spent_today midnight es channel now =
     sum_list (map (\<lambda>(c, cost, t). cost)
       (filter (\<lambda>(c, cost, t). c = channel \<and> cost > 0 \<and> midnight t = midnight now) es))"

lemma cost_run_total:
  assumes "mono midnight" and "sorted (map (\<lambda>(c, cost, t). t) es)" and "\<forall>(c, cost, t) \<in> set es. t \<le> now"
  shows "cost_of (check_and_reset_if_new_day midnight (cost_run midnight (new_cost_cache midnight t0) es) now) channel =
     spent_today midnight es channel now"
  using assms(2,3)
proof (induction es arbitrary: now channel rule: rev_induct)
  case Nil
  then show ?case
    by (simp add: cost_run_def new_cost_cache_def check_and_reset_if_new_day_def cost_of_def spent_today_def Let_def)
next
  case (snoc e es)
  obtain ch cost t where e: "e = (ch, cost, t)" by (cases e)
  let ?c = "cost_run midnight (new_cost_cache midnight t0) es"
  have sorted: "sorted (map (\<lambda>(c, cost, t). t) es)" and upto: "\<forall>(c, cost, u) \<in> set es. u \<le> t"
    and now: "t \<le> now" "\<forall>(c, cost, u) \<in> set es. u \<le> now"
    using snoc.prems unfolding e by (auto simp: sorted_append)
  note ih = snoc.IH [OF sorted upto]
  have run: "cost_run midnight (new_cost_cache midnight t0) (es @ [e]) = cost_add midnight ?c ch cost t"
    by (simp add: cost_run_def e)
  show ?case
  proof (cases "cost \<le> 0")
    case True
    then show ?thesis using snoc.IH [OF sorted now(2)] unfolding run
      by (simp add: cost_add_def spent_today_def e)
  next
    case False
    let ?d = "check_and_reset_if_new_day midnight ?c t"
    have day: "co_day_start ?d = midnight t" by (simp add: check_and_reset_if_new_day_def Let_def)
    have add: "cost_add midnight ?c ch cost t = ?d\<lparr>co_costs := (co_costs ?d)(ch \<mapsto> cost_of ?d ch + cost)\<rparr>"
      using False by (simp add: cost_add_def Let_def)
    show ?thesis
    proof (cases "midnight now = midnight t")
      case True
      then have "check_and_reset_if_new_day midnight (cost_add midnight ?c ch cost t) now = cost_add midnight ?c ch cost t"
        unfolding add by (simp add: check_and_reset_if_new_day_def Let_def day)
      then show ?thesis using ih [of channel] ih [of ch] False True unfolding run
        by (auto simp: add spent_today_def e cost_of_def)
    next
      case False
      have "midnight u \<noteq> midnight now" if "u \<le> t" for u
        using monoD [OF assms(1) that] monoD [OF assms(1) now(1)] False by linarith
      then have "filter (\<lambda>(c, cost, u). c = channel \<and> cost > 0 \<and> midnight u = midnight now) (es @ [e]) = []"
        using upto e by (auto simp: filter_empty_conv)
      moreover have "cost_of (check_and_reset_if_new_day midnight (cost_add midnight ?c ch cost t) now) channel = 0"
        using False unfolding add by (simp add: check_and_reset_if_new_day_def Let_def day cost_of_def)
      ultimately show ?thesis unfolding run by (simp add: spent_today_def del: filter_append)
    qed
  qed
qed

text \<open>
  What the cost filter reads is what the channel spent since midnight: the sum of the positive costs
  recorded on the same day, nothing from earlier days, whenever the counters were last touched.
\<close>

theorem cost_cache_counts_the_day:
  assumes "mono midnight" and "sorted (map (\<lambda>(c, cost, t). t) es)" and "\<forall>(c, cost, t) \<in> set es. t \<le> now"
  shows "fst (cost_get midnight (cost_run midnight (new_cost_cache midnight t0) es) channel now) =
     spent_today midnight es channel now"
  using cost_run_total [OF assms] by (simp add: cost_get_def Let_def)

theorem cost_cache_counts_the_day_witness:
  "fst (cost_get (\<lambda>t. t div 10 * 10) (cost_run (\<lambda>t. t div 10 * 10) (new_cost_cache (\<lambda>t. t div 10 * 10) 0)
      [(1, 5, 3), (1, 2, 11), (2, 9, 12), (1, 3, 14)]) 1 15) = 5"
proof -
  let ?es = "[(1, 5, 3), (1, 2, 11), (2, 9, 12), (1, 3, 14)] :: expense list"
  have "mono (\<lambda>t::int. t div 10 * 10)" by (auto intro!: monoI mult_right_mono zdiv_mono1)
  moreover have "sorted (map (\<lambda>(c, cost, t). t) ?es)" "\<forall>(c, cost, t) \<in> set ?es. t \<le> 15" by simp_all
  ultimately have "fst (cost_get (\<lambda>t. t div 10 * 10) (cost_run (\<lambda>t. t div 10 * 10) (new_cost_cache (\<lambda>t. t div 10 * 10) 0)
      ?es) 1 15) = spent_today (\<lambda>t. t div 10 * 10) ?es 1 15" by (rule cost_cache_counts_the_day)
  then show ?thesis by (simp add: spent_today_def)
qed

section \<open>The selected channels\<close>

lemma filter_internal_origin:
  assumes "c \<in> set (fst (filter_cooldown_channels_internal env s channels wanted proto scope allow))"
  shows "c \<in> set channels \<and> serviceable env c \<and> \<not> is_cooled env wanted proto c \<or>
    allow \<and> (\<exists>b \<in> set channels. serviceable env b \<and> c = cooldown_fallback_candidate b \<and>
       fst (filter_cooldown_channels_internal env s channels wanted proto scope allow) = [c])"
proof -
  let ?good = "filter (\<lambda>c. \<not> is_cooled env wanted proto c) (filter (serviceable env) channels)"
  let ?aff = "filter (serviceable env) channels"
  obtain ordered rotation where ord: "order_candidates env s ?good (cv_keys (cooldown_view_of env wanted))
      (rr_universe_key (se_sha env) channels) = (ordered, rotation)" by fastforce
  have "mset ordered = mset ?good"
    using order_candidates_perm [of env s ?good "cv_keys (cooldown_view_of env wanted)"
        "rr_universe_key (se_sha env) channels"] unfolding ord by simp
  from mset_eq_setD [OF this] have set: "set ordered = set ?good" .
  have sticky: "set (apply_sticky_preference ordered i) = set ordered" for i
    using mset_eq_setD [OF apply_sticky_perm] .
  show ?thesis
  proof (cases "?good = []")
    case False
    then have "?aff \<noteq> []" by (metis filter.simps(1))
    with False have "c \<in> set ?good"
      using assms set sticky by (auto simp add: filter_internal Let_def ord simp del: filter_filter split: if_splits)
    then show ?thesis by auto
  next
    case True
    let ?b = "min_from (better_fallback (recovery env wanted proto) (fallback_priority env ?aff)) (tl ?aff) (hd ?aff)"
    have aff: "?aff \<noteq> []" "allow" and c: "c = cooldown_fallback_candidate ?b"
      and r: "fst (filter_cooldown_channels_internal env s channels wanted proto scope allow) = [c]"
      using assms True by (auto simp add: filter_internal Let_def simp del: filter_filter split: if_splits)
    have "?b \<in> set (hd ?aff # tl ?aff)"
      by (rule min_from_result [where better = "better_fallback (recovery env wanted proto) (fallback_priority env ?aff)"
          and xs = "tl ?aff" and best = "hd ?aff",
        OF better_fallback_trans better_fallback_irrefl better_fallback_asym, THEN conjunct1])
    then have "?b \<in> set ?aff" using aff(1) by simp
    then show ?thesis using aff(2) c r by (intro disjI2 conjI bexI [of _ ?b]) auto
  qed
qed

lemma supports_fallback_flag [simp]:
  "config_supports_model r (cooldown_fallback_candidate c) m = config_supports_model r c m"
  by (simp add: config_supports_model_def supports_model_def [abs_def] alias_supports_def model_index_def
      cooldown_fallback_candidate_def)

lemma merge_channels_members:
  "merge_channels enabled names merged = Some r \<Longrightarrow> c \<in> set r \<Longrightarrow>
     c \<in> set merged \<or> (\<exists>n \<in> set names. \<exists>cs. enabled n = Some cs \<and> c \<in> set cs)"
proof (induction names arbitrary: merged)
  case (Cons n ns)
  then obtain cs where cs: "enabled n = Some cs"
      "merge_channels enabled ns (merged @ dedup_loop cfg_id (map cfg_id merged) cs) = Some r"
    by (auto split: option.splits)
  from Cons.IH [OF cs(2) Cons.prems(2)] show ?case
    using cs(1) set_dedup_loop [of cfg_id "map cfg_id merged" cs] by auto
qed simp

lemma unified_supports:
  assumes "\<forall>name cs. enabled name = Some cs \<longrightarrow> (\<forall>c \<in> set cs. name = ''*'' \<or> supports_model c name)"
    and "m \<noteq> ''*''" and "''*'' \<notin> set (names_for r m)"
    and "get_enabled_by_unified_model r enabled m = Some cs" and "c \<in> set cs"
  shows "config_supports_model r c m"
proof (cases "r = None \<or> length (names_for r m) \<le> 1")
  case True
  then have "enabled m = Some cs" using assms(2,4)
    by (auto simp: get_enabled_by_unified_model_def Let_def split: if_splits)
  with assms(1,5) have "m = ''*'' \<or> supports_model c m" by blast
  then show ?thesis using assms(2) by (simp add: config_supports_model_def)
next
  case False
  then have "merge_channels enabled (names_for r m) [] = Some cs"
    using assms(2,4) by (auto simp: get_enabled_by_unified_model_def Let_def split: if_splits)
  from merge_channels_members [OF this assms(5)] obtain n xs where
    "n \<in> set (names_for r m)" "enabled n = Some xs" "c \<in> set xs" by auto
  moreover from this have "supports_model c n" using assms(1,3) by blast
  ultimately have "alias_supports r c m" by (auto simp: alias_supports_def list_ex_iff)
  then show ?thesis using False assms(2) by (simp add: config_supports_model_def)
qed


section \<open>Witnesses\<close>

definition example_env :: selector_env where
  "example_env = \<lparr>se_now = 5, se_filter_clock = 5, se_fallback_clock = 5, se_now_tod = 0, se_sha = id,
     se_decode = (\<lambda>s. None), se_registry = None,
     se_channel_cooldowns = Some (\<lambda>c. if c = 1 then Some 9 else if c = 2 then Some 7 else None),
     se_key_cooldowns = None, se_model_cooldowns = None, se_costs = None, se_fallback_enabled = True,
     se_health = None, se_route_strategy = route_strategy_sticky\<rparr>"

definition always_open :: "int \<Rightarrow> config" where
  "always_open i = example_config\<lparr>cfg_id := i, cfg_available_time_start := [], cfg_available_time_end := []\<rparr>"

lemma always_open_simps [simp]:
  "cfg_id (always_open i) = i" "serviceable example_env (always_open i)"
  "cfg_priority (always_open i) = 0" "cfg_model_entries (always_open i) = cfg_model_entries example_config"
  by (simp_all add: always_open_def serviceable_def example_env_def is_available_at_def within_cost_def example_config_def)

lemma no_model_cooldowns [simp]: "model_cooldown_until (\<lambda>m. None) possible wanted clock = None"
  by (cases possible) (simp_all add: model_cooldown_until_def)

lemma example_cooled:
  "is_cooled example_env ''gpt'' [] (always_open i) \<longleftrightarrow> i = 1 \<or> i = 2"
  by (simp add: is_cooled_def cooled_def cooldown_view_of_def example_env_def all_keys_cooling_def wildcard_def)

definition example_state :: selector_state where
  "example_state = \<lparr>ss_rotation = new_rr, ss_sticky = (\<lambda>k. Some (4, 5))\<rparr>"

theorem fallback_channel_recovers_first_witness:
  "\<exists>b \<in> {always_open 1, always_open 2}.
     filter_cooldown_channels_internal example_env example_state [always_open 1, always_open 2] ''gpt'' [] ''s'' True =
       ([cooldown_fallback_candidate b], example_state)"
proof -
  let ?chs = "[always_open 1, always_open 2]"
  have "zero_time \<le> se_now example_env" "se_fallback_enabled example_env"
    by (simp_all add: example_env_def order_trans [OF zero_time_le_0])
  moreover have "\<forall>c \<in> set ?chs. serviceable example_env c \<longrightarrow> is_cooled example_env ''gpt'' [] c"
    by (simp add: example_cooled)
  moreover have "always_open 1 \<in> set ?chs" by simp
  ultimately have "\<exists>b \<in> set ?chs. serviceable example_env b \<and>
     filter_cooldown_channels_internal example_env example_state ?chs ''gpt'' [] ''s'' True = ([cooldown_fallback_candidate b], example_state) \<and>
     (\<forall>d \<in> set ?chs. serviceable example_env d \<longrightarrow>
        (\<forall>t \<ge> se_now example_env. recovered_by example_env ''gpt'' [] t d \<longrightarrow> recovered_by example_env ''gpt'' [] t b))"
    by (rule fallback_channel_recovers_first) simp
  then show ?thesis by auto
qed

theorem sticky_channel_keeps_priority_witness:
  "let r = fst (filter_cooldown_channels_internal example_env example_state [always_open 3, always_open 4]
       ''gpt'' [] ''s'' False)
   in sorted (map (\<lambda>c. - cfg_priority c) r)"
proof -
  have "se_health example_env = None" "\<not> wildcard ''gpt''"
    "se_route_strategy example_env = route_strategy_sticky"
    by (simp_all add: example_env_def wildcard_def)
  moreover have "fst (preferred (ss_sticky example_state) ''s'' ''gpt'' (se_now example_env)) = 4"
    by (simp add: preferred_def example_state_def example_env_def sticky_entry_ttl_def time_sub_def)
  ultimately show ?thesis
    using sticky_channel_keeps_priority [of example_env "''gpt''" example_state "''s''" 4 "[always_open 3, always_open 4]" "[]"]
    by (simp add: Let_def)
qed

lemma example_health: "se_health example_env = None"
  by (simp add: example_env_def)

lemma three_alone:
  "fst (filter_cooldown_channels_internal example_env example_state [always_open 3] ''gpt'' [] ''s'' False) =
     [always_open 3]"
proof -
  have good: "filter (\<lambda>c. \<not> is_cooled example_env ''gpt'' [] c) (filter (serviceable example_env) [always_open 3]) =
      [always_open 3]" by (simp add: example_cooled)
  show ?thesis unfolding filter_internal Let_def good
    by (simp add: order_candidates_def example_health balance_same_priority_channels_def apply_sticky_preference_def)
qed


end
