(* ===== verification/Failover.thy ===== *)
theory Failover
  imports Attempt_Outcome URL_Selector Request_Body Candidate_Selection
begin

text \<open>
  The loops over channels, keys, addresses and protocols: \<open>internal/app/proxy_forward.go\<close>
  (\<open>forwardAttempt\<close>, \<open>attemptKeyAcrossURLs\<close>, \<open>tryChannelWithKeys\<close>, the OAuth channels) and
  \<open>proxy_handler.go\<close> (\<open>runProxyAttemptLoopWithFailureBoundary\<close>, \<open>determineFinalClientStatus\<close>).

  One request is a sequential program over the state \<open>failover\<close>: the tables, caches and counters of
  the components it uses, and \<open>fo_world\<close> for everything else (the network, the clock, the context of
  the request, the store of keys and credentials, other requests).  What the world answers is given by
  the functions of \<open>failover_env\<close>; reading the clock, the context, a random choice or the keys
  may change the world only, while sending a request (\<open>fe_send\<close>, the transport behind
  \<open>forwardOnceAsync\<close>) may change the whole state, because other requests run meanwhile.  Monitoring
  (\<open>activeRequests\<close>) and log entries are left out.
\<close>

section \<open>State and surroundings\<close>

record 'w failover = attempt_state +
  fo_selector :: "url_selector option"
  fo_capabilities :: capability_cache
  fo_counters :: key_counters
  fo_sticky :: sticky_routes
  fo_world :: 'w

datatype ctx_error = CtxCanceled | CtxDeadlineExceeded

record oauth_credential =
  oc_access_token :: string
  oc_account :: string

record random_choice =
  rc_shuffle :: "candidate_url list \<Rightarrow> candidate_url list"
  rc_intn :: "nat \<Rightarrow> nat"
  rc_float64 :: real

record upstream_affinity =
  ua_channel :: int
  ua_url :: string
  ua_key_hash :: string

text \<open>The request as it goes to the transport.\<close>

record upstream_call =
  uc_channel :: config
  uc_credential :: "oauth_credential option"
  uc_key_index :: int
  uc_api_key :: string
  uc_base_url :: string
  uc_plan :: transform_plan

type_synonym transport_answer = "fw_result option \<times> real \<times> transport_failure option"

record 'w failover_env =
  fe_now :: "'w \<Rightarrow> time \<times> 'w"
  fe_ctx :: "'w \<Rightarrow> ctx_error option \<times> 'w"
  fe_random :: "'w \<Rightarrow> random_choice \<times> 'w"
  fe_attempt :: "'w \<Rightarrow> attempt_env \<times> 'w"
  fe_api_keys :: "int \<Rightarrow> 'w \<Rightarrow> api_key list option \<times> 'w"
  fe_affinity :: "'w \<Rightarrow> upstream_affinity option \<times> 'w"
  fe_codex_credential :: "config \<Rightarrow> bool \<Rightarrow> 'w \<Rightarrow> oauth_credential option \<times> 'w"
  fe_antigravity_credential :: "config \<Rightarrow> bool \<Rightarrow> 'w \<Rightarrow> oauth_credential option \<times> 'w"
  fe_send :: "upstream_call \<Rightarrow> 'w failover \<Rightarrow> transport_answer \<times> 'w failover"
  fe_decode :: "string \<Rightarrow> json option"
  fe_encode :: "json \<Rightarrow> string option"
  fe_hash8 :: "string \<Rightarrow> string"
  fe_key_hash :: "string \<Rightarrow> string"
  fe_overflow :: "real \<Rightarrow> int"
  fe_url_library :: url_library
  fe_channel_name :: "config \<Rightarrow> string"
  fe_registry :: registry
  fe_max_key_retries :: int

definition observe :: "('w \<Rightarrow> 'b \<times> 'w) \<Rightarrow> 'w failover \<Rightarrow> 'b \<times> 'w failover" where
  "observe f st = (case f (fo_world st) of (x, w) \<Rightarrow> (x, st\<lparr>fo_world := w\<rparr>))"

text \<open>
  The errors the loops return.  A panic of the run time and a search for a name that does not end
  (see \<open>Codex_Retry\<close>) stop the request; they are errors that nothing here catches.
\<close>

datatype failover_error =
  AllKeysUnavailable
| AllKeysExhausted
| ChannelLimit attempt_limit
| KeysUnreadable int
| NoKeyForModel string int
| NoKeys int
| NoValidURLs int
| InvalidURLIndex nat int
| RequestStopped

section \<open>Small steps\<close>

definition ctx_text :: "ctx_error \<Rightarrow> string" where
  "ctx_text e = (case e of CtxCanceled \<Rightarrow> ''context canceled'' | CtxDeadlineExceeded \<Rightarrow> ''context deadline exceeded'')"

definition build_ctx_done_result :: "config \<Rightarrow> ctx_error \<Rightarrow> proxy_result" where
  "build_ctx_done_result cfg e =
     (blank_result (if e = CtxDeadlineExceeded then 504 else status_client_closed_request) (cfg_id cfg) no_action)
       \<lparr>pr_body := ''{\"error\":\"'' @ ctx_text e @ ''\"}'', pr_is_client_canceled := (e = CtxCanceled)\<rparr>"

definition select_pinned_codex_websocket_key ::
    "(string \<Rightarrow> string) \<Rightarrow> config \<Rightarrow> api_key list \<Rightarrow> (int \<Rightarrow> bool) \<Rightarrow> upstream_affinity option \<Rightarrow> time
       \<Rightarrow> (int \<times> string) option" where
  "select_pinned_codex_websocket_key key_hash cfg keys tried affinity now =
     (case affinity of
        None \<Rightarrow> None
      | Some t \<Rightarrow>
          if ua_channel t \<noteq> cfg_id cfg then None
          else map_option (\<lambda>k. (key_idx k, key_api_key k))
                 (find (\<lambda>k. usable tried now k \<and> key_hash (key_api_key k) = ua_key_hash t) keys))"

text \<open>\<open>time.Duration(seconds * float64(time.Second))\<close>.\<close>

definition seconds_to_duration :: "(real \<Rightarrow> int) \<Rightarrow> real \<Rightarrow> duration" where
  "seconds_to_duration overflow x = to_duration overflow (x * real_of_int second)"

definition record_success_ttfb ::
    "(real \<Rightarrow> int) \<Rightarrow> url_selector option \<Rightarrow> int \<Rightarrow> string \<Rightarrow> proxy_result \<Rightarrow> time \<Rightarrow> url_selector option" where
  "record_success_ttfb overflow selector channel url r now =
     (case selector of
        None \<Rightarrow> None
      | Some s \<Rightarrow>
          if pr_status r < 200 \<or> pr_status r \<ge> 300 then Some s
          else let t = seconds_to_duration overflow (pr_first_byte_time r);
                   ttfb = (if t \<le> 0 then seconds_to_duration overflow (pr_duration r) else t)
               in Some (if ttfb > 0 then record_latency s channel url ttfb now else s))"

definition is_model_scoped_http_failure :: "proxy_result \<Rightarrow> bool" where
  "is_model_scoped_http_failure r \<longleftrightarrow> pr_header r \<noteq> None \<and> is_model_scoped_http_status (pr_status r)"

text \<open>The address the session is bound to goes first, unless it already does.\<close>

primrec pinned_from :: "(string \<Rightarrow> bool) \<Rightarrow> sorted_url list \<Rightarrow> sorted_url list \<Rightarrow> sorted_url list option" where
  "pinned_from p before [] = None"
| "pinned_from p before (e # es) =
     (if p (fst e) \<and> before \<noteq> [] then Some (e # rev before @ es) else pinned_from p (e # before) es)"

definition prioritize_pinned_url ::
    "url_library \<Rightarrow> sorted_url list \<Rightarrow> string \<Rightarrow> string \<Rightarrow> string \<Rightarrow> sorted_url list" where
  "prioritize_pinned_url lib urls target path raw_query =
     (case pinned_from (\<lambda>u. build_upstream_url lib u path raw_query = target) [] urls of
        None \<Rightarrow> urls | Some urls' \<Rightarrow> urls')"
section \<open>One attempt\<close>

definition answer_of :: "transport_answer \<Rightarrow> (int \<times> string) option" where
  "answer_of a = map_option (\<lambda>r. (fw_status r, fw_body r)) (fst a)"

definition clean_answer :: "transport_answer \<Rightarrow> bool" where
  "clean_answer a \<longleftrightarrow> (case a of (Some r, d, None) \<Rightarrow> 200 \<le> fw_status r \<and> fw_status r < 300 | _ \<Rightarrow> False)"

definition with_body :: "upstream_call \<Rightarrow> string \<Rightarrow> upstream_call" where
  "with_body call body = call\<lparr>uc_plan := (uc_plan call)\<lparr>tp_translated_body := Some body\<rparr>\<rparr>"

definition sent_body :: "upstream_call \<Rightarrow> string" where
  "sent_body call = (case tp_translated_body (uc_plan call) of None \<Rightarrow> '''' | Some b \<Rightarrow> b)"

definition retry_body_for ::
    "'w failover_env \<Rightarrow> upstream_call \<Rightarrow> transport_answer \<Rightarrow> (string \<times> retry_strategy_400) option" where
  "retry_body_for env call a =
     codex_retry_body_for_400 (fe_decode env) (fe_encode env) (fe_channel_name env (uc_channel call)) (uc_channel call)
       (tp_upstream (uc_plan call)) (tp_needs_transform (uc_plan call)) (sent_body call) (answer_of a)"

lemma finite_strategies [simp]: "finite (S :: retry_strategy_400 set)"
proof (rule finite_subset)
  show "S \<subseteq> {StripEncryptedInput, StripEncryptedContent, StripThinking}"
    using retry_strategy_400.exhaust by blast
qed simp

text \<open>The loop that repeats a request with a reduced body: the last answer, and whether to stop at it.\<close>

function codex_retries ::
    "'w failover_env \<Rightarrow> retry_strategy_400 list \<Rightarrow> upstream_call \<Rightarrow> bool \<Rightarrow> transport_answer \<Rightarrow> 'w failover
       \<Rightarrow> transport_answer \<times> bool \<times> 'w failover" where
  "codex_retries env used call force_return a st =
     (case retry_body_for env call a of
        None \<Rightarrow> (a, force_return, st)
      | Some (body, strategy) \<Rightarrow>
          if strategy \<in> set used then (a, force_return, st)
          else case fe_send env (with_body call body) st of
            (a', st') \<Rightarrow>
              if clean_answer a' then (a', force_return, st')
              else if snd (snd a') \<noteq> None \<or> fst a' = None then (a', True, st')
              else codex_retries env (strategy # used) (with_body call body) True a' st')"
  by pat_completeness auto
termination
  by (relation "measure (\<lambda>(env, used, call, f, a, st). card (- set used))")
    (auto intro!: psubset_card_mono)

declare codex_retries.simps [simp del]

definition with_fast_mode :: "'w failover_env \<Rightarrow> proxy_request \<Rightarrow> fw_result \<Rightarrow> fw_result" where
  "with_fast_mode env rq res =
     (if rq_client_protocol rq = codex \<and>
         (case fe_decode env (rq_body rq) of Some (JObj doc) \<Rightarrow> member_string ''service_tier'' doc | _ \<Rightarrow> '''') = ''priority''
      then res\<lparr>fw_service_tier := ''priority''\<rparr> else res)"

definition plan_error_text :: "plan_error \<Rightarrow> string" where
  "plan_error_text e =
     (case e of UnsupportedTransform client upstream \<Rightarrow>
        ''unsupported protocol transform: '' @ client @ '' -> '' @ upstream)"

definition cool_channel_decision :: decision where
  "cool_channel_decision = plain_decision RetryNextChannel EffectCoolChannel"

definition forward_attempt ::
    "'w failover_env \<Rightarrow> config \<Rightarrow> oauth_credential option \<Rightarrow> int \<Rightarrow> string \<Rightarrow> proxy_request \<Rightarrow> string \<Rightarrow> bool
       \<Rightarrow> protocol \<Rightarrow> 'w failover \<Rightarrow> (failover_error + proxy_result \<times> decision) \<times> 'w failover" where
  "forward_attempt env cfg cred key_index key rq base defer upstream st =
     (case prepare_request_body (fe_decode env) (fe_encode env) (fe_registry env) cfg rq upstream of
        None \<Rightarrow> (Inl RequestStopped, st)
      | Some (actual, body0) \<Rightarrow>
          let path = replace_model_in_path (rq_path rq) (rq_original_model rq) actual
          in case prepare_codex_responses_body (fe_decode env) (fe_encode env) (fe_hash8 env)
                    (fe_channel_name env cfg) cfg upstream path body0 of
               None \<Rightarrow> (Inl RequestStopped, st)
             | Some body \<Rightarrow>
                 (case build_transform_plan (rq_client_protocol rq) upstream (rq_path rq) path (Some (rq_body rq))
                         (Some body) (rq_original_model rq) actual (rq_streaming rq) of
                    Inl e \<Rightarrow>
                      (Inr ((blank_result 500 (cfg_id cfg) cool_channel_decision)\<lparr>pr_body := plan_error_text e\<rparr>,
                            cool_channel_decision), st)
                  | Inr plan \<Rightarrow>
                      let call = \<lparr>uc_channel = cfg, uc_credential = cred, uc_key_index = key_index, uc_api_key = key,
                            uc_base_url = base, uc_plan = plan\<rparr>
                      in case fe_send env call st of (a, st1) \<Rightarrow>
                         (case codex_retries env [] call False a st1 of (a', force_return, st2) \<Rightarrow>
                         (case observe (fe_attempt env) st2 of (ae, st3) \<Rightarrow>
                         (case conclude_attempt ae cfg key_index actual (fst (snd a')) (snd (snd a'))
                                 (map_option (with_fast_mode env rq) (fst a')) defer force_return st3 of
                            None \<Rightarrow> (Inl RequestStopped, st3)
                          | Some (Inl l, st4) \<Rightarrow> (Inl (ChannelLimit l), st4)
                          | Some (Inr rd, st4) \<Rightarrow> (Inr rd, st4))))))"

section \<open>Protocols and addresses\<close>

definition learn_capability ::
    "'w failover_env \<Rightarrow> bool \<Rightarrow> capability_key \<Rightarrow> protocol \<Rightarrow> 'w failover \<Rightarrow> 'w failover" where
  "learn_capability env learn key p st =
     (if \<not> learn then st
      else case observe (fe_now env) st of
        (now, st1) \<Rightarrow> st1\<lparr>fo_capabilities := capability_set (fo_capabilities st1) key p now\<rparr>)"

text \<open>The loop over the protocols of an address; it is entered with at least one.\<close>

primrec try_protocols ::
    "'w failover_env \<Rightarrow> (protocol \<Rightarrow> 'w failover \<Rightarrow> (failover_error + proxy_result \<times> decision) \<times> 'w failover)
       \<Rightarrow> bool \<Rightarrow> capability_key \<Rightarrow> protocol list \<Rightarrow> 'w failover
       \<Rightarrow> (failover_error + proxy_result \<times> decision) \<times> 'w failover" where
  "try_protocols env attempt learn key [] st = (Inl RequestStopped, st)"
| "try_protocols env attempt learn key (p # ps) st =
     (case attempt p st of
        (Inl e, st1) \<Rightarrow> (Inl e, st1)
      | (Inr rd, st1) \<Rightarrow>
          if \<not> pr_protocol_capability_missing (fst rd) then (Inr rd, learn_capability env learn key p st1)
          else if ps \<noteq> [] then try_protocols env attempt learn key ps st1
          else (Inr rd, learn_capability env learn key protocol_unsupported st1))"

definition known_candidates ::
    "'w failover_env \<Rightarrow> bool \<Rightarrow> capability_key \<Rightarrow> protocol list \<Rightarrow> 'w failover \<Rightarrow> protocol list \<times> 'w failover" where
  "known_candidates env learn key candidates st =
     (if \<not> learn then (candidates, st)
      else case observe (fe_now env) st of (now, st1) \<Rightarrow>
        (case capability_get (fo_capabilities st1) key now of ((p, known), caps) \<Rightarrow>
           (if \<not> known then candidates
            else if p = protocol_unsupported then [] else prioritize_protocol_candidate candidates p,
            st1\<lparr>fo_capabilities := caps\<rparr>)))"

definition cool_url :: "'w failover_env \<Rightarrow> int \<Rightarrow> string \<Rightarrow> 'w failover \<Rightarrow> 'w failover" where
  "cool_url env channel url st =
     (case fo_selector st of
        None \<Rightarrow> st
      | Some s \<Rightarrow> (case observe (fe_now env) st of (now, st1) \<Rightarrow>
          st1\<lparr>fo_selector := Some (cooldown_url (fe_overflow env) s channel url now)\<rparr>))"

definition endpoint_unsupported_result :: "config \<Rightarrow> proxy_result" where
  "endpoint_unsupported_result cfg =
     (capability_missing 404 (cfg_id cfg))\<lparr>pr_body := ''{\"error\":\"upstream endpoint unsupported\"}''\<rparr>"

text \<open>What an address settles for the loop: give the result back, leave the loop, or go on.\<close>

datatype url_step = Immediate proxy_result | LeaveURLs proxy_result | NextURL proxy_result

definition after_url ::
    "'w failover_env \<Rightarrow> config \<Rightarrow> string \<Rightarrow> bool \<Rightarrow> proxy_result \<times> decision \<Rightarrow> 'w failover \<Rightarrow> url_step \<times> 'w failover" where
  "after_url env cfg url multi rd st =
     (let (r, d) = rd; stream = is_model_scoped_stream_failure (pr_status r) in
      if pr_succeeded r then
        (case observe (fe_now env) st of (now, st1) \<Rightarrow>
           (Immediate r, st1\<lparr>fo_selector := record_success_ttfb (fe_overflow env) (fo_selector st1) (cfg_id cfg) url r now\<rparr>))
      else if pr_protocol_capability_missing r then (NextURL r, st)
      else if d_retry d = RetryNextKey then (LeaveURLs r, st)
      else if d_effect d = EffectCoolModel then
        (if multi \<and> stream then (NextURL r, cool_url env (cfg_id cfg) url st) else (LeaveURLs r, st))
      else if d_retry d = RetryNone then (Immediate r, st)
      else if multi then
        (if is_model_scoped_http_failure r \<and> \<not> stream then
           (case pr_deferred_cooldown r of
              None \<Rightarrow> (LeaveURLs r, st)
            | Some inp \<Rightarrow>
                (case observe (fe_attempt env) st of (ae, st1) \<Rightarrow>
                 (case apply_cooldown_decision ae cfg inp st1 of
                    (d', st2) \<Rightarrow> (LeaveURLs (r\<lparr>pr_next_action := d', pr_deferred_cooldown := None\<rparr>), st2))))
         else (NextURL r, cool_url env (cfg_id cfg) url st))
      else (LeaveURLs r, st))"

text \<open>The result to return at once, if any, and the last failure.\<close>

primrec try_urls ::
    "'w failover_env \<Rightarrow> config \<Rightarrow> (string \<Rightarrow> bool \<Rightarrow> protocol \<Rightarrow> 'w failover \<Rightarrow> (failover_error + proxy_result \<times> decision) \<times> 'w failover)
       \<Rightarrow> proxy_request \<Rightarrow> bool \<Rightarrow> sorted_url list \<Rightarrow> proxy_result option \<Rightarrow> 'w failover
       \<Rightarrow> (failover_error + proxy_result option \<times> proxy_result option) \<times> 'w failover" where
  "try_urls env cfg attempt rq multi [] failure st = (Inr (None, failure), st)"
| "try_urls env cfg attempt rq multi (u # us) failure st =
     (case observe (fe_ctx env) st of
        (Some e, st1) \<Rightarrow> (Inr (Some (build_ctx_done_result cfg e), None), st1)
      | (None, st1) \<Rightarrow>
          if length (cfg_urls cfg) \<le> snd u then (Inl (InvalidURLIndex (snd u) (cfg_id cfg)), st1)
          else
            let mode = get_protocol_transform_mode cfg;
                family = detect_request_family (rq_path rq);
                (candidates, declared) = protocol_candidates_for_url (cfg_urls cfg ! snd u) mode
                    (rq_client_protocol rq) family (local_upstream_protocol_order (cfg_urls cfg));
                learn = (mode = mode_auto \<and> \<not> declared);
                key = \<lparr>ck_channel = cfg_id cfg, ck_base_url = fst u, ck_client = rq_client_protocol rq, ck_family = family\<rparr>
            in case known_candidates env learn key candidates st1 of
                 ([], st2) \<Rightarrow> try_urls env cfg attempt rq multi us (Some (endpoint_unsupported_result cfg)) st2
               | (p # ps, st2) \<Rightarrow>
                   (case try_protocols env (attempt (fst u) (multi \<and> us \<noteq> [])) learn key (p # ps) st2 of
                      (Inl e, st3) \<Rightarrow> (Inl e, st3)
                    | (Inr rd, st3) \<Rightarrow>
                        (case after_url env cfg (fst u) multi rd st3 of
                           (Immediate r, st4) \<Rightarrow> (Inr (Some r, None), st4)
                         | (LeaveURLs r, st4) \<Rightarrow> (Inr (None, Some r), st4)
                         | (NextURL r, st4) \<Rightarrow> try_urls env cfg attempt rq multi us (Some r) st4)))"

definition order_channel_urls ::
    "'w failover_env \<Rightarrow> config \<Rightarrow> string \<Rightarrow> proxy_request \<Rightarrow> 'w failover \<Rightarrow> sorted_url list \<times> 'w failover" where
  "order_channel_urls env cfg key rq st =
     (case observe (fe_random env) st of (rc, st1) \<Rightarrow>
     (case observe (fe_now env) st1 of (now, st2) \<Rightarrow>
     (case observe (fe_affinity env) st2 of (affinity, st3) \<Rightarrow>
        let mode = get_protocol_transform_mode cfg;
            o1 = order_urls_with_selector (rc_shuffle rc) (rc_intn rc) (rc_float64 rc) (fo_selector st3) (cfg_id cfg)
                   (get_urls cfg) now;
            o2 = (if mode = mode_auto then prioritize_protocol_urls o1 (cfg_urls cfg) True else o1);
            o3 = (case affinity of
                    None \<Rightarrow> o2
                  | Some t \<Rightarrow> if ua_channel t = cfg_id cfg \<and> ua_key_hash t = fe_key_hash env key
                              then prioritize_pinned_url (fe_url_library env) o2 (ua_url t) (rq_path rq) (rq_raw_query rq)
                              else o2)
        in (if mode = mode_local then prioritize_protocol_urls o3 (cfg_urls cfg) False else o3, st3))))"

definition attempt_key_across_urls ::
    "'w failover_env \<Rightarrow> config \<Rightarrow> oauth_credential option \<Rightarrow> int \<Rightarrow> string \<Rightarrow> proxy_request \<Rightarrow> 'w failover
       \<Rightarrow> (failover_error + proxy_result option \<times> proxy_result option) \<times> 'w failover" where
  "attempt_key_across_urls env cfg cred key_index key rq st =
     (case order_channel_urls env cfg key rq st of
        (ordered, st1) \<Rightarrow>
          try_urls env cfg (forward_attempt env cfg cred key_index key rq) rq (length (get_urls cfg) > 1) ordered None st1)"

section \<open>Keys\<close>

definition select_key ::
    "'w failover_env \<Rightarrow> config \<Rightarrow> api_key list \<Rightarrow> int list \<Rightarrow> 'w failover \<Rightarrow> (int \<times> string) option \<times> 'w failover" where
  "select_key env cfg keys tried st =
     (case observe (fe_affinity env) st of (affinity, st1) \<Rightarrow>
     (case observe (fe_now env) st1 of (now, st2) \<Rightarrow>
      (case (if cfg_retry_other_keys_on_failure cfg then None
             else select_pinned_codex_websocket_key (fe_key_hash env) cfg keys (\<lambda>i. i \<in> set tried) affinity now) of
         Some k \<Rightarrow> (Some k, st2)
       | None \<Rightarrow>
           (case observe (fe_now env) st2 of (now1, st3) \<Rightarrow>
           (case observe (fe_now env) st3 of (now2, st4) \<Rightarrow>
           (case select_key_with_fallback (fo_counters st4) cfg keys (\<lambda>i. i \<in> set tried) now1 now2 of
              (Inl e, counters) \<Rightarrow> (None, st4\<lparr>fo_counters := counters\<rparr>)
            | (Inr k, counters) \<Rightarrow> (Some k, st4\<lparr>fo_counters := counters\<rparr>)))))))"

definition last_failure :: "proxy_result option \<Rightarrow> failover_error + proxy_result" where
  "last_failure failure = (case failure of None \<Rightarrow> Inl AllKeysExhausted | Some r \<Rightarrow> Inr r)"

text \<open>The loop over the keys, at most as often as its counter says.\<close>

primrec try_keys ::
    "'w failover_env \<Rightarrow> config \<Rightarrow> (int \<Rightarrow> string \<Rightarrow> 'w failover \<Rightarrow> (failover_error + proxy_result option \<times> proxy_result option) \<times> 'w failover)
       \<Rightarrow> api_key list \<Rightarrow> nat \<Rightarrow> int list \<Rightarrow> proxy_result option \<Rightarrow> 'w failover
       \<Rightarrow> (failover_error + proxy_result) \<times> 'w failover" where
  "try_keys env cfg attempt keys 0 tried failure st = (last_failure failure, st)"
| "try_keys env cfg attempt keys (Suc n) tried failure st =
     (case observe (fe_ctx env) st of
        (Some e, st1) \<Rightarrow> (Inr (build_ctx_done_result cfg e), st1)
      | (None, st1) \<Rightarrow>
          (case select_key env cfg keys tried st1 of
             (None, st2) \<Rightarrow> (Inl AllKeysUnavailable, st2)
           | (Some (i, key), st2) \<Rightarrow>
               (case attempt i key st2 of
                  (Inl e, st3) \<Rightarrow> (Inl e, st3)
                | (Inr (Some r, f), st3) \<Rightarrow> (Inr r, st3)
                | (Inr (None, None), st3) \<Rightarrow> (last_failure failure, st3)
                | (Inr (None, Some r), st3) \<Rightarrow>
                    if d_retry (pr_next_action r) = RetryNextKey
                    then try_keys env cfg attempt keys n (i # tried) (Some r) st3
                    else (Inr r, st3))))"

text \<open>The two tries of an OAuth channel: with the credential at hand, and after 401 with a renewed one.\<close>

definition credential_unavailable_result :: "string \<Rightarrow> config \<Rightarrow> proxy_result" where
  "credential_unavailable_result provider cfg =
     (blank_result 503 (cfg_id cfg) cool_channel_decision)
       \<lparr>pr_body := ''{\"error\":{\"message\":\"'' @ provider @
           '' channel credential is unavailable\",\"type\":\"upstream_auth_error\"}}''\<rparr>"

definition key_failure_leaves_channel :: "proxy_result \<Rightarrow> proxy_result" where
  "key_failure_leaves_channel r =
     (if d_retry (pr_next_action r) = RetryNextKey
      then r\<lparr>pr_next_action := (pr_next_action r)\<lparr>d_retry := RetryNextChannel\<rparr>\<rparr> else r)"

primrec try_oauth ::
    "'w failover_env \<Rightarrow> string \<Rightarrow> (bool \<Rightarrow> 'w \<Rightarrow> oauth_credential option \<times> 'w) \<Rightarrow> config \<Rightarrow> proxy_request \<Rightarrow> bool list
       \<Rightarrow> 'w failover \<Rightarrow> (failover_error + proxy_result) \<times> 'w failover" where
  "try_oauth env provider credential cfg rq [] st = (Inl AllKeysExhausted, st)"
| "try_oauth env provider credential cfg rq (renew # tries) st =
     (case observe (credential renew) st of
        (None, st1) \<Rightarrow> (Inr (credential_unavailable_result provider cfg), st1)
      | (Some c, st1) \<Rightarrow>
          (case attempt_key_across_urls env cfg (Some c) no_key_index (oc_access_token c) rq st1 of
             (Inl e, st2) \<Rightarrow> (Inl e, st2)
           | (Inr (immediate, failure), st2) \<Rightarrow>
               (case (case immediate of Some r \<Rightarrow> Some r | None \<Rightarrow> failure) of
                  None \<Rightarrow> (Inl AllKeysExhausted, st2)
                | Some r \<Rightarrow>
                    if \<not> renew \<and> pr_status r = 401 then try_oauth env provider credential cfg rq tries st2
                    else (Inr (key_failure_leaves_channel r), st2))))"

definition try_oauth_channel ::
    "'w failover_env \<Rightarrow> string \<Rightarrow> (config \<Rightarrow> bool \<Rightarrow> 'w \<Rightarrow> oauth_credential option \<times> 'w) \<Rightarrow> config \<Rightarrow> proxy_request
       \<Rightarrow> 'w failover \<Rightarrow> (failover_error + proxy_result) \<times> 'w failover" where
  "try_oauth_channel env provider credential cfg rq st =
     (if get_urls cfg = [] then (Inl (NoValidURLs (cfg_id cfg)), st)
      else try_oauth env provider (credential cfg) cfg rq [False, True] st)"

definition max_key_retries :: "'w failover_env \<Rightarrow> config \<Rightarrow> api_key list \<Rightarrow> nat" where
  "max_key_retries env cfg keys =
     (if cfg_retry_other_keys_on_failure cfg then length keys
      else nat (min (fe_max_key_retries env) (int (length keys))))"

definition try_channel_with_keys ::
    "'w failover_env \<Rightarrow> proxy_request \<Rightarrow> config \<Rightarrow> 'w failover \<Rightarrow> (failover_error + proxy_result) \<times> 'w failover" where
  "try_channel_with_keys env rq cfg st =
     (case observe (fe_ctx env) st of
        (Some e, st1) \<Rightarrow> (Inr (build_ctx_done_result cfg e), st1)
      | (None, st1) \<Rightarrow>
          if uses_codex_oauth cfg then try_oauth_channel env ''Codex'' (fe_codex_credential env) cfg rq st1
          else if uses_antigravity_oauth cfg then try_oauth_channel env ''Antigravity'' (fe_antigravity_credential env) cfg rq st1
          else (case observe (fe_api_keys env (cfg_id cfg)) st1 of
            (None, st2) \<Rightarrow> (Inl (KeysUnreadable (cfg_id cfg)), st2)
          | (Some configured, st2) \<Rightarrow>
              let keys = filter_api_keys_for_model configured (rq_original_model rq) in
              if keys = [] then
                (Inl (if configured \<noteq> [] then NoKeyForModel (rq_original_model rq) (cfg_id cfg) else NoKeys (cfg_id cfg)), st2)
              else if get_urls cfg = [] then (Inl (NoValidURLs (cfg_id cfg)), st2)
              else try_keys env cfg (\<lambda>i key. attempt_key_across_urls env cfg None i key rq) keys
                     (max_key_retries env cfg keys) [] None st2))"

section \<open>Channels\<close>

definition should_stop_trying_channels :: "proxy_result \<Rightarrow> bool" where
  "should_stop_trying_channels r \<longleftrightarrow> pr_is_client_canceled r \<or> d_retry (pr_next_action r) = RetryNone"

definition is_alpha_search :: "proxy_request \<Rightarrow> bool" where
  "is_alpha_search rq \<longleftrightarrow> detect_request_family (rq_path rq) = AlphaSearch"

definition forget_sticky :: "proxy_request \<Rightarrow> 'w failover \<Rightarrow> 'w failover" where
  "forget_sticky rq st =
     st\<lparr>fo_sticky := forget_route (fo_sticky st) (sticky_scope_key (rq_token_hash rq)) (rq_original_model rq)\<rparr>"

definition remember_sticky :: "'w failover_env \<Rightarrow> proxy_request \<Rightarrow> int \<Rightarrow> 'w failover \<Rightarrow> 'w failover" where
  "remember_sticky env rq channel st =
     (case observe (fe_now env) st of (now, st1) \<Rightarrow>
        st1\<lparr>fo_sticky := remember (fo_sticky st1) (sticky_scope_key (rq_token_hash rq)) (rq_original_model rq) channel now\<rparr>)"

text \<open>What a channel that could not be tried leaves behind; other errors leave nothing.\<close>

definition after_error :: "'w failover_env \<Rightarrow> proxy_request \<Rightarrow> config \<Rightarrow> failover_error \<Rightarrow> 'w failover \<Rightarrow> 'w failover" where
  "after_error env rq cfg e st =
     (case e of
        AllKeysUnavailable \<Rightarrow>
          (case observe (fe_attempt env) (forget_sticky rq st) of (ae, st1) \<Rightarrow>
             snd (apply_cooldown_decision ae cfg
                    (http_error_input_from_parts (cfg_id cfg) no_key_index 503 '''' None) st1))
      | AllKeysExhausted \<Rightarrow> forget_sticky rq st
      | ChannelLimit l \<Rightarrow> forget_sticky rq st
      | _ \<Rightarrow> st)"

text \<open>
  The loop: whether an unsupported search was seen, the last result, and whether it succeeded.  A
  stopped request ends the loop.
\<close>

record loop_result =
  lr_unsupported_search :: bool
  lr_result :: "proxy_result option"
  lr_succeeded :: bool

primrec run_attempts ::
    "'w failover_env \<Rightarrow> proxy_request \<Rightarrow> (config \<Rightarrow> config \<Rightarrow> proxy_result \<Rightarrow> bool)
       \<Rightarrow> (config \<Rightarrow> 'w failover \<Rightarrow> (failover_error + proxy_result) \<times> 'w failover)
       \<Rightarrow> config list \<Rightarrow> bool \<Rightarrow> proxy_result option \<Rightarrow> 'w failover \<Rightarrow> loop_result option \<times> 'w failover" where
  "run_attempts env rq stop attempt [] saw result st =
     (Some \<lparr>lr_unsupported_search = saw, lr_result = result, lr_succeeded = False\<rparr>, st)"
| "run_attempts env rq stop attempt (cfg # cfgs) saw result st =
     (case attempt cfg st of
        (Inl RequestStopped, st1) \<Rightarrow> (None, st1)
      | (Inl e, st1) \<Rightarrow> run_attempts env rq stop attempt cfgs saw result (after_error env rq cfg e st1)
      | (Inr r, st1) \<Rightarrow>
          let saw' = (saw \<or> pr_protocol_capability_missing r \<and> is_alpha_search rq) in
          if pr_succeeded r then
            (Some \<lparr>lr_unsupported_search = saw', lr_result = Some r, lr_succeeded = True\<rparr>,
             remember_sticky env rq (cfg_id cfg) st1)
          else
            let st2 = forget_sticky rq st1 in
            if pr_is_client_canceled r \<or> should_stop_trying_channels r \<or>
               (case cfgs of [] \<Rightarrow> False | next_cfg # _ \<Rightarrow> stop cfg next_cfg r)
            then (Some \<lparr>lr_unsupported_search = saw', lr_result = Some r, lr_succeeded = False\<rparr>, st2)
            else run_attempts env rq stop attempt cfgs saw' (Some r) st2)"

definition empty_search_result :: proxy_result where
  "empty_search_result = (blank_result 200 0 no_action)\<lparr>pr_channel_id := None, pr_succeeded := True\<rparr>"

definition run_proxy_attempt_loop ::
    "'w failover_env \<Rightarrow> proxy_request \<Rightarrow> (config \<Rightarrow> config \<Rightarrow> proxy_result \<Rightarrow> bool) \<Rightarrow> config list \<Rightarrow> 'w failover
       \<Rightarrow> (proxy_result option \<times> bool) option \<times> 'w failover" where
  "run_proxy_attempt_loop env rq stop candidates st =
     (case run_attempts env rq stop (try_channel_with_keys env rq) candidates False None st of
        (None, st1) \<Rightarrow> (None, st1)
      | (Some lr, st1) \<Rightarrow>
          (Some (if lr_succeeded lr then (lr_result lr, True)
             else if lr_unsupported_search lr \<and> is_alpha_search rq \<and>
                (case lr_result lr of
                   None \<Rightarrow> True
                 | Some r \<Rightarrow> \<not> pr_is_client_canceled r \<and> d_retry (pr_next_action r) \<noteq> RetryNone)
             then (Some empty_search_result, True)
             else (lr_result lr, False)), st1))"

definition determine_final_client_status :: "proxy_result option \<Rightarrow> int" where
  "determine_final_client_status last_result =
     (case last_result of
        None \<Rightarrow> 503
      | Some r \<Rightarrow>
          if pr_status r = 0 then 503
          else if pr_status r = status_client_closed_request
            then (if pr_is_client_canceled r then pr_status r else 502)
          else client_status_for (pr_status r))"

section \<open>One round of a loop\<close>

text \<open>What the loop over the addresses does with the next one.\<close>

lemma try_urls_step:
  assumes run: "try_urls env cfg attempt rq multi (u # us) failure st = (x, st')"
  obtains
    (expired) e where "observe (fe_ctx env) st = (Some e, st')" and "x = Inr (Some (build_ctx_done_result cfg e), None)"
  | (broken) e where "observe (fe_ctx env) st = (None, st')" and "x = Inl e"
  | (unsupported) st1 l key candidates st2 where "observe (fe_ctx env) st = (None, st1)"
      and "known_candidates env l key candidates st1 = ([], st2)"
      and "try_urls env cfg attempt rq multi us (Some (endpoint_unsupported_result cfg)) st2 = (x, st')"
  | (failed) st1 l key candidates p ps st2 e where "observe (fe_ctx env) st = (None, st1)"
      and "known_candidates env l key candidates st1 = (p # ps, st2)"
      and "try_protocols env (attempt (fst u) (multi \<and> us \<noteq> [])) l key (p # ps) st2 = (Inl e, st')" and "x = Inl e"
  | (tried) st1 l key candidates p ps st2 rd st3 y st4 where "observe (fe_ctx env) st = (None, st1)"
      and "known_candidates env l key candidates st1 = (p # ps, st2)"
      and "try_protocols env (attempt (fst u) (multi \<and> us \<noteq> [])) l key (p # ps) st2 = (Inr rd, st3)"
      and "after_url env cfg (fst u) multi rd st3 = (y, st4)"
      and "case y of Immediate r \<Rightarrow> x = Inr (Some r, None) \<and> st' = st4
           | LeaveURLs r \<Rightarrow> x = Inr (None, Some r) \<and> st' = st4
           | NextURL r \<Rightarrow> try_urls env cfg attempt rq multi us (Some r) st4 = (x, st')"
proof -
  obtain e st1 where ctx: "observe (fe_ctx env) st = (e, st1)" by fastforce
  let ?mode = "get_protocol_transform_mode cfg" and ?family = "detect_request_family (rq_path rq)"
  obtain candidates declared where pc: "protocol_candidates_for_url (cfg_urls cfg ! snd u) ?mode
      (rq_client_protocol rq) ?family (local_upstream_protocol_order (cfg_urls cfg)) = (candidates, declared)" by fastforce
  let ?l = "?mode = mode_auto \<and> \<not> declared"
  let ?key = "\<lparr>ck_channel = cfg_id cfg, ck_base_url = fst u, ck_client = rq_client_protocol rq, ck_family = ?family\<rparr>"
  obtain ps st2 where known: "known_candidates env ?l ?key candidates st1 = (ps, st2)" by fastforce
  note run = run [unfolded try_urls.simps ctx Let_def pc prod.case known]
  show thesis
  proof (cases "e = None \<and> snd u < length (cfg_urls cfg)")
    case False
    then show thesis using run ctx expired broken by (auto split: option.splits if_splits)
  next
    case True
    then have c1: "observe (fe_ctx env) st = (None, st1)" using ctx by simp
    show thesis
    proof (cases ps)
      case Nil
      then show thesis using run True unsupported [OF c1 known [unfolded Nil]] by simp
    next
      case (Cons p qs)
      obtain r st3 where tp: "try_protocols env (attempt (fst u) (multi \<and> us \<noteq> [])) ?l ?key (p # qs) st2 = (r, st3)" by fastforce
      show thesis
      proof (cases r)
        case (Inl err)
        then show thesis using run True Cons tp failed [OF c1 known [unfolded Cons]] by simp
      next
        case (Inr rd)
        obtain y st4 where au: "after_url env cfg (fst u) multi rd st3 = (y, st4)" by fastforce
        show thesis using run True Cons tp Inr au by (intro tried [OF c1 known [unfolded Cons] tp [unfolded Inr] au])
            (auto split: url_step.splits)
      qed
    qed
  qed
qed

text \<open>The ways a channel is tried.\<close>

lemma try_channel_step:
  assumes run: "try_channel_with_keys env rq cfg st = (x, st')"
  obtains
    (expired) e where "observe (fe_ctx env) st = (Some e, st')" and "x = Inr (build_ctx_done_result cfg e)"
  | (oauth) st1 provider credential where "observe (fe_ctx env) st = (None, st1)"
      and "uses_codex_oauth cfg \<or> uses_antigravity_oauth cfg"
      and "credential = fe_codex_credential env \<or> credential = fe_antigravity_credential env"
      and "try_oauth_channel env provider credential cfg rq st1 = (x, st')"
  | (unusable) st1 keys e where "observe (fe_ctx env) st = (None, st1)"
      and "observe (fe_api_keys env (cfg_id cfg)) st1 = (keys, st')" and "x = Inl e"
  | (keyed) st1 configured st2 where "observe (fe_ctx env) st = (None, st1)"
      and "observe (fe_api_keys env (cfg_id cfg)) st1 = (Some configured, st2)"
      and "\<not> uses_codex_oauth cfg" "\<not> uses_antigravity_oauth cfg" "get_urls cfg \<noteq> []"
      and "let keys = filter_api_keys_for_model configured (rq_original_model rq) in
           try_keys env cfg (\<lambda>i key. attempt_key_across_urls env cfg None i key rq) keys
             (max_key_retries env cfg keys) [] None st2 = (x, st')"
proof -
  obtain e st1 where ctx: "observe (fe_ctx env) st = (e, st1)" by fastforce
  obtain keys st2 where keys: "observe (fe_api_keys env (cfg_id cfg)) st1 = (keys, st2)" by fastforce
  note run = run [unfolded try_channel_with_keys_def ctx prod.case keys Let_def]
  show thesis
  proof (cases e)
    case (Some err)
    then show thesis using run ctx expired by simp
  next
    case None
    note c1 = ctx [unfolded None]
    consider "uses_codex_oauth cfg \<or> uses_antigravity_oauth cfg" | "\<not> uses_codex_oauth cfg" "\<not> uses_antigravity_oauth cfg"
      by blast
    then show thesis
    proof cases
      case 1
      then show thesis using run None oauth [OF c1 1] by (auto split: if_splits)
    next
      case 2
      then show thesis using run None keys unusable [OF c1] keyed [OF c1]
        by (cases keys) (auto simp: Let_def split: if_splits)
    qed
  qed
qed

section \<open>The calls of a request\<close>

text \<open>
  A world that records the calls: sending appends the call to the record, and nothing else touches it.
  Every surroundings can be extended by such a record.
\<close>

definition records_calls :: "'w failover_env \<Rightarrow> ('w \<Rightarrow> upstream_call list) \<Rightarrow> bool" where
  "records_calls env sent \<longleftrightarrow>
     (\<forall>call st. sent (fo_world (snd (fe_send env call st))) = sent (fo_world st) @ [call]) \<and>
     (\<forall>w. sent (snd (fe_now env w)) = sent w) \<and> (\<forall>w. sent (snd (fe_ctx env w)) = sent w) \<and>
     (\<forall>w. sent (snd (fe_random env w)) = sent w) \<and> (\<forall>w. sent (snd (fe_attempt env w)) = sent w) \<and>
     (\<forall>c w. sent (snd (fe_api_keys env c w)) = sent w) \<and> (\<forall>w. sent (snd (fe_affinity env w)) = sent w) \<and>
     (\<forall>c b w. sent (snd (fe_codex_credential env c b w)) = sent w) \<and>
     (\<forall>c b w. sent (snd (fe_antigravity_credential env c b w)) = sent w)"

lemma observe_log:
  "(\<And>w. sent (snd (f w)) = sent w) \<Longrightarrow> observe f st = (x, st') \<Longrightarrow> sent (fo_world st') = sent (fo_world st)"
  by (auto simp: observe_def split: prod.splits) (metis snd_conv)

lemma observe_logs:
  assumes "records_calls env sent"
  shows "observe (fe_now env) st = (t, st') \<Longrightarrow> sent (fo_world st') = sent (fo_world st)"
    and "observe (fe_ctx env) st = (c, st') \<Longrightarrow> sent (fo_world st') = sent (fo_world st)"
    and "observe (fe_random env) st = (rc, st') \<Longrightarrow> sent (fo_world st') = sent (fo_world st)"
    and "observe (fe_attempt env) st = (ae, st') \<Longrightarrow> sent (fo_world st') = sent (fo_world st)"
    and "observe (fe_api_keys env i) st = (ks, st') \<Longrightarrow> sent (fo_world st') = sent (fo_world st)"
    and "observe (fe_affinity env) st = (aff, st') \<Longrightarrow> sent (fo_world st') = sent (fo_world st)"
    and "observe (fe_codex_credential env cfg b) st = (cr, st') \<Longrightarrow> sent (fo_world st') = sent (fo_world st)"
    and "observe (fe_antigravity_credential env cfg b) st = (cr, st') \<Longrightarrow> sent (fo_world st') = sent (fo_world st)"
proof -
  note r = assms [unfolded records_calls_def]
  show "observe (fe_now env) st = (t, st') \<Longrightarrow> sent (fo_world st') = sent (fo_world st)"
    by (erule observe_log [rotated]) (use r in blast)
  show "observe (fe_ctx env) st = (c, st') \<Longrightarrow> sent (fo_world st') = sent (fo_world st)"
    by (erule observe_log [rotated]) (use r in blast)
  show "observe (fe_random env) st = (rc, st') \<Longrightarrow> sent (fo_world st') = sent (fo_world st)"
    by (erule observe_log [rotated]) (use r in blast)
  show "observe (fe_attempt env) st = (ae, st') \<Longrightarrow> sent (fo_world st') = sent (fo_world st)"
    by (erule observe_log [rotated]) (use r in blast)
  show "observe (fe_api_keys env i) st = (ks, st') \<Longrightarrow> sent (fo_world st') = sent (fo_world st)"
    by (erule observe_log [rotated]) (use r in blast)
  show "observe (fe_affinity env) st = (aff, st') \<Longrightarrow> sent (fo_world st') = sent (fo_world st)"
    by (erule observe_log [rotated]) (use r in blast)
  show "observe (fe_codex_credential env cfg b) st = (cr, st') \<Longrightarrow> sent (fo_world st') = sent (fo_world st)"
    by (erule observe_log [rotated]) (use r in blast)
  show "observe (fe_antigravity_credential env cfg b) st = (cr, st') \<Longrightarrow> sent (fo_world st') = sent (fo_world st)"
    by (erule observe_log [rotated]) (use r in blast)
qed

text \<open>The same facts with the observation first, for forward reasoning.\<close>

lemmas observed = observe_logs [rotated]

lemma send_log:
  "records_calls env sent \<Longrightarrow> fe_send env call st = (a, st') \<Longrightarrow> sent (fo_world st') = sent (fo_world st) @ [call]"
  unfolding records_calls_def by (metis snd_conv)

text \<open>The handlers of an attempt leave the request's own state alone.\<close>

lemma same_more: "attempt_state.more st' = attempt_state.more st \<Longrightarrow>
    fo_world st' = fo_world st \<and> fo_sticky st' = fo_sticky st \<and> fo_counters st' = fo_counters st \<and>
    fo_capabilities st' = fo_capabilities st \<and> fo_selector st' = fo_selector st"
  for st st' :: "'w failover"
  by (cases st; cases st') simp

lemma apply_cooldown_more [simp]:
  "attempt_state.more (snd (apply_cooldown_decision env cfg i st)) = attempt_state.more st"
  unfolding apply_cooldown_decision_def Let_def invalidate_channel_related_def by (simp add: case_prod_beta)

lemma clear_more [simp]: "attempt_state.more (clear_by_effect env cfg k s d st) = attempt_state.more st"
  by (simp add: clear_by_effect_def)

lemma report_more [simp]: "attempt_state.more (report_usage cfg ok dur r m st) = attempt_state.more st"
  by (simp add: report_usage_def)

lemma invalidate_more [simp]: "attempt_state.more (invalidate_channel_related c st) = attempt_state.more st"
  by (simp add: invalidate_channel_related_def)

lemma active_more [simp]: "attempt_state.more (snd (has_active_model_cooldown env c m st)) = attempt_state.more st"
  unfolding has_active_model_cooldown_def Let_def by (simp add: case_prod_beta split: option.split)

lemma clear_if_active_more [simp]:
  "attempt_state.more (case has_active_model_cooldown env c m s of (False, s) \<Rightarrow> s | (True, s) \<Rightarrow> clear_by_effect env cfg k code d s)
     = attempt_state.more s"
  using active_more [of env c m s] by (cases "has_active_model_cooldown env c m s") (auto split: bool.split)

lemma success_more [simp]: "attempt_state.more (snd (handle_proxy_success env cfg k m dur r st)) = attempt_state.more st"
  unfolding handle_proxy_success_def Let_def by (simp add: if_distrib [of attempt_state.more])

lemma network_more [simp]: "attempt_state.more (snd (handle_network_error env cfg k m dur e r d st)) = attempt_state.more st"
  unfolding handle_network_error_def Let_def
  by (cases "classify_error (Some e)") (auto simp: case_prod_beta split: option.split)

lemma error_response_more [simp]:
  "attempt_state.more (snd (handle_proxy_error_response env cfg k m dur r d f st)) = attempt_state.more st"
  unfolding handle_proxy_error_response_def Let_def by (auto simp: case_prod_beta split: option.split)

lemma committed_more [simp]:
  "attempt_state.more (snd (handle_committed_aware_proxy_error env cfg k m dur r d st)) = attempt_state.more st"
  by (simp add: handle_committed_aware_proxy_error_def handle_streaming_error_no_retry_def case_prod_beta)

lemma anomaly_more:
  "handle_successful_forward_anomaly env cfg k m dur r d st = Some p \<Longrightarrow> attempt_state.more (snd p) = attempt_state.more st"
  by (auto simp: handle_successful_forward_anomaly_def split: option.splits if_splits)

lemma conclude_more:
  assumes "conclude_attempt env cfg k m dur err answer d force st = Some (x, st')"
  shows "attempt_state.more st' = attempt_state.more st"
proof (cases err)
  case None
  with assms show ?thesis
    by (auto simp: conclude_attempt_def Let_def apfst_def map_prod_def case_prod_beta
        split: option.splits if_splits dest: anomaly_more)
next
  case (Some f)
  with assms show ?thesis
    by (cases f) (auto simp: conclude_attempt_def Let_def apfst_def map_prod_def case_prod_beta split: option.splits if_splits)
qed

text \<open>What the calls of one attempt look like.\<close>

lemma card_fewer: "x \<notin> set xs \<Longrightarrow> Suc (card (- set (x # xs) :: retry_strategy_400 set)) \<le> card (- set xs)"
  by (intro Suc_leI psubset_card_mono) auto

lemma codex_retries_calls:
  "codex_retries env used call force a st = (a', force', st') \<Longrightarrow> records_calls env sent \<Longrightarrow>
     \<exists>cs. sent (fo_world st') = sent (fo_world st) @ cs \<and> length cs \<le> card (- set used) \<and>
       (\<forall>c \<in> set cs. \<exists>plan. c = call\<lparr>uc_plan := plan\<rparr>)"
proof (induction env used call force a st arbitrary: a' force' st' rule: codex_retries.induct)
  case (1 env used call force a st)
  note run = 1(2) [unfolded codex_retries.simps [of env used call force a st]]
  consider (stop) "st' = st" | (go) body strategy where "retry_body_for env call a = Some (body, strategy)"
      "strategy \<notin> set used"
    using run by (auto split: option.splits if_splits prod.splits)
  then show ?case
  proof cases
    case stop
    then show ?thesis by (intro exI [of _ "[]"]) simp
  next
    case go
    obtain b st1 where send: "fe_send env (with_body call body) st = (b, st1)" by (metis surj_pair)
    have log1: "sent (fo_world st1) = sent (fo_world st) @ [with_body call body]" by (rule send_log [OF 1(3) send])
    have call: "\<exists>plan. with_body call body = call\<lparr>uc_plan := plan\<rparr>" by (auto simp: with_body_def)
    have left: "Suc (card (- set (strategy # used))) \<le> card (- set used)" by (rule card_fewer [OF go(2)])
    show ?thesis
    proof (cases "st' = st1")
      case True
      then show ?thesis using log1 call left by (intro exI [of _ "[with_body call body]"]) auto
    next
      case False
      then have more: "\<not> clean_answer b" "\<not> (snd (snd b) \<noteq> None \<or> fst b = None)"
        "codex_retries env (strategy # used) (with_body call body) True b st1 = (a', force', st')"
        using run go send by (auto split: if_splits)
      have "\<exists>cs. sent (fo_world st') = sent (fo_world st1) @ cs \<and> length cs \<le> card (- set (strategy # used)) \<and>
          (\<forall>c \<in> set cs. \<exists>plan. c = (with_body call body)\<lparr>uc_plan := plan\<rparr>)"
        using 1(1) [OF go(1) refl go(2) send [symmetric] more(1,2) more(3) 1(3)] .
      then obtain cs where cs: "sent (fo_world st') = sent (fo_world st1) @ cs" "length cs \<le> card (- set (strategy # used))"
        "\<forall>c \<in> set cs. \<exists>plan. c = (with_body call body)\<lparr>uc_plan := plan\<rparr>" by blast
      have "\<exists>plan. c = call\<lparr>uc_plan := plan\<rparr>" if "c \<in> set cs" for c using cs(3) that by (auto simp: with_body_def)
      then show ?thesis using log1 cs(1,2) call left by (intro exI [of _ "with_body call body # cs"]) auto
    qed
  qed
qed

text \<open>One attempt: at most four calls, all to the same channel and address, with the same key.\<close>

definition calls_of :: "config \<Rightarrow> int \<Rightarrow> string \<Rightarrow> upstream_call \<Rightarrow> bool" where
  "calls_of cfg i key c \<longleftrightarrow> uc_channel c = cfg \<and> uc_key_index c = i \<and> uc_api_key c = key"

lemma card_strategies: "card (- set [] :: retry_strategy_400 set) \<le> 3"
proof -
  have "(- set [] :: retry_strategy_400 set) = {StripEncryptedInput, StripEncryptedContent, StripThinking}"
    using retry_strategy_400.exhaust by auto
  then have "card (- set [] :: retry_strategy_400 set) = card {StripEncryptedInput, StripEncryptedContent, StripThinking}"
    by (rule arg_cong)
  also have "\<dots> = 3" by simp
  finally show ?thesis by simp
qed

lemma forward_attempt_calls:
  assumes "records_calls env sent" and "forward_attempt env cfg cred i key rq base d p st = (x, st')"
  shows "\<exists>cs. sent (fo_world st') = sent (fo_world st) @ cs \<and> length cs \<le> 4 \<and>
     (\<forall>c \<in> set cs. calls_of cfg i key c \<and> uc_base_url c = base)"
proof (cases "st' = st")
  case True
  then show ?thesis by (intro exI [of _ "[]"]) simp
next
  case False
  then obtain plan where sent: "\<exists>actual a st1. \<exists>a' f st2 ae st3 c.
      c = \<lparr>uc_channel = cfg, uc_credential = cred, uc_key_index = i, uc_api_key = key, uc_base_url = base, uc_plan = plan\<rparr> \<and>
      fe_send env c st = (a, st1) \<and> codex_retries env [] c False a st1 = (a', f, st2) \<and>
      observe (fe_attempt env) st2 = (ae, st3) \<and>
      (st' = st3 \<or> (\<exists>y. conclude_attempt ae cfg i actual (fst (snd a')) (snd (snd a'))
           (map_option (with_fast_mode env rq) (fst a')) d f st3 = Some (y, st')))"
    using assms(2) unfolding forward_attempt_def Let_def
    by (auto split: option.splits prod.splits sum.splits) (metis | blast)+
  then obtain actual a st1 a' f st2 ae st3 c where
    c: "c = \<lparr>uc_channel = cfg, uc_credential = cred, uc_key_index = i, uc_api_key = key, uc_base_url = base, uc_plan = plan\<rparr>"
    and s: "fe_send env c st = (a, st1)" "codex_retries env [] c False a st1 = (a', f, st2)"
      "observe (fe_attempt env) st2 = (ae, st3)"
    and e: "st' = st3 \<or> (\<exists>y. conclude_attempt ae cfg i actual (fst (snd a')) (snd (snd a'))
           (map_option (with_fast_mode env rq) (fst a')) d f st3 = Some (y, st'))" by blast
  from codex_retries_calls [OF s(2) assms(1)] obtain cs where
    cs: "sent (fo_world st2) = sent (fo_world st1) @ cs" "length cs \<le> card (- set [] :: retry_strategy_400 set)"
      "\<forall>x \<in> set cs. \<exists>plan. x = c\<lparr>uc_plan := plan\<rparr>" by blast
  have "fo_world st' = fo_world st3" using e conclude_more same_more by blast
  then have "sent (fo_world st') = sent (fo_world st) @ (c # cs)"
    using send_log [OF assms(1) s(1)] observe_logs(4) [OF assms(1) s(3)] cs(1) by simp
  moreover have "length (c # cs) \<le> 4" using cs(2) card_strategies by simp
  moreover have "\<forall>x \<in> set (c # cs). calls_of cfg i key x \<and> uc_base_url x = base"
    using cs(3) c by (auto simp: calls_of_def)
  ultimately show ?thesis by blast
qed

text \<open>Calls that a step makes: the record grows by a list of a certain kind.\<close>

definition emits ::
    "('w \<Rightarrow> upstream_call list) \<Rightarrow> (upstream_call list \<Rightarrow> bool) \<Rightarrow> 'w failover \<Rightarrow> 'w failover \<Rightarrow> bool" where
  "emits sent P st st' \<longleftrightarrow> (\<exists>cs. sent (fo_world st') = sent (fo_world st) @ cs \<and> P cs)"

lemma emits_silent: "sent (fo_world st') = sent (fo_world st) \<Longrightarrow> P [] \<Longrightarrow> emits sent P st st'"
  by (auto simp: emits_def)

lemma emits_trans:
  "emits sent P st st1 \<Longrightarrow> emits sent Q st1 st2 \<Longrightarrow> (\<And>cs ds. P cs \<Longrightarrow> Q ds \<Longrightarrow> R (cs @ ds)) \<Longrightarrow> emits sent R st st2"
  unfolding emits_def by (metis append.assoc)

lemma emits_mono: "emits sent P st st' \<Longrightarrow> (\<And>cs. P cs \<Longrightarrow> Q cs) \<Longrightarrow> emits sent Q st st'"
  unfolding emits_def by blast

lemma emits_same_log:
  "sent (fo_world st1) = sent (fo_world st) \<Longrightarrow> sent (fo_world st3) = sent (fo_world st2) \<Longrightarrow>
     emits sent P st1 st2 \<Longrightarrow> emits sent P st st3"
  by (simp add: emits_def)

lemma emits_all_trans:
  "emits sent (list_all Q) st st1 \<Longrightarrow> emits sent (list_all Q) st1 st2 \<Longrightarrow> emits sent (list_all Q) st st2"
  by (erule emits_trans) auto

lemma learn_capability_log:
  "records_calls env sent \<Longrightarrow> sent (fo_world (learn_capability env l key p st)) = sent (fo_world st)"
  by (auto simp: learn_capability_def split: prod.split dest: observe_logs(1))

lemma known_candidates_log:
  "records_calls env sent \<Longrightarrow> known_candidates env l key ps st = (ps', st') \<Longrightarrow> sent (fo_world st') = sent (fo_world st)"
  by (auto simp: known_candidates_def split: prod.splits if_splits dest: observe_logs(1))

lemma cool_url_log: "records_calls env sent \<Longrightarrow> sent (fo_world (cool_url env c u st)) = sent (fo_world st)"
  by (auto simp: cool_url_def split: option.split prod.split dest: observe_logs(1))

lemma apply_cooldown_log:
  "apply_cooldown_decision ae cfg inp st = (d, st') \<Longrightarrow> fo_world st' = fo_world (st :: 'w failover)"
  using apply_cooldown_more [of ae cfg inp st] same_more by fastforce

lemma after_url_log:
  "records_calls env sent \<Longrightarrow> after_url env cfg u m rd st = (x, st') \<Longrightarrow> sent (fo_world st') = sent (fo_world st)"
  by (auto simp: after_url_def Let_def cool_url_log split: prod.splits if_splits option.splits
      dest: observe_logs(1) observe_logs(4) dest!: apply_cooldown_log)

text \<open>
  What holds of every call of the attempts holds of every call of the loops around them.
\<close>

lemma try_protocols_emits:
  assumes "records_calls env sent"
    and attempt: "\<And>p st x st'. attempt p st = (x, st') \<Longrightarrow> emits sent (list_all Q) st st'"
  shows "try_protocols env attempt l key ps st = (x, st') \<Longrightarrow> emits sent (list_all Q) st st'"
proof (induction ps arbitrary: st)
  case Nil
  then show ?case by (auto intro: emits_silent)
next
  case (Cons p ps)
  obtain y st1 where a: "attempt p st = (y, st1)" by fastforce
  note e = attempt [OF a]
  have learned: "emits sent (list_all Q) st (learn_capability env l key q st1)" for q
    by (rule emits_same_log [OF refl _ e]) (rule learn_capability_log [OF assms(1)])
  show ?case
  proof (cases y)
    case (Inl err)
    then show ?thesis using Cons.prems a e by simp
  next
    case (Inr rd)
    then show ?thesis
      using Cons.prems a learned emits_all_trans [OF e Cons.IH] by (auto split: if_splits)
  qed
qed

lemma try_urls_emits:
  assumes rec: "records_calls env sent"
  shows "(\<And>u i d p st x st'. (u, i) \<in> set us \<Longrightarrow> attempt u d p st = (x, st') \<Longrightarrow> emits sent (list_all Q) st st') \<Longrightarrow>
     try_urls env cfg attempt rq multi us failure st = (x, st') \<Longrightarrow> emits sent (list_all Q) st st'"
proof (induction us arbitrary: failure st)
  case Nil
  then show ?case by (auto intro: emits_silent)
next
  case (Cons u us)
  have attempt: "emits sent (list_all Q) s s'" if "attempt (fst u) d p s = (y, s')" for d p s y s'
    using Cons.prems(1) [of "fst u" "snd u"] that by simp
  have rest: "emits sent (list_all Q) s st'"
    if "try_urls env cfg attempt rq multi us f s = (x, st')" for f s
    using that Cons.prems(1) by (intro Cons.IH) (meson list.set_intros(2), blast)
  have silent: "emits sent (list_all Q) st st2"
    if "observe (fe_ctx env) st = (e, st1)" "known_candidates env l key candidates st1 = (ps, st2)" for e st1 l key candidates ps st2
    using observe_logs(2) [OF rec that(1)] known_candidates_log [OF rec that(2)] by (auto intro: emits_silent)
  from Cons.prems(2) show ?case
  proof (cases rule: try_urls_step)
    case (expired e)
    then show ?thesis by (auto intro: emits_silent observe_logs(2) [OF rec])
  next
    case (broken e)
    then show ?thesis by (auto intro: emits_silent observe_logs(2) [OF rec])
  next
    case (unsupported st1 l key candidates st2)
    then show ?thesis using emits_all_trans [OF silent rest] by blast
  next
    case (failed st1 l key candidates p ps st2 e)
    show ?thesis
      by (rule emits_all_trans [OF silent [OF failed(1,2)] try_protocols_emits [OF rec attempt failed(3)]])
  next
    case (tried st1 l key candidates p ps st2 rd st3 y st4)
    have e3: "emits sent (list_all Q) st st3"
      by (rule emits_all_trans [OF silent [OF tried(1,2)] try_protocols_emits [OF rec attempt tried(3)]])
    have e4: "emits sent (list_all Q) st st4"
      by (rule emits_same_log [OF refl _ e3]) (rule after_url_log [OF rec tried(4)])
    show ?thesis using tried(5) e4 emits_all_trans [OF e4 rest] by (cases y) auto
  qed
qed

lemma order_channel_urls_log:
  "records_calls env sent \<Longrightarrow> order_channel_urls env cfg key rq st = (us, st') \<Longrightarrow> sent (fo_world st') = sent (fo_world st)"
  unfolding order_channel_urls_def Let_def
  by (clarsimp split: prod.splits) (metis observed(1,3,6))

lemma select_key_log:
  assumes rec: "records_calls env sent" and "select_key env cfg keys tried st = (k, st')"
  shows "sent (fo_world st') = sent (fo_world st)"
proof -
  obtain aff st1 where 1: "observe (fe_affinity env) st = (aff, st1)" by fastforce
  obtain now st2 where 2: "observe (fe_now env) st1 = (now, st2)" by fastforce
  obtain now1 st3 where 3: "observe (fe_now env) st2 = (now1, st3)" by fastforce
  obtain now2 st4 where 4: "observe (fe_now env) st3 = (now2, st4)" by fastforce
  have "fo_world st' = fo_world st2 \<or> fo_world st' = fo_world st4"
    using assms(2) unfolding select_key_def 1 2 3 4 prod.case
    by (auto simp: 3 4 split: prod.splits option.splits sum.splits if_splits)
  then show ?thesis
    using observe_logs(6) [OF rec 1] observe_logs(1) [OF rec 2] observe_logs(1) [OF rec 3] observe_logs(1) [OF rec 4] by auto
qed

text \<open>Addresses are only reordered on the way from the configuration to the loop.\<close>

definition fair_shuffle :: "'w failover_env \<Rightarrow> bool" where
  "fair_shuffle env \<longleftrightarrow> (\<forall>w xs. mset (rc_shuffle (fst (fe_random env w)) xs) = mset xs)"

lemma ordered_is_configured:
  assumes "\<And>xs. mset (shuffle xs) = mset xs" and "(u, i) \<in> set (order_urls_with_selector shuffle intn f sel channel urls now)"
  shows "u \<in> set urls"
proof (cases sel)
  case None
  then show ?thesis using assms(2)
    by (cases urls) (auto simp: order_urls_with_selector_def in_set_enumerate_eq nth_Cons' split: if_splits)
next
  case (Some s)
  then show ?thesis using covers_lookup [OF order_covers [OF assms(1)]] assms(2) by (metis nth_mem)
qed

lemma pinned_from_mset: "pinned_from p before us = Some us' \<Longrightarrow> mset us' = mset before + mset us"
  by (induction us arbitrary: before) (auto split: if_splits)

lemma prioritize_pinned_set [simp]: "set (prioritize_pinned_url lib us target path raw) = set us"
  by (auto simp: prioritize_pinned_url_def split: option.split dest!: pinned_from_mset mset_eq_setD)

lemma prioritize_protocol_set [simp]: "set (prioritize_protocol_urls us configured a) = set us"
  by (auto simp: prioritize_protocol_urls_def Let_def)

lemma ordered_channel_urls:
  assumes fair: "fair_shuffle env" and "order_channel_urls env cfg key rq st = (us, st')" and "(u, i) \<in> set us"
  shows "u \<in> set (get_urls cfg)"
proof -
  obtain rc st1 where 1: "observe (fe_random env) st = (rc, st1)" by fastforce
  then have "mset (rc_shuffle rc xs) = mset xs" for xs
    using fair by (auto simp: fair_shuffle_def observe_def split: prod.splits) (metis fst_conv)
  note configured = ordered_is_configured [OF this]
  show ?thesis using assms(2,3) unfolding order_channel_urls_def 1 Let_def
    by (auto split: prod.splits option.splits if_splits dest: configured)
qed

text \<open>The calls of one key: all with that key, all to addresses of the channel.\<close>

lemma attempt_key_emits:
  assumes "records_calls env sent" and "fair_shuffle env"
    and "attempt_key_across_urls env cfg cred i key rq st = (x, st')"
  shows "emits sent (list_all (\<lambda>c. calls_of cfg i key c \<and> uc_base_url c \<in> set (get_urls cfg))) st st'"
proof -
  obtain us st1 where order: "order_channel_urls env cfg key rq st = (us, st1)" by fastforce
  have one: "emits sent (list_all (\<lambda>c. calls_of cfg i key c \<and> uc_base_url c \<in> set (get_urls cfg))) s s'"
    if "(u, j) \<in> set us" "forward_attempt env cfg cred i key rq u d p s = (y, s')" for u j d p s y s'
    using forward_attempt_calls [OF assms(1) that(2)] ordered_channel_urls [OF assms(2) order that(1)]
    by (auto simp: emits_def list_all_iff)
  have "try_urls env cfg (forward_attempt env cfg cred i key rq) rq (length (get_urls cfg) > 1) us None st1 = (x, st')"
    using assms(3) order by (simp add: attempt_key_across_urls_def)
  from try_urls_emits [OF assms(1) one this] show ?thesis
    by (rule emits_same_log [OF order_channel_urls_log [OF assms(1) order] refl])
qed

text \<open>A list of calls that falls into groups, one for each entry of another list.\<close>

definition grouped :: "('b \<Rightarrow> upstream_call \<Rightarrow> bool) \<Rightarrow> 'b list \<Rightarrow> upstream_call list \<Rightarrow> bool" where
  "grouped Q ks cs \<longleftrightarrow> (\<exists>groups. cs = concat groups \<and> list_all2 (\<lambda>k. list_all (Q k)) ks groups)"

lemma grouped_Nil [simp]: "grouped Q [] cs \<longleftrightarrow> cs = []"
  by (auto simp: grouped_def)

lemma grouped_Cons: "list_all (Q k) cs \<Longrightarrow> grouped Q ks ds \<Longrightarrow> grouped Q (k # ks) (cs @ ds)"
  unfolding grouped_def by (metis concat.simps(2) list_all2_Cons)

lemma grouped_all:
  assumes "grouped Q ks cs" and "c \<in> set cs"
  shows "\<exists>k \<in> set ks. Q k c"
proof -
  obtain groups g where g: "list_all2 (\<lambda>k. list_all (Q k)) ks groups" "g \<in> set groups" "c \<in> set g"
    using assms by (auto simp: grouped_def)
  then obtain n where "n < length groups" "groups ! n = g" by (auto simp: in_set_conv_nth)
  then show ?thesis using g list_all2_nthD2 [OF g(1)] list_all2_lengthD [OF g(1)]
    by (metis list_all_iff nth_mem)
qed

text \<open>The keys of a channel: a key that is not disabled, and none is taken twice.\<close>

lemma selected_key_eligible:
  assumes "select_key env cfg keys tried st = (Some (i, key), st')"
  shows "\<exists>k \<in> set keys. eligible (\<lambda>i. i \<in> set tried) k \<and> key_idx k = i \<and> key_api_key k = key"
proof -
  let ?t = "\<lambda>i. i \<in> set tried"
  have pinned: "\<exists>k \<in> set keys. eligible ?t k \<and> key_idx k = i \<and> key_api_key k = key"
    if "select_pinned_codex_websocket_key h cfg keys ?t aff now = Some (i, key)" for h aff now
    using that by (auto simp: select_pinned_codex_websocket_key_def usable_def dest: find_in_set split: option.splits if_splits)
  have available: "\<exists>k \<in> set keys. eligible ?t k \<and> key_idx k = i \<and> key_api_key k = key"
    if "select_key_with_fallback counters cfg keys ?t now now' = (Inr (i, key), counters')" for counters now now' counters'
  proof (cases "fst (select_available_key counters (cfg_id cfg) keys ?t now)")
    case (Inl e)
    then have "select_cooldown_fallback_key (cfg_id cfg) keys ?t now' = Inr (i, key)"
      using that by (auto simp: select_key_with_fallback_def split: prod.splits sum.splits if_splits)
    then obtain k where "fallback_scan keys ?t now' None = Some k" "key_idx k = i" "key_api_key k = key"
      by (auto simp: select_cooldown_fallback_key_def split: option.splits if_splits)
    then show ?thesis using fallback_scan_Some [of keys ?t now' None k] by auto
  next
    case (Inr r)
    then have "r = (i, key)" using that by (auto simp: select_key_with_fallback_def split: prod.splits sum.splits)
    then show ?thesis using Inr selected_key_found [where counters = counters and channel = "cfg_id cfg" and keys = keys and tried = ?t and now = now] by (auto simp: usable_def)
  qed
  show ?thesis using assms unfolding select_key_def
    by (auto split: prod.splits option.splits sum.splits if_splits dest: pinned available)
qed

lemma try_keys_emits:
  assumes rec: "records_calls env sent"
    and attempt: "\<And>i key st x st'. attempt i key st = (x, st') \<Longrightarrow> emits sent (list_all (Q i key)) st st'"
  shows "try_keys env cfg attempt keys n tried failure st = (x, st') \<Longrightarrow>
    \<exists>ks. distinct (map key_idx ks) \<and> set ks \<subseteq> set keys \<and> (\<forall>k \<in> set ks. eligible (\<lambda>i. i \<in> set tried) k) \<and>
      length ks \<le> n \<and> emits sent (grouped (\<lambda>k. Q (key_idx k) (key_api_key k)) ks) st st'"
proof (induction n arbitrary: tried failure st)
  case 0
  then show ?case by (intro exI [of _ "[]"]) (auto intro: emits_silent)
next
  case (Suc n)
  let ?G = "\<lambda>ks. grouped (\<lambda>k. Q (key_idx k) (key_api_key k)) ks"
  obtain e st1 where ctx: "observe (fe_ctx env) st = (e, st1)" by fastforce
  obtain sel st2 where sel: "select_key env cfg keys tried st1 = (sel, st2)" by fastforce
  have l1: "sent (fo_world st1) = sent (fo_world st)" by (rule observe_logs(2) [OF rec ctx])
  have l2: "sent (fo_world st2) = sent (fo_world st)" using select_key_log [OF rec sel] l1 by simp
  show ?case
  proof (cases "e = None \<and> sel \<noteq> None")
    case False
    then have "st' = st1 \<or> st' = st2" using Suc.prems ctx sel by (auto split: option.splits)
    then show ?thesis using l1 l2 by (intro exI [of _ "[]"]) (auto intro: emits_silent)
  next
    case True
    then obtain i key where k: "sel = Some (i, key)" by auto
    from selected_key_eligible [OF sel [unfolded k]] obtain ak where
      ak: "ak \<in> set keys" "eligible (\<lambda>i. i \<in> set tried) ak" "key_idx ak = i" "key_api_key ak = key" by blast
    obtain y st3 where at: "attempt i key st2 = (y, st3)" by fastforce
    have one: "emits sent (list_all (Q (key_idx ak) (key_api_key ak))) st st3"
      by (rule emits_same_log [OF l2 refl]) (use attempt [OF at] ak in simp)
    show ?thesis
    proof (cases "\<exists>r. y = Inr (None, Some r) \<and> d_retry (pr_next_action r) = RetryNextKey")
      case False
      then have "st' = st3" using Suc.prems ctx sel k True at by (auto split: sum.splits option.splits if_splits)
      then have "emits sent (?G [ak]) st st'"
        by (intro emits_mono [OF one [folded \<open>st' = st3\<close>]]) (metis append_Nil2 grouped_Cons grouped_Nil)
      then show ?thesis using ak by (intro exI [of _ "[ak]"]) auto
    next
      case more: True
      then obtain r where "try_keys env cfg attempt keys n (i # tried) (Some r) st3 = (x, st')"
        using Suc.prems ctx sel k True at by auto
      from Suc.IH [OF this] obtain ks where ks: "distinct (map key_idx ks)" "set ks \<subseteq> set keys"
        "\<forall>k \<in> set ks. eligible (\<lambda>j. j \<in> set (i # tried)) k" "length ks \<le> n" "emits sent (?G ks) st3 st'" by blast
      have "emits sent (?G (ak # ks)) st st'"
        by (rule emits_trans [OF one ks(5)]) (rule grouped_Cons)
      then show ?thesis using ak ks by (intro exI [of _ "ak # ks"]) auto
    qed
  qed
qed

section \<open>What the loops return\<close>

text \<open>Every result of a channel names it.\<close>

abbreviation names_channel :: "config \<Rightarrow> proxy_result \<Rightarrow> bool" where
  "names_channel cfg r \<equiv> pr_channel_id r = Some (cfg_id cfg)"

lemma own_results_named [simp]:
  "names_channel cfg (build_ctx_done_result cfg e)" "names_channel cfg (endpoint_unsupported_result cfg)"
  "names_channel cfg (credential_unavailable_result n cfg)"
  "names_channel cfg (key_failure_leaves_channel r) \<longleftrightarrow> names_channel cfg r"
  by (simp_all add: build_ctx_done_result_def endpoint_unsupported_result_def credential_unavailable_result_def
      key_failure_leaves_channel_def)

lemma forward_attempt_named:
  "forward_attempt env cfg cred i key rq base d p st = (Inr rd, st') \<Longrightarrow> names_channel cfg (fst rd)"
  by (auto simp: forward_attempt_def Let_def result_ok_def split: option.splits prod.splits sum.splits
      dest!: conclude_attempt_ok)

lemma try_protocols_named:
  assumes "\<And>p st rd st'. attempt p st = (Inr rd, st') \<Longrightarrow> names_channel cfg (fst rd)"
  shows "try_protocols env attempt l key ps st = (Inr rd, st') \<Longrightarrow> names_channel cfg (fst rd)"
proof (induction ps arbitrary: st)
  case (Cons p ps)
  then show ?case by (auto split: prod.splits sum.splits if_splits dest: assms)
qed simp

lemma after_url_named:
  "after_url env cfg u m rd st = (x, st') \<Longrightarrow> names_channel cfg (fst rd) \<Longrightarrow>
     (case x of Immediate r \<Rightarrow> names_channel cfg r | LeaveURLs r \<Rightarrow> names_channel cfg r | NextURL r \<Rightarrow> names_channel cfg r)"
  by (auto simp: after_url_def Let_def split: prod.splits if_splits option.splits)

lemma try_urls_named:
  assumes attempt: "\<And>u d p st rd st'. attempt u d p st = (Inr rd, st') \<Longrightarrow> names_channel cfg (fst rd)"
  shows "try_urls env cfg attempt rq multi us failure st = (Inr (a, b), st') \<Longrightarrow>
    \<forall>r \<in> set_option failure. names_channel cfg r \<Longrightarrow> \<forall>r \<in> set_option a \<union> set_option b. names_channel cfg r"
proof (induction us arbitrary: failure st)
  case Nil
  then show ?case by auto
next
  case (Cons u us)
  from Cons.prems(1) show ?case
  proof (cases rule: try_urls_step)
    case (unsupported st1 l key candidates st2)
    from unsupported(3) show ?thesis by (rule Cons.IH) simp
  next
    case (tried st1 l key candidates p ps st2 rd st3 y st4)
    have "names_channel cfg (fst rd)" by (rule try_protocols_named [OF attempt tried(3)])
    note y = after_url_named [OF tried(4) this]
    show ?thesis
    proof (cases y)
      case (NextURL r)
      with tried(5) have "try_urls env cfg attempt rq multi us (Some r) st4 = (Inr (a, b), st')" by simp
      then show ?thesis by (rule Cons.IH) (use y NextURL in simp)
    qed (use y tried(5) in auto)
  qed auto
qed

lemma attempt_key_named:
  assumes "attempt_key_across_urls env cfg cred i key rq st = (Inr (a, b), st')"
  shows "\<forall>r \<in> set_option a \<union> set_option b. names_channel cfg r"
proof -
  obtain us st1 where "order_channel_urls env cfg key rq st = (us, st1)" by fastforce
  with assms have "try_urls env cfg (forward_attempt env cfg cred i key rq) rq (length (get_urls cfg) > 1) us None st1
      = (Inr (a, b), st')" by (simp add: attempt_key_across_urls_def)
  from try_urls_named [OF forward_attempt_named this] show ?thesis by simp
qed

lemma try_keys_named:
  assumes attempt: "\<And>i key st a b st'. attempt i key st = (Inr (a, b), st') \<Longrightarrow> \<forall>r \<in> set_option a \<union> set_option b. names_channel cfg r"
  shows "try_keys env cfg attempt keys n tried failure st = (Inr r, st') \<Longrightarrow>
    \<forall>r \<in> set_option failure. names_channel cfg r \<Longrightarrow> names_channel cfg r"
proof (induction n arbitrary: tried failure st)
  case 0
  then show ?case by (auto simp: last_failure_def split: option.splits)
next
  case (Suc n)
  show ?case using Suc.prems
    by (auto simp: last_failure_def split: prod.splits option.splits sum.splits if_splits
        dest!: attempt intro: Suc.IH)
qed

lemma try_oauth_named:
  "try_oauth env provider credential cfg rq tries st = (Inr r, st') \<Longrightarrow> names_channel cfg r"
proof (induction tries arbitrary: st)
  case (Cons renew tries)
  then show ?case
    by (auto split: prod.splits option.splits sum.splits if_splits dest!: attempt_key_named intro: Cons.IH)
qed simp

lemma try_channel_named:
  assumes "try_channel_with_keys env rq cfg st = (Inr r, st')"
  shows "names_channel cfg r"
  using assms
proof (cases rule: try_channel_step)
  case (oauth st1 provider credential)
  then show ?thesis by (auto simp: try_oauth_channel_def simp del: try_oauth.simps dest: try_oauth_named split: if_splits)
next
  case (keyed st1 configured st2)
  from keyed(6) [unfolded Let_def] show ?thesis
    by (rule try_keys_named [rotated]) (simp_all add: attempt_key_named)
qed auto

section \<open>A whole request\<close>

text \<open>Every call for a channel goes to one of its addresses.\<close>

definition own_call :: "config \<Rightarrow> upstream_call \<Rightarrow> bool" where
  "own_call cfg c \<longleftrightarrow> uc_channel c = cfg \<and> uc_base_url c \<in> set (get_urls cfg)"

lemma calls_of_own: "emits sent (list_all (\<lambda>c. calls_of cfg i key c \<and> uc_base_url c \<in> set (get_urls cfg))) st st' \<Longrightarrow>
    emits sent (list_all (own_call cfg)) st st'"
  by (erule emits_mono) (auto simp: list_all_iff own_call_def calls_of_def)

lemma try_oauth_emits:
  assumes "records_calls env sent" "fair_shuffle env"
    and credential: "\<And>b st x st'. observe (credential b) st = (x, st') \<Longrightarrow> sent (fo_world st') = sent (fo_world st)"
  shows "try_oauth env provider credential cfg rq tries st = (x, st') \<Longrightarrow> emits sent (list_all (own_call cfg)) st st'"
proof (induction tries arbitrary: st)
  case Nil
  then show ?case by (auto intro: emits_silent)
next
  case (Cons renew tries)
  obtain c st1 where c: "observe (credential renew) st = (c, st1)" by fastforce
  show ?case
  proof (cases c)
    case None
    then show ?thesis using Cons.prems c by (auto intro: emits_silent dest: credential)
  next
    case (Some oc)
    obtain y st2 where at: "attempt_key_across_urls env cfg (Some oc) no_key_index (oc_access_token oc) rq st1 = (y, st2)"
      by fastforce
    have e: "emits sent (list_all (own_call cfg)) st st2"
      by (rule emits_same_log [OF credential [OF c] refl calls_of_own [OF attempt_key_emits [OF assms(1,2) at]]])
    show ?thesis using Cons.prems c Some at e emits_all_trans [OF e Cons.IH]
      by (auto split: sum.splits prod.splits option.splits if_splits)
  qed
qed

text \<open>The calls with one of the keys of a channel.\<close>

definition key_call :: "config \<Rightarrow> api_key \<Rightarrow> upstream_call \<Rightarrow> bool" where
  "key_call cfg k c \<longleftrightarrow> own_call cfg c \<and> uc_key_index c = key_idx k \<and> uc_api_key c = key_api_key k"

lemma keyed_calls:
  assumes "records_calls env sent" "fair_shuffle env"
    and "try_keys env cfg (\<lambda>i key. attempt_key_across_urls env cfg None i key rq) keys n [] None st = (x, st')"
  shows "\<exists>ks. distinct (map key_idx ks) \<and> set ks \<subseteq> set keys \<and> (\<forall>k \<in> set ks. \<not> key_disabled k) \<and> length ks \<le> n \<and>
     emits sent (grouped (key_call cfg) ks) st st'"
proof -
  let ?Q = "\<lambda>i key c. own_call cfg c \<and> uc_key_index c = i \<and> uc_api_key c = key"
  have "emits sent (list_all (?Q i key)) s s'"
    if "attempt_key_across_urls env cfg None i key rq s = (y, s')" for i key s y s'
    by (rule emits_mono [OF attempt_key_emits [OF assms(1,2) that]]) (auto simp: list_all_iff own_call_def calls_of_def)
  from try_keys_emits [where Q = ?Q, OF assms(1) this assms(3)] show ?thesis
    by (auto simp: key_call_def [abs_def])
qed

lemma try_channel_emits:
  assumes rec: "records_calls env sent" and fair: "fair_shuffle env"
    and "try_channel_with_keys env rq cfg st = (x, st')"
  shows "emits sent (list_all (own_call cfg)) st st'"
  using assms(3)
proof (cases rule: try_channel_step)
  case (expired e)
  then show ?thesis by (auto intro: emits_silent observe_logs(2) [OF rec])
next
  case (oauth st1 provider credential)
  have l: "sent (fo_world st1) = sent (fo_world st)" by (rule observe_logs(2) [OF rec oauth(1)])
  have "sent (fo_world s') = sent (fo_world s)" if "observe (credential cfg b) s = (c, s')" for b s c s'
    using oauth(3) that observe_logs(7,8) [OF rec] by blast
  then have run: "try_oauth env provider (credential cfg) cfg rq tries s = (y, s') \<Longrightarrow> emits sent (list_all (own_call cfg)) s s'"
    for tries s y s' by (rule try_oauth_emits [OF rec fair])
  have "emits sent (list_all (own_call cfg)) st1 st'"
    using oauth(4) unfolding try_oauth_channel_def
    by (auto simp del: try_oauth.simps split: if_splits intro: emits_silent run)
  then show ?thesis by (rule emits_same_log [OF l refl])
next
  case (unusable st1 keys e)
  then show ?thesis using observe_logs(2) [OF rec unusable(1)] observe_logs(5) [OF rec unusable(2)]
    by (auto intro: emits_silent)
next
  case (keyed st1 configured st2)
  have l: "sent (fo_world st2) = sent (fo_world st)"
    using observe_logs(2) [OF rec keyed(1)] observe_logs(5) [OF rec keyed(2)] by simp
  from keyed_calls [OF rec fair keyed(6) [unfolded Let_def]]
  obtain ks where "emits sent (grouped (key_call cfg) ks) st2 st'" by blast
  then have "emits sent (list_all (own_call cfg)) st2 st'"
    by (rule emits_mono) (auto simp: list_all_iff key_call_def dest: grouped_all)
  then show ?thesis by (rule emits_same_log [OF l refl])
qed

lemma after_error_log: "records_calls env sent \<Longrightarrow> sent (fo_world (after_error env rq cfg e st)) = sent (fo_world st)"
proof -
  assume rec: "records_calls env sent"
  obtain ae st1 where o: "observe (fe_attempt env) (forget_sticky rq st) = (ae, st1)" by fastforce
  have "sent (fo_world st1) = sent (fo_world (forget_sticky rq st))" by (rule observe_logs(4) [OF rec o])
  then show ?thesis unfolding after_error_def o
    by (auto simp: forget_sticky_def apply_cooldown_log [OF surjective_pairing] split: failover_error.split)
qed

lemma run_attempts_trace:
  assumes rec: "records_calls env sent"
    and attempt: "\<And>cfg st x st'. attempt cfg st = (x, st') \<Longrightarrow> emits sent (list_all (Q cfg)) st st'"
    and named: "\<And>cfg st r st'. attempt cfg st = (Inr r, st') \<Longrightarrow> names_channel cfg r"
  shows "run_attempts env rq stop attempt cfgs saw result st = (Some lr, st') \<Longrightarrow>
     \<forall>r \<in> set_option result. \<not> pr_succeeded r \<Longrightarrow>
     \<exists>tried untried. cfgs = tried @ untried \<and> emits sent (grouped Q tried) st st' \<and>
       (\<forall>r \<in> set_option (lr_result lr). pr_succeeded r = lr_succeeded lr) \<and>
       (lr_succeeded lr \<or> untried \<noteq> [] \<longrightarrow> tried \<noteq> [] \<and>
          (\<exists>r. lr_result lr = Some r \<and> names_channel (last tried) r \<and>
             (pr_succeeded r \<or> should_stop_trying_channels r \<or> stop (last tried) (hd untried) r)))"
proof (induction cfgs arbitrary: saw result st)
  case Nil
  then show ?case by (intro exI [of _ "[]"]) (auto intro: emits_silent)
next
  case (Cons cfg cfgs)
  obtain y st1 where a: "attempt cfg st = (y, st1)" by fastforce
  note e = attempt [OF a]
  have one: "emits sent (grouped Q [cfg]) st s" if "sent (fo_world s) = sent (fo_world st1)" for s
    by (rule emits_same_log [OF refl that emits_mono [OF e]]) (metis append_Nil2 grouped_Cons grouped_Nil)
  have more: ?case
    if "run_attempts env rq stop attempt cfgs saw' result' st2 = (Some lr, st')"
      and "\<forall>r \<in> set_option result'. \<not> pr_succeeded r" and l: "sent (fo_world st2) = sent (fo_world st1)" for saw' result' st2
  proof -
    from Cons.IH [OF that(1,2)] obtain tried untried where t: "cfgs = tried @ untried" "emits sent (grouped Q tried) st2 st'"
      "\<forall>r \<in> set_option (lr_result lr). pr_succeeded r = lr_succeeded lr"
      "lr_succeeded lr \<or> untried \<noteq> [] \<longrightarrow> tried \<noteq> [] \<and>
          (\<exists>r. lr_result lr = Some r \<and> names_channel (last tried) r \<and>
             (pr_succeeded r \<or> should_stop_trying_channels r \<or> stop (last tried) (hd untried) r))" by blast
    have "emits sent (list_all (Q cfg)) st st2" by (rule emits_same_log [OF refl l e])
    then have "emits sent (grouped Q (cfg # tried)) st st'"
      by (rule emits_trans [OF _ t(2)]) (rule grouped_Cons)
    then show ?thesis using t(1,3,4) by (intro exI [of _ "cfg # tried"] exI [of _ untried]) auto
  qed
  show ?case
  proof (cases y)
    case (Inl err)
    then show ?thesis
    proof (cases "err = RequestStopped")
      case True
      then show ?thesis using Cons.prems a Inl by simp
    next
      case False
      then have "run_attempts env rq stop attempt cfgs saw result (after_error env rq cfg err st1) = (Some lr, st')"
        using Cons.prems a Inl by (cases err) auto
      then show ?thesis by (rule more) (use Cons.prems after_error_log [OF rec] in auto)
    qed
  next
    case (Inr r)
    have name: "names_channel cfg r" using named a Inr by simp
    let ?st2 = "forget_sticky rq st1"
    have l2: "sent (fo_world ?st2) = sent (fo_world st1)" by (simp add: forget_sticky_def)
    have l3: "sent (fo_world (remember_sticky env rq c st1)) = sent (fo_world st1)" for c
      by (auto simp: remember_sticky_def split: prod.split dest: observed(1) [OF _ rec])
    let ?stop = "pr_is_client_canceled r \<or> should_stop_trying_channels r \<or>
       (case cfgs of [] \<Rightarrow> False | next_cfg # _ \<Rightarrow> stop cfg next_cfg r)"
    consider (success) "pr_succeeded r" | (stops) "\<not> pr_succeeded r" ?stop | (continues) "\<not> pr_succeeded r" "\<not> ?stop" by blast
    then show ?thesis
    proof cases
      case success
      then show ?thesis using Cons.prems a Inr one [OF l3] name
        by (intro exI [of _ "[cfg]"] exI [of _ cfgs]) (auto simp: Let_def)
    next
      case stops
      then show ?thesis using Cons.prems a Inr one [OF l2] name
        by (intro exI [of _ "[cfg]"] exI [of _ cfgs]) (auto simp: Let_def should_stop_trying_channels_def split: list.splits)
    next
      case continues
      then have "run_attempts env rq stop attempt cfgs (saw \<or> pr_protocol_capability_missing r \<and> is_alpha_search rq)
          (Some r) ?st2 = (Some lr, st')" using Cons.prems a Inr by (simp add: Let_def)
      then show ?thesis by (rule more [OF _ _ l2]) (use continues in simp)
    qed
  qed
qed


text \<open>C7: 
  A channel with keys is called with its own keys only: keys that it has, that may serve the model and
  are not disabled, at its own addresses; the calls of one key come before those of the next, no key
  has a second turn, and there are at most as many turns as retries are allowed.
\<close>

theorem keys_take_one_turn_each:
  assumes "records_calls env sent" and "fair_shuffle env"
    and "\<not> uses_codex_oauth cfg" "\<not> uses_antigravity_oauth cfg"
    and keys: "\<And>w. fst (fe_api_keys env (cfg_id cfg) w) = Some keys"
    and "try_channel_with_keys env rq cfg st = (x, st')"
  shows "\<exists>ks. distinct (map key_idx ks) \<and> set ks \<subseteq> set (filter_api_keys_for_model keys (rq_original_model rq)) \<and>
     (\<forall>k \<in> set ks. \<not> key_disabled k) \<and>
     length ks \<le> max_key_retries env cfg (filter_api_keys_for_model keys (rq_original_model rq)) \<and>
     emits sent (grouped (key_call cfg) ks) st st'"
  using assms(6)
proof (cases rule: try_channel_step)
  case (keyed st1 configured st2)
  have "configured = keys" using keys keyed(2) by (auto simp: observe_def split: prod.splits) (metis fst_conv option.inject)
  moreover have "sent (fo_world st2) = sent (fo_world st)"
    using observe_logs(2) [OF assms(1) keyed(1)] observe_logs(5) [OF assms(1) keyed(2)] by simp
  ultimately show ?thesis using keyed_calls [OF assms(1,2) keyed(6) [unfolded Let_def]] by (auto simp: emits_def)
qed (use assms observe_logs(2,5) [OF assms(1)] in \<open>auto intro!: exI [of _ "[]"] emits_silent\<close>)

text \<open>C9: 
  A request whose client has gone or whose time is over before the first candidate causes no call; the
  client sees 499 when it has cancelled and 504 when the time is over.
\<close>

theorem expired_request_sends_nothing:
  assumes rec: "records_calls env sent" and ctx: "observe (fe_ctx env) st = (Some e, st1)"
  shows "\<exists>st'. run_proxy_attempt_loop env rq stop (cfg # cfgs) st = (Some (Some (build_ctx_done_result cfg e), False), st') \<and>
     sent (fo_world st') = sent (fo_world st) \<and>
     determine_final_client_status (Some (build_ctx_done_result cfg e)) = (if e = CtxCanceled then 499 else 504)"
proof -
  have r: "run_attempts env rq stop (try_channel_with_keys env rq) (cfg # cfgs) False None st =
      (Some \<lparr>lr_unsupported_search = False, lr_result = Some (build_ctx_done_result cfg e), lr_succeeded = False\<rparr>,
       forget_sticky rq st1)"
    using ctx by (simp add: try_channel_with_keys_def build_ctx_done_result_def should_stop_trying_channels_def plain_decision_def)
  have "sent (fo_world (forget_sticky rq st1)) = sent (fo_world st)"
    using observe_logs(2) [OF rec ctx] by (simp add: forget_sticky_def)
  moreover have "run_proxy_attempt_loop env rq stop (cfg # cfgs) st =
      (Some (Some (build_ctx_done_result cfg e), False), forget_sticky rq st1)"
    unfolding run_proxy_attempt_loop_def r by simp
  moreover have "determine_final_client_status (Some (build_ctx_done_result cfg e)) = (if e = CtxCanceled then 499 else 504)"
    by (cases e) (simp_all add: determine_final_client_status_def build_ctx_done_result_def client_status_for_def status_constants)
  ultimately show ?thesis by blast
qed


text \<open>
  The status a client finally sees is a public one, whatever the attempts ended with; 499 only when
  the client itself has cancelled, and the status of the upstream in every other proper case.
\<close>

theorem final_status_is_public:
  "let s = determine_final_client_status result in
   0 < s \<and> s \<notin> {596, 597, 598, 599} \<and>
   (s = 499 \<longleftrightarrow> (\<exists>r. result = Some r \<and> pr_status r = 499 \<and> pr_is_client_canceled r)) \<and>
   (case result of None \<Rightarrow> s = 503
    | Some r \<Rightarrow> pr_status r \<le> 0 \<or> pr_status r \<in> {499, 596, 597, 598, 599} \<or> s = pr_status r)"
  by (auto simp: determine_final_client_status_def client_status_for_def status_constants split: option.split)


section \<open>An example\<close>

text \<open>
  Surroundings whose only state is the record of the calls: the clock stands at 0, the client stays,
  the channel has the keys 0 and 3, and the upstream answers every call with the given status.
\<close>

definition recording_env :: "int \<Rightarrow> upstream_call list failover_env" where
  "recording_env status =
     \<lparr>fe_now = Pair 0, fe_ctx = Pair None,
      fe_random = Pair \<lparr>rc_shuffle = id, rc_intn = (\<lambda>n. 0), rc_float64 = 0\<rparr>,
      fe_attempt = Pair example_attempt_env, fe_api_keys = (\<lambda>c. Pair (Some [example_key 0, example_key 3])),
      fe_affinity = Pair None, fe_codex_credential = (\<lambda>c renew. Pair None),
      fe_antigravity_credential = (\<lambda>c renew. Pair None),
      fe_send = (\<lambda>call st. ((Some (example_answer status), 1, None), st\<lparr>fo_world := fo_world st @ [call]\<rparr>)),
      fe_decode = (\<lambda>s. None), fe_encode = (\<lambda>j. None), fe_hash8 = id, fe_key_hash = id, fe_overflow = (\<lambda>x. 0),
      fe_url_library = \<lparr>ul_parse_query = (\<lambda>q. None), ul_encode_query = (\<lambda>q. [])\<rparr>,
      fe_channel_name = (\<lambda>c. []), fe_registry = None, fe_max_key_retries = 3\<rparr>"

definition first_state :: "upstream_call list failover" where
  "first_state =
     \<lparr>as_store = cooled_store, as_cache = None, as_usage = [], as_preferred = None,
      fo_selector = None, fo_capabilities = (\<lambda>k. None), fo_counters = new_key_selector, fo_sticky = (\<lambda>k. None),
      fo_world = []\<rparr>"

definition example_request :: proxy_request where
  "example_request =
     \<lparr>rq_original_model = ''gpt'', rq_client_protocol = anthropic, rq_path = ''/v1/messages'', rq_raw_query = [],
      rq_body = [], rq_header = (\<lambda>k. []), rq_streaming = False, rq_token_hash = ''t''\<rparr>"

lemma recording_env_records: "records_calls (recording_env status) id"
  by (simp add: records_calls_def recording_env_def)

lemma recording_env_fair: "fair_shuffle (recording_env status)"
  by (simp add: fair_shuffle_def recording_env_def)

lemma recording_env_simps [simp]:
  "observe (fe_now (recording_env s)) st = (0, st)" "observe (fe_ctx (recording_env s)) st = (None, st)"
  "observe (fe_attempt (recording_env s)) st = (example_attempt_env, st)"
  "observe (fe_affinity (recording_env s)) st = (None, st)"
  "observe (fe_api_keys (recording_env s) c) st = (Some [example_key 0, example_key 3], st)"
  "fe_send (recording_env s) call st = ((Some (example_answer s), 1, None), st\<lparr>fo_world := fo_world st @ [call]\<rparr>)"
  "fe_decode (recording_env s) = (\<lambda>x. None)" "fe_registry (recording_env s) = None"
  "fe_max_key_retries (recording_env s) = 3"
  by (simp_all add: recording_env_def observe_def)

definition example_channel :: "int \<Rightarrow> config" where
  "example_channel i = example_config\<lparr>cfg_id := i,
     cfg_urls := [\<lparr>cu_url = ''https://b.io'', cu_exact = False, cu_protocols = [''anthropic'']\<rparr>]\<rparr>"

lemma trimmed_words [simp]: "trim_space [] = []" "trim_space ''gpt'' = ''gpt''" "to_lower [] = []"
  by (simp_all add: trim_space_word plain_word_def plain_char_def to_lower_def)

lemma example_channel_facts [simp]:
  "cfg_id (example_channel i) = i" "get_urls (example_channel i) = [''https://b.io'']"
  "cfg_urls (example_channel i) = [\<lparr>cu_url = ''https://b.io'', cu_exact = False, cu_protocols = [''anthropic'']\<rparr>]"
  "get_protocol_transform_mode (example_channel i) = mode_auto"
  "\<not> uses_codex_oauth (example_channel i)" "\<not> uses_antigravity_oauth (example_channel i)"
  "\<not> cfg_retry_other_keys_on_failure (example_channel i)"
  by (simp_all add: example_channel_def example_config_def get_urls_def runtime_url_def get_protocol_transform_mode_def
      normalize_protocol_transform_mode_def uses_codex_oauth_def uses_antigravity_oauth_def get_auth_type_def
      normalize_auth_type_def mode_auto_def auth_type_api_key_def auth_type_codex_oauth_def
      auth_type_antigravity_oauth_def)

lemma example_request_facts [simp]:
  "rq_original_model example_request = ''gpt''" "rq_client_protocol example_request = anthropic"
  "rq_path example_request = ''/v1/messages''" "rq_body example_request = []" "\<not> rq_streaming example_request"
  by (simp_all add: example_request_def)

lemma example_body [simp]:
  "prepare_request_body decode encode None (example_channel i) example_request anthropic = Some (''gpt'', [])"
  by (simp add: prepare_request_body_def Let_def example_channel_def example_config_def
      resolve_final_upstream_model_def resolve_actual_model_def get_redirect_model_def model_index_def
      resolve_model_after_body_rules_def replace_json_request_model_def strip_anthropic_billing_headers_def
      anthropic_billing_header_prefix_def)

lemma only_codex_is_repeated [simp]:
  "tp_upstream (uc_plan call) \<noteq> codex \<Longrightarrow> codex_retries env used call f a st = (a, f, st)"
  by (simp add: codex_retries.simps [of env used call f a st] retry_body_for_def codex_retry_body_for_400_def Let_def
      split: option.split prod.split)

lemma clean_attempt:
  "\<exists>r st'. conclude_attempt env cfg i m dur None (Some (example_answer 200)) d f st = Some (Inr (r, no_action), st') \<and>
     pr_succeeded r \<and> \<not> pr_protocol_capability_missing r"
  by (simp add: conclude_attempt_def handle_successful_forward_anomaly_def example_answer_def handle_proxy_success_def Let_def
      apfst_def map_prod_def)

lemma example_attempt:
  "\<exists>r d st'. forward_attempt (recording_env 200) (example_channel c) None i key example_request base False anthropic st =
       (Inr (r, d), st') \<and> pr_succeeded r \<and> \<not> pr_protocol_capability_missing r"
proof -
  have "anthropic \<noteq> codex" by (simp add: anthropic_def codex_def)
  obtain plan where "build_transform_plan anthropic anthropic ''/v1/messages'' ''/v1/messages'' (Some []) (Some []) ''gpt'' ''gpt'' False = Inr plan"
     "tp_upstream plan = anthropic"
    by (auto simp: build_transform_plan_def Let_def)
  moreover obtain r st' where "conclude_attempt example_attempt_env (example_channel c) i ''gpt'' 1 None (Some (example_answer 200)) False False
      (st\<lparr>fo_world := fo_world st @ [\<lparr>uc_channel = example_channel c, uc_credential = None, uc_key_index = i, uc_api_key = key,
         uc_base_url = base, uc_plan = plan\<rparr>]\<rparr>) = Some (Inr (r, no_action), st')" "pr_succeeded r" "\<not> pr_protocol_capability_missing r"
    using clean_attempt by blast
  ultimately show ?thesis using \<open>anthropic \<noteq> codex\<close>
    by (simp add: forward_attempt_def prepare_codex_responses_body_def replace_model_in_path_def Let_def with_fast_mode_def)
qed

text \<open>The first call for a channel of the example answers the request.\<close>

lemma example_order [simp]:
  "order_channel_urls (recording_env s) (example_channel c) key example_request st = ([(''https://b.io'', 0)], st)"
  by (simp add: order_channel_urls_def recording_env_def observe_def order_urls_with_selector_def prioritize_protocol_urls_def
      mode_auto_def mode_local_def Let_def)

lemma recorded_candidates:
  "\<exists>ps. protocol_candidates_for_url \<lparr>cu_url = u, cu_exact = False, cu_protocols = [''anthropic'']\<rparr> mode_auto anthropic family order
     = (anthropic # ps, True)"
proof -
  have "trim_space ''anthropic'' = ''anthropic''" by (simp add: trim_space_word plain_word_def plain_char_def)
  moreover have "to_lower ''anthropic'' = ''anthropic''" by code_simp
  ultimately have "supports_protocol \<lparr>cu_url = u, cu_exact = False, cu_protocols = [''anthropic'']\<rparr> anthropic"
    by (simp add: supports_protocol_def anthropic_def)
  moreover have "is_valid_protocol anthropic" "mode_auto \<noteq> mode_upstream" "mode_auto \<noteq> mode_local"
    by (simp_all add: is_valid_protocol_def mode_auto_def mode_upstream_def mode_local_def)
  ultimately show ?thesis
    by (simp add: protocol_candidates_for_url_def Let_def uses_automatic_protocol_detection_def supports_protocol_candidate_def)
qed

lemma example_key_answers:
  "\<exists>r st'. attempt_key_across_urls (recording_env 200) (example_channel c) None i key example_request st = (Inr (Some r, None), st') \<and>
     pr_succeeded r \<and> \<not> pr_protocol_capability_missing r"
proof -
  obtain ps where ps: "protocol_candidates_for_url \<lparr>cu_url = ''https://b.io'', cu_exact = False, cu_protocols = [''anthropic'']\<rparr>
      mode_auto anthropic (detect_request_family ''/v1/messages'')
      (local_upstream_protocol_order [\<lparr>cu_url = ''https://b.io'', cu_exact = False, cu_protocols = [''anthropic'']\<rparr>]) = (anthropic # ps, True)"
    using recorded_candidates by blast
  from example_attempt [of c i key "''https://b.io''" st] show ?thesis
    by (auto simp: attempt_key_across_urls_def Let_def ps known_candidates_def learn_capability_def after_url_def)
qed

lemma example_keys_allowed [simp]:
  "filter_api_keys_for_model [example_key 0, example_key 3] m = [example_key 0, example_key 3]"
  by (simp add: filter_api_keys_for_model_def allows_model_def example_key_def)

lemma example_channel_answers:
  "\<exists>r st'. try_channel_with_keys (recording_env 200) example_request (example_channel c) st = (Inr r, st') \<and>
     pr_succeeded r \<and> \<not> pr_protocol_capability_missing r"
proof -
  let ?keys = "[example_key 0, example_key 3]"
  have "usable (\<lambda>i. i \<in> set []) 0 (example_key 0)"
    by (simp add: usable_def example_key_def key_is_cooling_down_def time_to_unix_def)
  moreover have "fst (select_key (recording_env 200) (example_channel c) ?keys [] st) = None \<Longrightarrow>
     \<forall>k \<in> set ?keys. \<not> usable (\<lambda>i. i \<in> set []) 0 k"
    using selected_key_found [where counters = "fo_counters st" and channel = c and keys = ?keys and tried = "\<lambda>i. i \<in> set []" and now = 0]
    by (auto simp: select_key_def select_pinned_codex_websocket_key_def select_key_with_fallback_def split: prod.splits sum.splits)
  ultimately have "fst (select_key (recording_env 200) (example_channel c) ?keys [] st) \<noteq> None" by (meson list.set_intros(1))
  then obtain i key st1 where k: "select_key (recording_env 200) (example_channel c) ?keys [] st = (Some (i, key), st1)"
    by (metis not_None_eq prod.exhaust_sel)
  then show ?thesis using example_key_answers [of c i key st1] k
    by (auto simp: try_channel_with_keys_def Let_def max_key_retries_def numeral_2_eq_2)
qed

lemma example_loop:
  "\<exists>lr st'. run_attempts (recording_env 200) example_request (\<lambda>c d r. False)
     (try_channel_with_keys (recording_env 200) example_request) [example_channel 7, example_channel 8] False None first_state
       = (Some lr, st') \<and> lr_succeeded lr"
  using example_channel_answers [of 7 first_state] by (auto simp: Let_def)



theorem keys_take_one_turn_each_witness:
  "\<exists>ks x st'. try_channel_with_keys (recording_env 401) example_request (example_channel 7) first_state = (x, st') \<and>
     distinct (map key_idx ks) \<and> set ks \<subseteq> {example_key 0, example_key 3} \<and>
     emits id (grouped (key_call (example_channel 7)) ks) first_state st'"
proof -
  obtain x st' where run: "try_channel_with_keys (recording_env 401) example_request (example_channel 7) first_state = (x, st')"
    by fastforce
  have "fst (fe_api_keys (recording_env 401) (cfg_id (example_channel 7)) w) = Some [example_key 0, example_key 3]" for w
    by (simp add: recording_env_def)
  from keys_take_one_turn_each [OF recording_env_records recording_env_fair example_channel_facts(5,6) this run]
  obtain ks where "distinct (map key_idx ks)" and
    "set ks \<subseteq> set (filter_api_keys_for_model [example_key 0, example_key 3] (rq_original_model example_request))" and
    "emits id (grouped (key_call (example_channel 7)) ks) first_state st'" by blast
  moreover from this(2) have "set ks \<subseteq> {example_key 0, example_key 3}" by simp
  ultimately show ?thesis using run by blast
qed

theorem expired_request_sends_nothing_witness:
  "\<exists>st'. run_proxy_attempt_loop ((recording_env 200)\<lparr>fe_ctx := Pair (Some CtxCanceled)\<rparr>) example_request (\<lambda>c d r. False)
     [example_channel 7] first_state = (Some (Some (build_ctx_done_result (example_channel 7) CtxCanceled), False), st') \<and>
     fo_world st' = []"
proof -
  let ?env = "(recording_env 200)\<lparr>fe_ctx := Pair (Some CtxCanceled)\<rparr>"
  have rec: "records_calls ?env id" by (simp add: records_calls_def recording_env_def)
  have ctx: "observe (fe_ctx ?env) first_state = (Some CtxCanceled, first_state)" by (simp add: observe_def)
  from expired_request_sends_nothing [OF rec ctx, where cfgs = "[]"] obtain st' where
    "run_proxy_attempt_loop ?env example_request (\<lambda>c d r. False) [example_channel 7] first_state =
       (Some (Some (build_ctx_done_result (example_channel 7) CtxCanceled), False), st')"
    "id (fo_world st') = id (fo_world first_state)" by blast
  moreover have "fo_world first_state = []" by (simp add: first_state_def)
  ultimately show ?thesis by (metis id_apply)
qed

theorem final_status_is_public_witness:
  "determine_final_client_status (Some (build_ctx_done_result (example_channel 7) CtxCanceled)) = 499"
  using final_status_is_public [of "Some (build_ctx_done_result (example_channel 7) CtxCanceled)"]
  by (simp add: Let_def build_ctx_done_result_def status_constants)



section \<open>Cooldowns that get lost\<close>

text \<open>
  A put-off cooldown is lost when no later address can be tried at all: the first address fails with a
  failure of the channel, whose cooldown waits for the other addresses, the other address speaks none of
  the client's protocols, and the result of the channel is that of the second address.  Nothing was
  written, and the result asks for nothing to be written.
\<close>

theorem deferred_cooldown_is_lost:
  assumes ctx: "fe_ctx env = Pair None" and mode: "get_protocol_transform_mode cfg = mode_upstream"
    and urls: "snd u1 < length (cfg_urls cfg)" "snd u2 < length (cfg_urls cfg)"
    and one: "fst (protocol_candidates_for_url (cfg_urls cfg ! snd u1) mode_upstream (rq_client_protocol rq)
        (detect_request_family (rq_path rq)) (local_upstream_protocol_order (cfg_urls cfg))) = [p]"
    and none: "fst (protocol_candidates_for_url (cfg_urls cfg ! snd u2) mode_upstream (rq_client_protocol rq)
        (detect_request_family (rq_path rq)) (local_upstream_protocol_order (cfg_urls cfg))) = []"
    and fails: "attempt (fst u1) True p st = (Inr (r, d), st1)" "\<not> pr_succeeded r" "\<not> pr_protocol_capability_missing r"
      "d_retry d = RetryNextChannel" "d_effect d = EffectCoolChannel" "\<not> is_model_scoped_http_failure r"
  shows "\<exists>st'. try_urls env cfg attempt rq True [u1, u2] None st = (Inr (None, Some (endpoint_unsupported_result cfg)), st') \<and>
     as_store st' = as_store st1 \<and> d_effect (pr_next_action (endpoint_unsupported_result cfg)) = EffectNone \<and>
     pr_deferred_cooldown (endpoint_unsupported_result cfg) = None"
proof -
  have c: "observe (fe_ctx env) s = (None, s)" for s by (simp add: observe_def ctx)
  have store: "as_store (cool_url env i u s) = as_store s" for i u s
    by (auto simp: cool_url_def observe_def split: option.split prod.split)
  have "mode_upstream \<noteq> mode_auto" by (simp add: mode_upstream_def mode_auto_def)
  moreover have "after_url env cfg (fst u1) True (r, d) st1 = (NextURL r, cool_url env (cfg_id cfg) (fst u1) st1)"
    using fails by (simp add: after_url_def)
  moreover obtain d1 d2 where
    "protocol_candidates_for_url (cfg_urls cfg ! snd u1) mode_upstream (rq_client_protocol rq)
       (detect_request_family (rq_path rq)) (local_upstream_protocol_order (cfg_urls cfg)) = ([p], d1)"
    "protocol_candidates_for_url (cfg_urls cfg ! snd u2) mode_upstream (rq_client_protocol rq)
       (detect_request_family (rq_path rq)) (local_upstream_protocol_order (cfg_urls cfg)) = ([], d2)"
    using one none by (metis prod.exhaust_sel)
  ultimately have "try_urls env cfg attempt rq True [u1, u2] None st =
      (Inr (None, Some (endpoint_unsupported_result cfg)), cool_url env (cfg_id cfg) (fst u1) st1)"
    using urls fails(1,3) by (simp add: c mode known_candidates_def learn_capability_def Let_def)
  then show ?thesis using store by (simp add: endpoint_unsupported_result_def plain_decision_def)
qed

text \<open>
  An OAuth channel whose credential is not available announces a cooldown of the channel, but nobody
  writes one: the store is as before, and the next request asks for the credential again.
\<close>

theorem announced_cooldown_is_not_written:
  assumes "uses_codex_oauth cfg" and "get_urls cfg \<noteq> []" and "fe_ctx env = Pair None"
    and "fe_codex_credential env cfg False = Pair None"
  shows "\<exists>r st'. try_channel_with_keys env rq cfg st = (Inr r, st') \<and>
     d_effect (pr_next_action r) = EffectCoolChannel \<and> as_store st' = as_store st \<and> as_cache st' = as_cache st"
  using assms
  by (simp add: try_channel_with_keys_def try_oauth_channel_def observe_def credential_unavailable_result_def
      cool_channel_decision_def plain_decision_def)

end
