(* ===== verification/Slot_Limiters.thy ===== *)
theory Slot_Limiters
  imports Channel_Config
begin

text \<open>
  The limiters that count what is in flight: \<open>channel_concurrency_limiter.go\<close> (upstream requests
  per channel) and \<open>responses_websocket_connection_limiter.go\<close> (downstream connections, in all
  and per subject).

  A successful acquisition returns a closure guarded by a \<open>sync.Once\<close>; here it is a \<open>ticket\<close>, and
  the tickets with their \<open>once\<close> flags are part of the state.  The mutex makes every operation one
  step.  A Go map of counters reads 0 for a missing key, so it is an option map read by \<open>slots\<close>.
  What both limiters promise is the locale \<open>slot_limiter\<close>: a counter is the number of tickets not
  yet given back, and it never exceeds the limit it was acquired under.
\<close>

section \<open>Requests per channel\<close>

definition slots :: "('k \<Rightarrow> int option) \<Rightarrow> 'k \<Rightarrow> int" where
  "slots m k = (case m k of None \<Rightarrow> 0 | Some n \<Rightarrow> n)"

text \<open>\<open>changed\<close> holds the channels for which somebody waits; closing it wakes all of them.\<close>

record concurrency_limiter =
  cl_active :: "int \<Rightarrow> int option"
  cl_changed :: "int \<Rightarrow> bool"

definition new_concurrency_limiter :: concurrency_limiter where
  "new_concurrency_limiter = \<lparr>cl_active = (\<lambda>c. None), cl_changed = (\<lambda>c. False)\<rparr>"

definition concurrency_snapshot :: "concurrency_limiter \<Rightarrow> int \<Rightarrow> int" where
  "concurrency_snapshot l channel = (if channel \<le> 0 then 0 else slots (cl_active l) channel)"

datatype acquired = Unlimited | Acquired int int | Refused int int

definition concurrency_acquire ::
    "concurrency_limiter \<Rightarrow> int \<Rightarrow> int \<Rightarrow> acquired \<times> concurrency_limiter" where
  "concurrency_acquire l channel limit =
     (if channel \<le> 0 \<or> limit \<le> 0 then (Unlimited, l)
      else let current = slots (cl_active l) channel in
        if current \<ge> limit then (Refused current limit, l)
        else (Acquired (current + 1) limit,
              l\<lparr>cl_active := (cl_active l)(channel \<mapsto> current + 1)\<rparr>))"

text \<open>The body that the once-guard of \<open>releaseFunc\<close> runs.\<close>

definition concurrency_release :: "concurrency_limiter \<Rightarrow> int \<Rightarrow> concurrency_limiter" where
  "concurrency_release l channel =
     (let current = slots (cl_active l) channel
      in l\<lparr>cl_active := (if current \<le> 1 then (cl_active l)(channel := None)
                         else (cl_active l)(channel \<mapsto> current - 1)),
           cl_changed := (cl_changed l)(channel := False)\<rparr>)"

text \<open>One round of the loop of \<open>acquireContext\<close>: it gets a slot or registers to be woken.\<close>

datatype try_outcome = Proceed | Sleep

definition concurrency_try ::
    "concurrency_limiter \<Rightarrow> int \<Rightarrow> int \<Rightarrow> try_outcome \<times> concurrency_limiter" where
  "concurrency_try l channel limit =
     (if channel \<le> 0 \<or> limit \<le> 0 then (Proceed, l)
      else let current = slots (cl_active l) channel in
        if current < limit then (Proceed, l\<lparr>cl_active := (cl_active l)(channel \<mapsto> current + 1)\<rparr>)
        else (Sleep, l\<lparr>cl_changed := (cl_changed l)(channel := True)\<rparr>))"

definition acquire_channel_concurrency_slot ::
    "concurrency_limiter \<Rightarrow> config \<Rightarrow> acquired \<times> concurrency_limiter" where
  "acquire_channel_concurrency_slot l cfg =
     (if cfg_max_concurrency cfg \<le> 0 then (Unlimited, l)
      else concurrency_acquire l (cfg_id cfg) (cfg_max_concurrency cfg))"

section \<open>Downstream connections\<close>

record connection_limiter =
  wl_active :: int
  wl_active_by_subject :: "string \<Rightarrow> int option"
  wl_max :: int
  wl_max_per_subject :: int
  wl_rejected :: "64 word"

definition new_connection_limiter :: "int \<Rightarrow> int \<Rightarrow> connection_limiter" where
  "new_connection_limiter max_connections max_per_subject =
     \<lparr>wl_active = 0, wl_active_by_subject = (\<lambda>s. None),
      wl_max = (if max_connections \<le> 0 then 64 else max_connections),
      wl_max_per_subject = (if max_per_subject \<le> 0 then 16 else max_per_subject),
      wl_rejected = 0\<rparr>"

datatype connection_result =
  ConnectionAccepted string
| GlobalLimit int int
| TokenLimit int int

definition subject_key :: "string \<Rightarrow> string" where
  "subject_key subject =
     (let s = trim_space subject in if s = '''' then ''<missing>'' else s)"

definition connection_acquire ::
    "connection_limiter \<Rightarrow> string \<Rightarrow> connection_result \<times> connection_limiter" where
  "connection_acquire l subject =
     (let s = subject_key subject;
          rejected = l\<lparr>wl_rejected := wl_rejected l + 1\<rparr>;
          subject_active = slots (wl_active_by_subject l) s
      in if wl_max l > 0 \<and> wl_active l \<ge> wl_max l
           then (GlobalLimit (wl_active l) (wl_max l), rejected)
         else if wl_max_per_subject l > 0 \<and> subject_active \<ge> wl_max_per_subject l
           then (TokenLimit subject_active (wl_max_per_subject l), rejected)
         else (ConnectionAccepted s,
               l\<lparr>wl_active := wl_active l + 1,
                 wl_active_by_subject := (wl_active_by_subject l)(s \<mapsto> subject_active + 1)\<rparr>))"

definition connection_release :: "connection_limiter \<Rightarrow> string \<Rightarrow> connection_limiter" where
  "connection_release l s =
     (let current = slots (wl_active_by_subject l) s
      in l\<lparr>wl_active := (if wl_active l > 0 then wl_active l - 1 else wl_active l),
           wl_active_by_subject :=
             (if current \<le> 1 then (wl_active_by_subject l)(s := None)
              else (wl_active_by_subject l)(s \<mapsto> current - 1))\<rparr>)"

definition connection_stats :: "connection_limiter \<Rightarrow> int \<times> 64 word \<times> int \<times> int" where
  "connection_stats l = (wl_active l, wl_rejected l, wl_max l, wl_max_per_subject l)"

section \<open>Tickets\<close>

text \<open>
  A ticket is the closure of one acquisition: what it gives back and whether it already did.  A
  run is a sequence of acquisitions and of calls of the closures, each any number of times.
\<close>

datatype ('r, 'k) slot_event = Take 'r | GiveBack nat

record ('s, 'k) ticketed =
  tk_state :: 's
  tk_tickets :: "('k \<times> bool) list"

definition mark :: "('k \<Rightarrow> 'g) \<Rightarrow> 'k \<times> bool \<Rightarrow> 'g option" where
  "mark grp t = (if snd t then None else Some (grp (fst t)))"

definition open_tickets :: "('k \<Rightarrow> 'g) \<Rightarrow> ('k \<times> bool) list \<Rightarrow> 'g \<Rightarrow> nat" where
  "open_tickets grp ts g = count_list (map (mark grp) ts) (Some g)"

lemma open_tickets_simps [simp]:
  "open_tickets grp [] g = 0"
  "open_tickets grp (ts @ [(k, done)]) g =
     open_tickets grp ts g + (if grp k = g \<and> \<not> done then 1 else 0)"
  by (auto simp: open_tickets_def mark_def)

lemma count_list_update:
  "i < length xs \<Longrightarrow> count_list (xs[i := y]) x + (if xs ! i = x then 1 else 0)
     = count_list xs x + (if y = x then 1 else 0)"
proof (induction xs arbitrary: i)
  case (Cons a xs)
  show ?case
  proof (cases i)
    case (Suc j)
    then show ?thesis using Cons.IH [of j] Cons.prems by (auto split: if_splits)
  qed simp
qed simp

lemma open_tickets_give_back:
  assumes "i < length ts" and "ts ! i = (k, False)"
  shows "open_tickets grp (ts[i := (k, True)]) g =
      open_tickets grp ts g - (if g = grp k then 1 else 0)"
    and "0 < open_tickets grp ts (grp k)"
proof -
  have i: "i < length (map (mark grp) ts)" using assms(1) by simp
  have *: "count_list (map (mark grp) (ts[i := (k, True)])) (Some g) + (if grp k = g then 1 else 0)
      = count_list (map (mark grp) ts) (Some g)" for g
    using count_list_update [OF i, of None "Some g"] assms by (simp add: mark_def map_update)
  show "open_tickets grp (ts[i := (k, True)]) g =
      open_tickets grp ts g - (if g = grp k then 1 else 0)"
    using * [of g] by (auto simp: open_tickets_def)
  show "0 < open_tickets grp ts (grp k)"
    using * [of "grp k"] by (simp add: open_tickets_def)
qed

section \<open>The contract of a slot limiter\<close>

text \<open>
  \<open>acquire\<close> answers a request with the key to give back later, or refuses; \<open>used\<close> is the counter
  of a group of keys and \<open>cap\<close> the bound under which a request is granted, 0 for none.
\<close>

locale slot_limiter =
  fixes acquire :: "'s \<Rightarrow> 'r \<Rightarrow> 'k option \<times> 's"
    and release :: "'s \<Rightarrow> 'k \<Rightarrow> 's"
    and grp :: "'k \<Rightarrow> 'g"
    and used :: "'s \<Rightarrow> 'g \<Rightarrow> int"
    and cap :: "'s \<Rightarrow> 'r \<Rightarrow> int"
    and invar :: "'s \<Rightarrow> bool"
  assumes granted: "invar s \<Longrightarrow> acquire s r = (Some k, s') \<Longrightarrow>
      (0 < cap s r \<longrightarrow> used s (grp k) < cap s r) \<and> (\<forall>g. used s' g = used s g + (if g = grp k then 1 else 0))"
    and refused: "acquire s r = (None, s') \<Longrightarrow> used s' = used s"
    and given_back: "0 < used s (grp k) \<Longrightarrow>
      used (release s k) g = used s g - (if g = grp k then 1 else 0)"
    and stable: "cap (snd (acquire s r)) = cap s" "cap (release s k) = cap s"
      "invar s \<Longrightarrow> invar (snd (acquire s r))" "invar s \<Longrightarrow> invar (release s k)"
begin

definition slot_step :: "('s, 'k) ticketed \<Rightarrow> ('r, 'k) slot_event \<Rightarrow> ('s, 'k) ticketed" where
  "slot_step t e =
     (case e of
        Take r \<Rightarrow>
          (case acquire (tk_state t) r of
             (None, s) \<Rightarrow> t\<lparr>tk_state := s\<rparr>
           | (Some k, s) \<Rightarrow> t\<lparr>tk_state := s, tk_tickets := tk_tickets t @ [(k, False)]\<rparr>)
      | GiveBack i \<Rightarrow>
          if i < length (tk_tickets t)
          then (case tk_tickets t ! i of
                  (k, True) \<Rightarrow> t
                | (k, False) \<Rightarrow> \<lparr>tk_state = release (tk_state t) k,
                                  tk_tickets = (tk_tickets t)[i := (k, True)]\<rparr>)
          else t)"

definition accounted :: "('s, 'k) ticketed \<Rightarrow> bool" where
  "accounted t \<longleftrightarrow> invar (tk_state t) \<and>
     (\<forall>g. used (tk_state t) g = int (open_tickets grp (tk_tickets t) g))"

lemma step_cases [consumes 1, case_names take give noop]:
  assumes "accounted t"
  obtains r k s where "e = Take r" "acquire (tk_state t) r = (Some k, s)"
      "slot_step t e = t\<lparr>tk_state := s, tk_tickets := tk_tickets t @ [(k, False)]\<rparr>"
  | i k where "e = GiveBack i" "i < length (tk_tickets t)" "tk_tickets t ! i = (k, False)"
      "0 < used (tk_state t) (grp k)"
      "slot_step t e = \<lparr>tk_state = release (tk_state t) k, tk_tickets = (tk_tickets t)[i := (k, True)]\<rparr>"
  | "used (tk_state (slot_step t e)) = used (tk_state t)" "cap (tk_state (slot_step t e)) = cap (tk_state t)"
      "invar (tk_state (slot_step t e))" "tk_tickets (slot_step t e) = tk_tickets t"
proof (cases e)
  case (Take r)
  obtain a s where a: "acquire (tk_state t) r = (a, s)" by fastforce
  have "cap s = cap (tk_state t)" "invar s"
    using stable [of "tk_state t"] assms a by (metis snd_conv, metis accounted_def snd_conv)
  then show thesis
    using that a refused by (cases a) (auto simp: Take slot_step_def)
next
  case (GiveBack i)
  consider (open_ticket) k where "i < length (tk_tickets t)" "tk_tickets t ! i = (k, False)"
    | (closed) "i \<ge> length (tk_tickets t) \<or> snd (tk_tickets t ! i)"
    by (metis not_le prod.collapse)
  then show thesis
  proof cases
    case open_ticket
    have "0 < used (tk_state t) (grp k)"
      using assms open_tickets_give_back(2) [OF open_ticket] by (simp add: accounted_def)
    then show thesis using that(2) open_ticket by (simp add: GiveBack slot_step_def)
  next
    case closed
    then have "slot_step t e = t"
      by (cases "tk_tickets t ! i") (auto simp: GiveBack slot_step_def)
    then show thesis using that(3) assms by (simp add: accounted_def)
  qed
qed

lemma step_accounted:
  assumes acc: "accounted t" shows "accounted (slot_step t e)"
  using acc
proof (cases rule: step_cases [where e = e])
  case (take r k s)
  show ?thesis using acc granted [of "tk_state t" r k s] stable(3) [of "tk_state t" r] take
    by (auto simp: accounted_def)
next
  case (give i k)
  note tk = open_tickets_give_back [OF give(2,3), of grp]
  have "used (release (tk_state t) k) g = int (open_tickets grp ((tk_tickets t)[i := (k, True)]) g)" for g
    using acc tk given_back [OF give(4), of g] by (auto simp: accounted_def)
  then show ?thesis using acc stable(4) unfolding give(5) accounted_def by simp
next
  case noop
  then show ?thesis using acc by (simp add: accounted_def)
qed

lemma step_cap: "accounted t \<Longrightarrow> cap (tk_state (slot_step t e)) = cap (tk_state t)"
  by (erule step_cases [where e = e]) (use stable in \<open>auto, (metis snd_conv)+\<close>)

text \<open>Whatever else happens to the state leaves the account right when it leaves the counters.\<close>

lemma accounted_other:
  "accounted t \<Longrightarrow> used s = used (tk_state t) \<Longrightarrow> invar s \<Longrightarrow> accounted (t\<lparr>tk_state := s\<rparr>)"
  by (simp add: accounted_def)

lemma run_accounted: "accounted t \<Longrightarrow> accounted (foldl slot_step t es)"
  by (induction es arbitrary: t) (auto simp: step_accounted)

lemma step_bounded:
  assumes "accounted t" and "used (tk_state t) g \<le> limit"
    and "\<And>r k. e = Take r \<Longrightarrow> fst (acquire (tk_state t) r) = Some k \<Longrightarrow> grp k = g \<Longrightarrow>
      0 < cap (tk_state t) r \<and> cap (tk_state t) r \<le> limit"
  shows "used (tk_state (slot_step t e)) g \<le> limit"
  using assms(1)
proof (cases rule: step_cases [where e = e])
  case (take r k s)
  have "invar (tk_state t)" using assms(1) by (simp add: accounted_def)
  then show ?thesis using granted [of "tk_state t" r k s] take assms(2) assms(3) [OF take(1)] by fastforce
next
  case (give i k)
  then show ?thesis using given_back [OF give(4), of g] assms(2) by auto
next
  case noop
  then show ?thesis using assms(2) by simp
qed

lemma run_bounded:
  assumes "accounted t" and "used (tk_state t) g \<le> limit"
    and "\<And>r k s. Take r \<in> set es \<Longrightarrow> fst (acquire s r) = Some k \<Longrightarrow> grp k = g \<Longrightarrow>
      0 < cap (tk_state t) r \<and> cap (tk_state t) r \<le> limit"
  shows "used (tk_state (foldl slot_step t es)) g \<le> limit"
  using assms
proof (induction es arbitrary: t)
  case (Cons e es)
  have "used (tk_state (slot_step t e)) g \<le> limit"
    using Cons.prems by (intro step_bounded) auto
  then show ?case
    using Cons.IH [OF step_accounted [OF Cons.prems(1)]] Cons.prems(3) step_cap [OF Cons.prems(1)]
    by simp
qed simp

text \<open>Calling a closure again changes nothing; giving everything back frees every slot.\<close>

lemma give_back_twice:
  "slot_step (slot_step t (GiveBack i)) (GiveBack i) = slot_step t (GiveBack i)"
  by (cases "tk_tickets t ! i") (auto simp: slot_step_def split: bool.splits)

lemma all_given_back:
  assumes "accounted t" and "\<forall>x \<in> set (tk_tickets t). snd x"
  shows "used (tk_state t) g = 0"
proof -
  have "open_tickets grp (tk_tickets t) g = 0"
    using assms(2) by (auto simp: open_tickets_def count_list_0_iff mark_def)
  then show ?thesis using assms(1) by (simp add: accounted_def)
qed

end

section \<open>Both limiters keep the contract\<close>

lemma slots_upd [simp]: "slots (m(k \<mapsto> n)) k' = (if k' = k then n else slots m k')"
  "slots (m(k := None)) k' = (if k' = k then 0 else slots m k')"
  by (simp_all add: slots_def)

text \<open>A request of the channel limiter is a channel and its limit; an unlimited one takes no slot.\<close>

definition channel_take ::
    "concurrency_limiter \<Rightarrow> int \<times> int \<Rightarrow> int option \<times> concurrency_limiter" where
  "channel_take l r =
     (case concurrency_acquire l (fst r) (snd r) of
        (Acquired a m, l') \<Rightarrow> (Some (fst r), l')
      | (_, l') \<Rightarrow> (None, l'))"

definition connection_take ::
    "connection_limiter \<Rightarrow> string \<Rightarrow> string option \<times> connection_limiter" where
  "connection_take l subject =
     (case connection_acquire l subject of
        (ConnectionAccepted s, l') \<Rightarrow> (Some s, l')
      | (_, l') \<Rightarrow> (None, l'))"

lemma concurrency_release_slots:
  "slots (cl_active (concurrency_release l c)) k =
     (if k = c then (if slots (cl_active l) c \<le> 1 then 0 else slots (cl_active l) c - 1)
      else slots (cl_active l) k)"
  by (simp add: concurrency_release_def Let_def)

interpretation channel_slots: slot_limiter
  where acquire = channel_take
    and release = concurrency_release
    and grp = id
    and used = "\<lambda>l. slots (cl_active l)"
    and cap = "\<lambda>l r. snd r"
    and invar = "\<lambda>l. True"
  by unfold_locales
    (auto simp: channel_take_def concurrency_acquire_def concurrency_release_slots Let_def split: if_splits)

definition subject_slots :: "connection_limiter \<Rightarrow> string \<Rightarrow> int" where
  "subject_slots l = slots (wl_active_by_subject l)"

definition limits_set :: "connection_limiter \<Rightarrow> bool" where
  "limits_set l \<longleftrightarrow> 0 < wl_max l \<and> 0 < wl_max_per_subject l"

lemma connection_release_slots:
  "subject_slots (connection_release l s) k =
     (if k = s then (if subject_slots l s \<le> 1 then 0 else subject_slots l s - 1) else subject_slots l k)"
  by (simp add: connection_release_def subject_slots_def Let_def)

interpretation subject_connections: slot_limiter
  where acquire = connection_take
    and release = connection_release
    and grp = id
    and used = subject_slots
    and cap = "\<lambda>l r. wl_max_per_subject l"
    and invar = limits_set
  by unfold_locales
    (auto simp: connection_take_def connection_acquire_def connection_release_slots limits_set_def
      subject_slots_def connection_release_def Let_def split: if_splits)

interpretation all_connections: slot_limiter
  where acquire = connection_take
    and release = connection_release
    and grp = "\<lambda>s. ()"
    and used = "\<lambda>l u. wl_active l"
    and cap = "\<lambda>l r. wl_max l"
    and invar = limits_set
  by unfold_locales
    (auto simp: connection_take_def connection_acquire_def limits_set_def
      connection_release_def Let_def split: if_splits)

section \<open>Properties\<close>

definition channel_run :: "(int \<times> int, int) slot_event list \<Rightarrow> (concurrency_limiter, int) ticketed" where
  "channel_run es =
     foldl channel_slots.slot_step \<lparr>tk_state = new_concurrency_limiter, tk_tickets = []\<rparr> es"

definition connection_run ::
    "int \<Rightarrow> int \<Rightarrow> (string, string) slot_event list \<Rightarrow> (connection_limiter, string) ticketed" where
  "connection_run m ms es =
     foldl subject_connections.slot_step \<lparr>tk_state = new_connection_limiter m ms, tk_tickets = []\<rparr> es"

lemma slots_new [simp]: "slots (\<lambda>k. None) k = 0"
  by (simp add: slots_def)

lemma channel_start: "channel_slots.accounted \<lparr>tk_state = new_concurrency_limiter, tk_tickets = []\<rparr>"
  by (simp add: channel_slots.accounted_def new_concurrency_limiter_def)

lemma open_ids: "open_tickets id ts k = length (filter (\<lambda>t. t = (k, False)) ts)"
  by (induction ts) (auto simp: open_tickets_def mark_def)

lemma open_units: "open_tickets (\<lambda>k. ()) ts u = length (filter (\<lambda>t. \<not> snd t) ts)"
  by (induction ts) (auto simp: open_tickets_def mark_def)

text \<open>The number of requests of a channel in flight: acquired and not given back.\<close>

definition in_flight :: "(int \<times> bool) list \<Rightarrow> int \<Rightarrow> nat" where
  "in_flight ts c = length (filter (\<lambda>t. t = (c, False)) ts)"

lemma in_flight_open: "in_flight ts c = open_tickets id ts c"
  by (simp add: in_flight_def open_ids)

text \<open>C25: The concurrency limiter of a channel is exact and safe: after any sequence of acquisitions
  and of calls of the release closures, in any order and any number of times each, the number it
  reports is the number of requests in flight, never more than the largest limit asked for on
  that channel, and it is 0 again once everything is released.\<close>

theorem channel_slots_are_exact:
  assumes "0 < c" and "\<forall>r. Take (c, r) \<in> set es \<longrightarrow> r \<le> limit" and "0 \<le> limit"
    and t: "t = channel_run es"
  shows "concurrency_snapshot (tk_state t) c = int (in_flight (tk_tickets t) c) \<and>
    concurrency_snapshot (tk_state t) c \<le> limit \<and>
    ((\<forall>x \<in> set (tk_tickets t). snd x) \<longrightarrow> concurrency_snapshot (tk_state t) c = 0)"
proof -
  have acc: "channel_slots.accounted t"
    unfolding t channel_run_def by (rule channel_slots.run_accounted [OF channel_start])
  then have exact: "slots (cl_active (tk_state t)) c = int (in_flight (tk_tickets t) c)"
    by (simp add: channel_slots.accounted_def in_flight_open)
  have "slots (cl_active (tk_state t)) c \<le> limit"
    unfolding t channel_run_def
  proof (rule channel_slots.run_bounded [OF channel_start])
    show "slots (cl_active (tk_state \<lparr>tk_state = new_concurrency_limiter, tk_tickets = []\<rparr>)) c \<le> limit"
      using assms(3) by (simp add: new_concurrency_limiter_def)
  next
    fix r k s
    assume "Take r \<in> set es" and "fst (channel_take s r) = Some k" and "id k = c"
    then have "Take (c, snd r) \<in> set es" and "0 < snd r"
      by (auto simp: channel_take_def concurrency_acquire_def Let_def split: prod.splits acquired.splits if_splits)
    then show "0 < snd r \<and> snd r \<le> limit" using assms(2) by blast
  qed
  then show ?thesis using exact assms(1) channel_slots.all_given_back [OF acc, of c]
    by (auto simp: concurrency_snapshot_def)
qed

theorem channel_slots_are_exact_witness:
  "concurrency_snapshot (tk_state (channel_run [Take (7, 2), Take (7, 2), Take (7, 2), GiveBack 0, GiveBack 0])) 7
     = int (in_flight (tk_tickets (channel_run [Take (7, 2), Take (7, 2), Take (7, 2), GiveBack 0, GiveBack 0])) 7)"
  using channel_slots_are_exact [of 7 "[Take (7, 2), Take (7, 2), Take (7, 2), GiveBack 0, GiveBack 0]" 2,
      OF _ _ _ refl] by auto

text \<open>The limiter of the downstream connections never lets through more than its two limits:
  whatever connects and closes, the connections open at any time number at most the configured
  maximum (64 when none is configured), those of one subject at most its maximum (16), and the
  counters are the true numbers of open connections.\<close>

theorem connections_stay_within_limits:
  "let t = connection_run m ms es; l = tk_state t; ts = tk_tickets t in
    wl_active l = int (length (filter (\<lambda>t. \<not> snd t) ts)) \<and>
    wl_active l \<le> (if m \<le> 0 then 64 else m) \<and>
    slots (wl_active_by_subject l) s = int (length (filter (\<lambda>t. t = (s, False)) ts)) \<and>
    slots (wl_active_by_subject l) s \<le> (if ms \<le> 0 then 16 else ms)"
proof -
  let ?init = "\<lparr>tk_state = new_connection_limiter m ms, tk_tickets = []\<rparr> :: (connection_limiter, string) ticketed"
  let ?t = "connection_run m ms es"
  have start: "subject_connections.accounted ?init" "all_connections.accounted ?init"
    by (auto simp: subject_connections.accounted_def all_connections.accounted_def limits_set_def
        new_connection_limiter_def subject_slots_def)
  have sub: "subject_connections.accounted ?t"
    unfolding connection_run_def by (rule subject_connections.run_accounted [OF start(1)])
  have all: "all_connections.accounted ?t"
    unfolding connection_run_def by (rule all_connections.run_accounted [OF start(2)])
  have "wl_active (tk_state ?t) \<le> (if m \<le> 0 then 64 else m)"
    unfolding connection_run_def
    by (rule all_connections.run_bounded [OF start(2), where g = "()"])
      (simp_all add: new_connection_limiter_def)
  moreover have "subject_slots (tk_state ?t) s \<le> (if ms \<le> 0 then 16 else ms)"
    unfolding connection_run_def
    by (rule subject_connections.run_bounded [OF start(1)])
      (simp_all add: new_connection_limiter_def subject_slots_def)
  ultimately show ?thesis
    using sub all
    by (simp add: subject_connections.accounted_def all_connections.accounted_def Let_def
        open_ids open_units subject_slots_def)
qed

section \<open>Waiting for a slot\<close>

text \<open>
  \<open>acquireContext\<close> as a step relation between goroutines: who holds a slot of which channel, and
  who sleeps on its \<open>changed\<close> channel.  A release closes that channel: every sleeper of the
  channel leaves the sleepers and will try again, as a new attempt.  A sleeper whose context ends
  gives up.
\<close>

record slot_world =
  sw_limiter :: concurrency_limiter
  sw_holders :: "int list"
  sw_sleepers :: "int list"

definition empty_world :: slot_world where
  "empty_world = \<lparr>sw_limiter = new_concurrency_limiter, sw_holders = [], sw_sleepers = []\<rparr>"

inductive slot_world_step :: "slot_world \<Rightarrow> slot_world \<Rightarrow> bool" where
  Enter: "0 < c \<Longrightarrow> 0 < limit \<Longrightarrow> concurrency_try (sw_limiter w) c limit = (Proceed, l) \<Longrightarrow>
    slot_world_step w (w\<lparr>sw_limiter := l, sw_holders := c # sw_holders w\<rparr>)"
| Doze: "0 < c \<Longrightarrow> 0 < limit \<Longrightarrow> concurrency_try (sw_limiter w) c limit = (Sleep, l) \<Longrightarrow>
    slot_world_step w (w\<lparr>sw_limiter := l, sw_sleepers := c # sw_sleepers w\<rparr>)"
| Leave: "c \<in> set (sw_holders w) \<Longrightarrow>
    slot_world_step w \<lparr>sw_limiter = concurrency_release (sw_limiter w) c,
      sw_holders = remove1 c (sw_holders w),
      sw_sleepers = (if cl_changed (sw_limiter w) c then removeAll c (sw_sleepers w) else sw_sleepers w)\<rparr>"
| Cancel: "c \<in> set (sw_sleepers w) \<Longrightarrow>
    slot_world_step w (w\<lparr>sw_sleepers := remove1 c (sw_sleepers w)\<rparr>)"

inductive_cases slot_world_stepE [consumes 1, case_names Enter Doze Leave Cancel]:
  "slot_world_step w w'"

inductive slot_reachable :: "slot_world \<Rightarrow> bool" where
  start: "slot_reachable empty_world"
| step: "slot_reachable w \<Longrightarrow> slot_world_step w w' \<Longrightarrow> slot_reachable w'"

text \<open>The invariant: the counter is exact, and whoever sleeps, sleeps on a channel that is still to
  be closed and that somebody who holds a slot will close.\<close>

definition slot_world_ok :: "slot_world \<Rightarrow> bool" where
  "slot_world_ok w \<longleftrightarrow>
     (\<forall>c. slots (cl_active (sw_limiter w)) c = int (count_list (sw_holders w) c)) \<and>
     (\<forall>c \<in> set (sw_sleepers w). cl_changed (sw_limiter w) c) \<and>
     (\<forall>c. cl_changed (sw_limiter w) c \<longrightarrow> c \<in> set (sw_holders w))"

lemma concurrency_try_cases:
  assumes "0 < c" and "0 < limit"
  shows "concurrency_try l c limit = (Proceed, l') \<longleftrightarrow> slots (cl_active l) c < limit \<and>
      l' = l\<lparr>cl_active := (cl_active l)(c \<mapsto> slots (cl_active l) c + 1)\<rparr>"
    and "concurrency_try l c limit = (Sleep, l') \<longleftrightarrow> limit \<le> slots (cl_active l) c \<and>
      l' = l\<lparr>cl_changed := (cl_changed l)(c := True)\<rparr>"
  using assms by (auto simp: concurrency_try_def Let_def)

lemma count_list_remove1:
  "c \<in> set xs \<Longrightarrow> count_list (remove1 c xs) d = count_list xs d - (if c = d then 1 else 0)"
  by (induction xs) (auto simp: count_list_0_iff)

lemma count_list_pos: "0 < count_list xs c \<longleftrightarrow> c \<in> set xs"
  by (metis count_list_0_iff gr0I less_numeral_extra(3))

lemma slot_world_step_ok:
  assumes "slot_world_step w w'" and "slot_world_ok w"
  shows "slot_world_ok w'"
  using assms(1)
proof (cases rule: slot_world_stepE)
  case (Enter c limit l)
  then show ?thesis using assms(2) by (auto simp: slot_world_ok_def concurrency_try_cases)
next
  case (Doze c limit l)
  then have "0 < slots (cl_active (sw_limiter w)) c" by (simp add: concurrency_try_cases)
  then have "c \<in> set (sw_holders w)" using assms(2) by (simp add: slot_world_ok_def count_list_pos)
  then show ?thesis using Doze assms(2) by (auto simp: slot_world_ok_def concurrency_try_cases)
next
  case (Leave c)
  have pos: "0 < count_list (sw_holders w) c" using Leave(2) by (simp add: count_list_pos)
  have "slots (cl_active (sw_limiter w')) d = int (count_list (sw_holders w') d)" for d
    using assms(2) pos Leave
    by (auto simp: slot_world_ok_def concurrency_release_slots count_list_remove1)
  moreover have "\<forall>d \<in> set (sw_sleepers w'). cl_changed (sw_limiter w') d"
    using assms(2) Leave by (auto simp: slot_world_ok_def concurrency_release_def Let_def)
  moreover have "d \<in> set (sw_holders w')" if "cl_changed (sw_limiter w') d" for d
    using that assms(2) Leave
    by (auto simp: slot_world_ok_def concurrency_release_def Let_def split: if_splits)
  ultimately show ?thesis by (simp add: slot_world_ok_def)
next
  case (Cancel c)
  then show ?thesis using assms(2) by (auto simp: slot_world_ok_def dest: notin_set_remove1)
qed

lemma slot_reachable_ok: "slot_reachable w \<Longrightarrow> slot_world_ok w"
proof (induction rule: slot_reachable.induct)
  case start
  show ?case by (simp add: slot_world_ok_def empty_world_def new_concurrency_limiter_def)
next
  case (step w w')
  then show ?case using slot_world_step_ok by blast
qed

text \<open>C18: No wake-up is lost: in every reachable situation a goroutine that sleeps for a slot of a
  channel does so while another one holds a slot of that channel, and the release of any slot of
  the channel wakes all who sleep for it.\<close>

theorem waiters_are_woken:
  assumes "slot_reachable w" and "c \<in> set (sw_sleepers w)"
  shows "c \<in> set (sw_holders w) \<and>
    (\<exists>w'. slot_world_step w w' \<and> c \<notin> set (sw_sleepers w') \<and>
      count_list (sw_holders w') c < count_list (sw_holders w) c)"
proof -
  have ok: "slot_world_ok w" using assms(1) by (rule slot_reachable_ok)
  then have ch: "cl_changed (sw_limiter w) c" and h: "c \<in> set (sw_holders w)"
    using assms(2) by (auto simp: slot_world_ok_def)
  have "count_list (remove1 c (sw_holders w)) c < count_list (sw_holders w) c"
    using h by (simp add: count_list_remove1 count_list_pos)
  then show ?thesis using slot_world_step.Leave [OF h] ch h by fastforce
qed

theorem waiters_are_woken_witness:
  "\<exists>w. slot_reachable w \<and> sw_sleepers w = [7] \<and> 7 \<in> set (sw_holders w)"
proof -
  let ?l1 = "new_concurrency_limiter\<lparr>cl_active := [7 \<mapsto> 1]\<rparr>"
  let ?w1 = "\<lparr>sw_limiter = ?l1, sw_holders = [7], sw_sleepers = []\<rparr>"
  let ?w2 = "\<lparr>sw_limiter = ?l1\<lparr>cl_changed := (\<lambda>c. False)(7 := True)\<rparr>, sw_holders = [7], sw_sleepers = [7]\<rparr>"
  have "slot_world_step empty_world ?w1"
    using slot_world_step.Enter [of 7 1 empty_world ?l1]
    by (simp add: empty_world_def new_concurrency_limiter_def concurrency_try_cases)
  then have "slot_reachable ?w1" using slot_reachable.intros by blast
  moreover have "slot_world_step ?w1 ?w2"
    using slot_world_step.Doze [of 7 1 ?w1 "?l1\<lparr>cl_changed := (\<lambda>c. False)(7 := True)\<rparr>"]
    by (simp add: new_concurrency_limiter_def concurrency_try_cases)
  ultimately have r: "slot_reachable ?w2" using slot_reachable.step by blast
  have "7 \<in> set (sw_holders ?w2)"
    using waiters_are_woken [OF r, of 7] by simp
  then show ?thesis using r by (intro exI [of _ ?w2]) simp
qed

end
