(* ===== verification/Window_Limiters.thy ===== *)
theory Window_Limiters
  imports Slot_Limiters
begin

text \<open>
  The limiters that count events in a sliding window: \<open>channel_rpm_limiter.go\<close> (requests per
  minute and channel) and \<open>api_token_session_limiter.go\<close> (sessions issued per hour and token), and
  \<open>reserveUpstreamRequest\<close>, which combines the first with the concurrency limiter.

  A limiter keeps the instants of the recent events of each key.  The clock is an argument of each
  operation; the properties ask for instants that do not go backwards.  What both promise is the
  locale \<open>window_limiter\<close>.
\<close>

section \<open>Requests per minute\<close>

type_synonym event_log = "int \<Rightarrow> time list option"

definition logged :: "event_log \<Rightarrow> int \<Rightarrow> time list" where
  "logged l k = (case l k of None \<Rightarrow> [] | Some ts \<Rightarrow> ts)"

text \<open>The loop that keeps the events after the cutoff, in place.\<close>

definition retain_recent :: "time list \<Rightarrow> time \<Rightarrow> time list" where
  "retain_recent events cutoff = filter (\<lambda>ts. ts > cutoff) events"

record rpm_reservation =
  rpm_allowed :: bool
  rpm_retry_after :: duration

definition rpm_snapshot :: "event_log \<Rightarrow> int \<Rightarrow> time \<Rightarrow> nat \<times> event_log" where
  "rpm_snapshot l channel now =
     (if channel \<le> 0 then (0, l)
      else let kept = retain_recent (logged l channel) (now - minute)
           in if kept = [] then (0, l(channel := None)) else (length kept, l(channel \<mapsto> kept)))"

definition rpm_remove_channel :: "event_log \<Rightarrow> int \<Rightarrow> event_log" where
  "rpm_remove_channel l channel = (if channel \<le> 0 then l else l(channel := None))"

definition sweep_log :: "event_log \<Rightarrow> time \<Rightarrow> event_log" where
  "sweep_log l cutoff = (\<lambda>k. case l k of
     None \<Rightarrow> None
   | Some ts \<Rightarrow> let kept = retain_recent ts cutoff in if kept = [] then None else Some kept)"

definition rpm_cleanup_expired :: "event_log \<Rightarrow> time \<Rightarrow> event_log" where
  "rpm_cleanup_expired l now = sweep_log l (now - minute)"

definition retry_after :: "time list \<Rightarrow> duration \<Rightarrow> time \<Rightarrow> duration" where
  "retry_after events window now =
     (case events of
        [] \<Rightarrow> window
      | e # _ \<Rightarrow> let r = time_sub (e + window) now in if r < 0 then 0 else r)"

definition rpm_reserve :: "event_log \<Rightarrow> int \<Rightarrow> int \<Rightarrow> time \<Rightarrow> rpm_reservation \<times> event_log" where
  "rpm_reserve l channel limit now =
     (if channel \<le> 0 \<or> limit \<le> 0 then (\<lparr>rpm_allowed = True, rpm_retry_after = 0\<rparr>, l)
      else let events = retain_recent (logged l channel) (now - minute)
        in if int (length events) \<ge> limit
           then (\<lparr>rpm_allowed = False, rpm_retry_after = retry_after events minute now\<rparr>,
                 l(channel \<mapsto> events))
           else (\<lparr>rpm_allowed = True, rpm_retry_after = 0\<rparr>, l(channel \<mapsto> events @ [now])))"

definition rpm_allow :: "event_log \<Rightarrow> int \<Rightarrow> int \<Rightarrow> time \<Rightarrow> bool \<times> event_log" where
  "rpm_allow l channel limit now =
     (case rpm_reserve l channel limit now of (r, l') \<Rightarrow> (rpm_allowed r, l'))"

definition reserve_channel_rpm :: "event_log \<Rightarrow> config \<Rightarrow> time \<Rightarrow> rpm_reservation \<times> event_log" where
  "reserve_channel_rpm l cfg now =
     (if cfg_rpm_limit cfg \<le> 0 then (\<lparr>rpm_allowed = True, rpm_retry_after = 0\<rparr>, l)
      else rpm_reserve l (cfg_id cfg) (cfg_rpm_limit cfg) now)"

section \<open>Sessions per hour\<close>

definition session_issue_limit :: int where "session_issue_limit = 5"
definition session_issue_window :: duration where "session_issue_window = hour"

definition session_allow :: "event_log \<Rightarrow> int \<Rightarrow> time \<Rightarrow> (bool \<times> duration) \<times> event_log" where
  "session_allow l token now =
     (if token \<le> 0 then ((False, session_issue_window), l)
      else let events = retain_recent (logged l token) (now - session_issue_window)
        in if int (length events) \<ge> session_issue_limit
           then ((False, let r = time_sub (hd events + session_issue_window) now
                         in if r < 0 then 0 else r), l(token \<mapsto> events))
           else ((True, 0), l(token \<mapsto> events @ [now])))"

definition session_cleanup :: "event_log \<Rightarrow> time \<Rightarrow> event_log" where
  "session_cleanup l now = sweep_log l (now - session_issue_window)"

section \<open>Reserving an upstream request\<close>

record upstream_limits =
  ul_slots :: concurrency_limiter
  ul_rpm :: event_log

datatype reserve_error = ConcurrencyExceeded int int | RpmExceeded duration

text \<open>On success the result says whether a slot has to be given back later.\<close>

definition give_back :: "concurrency_limiter \<Rightarrow> config \<Rightarrow> acquired \<Rightarrow> concurrency_limiter" where
  "give_back l cfg a = (case a of Acquired n m \<Rightarrow> concurrency_release l (cfg_id cfg) | _ \<Rightarrow> l)"

definition reserve_upstream_request ::
    "upstream_limits \<Rightarrow> config \<Rightarrow> time \<Rightarrow> (reserve_error + acquired) \<times> upstream_limits" where
  "reserve_upstream_request u cfg now =
     (case acquire_channel_concurrency_slot (ul_slots u) cfg of
        (Refused active limit, l) \<Rightarrow> (Inl (ConcurrencyExceeded active limit), u\<lparr>ul_slots := l\<rparr>)
      | (a, l) \<Rightarrow>
          (case reserve_channel_rpm (ul_rpm u) cfg now of
             (r, rl) \<Rightarrow>
               if rpm_allowed r then (Inr a, \<lparr>ul_slots = l, ul_rpm = rl\<rparr>)
               else (Inl (RpmExceeded (rpm_retry_after r)),
                     \<lparr>ul_slots = give_back l cfg a, ul_rpm = rl\<rparr>)))"

section \<open>The contract of a window limiter\<close>

datatype 'k window_event = Ask 'k time | Sweep time

primrec event_time :: "'k window_event \<Rightarrow> time" where
  "event_time (Ask k now) = now"
| "event_time (Sweep now) = now"

locale window_limiter =
  fixes ask :: "'s \<Rightarrow> 'k \<Rightarrow> time \<Rightarrow> (bool \<times> duration) \<times> 's"
    and sweep :: "'s \<Rightarrow> time \<Rightarrow> 's"
    and events :: "'s \<Rightarrow> 'k \<Rightarrow> time list"
    and cap :: "'k \<Rightarrow> int"
    and window :: duration
    and valid :: "'k \<Rightarrow> bool"
  assumes ask_events: "valid k \<Longrightarrow> valid k' \<Longrightarrow> events (snd (ask s k now)) k' =
      (if k' = k then retain_recent (events s k) (now - window) @
         (if int (length (retain_recent (events s k) (now - window))) < cap k then [now] else [])
       else events s k')"
    and ask_allowed: "valid k \<Longrightarrow> fst (fst (ask s k now)) \<longleftrightarrow>
      int (length (retain_recent (events s k) (now - window))) < cap k"
    and ask_retry: "valid k \<Longrightarrow> \<not> fst (fst (ask s k now)) \<Longrightarrow>
      retain_recent (events s k) (now - window) \<noteq> [] \<Longrightarrow>
      snd (fst (ask s k now)) = retry_after (retain_recent (events s k) (now - window)) window now"
    and sweep_events: "valid k \<Longrightarrow> events (sweep s now) k = retain_recent (events s k) (now - window)"
    and cap_pos: "valid k \<Longrightarrow> 0 < cap k"
    and window_pos: "0 < window" "window < 2 ^ 62"
begin

primrec run :: "'s \<Rightarrow> 'k window_event list \<Rightarrow> 'k \<Rightarrow> time list \<times> 's" where
  "run s [] k = ([], s)"
| "run s (e # es) k =
     (case e of
        Ask k' now \<Rightarrow>
          (case ask s k' now of (r, s') \<Rightarrow>
            (case run s' es k of (ts, s'') \<Rightarrow> (if k' = k \<and> fst r then now # ts else ts, s'')))
      | Sweep now \<Rightarrow> run (sweep s now) es k)"

lemma retain_twice:
  "c \<le> c' \<Longrightarrow> retain_recent (retain_recent xs c) c' = retain_recent xs c'"
  by (induction xs) (auto simp: retain_recent_def)

definition admitted_at :: "time list \<Rightarrow> time \<Rightarrow> nat" where
  "admitted_at ts t = length (filter (\<lambda>a. t - window < a \<and> a \<le> t) ts)"

text \<open>What is known of a key after the events \<open>A\<close> were admitted, the last one no later than \<open>T\<close>.\<close>

definition tracks :: "'s \<Rightarrow> 'k \<Rightarrow> time list \<Rightarrow> time \<Rightarrow> bool" where
  "tracks s k A T \<longleftrightarrow> (\<forall>a \<in> set A. a \<le> T) \<and>
     retain_recent (events s k) (T - window) = retain_recent A (T - window) \<and>
     (\<forall>t. int (admitted_at A t) \<le> cap k)"

lemma tracks_later: "tracks s k A T \<Longrightarrow> T \<le> T' \<Longrightarrow> tracks s k A T'"
  unfolding tracks_def using retain_twice [of "T - window" "T' - window"]
  by (metis diff_right_mono order_trans)

lemma admitted_snoc:
  "admitted_at (A @ [now]) t = admitted_at A t + (if t - window < now \<and> now \<le> t then 1 else 0)"
  by (simp add: admitted_at_def)

lemma admitted_recent:
  assumes "now \<le> t" and "\<forall>a \<in> set A. a \<le> now"
  shows "admitted_at A t \<le> length (retain_recent A (now - window))"
  using assms unfolding admitted_at_def retain_recent_def
  by (induction A) auto

lemma tracks_ask:
  assumes v: "valid k" and tr: "tracks s k A T" and "T \<le> now"
  shows "tracks (snd (ask s k now)) k (A @ (if fst (fst (ask s k now)) then [now] else [])) now"
proof -
  have tr': "tracks s k A now" using tracks_later [OF tr assms(3)] .
  then have recent: "retain_recent (events s k) (now - window) = retain_recent A (now - window)"
    and le: "\<forall>a \<in> set A. a \<le> now" and bound: "\<And>t. int (admitted_at A t) \<le> cap k"
    by (auto simp: tracks_def)
  let ?ok = "int (length (retain_recent A (now - window))) < cap k"
  have ok: "fst (fst (ask s k now)) \<longleftrightarrow> ?ok" using ask_allowed [OF v] recent by simp
  have ev: "events (snd (ask s k now)) k = retain_recent A (now - window) @ (if ?ok then [now] else [])"
    using ask_events [OF v v] recent by simp
  have "retain_recent (events (snd (ask s k now)) k) (now - window)
      = retain_recent (A @ (if ?ok then [now] else [])) (now - window)"
    using window_pos by (simp add: ev) (simp add: retain_recent_def)
  moreover have "int (admitted_at (A @ [now]) t) \<le> cap k" if "?ok" for t
    using that bound [of t] admitted_recent [OF _ le, of t] by (fastforce simp: admitted_snoc)
  ultimately show ?thesis using le bound by (auto simp: tracks_def ok)
qed

lemma run_tracks:
  assumes "valid k" and "\<forall>k' now. Ask k' now \<in> set es \<longrightarrow> valid k'"
    and "tracks s k A T" and "sorted (T # map event_time es)"
    and "run s es k = (ts, s')"
  shows "tracks s' k (A @ ts) (last (T # map event_time es))"
  using assms(2-5)
proof (induction es arbitrary: s A T ts)
  case (Cons e es)
  have sorted': "sorted (event_time e # map event_time es)" and le: "T \<le> event_time e"
    using Cons.prems(3) by auto
  have valid': "\<forall>k' now. Ask k' now \<in> set es \<longrightarrow> valid k'" using Cons.prems(1) by auto
  show ?case
  proof (cases e)
    case (Ask k' now)
    have v': "valid k'" using Cons.prems(1) Ask by auto
    obtain r s1 where a: "ask s k' now = (r, s1)" by fastforce
    obtain ts1 where rest: "run s1 es k = (ts1, s')"
        and ts: "ts = (if k' = k \<and> fst r then [now] else []) @ ts1"
      using Cons.prems(4) by (auto simp: Ask a split: prod.splits if_splits)
    have "tracks s1 k (A @ (if k' = k \<and> fst r then [now] else [])) now"
    proof (cases "k' = k")
      case True
      then show ?thesis using tracks_ask [OF assms(1) Cons.prems(2), of now] le a Ask by simp
    next
      case False
      have "events s1 k = events s k" using ask_events [OF v' assms(1), of s now] False a by simp
      then show ?thesis using tracks_later [OF Cons.prems(2)] le Ask False by (simp add: tracks_def)
    qed
    from Cons.IH [OF valid' this _ rest] sorted' show ?thesis using Ask ts by simp
  next
    case (Sweep now)
    have "tracks (sweep s now) k A now"
      using tracks_later [OF Cons.prems(2) le] sweep_events [OF assms(1), of s now] Sweep
        retain_twice [of "now - window" "now - window"] by (simp add: tracks_def)
    from Cons.IH [OF valid' this] sorted' show ?thesis using Sweep Cons.prems(4) by simp
  qed
qed simp

text \<open>The window bound: in no window of the given length are more than \<open>cap\<close> events let through.\<close>

theorem window_bound:
  assumes "valid k" and "\<forall>k' now. Ask k' now \<in> set es \<longrightarrow> valid k'"
    and "events s k = []" and "sorted (map event_time es)" and "run s es k = (ts, s')"
  shows "int (admitted_at ts t) \<le> cap k"
proof (cases es)
  case Nil
  then show ?thesis using assms(1,5) cap_pos [of k] by (simp add: admitted_at_def)
next
  case (Cons e es')
  have "tracks s k [] (event_time e)"
    using assms(1,3) cap_pos [of k] by (simp add: tracks_def retain_recent_def admitted_at_def)
  moreover have "sorted (event_time e # map event_time es)" using assms(4) Cons by simp
  ultimately have "tracks s' k ([] @ ts) (last (event_time e # map event_time es))"
    by (rule run_tracks [OF assms(1,2) _ _ assms(5)])
  then show ?thesis by (simp add: tracks_def)
qed

text \<open>A refusal names the wait after which the next attempt is let through, and not sooner.\<close>

lemma wait_is_exact:
  assumes v: "valid k" and ref: "\<not> fst (fst (ask s k now))"
    and sorted: "sorted (events s k)" "\<forall>a \<in> set (events s k). a \<le> now"
    and full: "int (length (events s k)) \<le> cap k"
  defines "r \<equiv> snd (fst (ask s k now))"
  shows "0 < r \<and> r \<le> window \<and> fst (fst (ask (snd (ask s k now)) k (now + r))) \<and>
    (\<forall>d. 0 \<le> d \<longrightarrow> d < r \<longrightarrow> \<not> fst (fst (ask (snd (ask s k now)) k (now + d))))"
proof -
  let ?ev = "retain_recent (events s k) (now - window)" and ?s = "snd (ask s k now)"
  have ge: "cap k \<le> int (length ?ev)" using ref ask_allowed [OF v] by simp
  then have ne: "?ev \<noteq> []" using cap_pos [OF v] by auto
  have len: "int (length ?ev) = cap k"
    using ge full length_filter_le [of "\<lambda>ts. ts > now - window" "events s k"]
    unfolding retain_recent_def by linarith
  obtain e es where ev: "?ev = e # es" using ne by (cases ?ev) auto
  have "e \<in> set ?ev" using ev by simp
  then have e: "now - window < e" "e \<le> now" using sorted(2) by (auto simp: retain_recent_def)
  have so: "sorted (e # es)" using sorted(1) ev by (metis retain_recent_def sorted_wrt_filter)
  have "time_sub (e + window) now = e + window - now"
    using e window_pos by (simp add: time_sub_def)
  then have r: "r = e + window - now"
    using ask_retry [OF v ref ne] e by (simp add: r_def ev retry_after_def Let_def)
  have after: "events ?s k = e # es"
    using ask_events [OF v v, of s now] len ev by simp
  have ok: "fst (fst (ask ?s k t)) \<longleftrightarrow> int (length (retain_recent (e # es) (t - window))) < cap k" for t
    using ask_allowed [OF v, of ?s t] after by simp
  have "length (retain_recent (e # es) (now + r - window)) < length (e # es)"
    unfolding retain_recent_def by (rule length_filter_less [of e]) (simp_all add: r)
  then have "fst (fst (ask ?s k (now + r)))" using ok [of "now + r"] len ev by simp
  moreover have "\<not> fst (fst (ask ?s k (now + d)))" if "d < r" for d
  proof -
    have "retain_recent (e # es) (now + d - window) = e # es"
      using so that by (auto simp: retain_recent_def r filter_id_conv)
    then show ?thesis using ok [of "now + d"] len ev by simp
  qed
  ultimately show ?thesis using e r by simp
qed

end

section \<open>Both limiters keep the contract\<close>

definition rpm_ask :: "(int \<Rightarrow> int) \<Rightarrow> event_log \<Rightarrow> int \<Rightarrow> time \<Rightarrow> (bool \<times> duration) \<times> event_log" where
  "rpm_ask limits l c now =
     (case rpm_reserve l c (limits c) now of (r, l') \<Rightarrow> ((rpm_allowed r, rpm_retry_after r), l'))"

lemma logged_upd [simp]: "logged (l(k \<mapsto> ts)) k' = (if k' = k then ts else logged l k')"
  by (simp add: logged_def)

lemma logged_sweep: "logged (sweep_log l cutoff) k = retain_recent (logged l k) cutoff"
  by (simp add: logged_def sweep_log_def Let_def split: option.split) (simp add: retain_recent_def)

interpretation rpm_window: window_limiter
  where ask = "rpm_ask limits"
    and sweep = rpm_cleanup_expired
    and events = logged
    and cap = limits
    and window = minute
    and valid = "\<lambda>c. 0 < c \<and> 0 < limits c"
  for limits
  by unfold_locales
    (auto simp: rpm_ask_def rpm_reserve_def Let_def logged_sweep rpm_cleanup_expired_def)

interpretation session_window: window_limiter
  where ask = session_allow
    and sweep = session_cleanup
    and events = logged
    and cap = "\<lambda>token. session_issue_limit"
    and window = session_issue_window
    and valid = "\<lambda>token. 0 < token"
proof unfold_locales
  fix k :: int and s :: event_log and now :: time
  assume "0 < k" and "\<not> fst (fst (session_allow s k now))"
    and ne: "retain_recent (logged s k) (now - session_issue_window) \<noteq> []"
  then show "snd (fst (session_allow s k now)) =
      retry_after (retain_recent (logged s k) (now - session_issue_window)) session_issue_window now"
    by (auto simp: session_allow_def retry_after_def Let_def split: list.split if_splits)
qed (auto simp: session_allow_def session_cleanup_def Let_def logged_sweep session_issue_limit_def
      session_issue_window_def)

section \<open>Properties\<close>

text \<open>Requests of one channel that were let through, over a run of reservations and cleanups.\<close>

definition rpm_admitted :: "(int \<Rightarrow> int) \<Rightarrow> int window_event list \<Rightarrow> int \<Rightarrow> time list" where
  "rpm_admitted limits es c = fst (rpm_window.run limits (\<lambda>k. None) es c)"

definition sessions_issued :: "int window_event list \<Rightarrow> int \<Rightarrow> time list" where
  "sessions_issued es token = fst (session_window.run (\<lambda>k. None) es token)"

definition in_window :: "duration \<Rightarrow> time list \<Rightarrow> time \<Rightarrow> nat" where
  "in_window window ts t = length (filter (\<lambda>a. t - window < a \<and> a \<le> t) ts)"

lemma logged_empty [simp]: "logged (\<lambda>k. None) k = []"
  by (simp add: logged_def)

text \<open>C17: The rate limit of a channel holds over every sliding minute, not only per calendar minute:
  for instants that do not go backwards, any traffic on any channels and any cleanups in between,
  no minute contains more admitted requests of a channel than its limit.\<close>

theorem rpm_limit_holds_in_every_minute:
  assumes "0 < c" and "0 < limits c"
    and "\<forall>c' now. Ask c' now \<in> set es \<longrightarrow> 0 < c' \<and> 0 < limits c'"
    and "sorted (map event_time es)"
  shows "int (in_window minute (rpm_admitted limits es c) t) \<le> limits c"
proof -
  obtain ts s' where run: "rpm_window.run limits (\<lambda>k. None) es c = (ts, s')" by fastforce
  have "int (rpm_window.admitted_at ts t) \<le> limits c"
    by (rule rpm_window.window_bound [OF _ _ _ assms(4) run]) (use assms in auto)
  then show ?thesis by (simp add: rpm_admitted_def run in_window_def rpm_window.admitted_at_def)
qed

theorem rpm_limit_holds_in_every_minute_witness:
  "int (in_window minute (rpm_admitted (\<lambda>c. 2) [Ask 7 0, Ask 7 1, Ask 7 2, Sweep 3, Ask 7 minute] 7) minute) \<le> 2"
  using rpm_limit_holds_in_every_minute [of 7 "\<lambda>c. 2" "[Ask 7 0, Ask 7 1, Ask 7 2, Sweep 3, Ask 7 minute]"]
  by simp

text \<open>A refused request is told the exact wait: nothing is let through on the channel before
  that time has passed, and the first request after it is.\<close>

theorem rpm_retry_after_is_exact:
  assumes "0 < c" and "0 < limit" and "sorted (logged l c)" and "\<forall>a \<in> set (logged l c). a \<le> now"
    and "int (length (logged l c)) \<le> limit"
    and ref: "rpm_reserve l c limit now = (\<lparr>rpm_allowed = False, rpm_retry_after = r\<rparr>, l')"
  shows "0 < r \<and> r \<le> minute \<and> fst (rpm_allow l' c limit (now + r)) \<and>
    (\<forall>d. 0 \<le> d \<longrightarrow> d < r \<longrightarrow> \<not> fst (rpm_allow l' c limit (now + d)))"
proof -
  have a: "rpm_ask (\<lambda>c. limit) l c now = ((False, r), l')" by (simp add: rpm_ask_def ref)
  have eq: "fst (rpm_allow l' c limit t) = fst (fst (rpm_ask (\<lambda>c. limit) l' c t))" for t
    by (simp add: rpm_allow_def rpm_ask_def split: prod.splits)
  show ?thesis
    using rpm_window.wait_is_exact [of c "\<lambda>c. limit" l now] assms(1-5) a by (simp add: eq)
qed

theorem rpm_retry_after_is_exact_witness:
  "fst (rpm_allow [7 \<mapsto> [5 * second]] 7 1 (65 * second))"
proof -
  have l: "rpm_reserve [7 \<mapsto> [5 * second]] 7 1 (20 * second) =
      (\<lparr>rpm_allowed = False, rpm_retry_after = 45 * second\<rparr>, [7 \<mapsto> [5 * second]])"
    by (simp add: rpm_reserve_def logged_def retain_recent_def retry_after_def time_sub_def)
  show ?thesis using rpm_retry_after_is_exact [OF _ _ _ _ _ l] by (simp add: logged_def)
qed

text \<open>No token obtains more than five browser sessions in any hour, however often it asks and
  whatever the hourly cleanup drops in between.\<close>

theorem five_sessions_per_hour:
  assumes "0 < token" and "\<forall>k now. Ask k now \<in> set es \<longrightarrow> 0 < k" and "sorted (map event_time es)"
  shows "in_window hour (sessions_issued es token) t \<le> 5"
proof -
  obtain ts s' where run: "session_window.run (\<lambda>k. None) es token = (ts, s')" by fastforce
  have "int (session_window.admitted_at ts t) \<le> session_issue_limit"
    by (rule session_window.window_bound [OF _ _ _ assms(3) run]) (use assms in auto)
  then have "in_window session_issue_window ts t \<le> 5"
    by (simp add: in_window_def session_window.admitted_at_def session_issue_limit_def)
  then show ?thesis by (simp add: sessions_issued_def run session_issue_window_def)
qed

theorem five_sessions_per_hour_witness:
  "in_window hour (sessions_issued (map (\<lambda>i. Ask 3 (int i)) [0 ..< 9]) 3) 10 \<le> 5"
proof (rule five_sessions_per_hour)
  show "sorted (map event_time (map (\<lambda>i. Ask 3 (int i)) [0 ..< 9]))"
    by (simp add: comp_def sorted_map)
qed auto

lemma acquire_then_give_back:
  assumes "acquire_channel_concurrency_slot l cfg = (a, l')" and "\<forall>n m. a \<noteq> Refused n m"
    and "0 \<le> slots (cl_active l) (cfg_id cfg)"
  shows "slots (cl_active (give_back l' cfg a)) = slots (cl_active l)"
  using assms
  by (auto simp: acquire_channel_concurrency_slot_def concurrency_acquire_def give_back_def
      concurrency_release_slots Let_def fun_eq_iff split: if_splits)

lemma rpm_refused:
  assumes "rpm_reserve l c limit now = (r, l')" and "\<not> rpm_allowed r"
  shows "l' = l(c \<mapsto> retain_recent (logged l c) (now - minute))"
  using assms by (auto simp: rpm_reserve_def Let_def split: if_splits)

text \<open>A request that is refused costs nothing: whichever limiter refuses it, the number of slots
  in use is what it was on every channel, and the events of the last minute are the same, so that
  a refusal never delays another request.\<close>

theorem refused_request_costs_nothing:
  assumes "reserve_upstream_request u cfg now = (Inl e, u')"
    and "0 \<le> slots (cl_active (ul_slots u)) (cfg_id cfg)"
  shows "slots (cl_active (ul_slots u')) = slots (cl_active (ul_slots u)) \<and>
    (\<forall>c t. now \<le> t \<longrightarrow>
       retain_recent (logged (ul_rpm u') c) (t - minute) = retain_recent (logged (ul_rpm u) c) (t - minute))"
proof -
  obtain a l where acq: "acquire_channel_concurrency_slot (ul_slots u) cfg = (a, l)" by fastforce
  obtain r rl where rpm: "reserve_channel_rpm (ul_rpm u) cfg now = (r, rl)" by fastforce
  show ?thesis
  proof (cases "\<exists>n m. a = Refused n m")
    case True
    then have "l = ul_slots u"
      using acq by (auto simp: acquire_channel_concurrency_slot_def concurrency_acquire_def Let_def split: if_splits)
    moreover have "u' = u\<lparr>ul_slots := l\<rparr>"
      using assms(1) acq True by (auto simp: reserve_upstream_request_def)
    ultimately show ?thesis by simp
  next
    case False
    have no: "\<not> rpm_allowed r"
      using assms(1) False by (auto simp: reserve_upstream_request_def acq rpm split: acquired.splits if_splits)
    have u': "u' = \<lparr>ul_slots = give_back l cfg a, ul_rpm = rl\<rparr>"
      using assms(1) False no by (auto simp: reserve_upstream_request_def acq rpm split: acquired.splits)
    have "rl = (ul_rpm u)(cfg_id cfg \<mapsto> retain_recent (logged (ul_rpm u) (cfg_id cfg)) (now - minute))"
      using rpm no by (auto simp: reserve_channel_rpm_def rpm_refused split: if_splits)
    then have "retain_recent (logged rl c) (t - minute) = retain_recent (logged (ul_rpm u) c) (t - minute)"
      if "now \<le> t" for c t
      using that rpm_window.retain_twice [of "now - minute" "t - minute"] by simp
    then show ?thesis using acquire_then_give_back [OF acq _ assms(2)] False by (auto simp: u')
  qed
qed

theorem refused_request_costs_nothing_witness:
  "let u = \<lparr>ul_slots = new_concurrency_limiter, ul_rpm = [7 \<mapsto> [5 * second]]\<rparr>;
       cfg = example_config\<lparr>cfg_max_concurrency := 3, cfg_rpm_limit := 1\<rparr>
   in slots (cl_active (ul_slots (snd (reserve_upstream_request u cfg (6 * second))))) 7 = 0"
proof -
  let ?u = "\<lparr>ul_slots = new_concurrency_limiter, ul_rpm = [7 \<mapsto> [5 * second]]\<rparr>"
  let ?cfg = "example_config\<lparr>cfg_max_concurrency := 3, cfg_rpm_limit := 1\<rparr>"
  obtain e u' where r: "reserve_upstream_request ?u ?cfg (6 * second) = (Inl e, u')"
    by (simp add: reserve_upstream_request_def acquire_channel_concurrency_slot_def concurrency_acquire_def
        new_concurrency_limiter_def example_config_def reserve_channel_rpm_def rpm_reserve_def
        logged_def retain_recent_def Let_def)
  show ?thesis
    using refused_request_costs_nothing [OF r]
    unfolding Let_def r by (simp add: new_concurrency_limiter_def)
qed

end
