(* ===== verification/Auth_Tokens.thy ===== *)
theory Auth_Tokens
  imports Go_Text Complex_Main
begin

text \<open>
  The API access token, \<open>internal/model/auth_token.go\<close>, and the money conversion it uses,
  \<open>internal/util/money.go\<close>.

  \<^item> The clock of \<open>IsExpired\<close> and \<open>UpdateLastUsed\<close> is an argument, in milliseconds.
  \<^item> A \<open>float64\<close> is a real; the checks for NaN and infinity have no counterpart.
  \<^item> \<open>HashToken\<close> (SHA-256 in hexadecimal) is a parameter wherever a token is hashed.
\<close>

section \<open>Money\<close>

definition micro_usd_scale :: real where "micro_usd_scale = 1000000"

text \<open>\<open>math.Round\<close> of a value that is not negative.\<close>

definition round_half_up :: "real \<Rightarrow> int" where
  "round_half_up x = \<lfloor>x + 1 / 2\<rfloor>"

definition usd_to_micro_usd :: "real \<Rightarrow> int" where
  "usd_to_micro_usd usd =
     (if usd < 0 then 0 else if usd = 0 then 0 else round_half_up (usd * micro_usd_scale))"

definition usd_to_micro_usd_safe :: "real \<Rightarrow> string + int" where
  "usd_to_micro_usd_safe usd =
     (if usd < 0 then Inl ''negative USD value is not allowed''
      else if usd = 0 then Inr 0 else Inr (round_half_up (usd * micro_usd_scale)))"

definition micro_usd_to_usd :: "int \<Rightarrow> real" where
  "micro_usd_to_usd micro = of_int micro / micro_usd_scale"

lemma round_half_up_int [simp]: "round_half_up (of_int n) = n"
  unfolding round_half_up_def by linarith

lemma micro_usd_roundtrip: "0 \<le> n \<Longrightarrow> usd_to_micro_usd (micro_usd_to_usd n) = n"
  by (auto simp: usd_to_micro_usd_def micro_usd_to_usd_def micro_usd_scale_def)

lemma usd_to_micro_usd_nonneg: "0 \<le> usd_to_micro_usd usd"
  by (auto simp: usd_to_micro_usd_def round_half_up_def micro_usd_scale_def)

lemma usd_to_micro_usd_error:
  assumes "0 \<le> usd"
  shows "\<bar>micro_usd_to_usd (usd_to_micro_usd usd) - usd\<bar> \<le> 1 / 2000000"
proof -
  have "\<bar>of_int \<lfloor>usd * 1000000 + 1 / 2\<rfloor> - usd * 1000000\<bar> \<le> 1 / 2" by linarith
  then show ?thesis using assms
    by (auto simp: usd_to_micro_usd_def micro_usd_to_usd_def round_half_up_def micro_usd_scale_def field_simps abs_if
        split: if_splits)
qed

section \<open>The restriction to channels\<close>

definition normalize_channel_restriction_mode :: "string \<Rightarrow> string + string" where
  "normalize_channel_restriction_mode mode =
     (if mode = '''' \<or> mode = ''allow'' then Inr ''allow''
      else if mode = ''deny'' then Inr ''deny''
      else Inl ''channel_restriction_mode must be allow or deny'')"

record channel_restriction =
  cr_deny :: bool
  cr_ids :: "int set"

definition new_channel_restriction :: "string \<Rightarrow> int list \<Rightarrow> string + channel_restriction" where
  "new_channel_restriction mode channels =
     (case normalize_channel_restriction_mode mode of
        Inl e \<Rightarrow> Inl e
      | Inr m \<Rightarrow> Inr \<lparr>cr_deny = (m = ''deny''), cr_ids = set channels\<rparr>)"

definition restricted :: "channel_restriction \<Rightarrow> bool" where
  "restricted r \<longleftrightarrow> cr_ids r \<noteq> {}"

definition restriction_allows :: "channel_restriction \<Rightarrow> int \<Rightarrow> bool" where
  "restriction_allows r channel =
     (if \<not> restricted r then True
      else let listed = channel \<in> cr_ids r in if cr_deny r then \<not> listed else listed)"

lemma restriction_allows_iff:
  "restriction_allows r c \<longleftrightarrow> \<not> restricted r \<or> (c \<in> cr_ids r \<longleftrightarrow> \<not> cr_deny r)"
  by (simp add: restriction_allows_def Let_def)

section \<open>The token\<close>

record auth_token =
  tok_id :: int
  tok_token :: string
  tok_token_ciphertext :: string
  tok_token_hint :: string
  tok_description :: string
  tok_created_at :: time
  tok_expires_at :: "int option"
  tok_last_used_at :: "int option"
  tok_is_active :: bool
  tok_success_count :: int
  tok_failure_count :: int
  tok_stream_avg_ttfb :: real
  tok_non_stream_avg_rt :: real
  tok_stream_count :: int
  tok_non_stream_count :: int
  tok_prompt_tokens_total :: int
  tok_completion_tokens_total :: int
  tok_cache_read_tokens_total :: int
  tok_cache_creation_tokens_total :: int
  tok_total_cost_usd :: real
  tok_effective_cost_usd :: real
  tok_cost_used_micro_usd :: int
  tok_cost_limit_micro_usd :: int
  tok_peak_rpm :: real
  tok_avg_rpm :: real
  tok_recent_rpm :: real
  tok_allowed_models :: "string list"
  tok_allowed_channel_ids :: "int list"
  tok_channel_restriction_mode :: string
  tok_max_concurrency :: int
  tok_allowed_protocols :: "string list"

text \<open>The first and the last four bytes; the length is in bytes, as is that of a \<open>string\<close> here.\<close>

definition mask_token :: "string \<Rightarrow> string" where
  "mask_token token =
     (if length token \<le> 8 then ''****''
      else take 4 token @ ''****'' @ drop (length token - 4) token)"

definition token_recoverable :: "auth_token \<Rightarrow> bool" where
  "token_recoverable t \<longleftrightarrow> trim_space (tok_token_ciphertext t) \<noteq> ''''"

definition display_token_hint :: "auth_token \<Rightarrow> string" where
  "display_token_hint t =
     (let hint = trim_space (tok_token_hint t)
      in if hint \<noteq> '''' then hint else mask_token (tok_token t))"

definition token_channel_restriction :: "auth_token \<Rightarrow> string + channel_restriction" where
  "token_channel_restriction t =
     new_channel_restriction (tok_channel_restriction_mode t) (tok_allowed_channel_ids t)"

definition protocol_listed :: "string list \<Rightarrow> string \<Rightarrow> bool" where
  "protocol_listed ps protocol =
     (let p = trim_space (to_lower protocol) in list_ex (\<lambda>q. to_lower (trim_space q) = p) ps)"

definition token_protocol_allowed :: "auth_token \<Rightarrow> string \<Rightarrow> bool" where
  "token_protocol_allowed t protocol =
     (if tok_allowed_protocols t = [] then True else protocol_listed (tok_allowed_protocols t) protocol)"

definition token_model_allowed :: "auth_token \<Rightarrow> string \<Rightarrow> bool" where
  "token_model_allowed t m =
     (if tok_allowed_models t = [] then True else list_ex (\<lambda>a. equal_fold a m) (tok_allowed_models t))"

definition token_is_expired :: "auth_token \<Rightarrow> int \<Rightarrow> bool" where
  "token_is_expired t now =
     (case tok_expires_at t of None \<Rightarrow> False | Some e \<Rightarrow> if e = 0 then False else now > e)"

definition token_is_valid :: "auth_token \<Rightarrow> int \<Rightarrow> bool" where
  "token_is_valid t now \<longleftrightarrow> tok_is_active t \<and> \<not> token_is_expired t now"

definition update_last_used :: "auth_token \<Rightarrow> int \<Rightarrow> auth_token" where
  "update_last_used t now =
     t\<lparr>tok_last_used_at := Some
        (case tok_last_used_at t of
           Some t0 \<Rightarrow> if now \<le> t0 then t0 + 1 else now
         | None \<Rightarrow> now)\<rparr>"

definition cost_used_usd :: "auth_token \<Rightarrow> real" where
  "cost_used_usd t = micro_usd_to_usd (tok_cost_used_micro_usd t)"

definition cost_limit_usd :: "auth_token \<Rightarrow> real" where
  "cost_limit_usd t = micro_usd_to_usd (tok_cost_limit_micro_usd t)"

definition set_cost_limit_usd :: "auth_token \<Rightarrow> real \<Rightarrow> auth_token" where
  "set_cost_limit_usd t usd =
     (if usd \<le> 0 then t\<lparr>tok_cost_limit_micro_usd := 0\<rparr>
      else t\<lparr>tok_cost_limit_micro_usd := usd_to_micro_usd usd\<rparr>)"

definition validate_usage_limits :: "auth_token \<Rightarrow> string option" where
  "validate_usage_limits t =
     (if tok_cost_limit_micro_usd t < 0 then Some ''cost_limit_usd must be >= 0''
      else if tok_max_concurrency t < 0 then Some ''max_concurrency must be >= 0''
      else if tok_cost_limit_micro_usd t > 0 \<and> tok_max_concurrency t \<le> 0
      then Some ''cost-limited auth token requires max_concurrency > 0''
      else None)"

section \<open>What the administration sees\<close>

record auth_token_json =
  tj_id :: int
  tj_token :: string
  tj_token_hint :: string
  tj_token_recoverable :: bool
  tj_description :: string
  tj_created_at :: time
  tj_expires_at :: "int option"
  tj_last_used_at :: "int option"
  tj_is_active :: bool
  tj_success_count :: int
  tj_failure_count :: int
  tj_stream_avg_ttfb :: real
  tj_non_stream_avg_rt :: real
  tj_stream_count :: int
  tj_non_stream_count :: int
  tj_prompt_tokens_total :: int
  tj_completion_tokens_total :: int
  tj_cache_read_tokens_total :: int
  tj_cache_creation_tokens_total :: int
  tj_total_cost_usd :: real
  tj_effective_cost_usd :: real
  tj_cost_used_usd :: real
  tj_cost_limit_usd :: real
  tj_peak_rpm :: real
  tj_avg_rpm :: real
  tj_recent_rpm :: real
  tj_allowed_models :: "string list"
  tj_allowed_channel_ids :: "int list"
  tj_channel_restriction_mode :: string
  tj_max_concurrency :: int
  tj_allowed_protocols :: "string list"

definition marshal_auth_token :: "auth_token \<Rightarrow> string + auth_token_json" where
  "marshal_auth_token t =
     (case normalize_channel_restriction_mode (tok_channel_restriction_mode t) of
        Inl e \<Rightarrow> Inl e
      | Inr mode \<Rightarrow> Inr
          \<lparr>tj_id = tok_id t, tj_token = display_token_hint t, tj_token_hint = display_token_hint t,
           tj_token_recoverable = token_recoverable t, tj_description = tok_description t,
           tj_created_at = tok_created_at t, tj_expires_at = tok_expires_at t,
           tj_last_used_at = tok_last_used_at t, tj_is_active = tok_is_active t,
           tj_success_count = tok_success_count t, tj_failure_count = tok_failure_count t,
           tj_stream_avg_ttfb = tok_stream_avg_ttfb t, tj_non_stream_avg_rt = tok_non_stream_avg_rt t,
           tj_stream_count = tok_stream_count t, tj_non_stream_count = tok_non_stream_count t,
           tj_prompt_tokens_total = tok_prompt_tokens_total t,
           tj_completion_tokens_total = tok_completion_tokens_total t,
           tj_cache_read_tokens_total = tok_cache_read_tokens_total t,
           tj_cache_creation_tokens_total = tok_cache_creation_tokens_total t,
           tj_total_cost_usd = tok_total_cost_usd t, tj_effective_cost_usd = tok_effective_cost_usd t,
           tj_cost_used_usd = cost_used_usd t, tj_cost_limit_usd = cost_limit_usd t,
           tj_peak_rpm = tok_peak_rpm t, tj_avg_rpm = tok_avg_rpm t, tj_recent_rpm = tok_recent_rpm t,
           tj_allowed_models = tok_allowed_models t, tj_allowed_channel_ids = tok_allowed_channel_ids t,
           tj_channel_restriction_mode = mode, tj_max_concurrency = tok_max_concurrency t,
           tj_allowed_protocols = tok_allowed_protocols t\<rparr>)"

text \<open>
  The stored digest of a token never reaches a client: of two digests that agree in their first and
  last four characters the administration shows the same.
\<close>

lemma marshal_hides_digest:
  assumes "length d = 64" and "length e = 64" and "take 4 d = take 4 e" and "drop 60 d = drop 60 e"
  shows "marshal_auth_token (t\<lparr>tok_token := d\<rparr>) = marshal_auth_token (t\<lparr>tok_token := e\<rparr>)"
  using assms
  by (simp add: marshal_auth_token_def display_token_hint_def mask_token_def token_recoverable_def
      cost_used_usd_def cost_limit_usd_def Let_def split: sum.split)

end
