(* ===== verification/Login_Limiter.thy ===== *)
theory Login_Limiter
  imports Go_Base
begin

text \<open>
  The limiter of login attempts per address, \<open>internal/util/rate_limiter.go\<close>.  The clock is an
  argument of each operation.  The background loop is the operation \<open>login_cleanup\<close>, called at any
  time; its channels and its shutdown are not modelled.
\<close>

section \<open>State and operations\<close>

record attempt_record =
  at_count :: int
  at_last_attempt :: time
  at_lock_until :: time

type_synonym login_attempts = "string \<Rightarrow> attempt_record option"

definition max_attempts :: int where "max_attempts = 5"
definition lockout_duration :: duration where "lockout_duration = 15 * minute"
definition reset_interval :: duration where "reset_interval = hour"

definition new_login_limiter :: login_attempts where
  "new_login_limiter = (\<lambda>ip. None)"

definition allow_attempt :: "login_attempts \<Rightarrow> string \<Rightarrow> time \<Rightarrow> bool \<times> login_attempts" where
  "allow_attempt rl ip now =
     (case rl ip of
        None \<Rightarrow> (True, rl(ip \<mapsto> \<lparr>at_count = 1, at_last_attempt = now, at_lock_until = zero_time\<rparr>))
      | Some r \<Rightarrow>
          if now < at_lock_until r then (False, rl)
          else
            let count = (if time_sub now (at_last_attempt r) > reset_interval then 0 else at_count r) + 1;
                r' = r\<lparr>at_count := count, at_last_attempt := now\<rparr>
            in if count > max_attempts
               then (False, rl(ip \<mapsto> r'\<lparr>at_lock_until := now + lockout_duration\<rparr>))
               else (True, rl(ip \<mapsto> r')))"

definition record_success :: "login_attempts \<Rightarrow> string \<Rightarrow> login_attempts" where
  "record_success rl ip = rl(ip := None)"

text \<open>\<open>int(d.Seconds())\<close> of a positive duration below the range of exact floats: whole seconds.\<close>

definition get_lockout_time :: "login_attempts \<Rightarrow> string \<Rightarrow> time \<Rightarrow> int" where
  "get_lockout_time rl ip now =
     (case rl ip of
        None \<Rightarrow> 0
      | Some r \<Rightarrow> if now < at_lock_until r then time_sub (at_lock_until r) now div second else 0)"

definition get_attempt_count :: "login_attempts \<Rightarrow> string \<Rightarrow> time \<Rightarrow> int" where
  "get_attempt_count rl ip now =
     (case rl ip of
        None \<Rightarrow> 0
      | Some r \<Rightarrow> if time_sub now (at_last_attempt r) > reset_interval then 0 else at_count r)"

definition expired :: "attempt_record \<Rightarrow> time \<Rightarrow> bool" where
  "expired r now \<longleftrightarrow>
     time_sub now (at_last_attempt r) > reset_interval \<and> now > at_lock_until r"

definition login_cleanup :: "login_attempts \<Rightarrow> time \<Rightarrow> login_attempts" where
  "login_cleanup rl now =
     (\<lambda>ip. case rl ip of None \<Rightarrow> None | Some r \<Rightarrow> if expired r now then None else Some r)"

section \<open>Runs of attempts\<close>

text \<open>Attempts on any addresses and cleanups; no login succeeds.\<close>

datatype login_event = Attempt string time | Cleanup time

primrec login_event_time :: "login_event \<Rightarrow> time" where
  "login_event_time (Attempt ip now) = now"
| "login_event_time (Cleanup now) = now"

primrec login_run :: "login_attempts \<Rightarrow> login_event list \<Rightarrow> string \<Rightarrow> nat" where
  "login_run rl [] ip = 0"
| "login_run rl (e # es) ip =
     (case e of
        Attempt ip' now \<Rightarrow>
          (case allow_attempt rl ip' now of
             (ok, rl') \<Rightarrow> (if ok \<and> ip' = ip then 1 else 0) + login_run rl' es ip)
      | Cleanup now \<Rightarrow> login_run (login_cleanup rl now) es ip)"

lemma time_sub_gt_hour: "time_sub a b > reset_interval \<longleftrightarrow> a - b > reset_interval"
  by (auto simp: time_sub_def reset_interval_def)

text \<open>
  \<open>counted rl ip t0 n\<close>: at least \<open>n\<close> attempts of the window that starts at \<open>t0\<close> are in the
  record, so it is not dropped or reset inside the window.
\<close>

definition counted :: "login_attempts \<Rightarrow> string \<Rightarrow> time \<Rightarrow> int \<Rightarrow> bool" where
  "counted rl ip from_t n \<longleftrightarrow> (\<forall>r. rl ip = Some r \<longrightarrow> 0 \<le> at_count r) \<and>
     (n \<le> 0 \<or> (\<exists>r. rl ip = Some r \<and> from_t \<le> at_last_attempt r \<and> n \<le> at_count r))"

lemma allow_attempt_other: "ip' \<noteq> ip \<Longrightarrow> snd (allow_attempt rl ip' now) ip = rl ip"
  by (auto simp: allow_attempt_def Let_def split: option.split)

lemma attempt_counted:
  assumes c: "counted rl ip t n" and "t \<le> now" and "now \<le> t + hour" and "0 \<le> n"
    and a: "allow_attempt rl ip now = (ok, rl')"
  shows "counted rl' ip t (if ok then n + 1 else n) \<and> (ok \<longrightarrow> n < max_attempts)"
proof (cases "rl ip")
  case None
  then have "n = 0" using c assms(4) by (auto simp: counted_def)
  then show ?thesis using a None assms(2) by (auto simp: allow_attempt_def counted_def max_attempts_def)
next
  case (Some r)
  have nonneg: "0 \<le> at_count r" using c Some by (simp add: counted_def)
  have keep: "\<not> time_sub now (at_last_attempt r) > reset_interval" if "0 < n"
    using that c Some assms(3)
    by (auto simp: counted_def reset_interval_def time_sub_gt_hour [unfolded reset_interval_def])
  show ?thesis
  proof (cases "0 < n")
    case True
    then show ?thesis using a Some c keep assms(2)
      by (auto simp: allow_attempt_def counted_def Let_def split: if_splits)
  next
    case False
    then have "n = 0" using assms(4) by simp
    then show ?thesis using a Some assms(2) nonneg
      by (auto simp: allow_attempt_def counted_def Let_def max_attempts_def split: if_splits)
  qed
qed
lemma cleanup_counted:
  assumes "counted rl ip t n" and "now \<le> t + hour"
  shows "counted (login_cleanup rl now) ip t n"
  using assms
  by (auto simp: counted_def login_cleanup_def expired_def reset_interval_def
      time_sub_gt_hour [unfolded reset_interval_def] split: option.splits if_splits)

lemma login_run_bound:
  assumes "counted rl ip t n" and "0 \<le> n" and "n \<le> max_attempts"
    and "\<forall>e \<in> set es. t \<le> login_event_time e \<and> login_event_time e \<le> t + hour"
  shows "n + int (login_run rl es ip) \<le> max_attempts"
  using assms
proof (induction es arbitrary: rl n)
  case (Cons e es)
  have rest: "\<forall>e \<in> set es. t \<le> login_event_time e \<and> login_event_time e \<le> t + hour"
    using Cons.prems(4) by simp
  show ?case
  proof (cases e)
    case (Attempt ip' now)
    obtain ok rl' where a: "allow_attempt rl ip' now = (ok, rl')" by fastforce
    have time: "t \<le> now" "now \<le> t + hour" using Cons.prems(4) Attempt by auto
    show ?thesis
    proof (cases "ip' = ip")
      case True
      note c = attempt_counted [OF Cons.prems(1) time Cons.prems(2) a [unfolded True]]
      have "(if ok then n + 1 else n) + int (login_run rl' es ip) \<le> max_attempts"
        using Cons.IH [OF conjunct1 [OF c] _ _ rest] c Cons.prems(2,3) by (auto split: if_splits)
      then show ?thesis using Attempt a True by (auto split: if_splits)
    next
      case False
      have "rl' ip = rl ip" using allow_attempt_other [of ip' ip rl now] False a by simp
      then have "counted rl' ip t n" using Cons.prems(1) by (simp add: counted_def)
      then show ?thesis using Cons.IH [OF _ Cons.prems(2,3) rest] Attempt a False by simp
    qed
  next
    case (Cleanup now)
    then have "counted (login_cleanup rl now) ip t n"
      using cleanup_counted [OF Cons.prems(1)] Cons.prems(4) by simp
    then show ?thesis using Cons.IH [OF _ Cons.prems(2,3) rest] Cleanup by simp
  qed
qed simp

text \<open>C40: Guessing is bounded: from any state of the limiter (its counts are not negative), with no successful login, an address
  gets at most five attempts within any hour, whatever other addresses do, in whatever order the
  instants of that hour arrive, and whatever the cleanup removes meanwhile.\<close>

theorem five_attempts_per_hour:
  assumes "\<forall>r. rl ip = Some r \<longrightarrow> 0 \<le> at_count r"
    and "\<forall>e \<in> set es. t \<le> login_event_time e \<and> login_event_time e \<le> t + hour"
  shows "login_run rl es ip \<le> 5"
  using login_run_bound [of rl ip t 0 es] assms by (simp add: counted_def max_attempts_def)

theorem five_attempts_per_hour_witness:
  "login_run new_login_limiter (replicate 9 (Attempt ''1.2.3.4'' 60)) ''1.2.3.4'' \<le> 5"
  by (rule five_attempts_per_hour [of _ _ _ 0]) (simp_all add: new_login_limiter_def)

text \<open>Two states a client cannot tell apart from now on.\<close>

definition same_records :: "attempt_record option \<Rightarrow> attempt_record option \<Rightarrow> time \<Rightarrow> bool" where
  "same_records a b now \<longleftrightarrow> a = b \<or> 
     (\<forall>r \<in> set_option a \<union> set_option b. expired r now) \<or>
     (\<exists>r r'. a = Some r \<and> b = Some r' \<and> at_count r = at_count r' \<and>
        at_last_attempt r = at_last_attempt r' \<and> at_lock_until r < now \<and> at_lock_until r' < now)"

lemma expired_later: "expired r now \<Longrightarrow> now \<le> t \<Longrightarrow> expired r t"
  by (auto simp: expired_def time_sub_gt_hour)

lemma same_records_later: "same_records a b now \<Longrightarrow> now \<le> t \<Longrightarrow> same_records a b t"
  unfolding same_records_def using expired_later by force

lemma attempt_same:
  assumes "same_records (rl ip) (rl' ip) now" and "zero_time < now"
  shows "fst (allow_attempt rl ip now) = fst (allow_attempt rl' ip now) \<and>
    same_records (snd (allow_attempt rl ip now) ip) (snd (allow_attempt rl' ip now) ip) now"
  using assms
  by (cases "rl ip"; cases "rl' ip")
    (auto simp: same_records_def allow_attempt_def expired_def Let_def max_attempts_def)

lemma cleanup_same: "same_records (rl ip) (login_cleanup rl now ip) now"
  by (auto simp: same_records_def login_cleanup_def split: option.split)

lemma same_records_sym: "same_records a b now \<Longrightarrow> same_records b a now"
  unfolding same_records_def by (metis Un_commute)

lemma same_records_trans:
  "same_records a b now \<Longrightarrow> same_records b c now \<Longrightarrow> same_records a c now"
  by (cases a; cases b; cases c) (simp_all add: same_records_def expired_def, auto)

text \<open>A client's view: the answers to its attempts, in order.\<close>

primrec login_answers :: "login_attempts \<Rightarrow> login_event list \<Rightarrow> string \<Rightarrow> bool list" where
  "login_answers rl [] ip = []"
| "login_answers rl (e # es) ip =
     (case e of
        Attempt ip' now \<Rightarrow>
          (case allow_attempt rl ip' now of
             (ok, rl') \<Rightarrow> (if ip' = ip then [ok] else []) @ login_answers rl' es ip)
      | Cleanup now \<Rightarrow> login_answers (login_cleanup rl now) es ip)"

definition no_cleanups :: "login_event list \<Rightarrow> login_event list" where
  "no_cleanups es = filter (\<lambda>e. case e of Attempt ip t \<Rightarrow> True | Cleanup t \<Rightarrow> False) es"

lemma same_answers:
  assumes "same_records (rl ip) (rl' ip) now" and "zero_time < now"
    and "sorted (now # map login_event_time es)"
  shows "login_answers rl es ip = login_answers rl' (no_cleanups es) ip"
  using assms
proof (induction es arbitrary: rl rl' now)
  case (Cons e es)
  have le: "now \<le> login_event_time e" and so: "sorted (login_event_time e # map login_event_time es)"
    using Cons.prems(3) by auto
  have same: "same_records (rl ip) (rl' ip) (login_event_time e)"
    using same_records_later [OF Cons.prems(1) le] .
  have z: "zero_time < login_event_time e" using Cons.prems(2) le by simp
  show ?case
  proof (cases e)
    case (Attempt ip' t)
    obtain ok rl1 where a: "allow_attempt rl ip' t = (ok, rl1)" by fastforce
    obtain ok' rl1' where a': "allow_attempt rl' ip' t = (ok', rl1')" by fastforce
    have "same_records (rl1 ip) (rl1' ip) t \<and> (ip' = ip \<longrightarrow> ok = ok')"
    proof (cases "ip' = ip")
      case True
      then show ?thesis using attempt_same [of rl ip rl' t] same z a a' Attempt by simp
    next
      case False
      then show ?thesis
        using allow_attempt_other [of ip' ip rl t] allow_attempt_other [of ip' ip rl' t] same a a' Attempt
        by simp
    qed
    then show ?thesis using Cons.IH [of rl1 rl1' t] z so Attempt a a' by (simp add: no_cleanups_def)
  next
    case (Cleanup t)
    have "same_records (login_cleanup rl t ip) (rl' ip) t"
      using same_records_trans [OF same_records_sym [OF cleanup_same [of rl ip t]]] same Cleanup
      by simp
    then show ?thesis using Cons.IH [of "login_cleanup rl t" rl' t] z so Cleanup
      by (simp add: no_cleanups_def)
  qed
qed (simp add: no_cleanups_def)

text \<open>The cleanup cannot be noticed: with instants that do not go backwards, every address gets
  the same answers to its attempts with any cleanups in between as with none.\<close>

theorem login_cleanup_is_invisible:
  assumes "zero_time < t" and "sorted (t # map login_event_time es)"
  shows "login_answers rl es ip = login_answers rl (no_cleanups es) ip"
  by (rule same_answers [OF _ assms]) (simp add: same_records_def)

theorem login_cleanup_is_invisible_witness:
  "login_answers new_login_limiter [Attempt ''a'' 1, Cleanup (5 * hour), Attempt ''a'' (6 * hour)] ''a'' =
     [True, True]"
  using login_cleanup_is_invisible [of 0 "[Attempt ''a'' 1, Cleanup (5 * hour), Attempt ''a'' (6 * hour)]"
      new_login_limiter "''a''"]
  by (simp add: zero_time_def no_cleanups_def allow_attempt_def new_login_limiter_def time_sub_def
      reset_interval_def max_attempts_def)

text \<open>The lock does not grow and does not wear off by itself: the attempt after five counted ones
  locks the address for fifteen minutes; and once the lock has ended, a further attempt within the
  hour is refused and locks the address again, because the count is kept.\<close>

theorem lockout_is_repeated:
  assumes "rl ip = Some r" and "max_attempts \<le> at_count r" and "at_lock_until r \<le> now"
    and "now - at_last_attempt r \<le> reset_interval"
  shows "fst (allow_attempt rl ip now) = False \<and>
    (\<forall>t < now + lockout_duration. \<not> fst (allow_attempt (snd (allow_attempt rl ip now)) ip t)) \<and>
    get_lockout_time (snd (allow_attempt rl ip now)) ip now = 900"
  using assms
  by (auto simp: allow_attempt_def get_lockout_time_def Let_def max_attempts_def lockout_duration_def
      time_sub_def reset_interval_def)

theorem lockout_is_repeated_witness:
  "\<not> fst (allow_attempt [''a'' \<mapsto> \<lparr>at_count = 6, at_last_attempt = 0, at_lock_until = 15 * minute\<rparr>]
     ''a'' (16 * minute))"
  using lockout_is_repeated [of "[''a'' \<mapsto> \<lparr>at_count = 6, at_last_attempt = 0, at_lock_until = 15 * minute\<rparr>]"
      "''a''" "\<lparr>at_count = 6, at_last_attempt = 0, at_lock_until = 15 * minute\<rparr>" "16 * minute"]
  by (simp add: max_attempts_def reset_interval_def)

end
