(* ===== verification/Auth_Service.thy ===== *)
theory Auth_Service
  imports Auth_Tokens Model_Routing Window_Limiters Login_Limiter "HOL-Library.AList"
begin

text \<open>
  Authentication and authorization, \<open>internal/app/auth_service.go\<close>, with the sessions of
  \<open>internal/model/web_session.go\<close> and \<open>enforceTokenLimits\<close> of \<open>proxy_handler.go\<close>.

  \<^item> The maps that the code only looks up are functions; the map from token ids to digests, which a
    reload ranges over, is an association list.  Each operation runs under the locks that make it
    one step; the clock is an argument, in nanoseconds.
  \<^item> \<open>hash\<close> (SHA-256 in hexadecimal) and the verdict of bcrypt on a password are parameters.
    The random bytes of a session token are an argument, \<open>None\<close> when \<open>crypto/rand\<close> fails.
  \<^item> The table of sessions in the store is written after the memory and never read again before a
    restart; of its operations only the failure that a reload reports is modelled.
\<close>

section \<open>State\<close>

abbreviation role_admin :: string where "role_admin \<equiv> ''admin''"
abbreviation role_api_token :: string where "role_api_token \<equiv> ''api_token''"

record web_session =
  ws_token_hash :: string
  ws_role :: string
  ws_auth_token_id :: int
  ws_expires_at :: time

record token_cost_limit =
  tc_used :: int
  tc_limit :: int

record token_maps =
  au_tokens :: "string \<Rightarrow> int option"
  au_ids :: "string \<Rightarrow> int option"
  au_hashes :: "(int \<times> string) list"
  au_models :: "string \<Rightarrow> string list option"
  au_protocols :: "string \<Rightarrow> string list option"
  au_channels :: "string \<Rightarrow> channel_restriction option"
  au_costs :: "string \<Rightarrow> token_cost_limit option"
  au_max_conns :: "string \<Rightarrow> int option"

record auth_service = token_maps +
  au_active :: "string \<Rightarrow> int option"
  au_sessions :: "string \<Rightarrow> web_session option"
  au_logins :: login_attempts
  au_issued :: event_log
  au_last_used :: "string list"

definition no_tokens :: token_maps where
  "no_tokens = \<lparr>au_tokens = Map.empty, au_ids = Map.empty, au_hashes = [], au_models = Map.empty,
     au_protocols = Map.empty, au_channels = Map.empty, au_costs = Map.empty, au_max_conns = Map.empty\<rparr>"

definition new_auth_service :: auth_service where
  "new_auth_service = token_maps.extend no_tokens
     \<lparr>au_active = Map.empty, au_sessions = Map.empty, au_logins = new_login_limiter,
      au_issued = Map.empty, au_last_used = []\<rparr>"

definition unix_milli :: "time \<Rightarrow> int" where
  "unix_milli now = now div millisecond"

section \<open>Web sessions\<close>

definition revoke_web_sessions :: "auth_service \<Rightarrow> int list \<Rightarrow> auth_service" where
  "revoke_web_sessions s ids =
     s\<lparr>au_sessions := (\<lambda>h. case au_sessions s h of
         None \<Rightarrow> None
       | Some w \<Rightarrow> if ws_auth_token_id w \<in> set ids then None else Some w)\<rparr>"

definition drop_session :: "auth_service \<Rightarrow> string \<Rightarrow> auth_service" where
  "drop_session s h = s\<lparr>au_sessions := (au_sessions s)(h := None)\<rparr>"

definition is_active_auth_token_id :: "auth_service \<Rightarrow> int \<Rightarrow> time \<Rightarrow> bool" where
  "is_active_auth_token_id s token_id now =
     (if token_id \<le> 0 then False
      else case map_of (au_hashes s) token_id of
        None \<Rightarrow> False
      | Some h \<Rightarrow> (case au_tokens s h of
          None \<Rightarrow> False
        | Some e \<Rightarrow> e \<le> 0 \<or> unix_milli now \<le> e))"

definition session_of_token ::
    "(string \<Rightarrow> string) \<Rightarrow> auth_service \<Rightarrow> string \<Rightarrow> time \<Rightarrow> web_session option \<times> auth_service" where
  "session_of_token hash s token now =
     (case au_sessions s (hash token) of
        None \<Rightarrow> (None, s)
      | Some w \<Rightarrow>
          if now > ws_expires_at w then (None, drop_session s (hash token))
          else let valid = (if ws_role w = role_api_token
                            then is_active_auth_token_id s (ws_auth_token_id w) now
                            else ws_role w = role_admin \<and> ws_auth_token_id w = 0)
            in if \<not> valid
               then (None, if ws_auth_token_id w > 0 then revoke_web_sessions s [ws_auth_token_id w]
                           else drop_session s (hash token))
               else (Some w, s))"

definition load_sessions_from_db :: "auth_service \<Rightarrow> (string \<times> web_session) list option \<Rightarrow> auth_service" where
  "load_sessions_from_db s stored =
     (case stored of
        None \<Rightarrow> s
      | Some ws \<Rightarrow> s\<lparr>au_sessions := foldl (\<lambda>m (h, w). m(h \<mapsto> w)) (au_sessions s) ws\<rparr>)"

definition clean_expired_tokens :: "auth_service \<Rightarrow> time \<Rightarrow> auth_service" where
  "clean_expired_tokens s now =
     s\<lparr>au_issued := session_cleanup (au_issued s) now,
       au_sessions := (\<lambda>h. case au_sessions s h of
         None \<Rightarrow> None | Some w \<Rightarrow> if now > ws_expires_at w then None else Some w)\<rparr>"

section \<open>Middleware of the administration\<close>

datatype 'a verdict = Pass 'a | Reject int string

record web_identity =
  wi_role :: string
  wi_auth_token_id :: int

definition bearer :: "string \<Rightarrow> string option" where
  "bearer header = (if prefix ''Bearer '' header then Some (drop 7 header) else None)"

definition unauthorized :: "'a verdict" where
  "unauthorized = Reject 401 ''unauthorized, log in first''"

definition require_web_auth ::
    "(string \<Rightarrow> string) \<Rightarrow> auth_service \<Rightarrow> string \<Rightarrow> time \<Rightarrow> web_identity verdict \<times> auth_service" where
  "require_web_auth hash s header now =
     (case bearer header of
        None \<Rightarrow> (unauthorized, s)
      | Some token \<Rightarrow>
          (case session_of_token hash s token now of
             (None, s') \<Rightarrow> (unauthorized, s')
           | (Some w, s') \<Rightarrow>
               (Pass \<lparr>wi_role = ws_role w, wi_auth_token_id = ws_auth_token_id w\<rparr>, s')))"

definition require_admin_auth ::
    "(string \<Rightarrow> string) \<Rightarrow> auth_service \<Rightarrow> string \<Rightarrow> time \<Rightarrow> web_identity verdict \<times> auth_service" where
  "require_admin_auth hash s header now =
     (case bearer header of
        None \<Rightarrow> (unauthorized, s)
      | Some token \<Rightarrow>
          (case session_of_token hash s token now of
             (None, s') \<Rightarrow> (unauthorized, s')
           | (Some w, s') \<Rightarrow>
               if ws_role w \<noteq> role_admin then (Reject 403 ''administrator required'', s')
               else (Pass \<lparr>wi_role = ws_role w, wi_auth_token_id = 0\<rparr>, s')))"

section \<open>The slots of a token\<close>

definition max_conns :: "auth_service \<Rightarrow> string \<Rightarrow> int" where
  "max_conns s h = (case au_max_conns s h of None \<Rightarrow> 0 | Some n \<Rightarrow> n)"

datatype token_slot = No_Slot | Slot int int | Slot_Refused int int

definition acquire_token_slot :: "auth_service \<Rightarrow> string \<Rightarrow> token_slot \<times> auth_service" where
  "acquire_token_slot s h =
     (if h = '''' then (No_Slot, s)
      else let current = slots (au_active s) h; active = current + 1; limit = max_conns s h
        in if limit > 0 \<and> active > limit
           then (Slot_Refused current limit,
                 s\<lparr>au_active := (if current \<le> 0 then (au_active s)(h := None)
                                 else (au_active s)(h \<mapsto> current))\<rparr>)
           else (Slot active limit, s\<lparr>au_active := (au_active s)(h \<mapsto> active)\<rparr>))"

definition release_token_slot :: "auth_service \<Rightarrow> string \<Rightarrow> auth_service" where
  "release_token_slot s h =
     (let current = slots (au_active s) h
      in s\<lparr>au_active := (if current \<le> 1 then (au_active s)(h := None)
                         else (au_active s)(h \<mapsto> current - 1))\<rparr>)"

text \<open>The queue of digests whose \<open>last_used_at\<close> is to be written; a full queue drops the entry.\<close>

definition last_used_capacity :: nat where "last_used_capacity = 256"

record api_identity =
  ai_token_hash :: string
  ai_token_id :: "int option"
  ai_slot :: token_slot

definition attach_api_identity :: "auth_service \<Rightarrow> string \<Rightarrow> int \<Rightarrow> token_slot \<Rightarrow> api_identity \<times> auth_service" where
  "attach_api_identity s h token_id slot =
     (\<lparr>ai_token_hash = h, ai_token_id = (if token_id > 0 then Some token_id else None), ai_slot = slot\<rparr>,
      if length (au_last_used s) < last_used_capacity
      then s\<lparr>au_last_used := au_last_used s @ [h]\<rparr> else s)"

definition prepare_api_identity ::
    "auth_service \<Rightarrow> string \<Rightarrow> int \<Rightarrow> api_identity verdict \<times> auth_service" where
  "prepare_api_identity s h token_id =
     (case acquire_token_slot s h of
        (Slot_Refused active limit, s') \<Rightarrow> (Reject 429 ''token_concurrency_exceeded'', s')
      | (slot, s') \<Rightarrow> (case attach_api_identity s' h token_id slot of (i, s'') \<Rightarrow> (Pass i, s'')))"

definition last_used_worker :: "auth_service \<Rightarrow> string option \<times> auth_service" where
  "last_used_worker s =
     (case au_last_used s of
        [] \<Rightarrow> (None, s) | h # hs \<Rightarrow> (Some h, s\<lparr>au_last_used := hs\<rparr>))"


section \<open>Middleware of the proxy\<close>

definition resolve_auth_token ::
    "(string \<Rightarrow> string) \<Rightarrow> auth_service \<Rightarrow> string \<Rightarrow> (string \<times> int \<times> int) option" where
  "resolve_auth_token hash s token =
     (let found = (\<lambda>h e. Some (h, e, case au_ids s h of None \<Rightarrow> 0 | Some i \<Rightarrow> i))
      in case au_tokens s token of
           Some e \<Rightarrow> found token e
         | None \<Rightarrow>
             (case au_tokens s (hash token) of
                Some e \<Rightarrow> found (hash token) e
              | None \<Rightarrow> None))"

definition is_token_active :: "auth_service \<Rightarrow> string \<Rightarrow> time \<Rightarrow> bool" where
  "is_token_active s h now =
     (if trim_space h = '''' then False
      else case au_tokens s h of None \<Rightarrow> False | Some e \<Rightarrow> e \<le> 0 \<or> unix_milli now \<le> e)"

record api_request =
  ar_authorization :: string
  ar_x_api_key :: string
  ar_x_goog_api_key :: string
  ar_query_key :: string
  ar_websocket_upgrade :: bool

definition request_token :: "api_request \<Rightarrow> string option" where
  "request_token r =
     (case bearer (ar_authorization r) of
        Some token \<Rightarrow> Some token
      | None \<Rightarrow>
          if ar_x_api_key r \<noteq> '''' then Some (ar_x_api_key r)
          else if ar_x_goog_api_key r \<noteq> '''' then Some (ar_x_goog_api_key r)
          else if ar_query_key r \<noteq> '''' then Some (ar_query_key r)
          else None)"

definition evict_token :: "auth_service \<Rightarrow> string \<Rightarrow> int \<Rightarrow> auth_service" where
  "evict_token s h token_id =
     s\<lparr>au_tokens := (au_tokens s)(h := None), au_ids := (au_ids s)(h := None),
       au_hashes := AList.delete token_id (au_hashes s), au_models := (au_models s)(h := None),
       au_channels := (au_channels s)(h := None), au_costs := (au_costs s)(h := None),
       au_max_conns := (au_max_conns s)(h := None)\<rparr>"

definition bad_credentials :: "'a verdict" where
  "bad_credentials = Reject 401 ''invalid or missing authorization''"

definition require_api_auth ::
    "(string \<Rightarrow> string) \<Rightarrow> auth_service \<Rightarrow> api_request \<Rightarrow> time \<Rightarrow> api_identity verdict \<times> auth_service" where
  "require_api_auth hash s r now =
     (if au_tokens s = Map.empty then (bad_credentials, s)
      else case request_token r of
        None \<Rightarrow> (bad_credentials, s)
      | Some token \<Rightarrow>
          (case resolve_auth_token hash s token of
             None \<Rightarrow> (bad_credentials, s)
           | Some (h, expires, token_id) \<Rightarrow>
               if expires > 0 \<and> unix_milli now > expires
               then (Reject 401 ''token expired'',
                     let s' = evict_token s h token_id
                     in if token_id > 0 then revoke_web_sessions s' [token_id] else s')
               else if ar_websocket_upgrade r
               then (case attach_api_identity s h token_id No_Slot of (i, s') \<Rightarrow> (Pass i, s'))
               else prepare_api_identity s h token_id))"

text \<open>The digest that a map lookup returns for a missing id is the empty string.\<close>

definition require_web_api_token_proxy_auth ::
    "auth_service \<Rightarrow> web_identity option \<Rightarrow> time \<Rightarrow> api_identity verdict \<times> auth_service" where
  "require_web_api_token_proxy_auth s identity now =
     (case identity of
        None \<Rightarrow> (Reject 403 ''API Token session required'', s)
      | Some w \<Rightarrow>
          if wi_role w \<noteq> role_api_token \<or> wi_auth_token_id w \<le> 0
          then (Reject 403 ''API Token session required'', s)
          else case map_of (au_hashes s) (wi_auth_token_id w) of
            None \<Rightarrow> (Reject 401 ''API Token is no longer valid'', s)
          | Some h \<Rightarrow>
              let expires = (case au_tokens s h of None \<Rightarrow> 0 | Some e \<Rightarrow> e)
              in if expires > 0 \<and> unix_milli now > expires
                 then (Reject 401 ''API Token is no longer valid'', s)
                 else prepare_api_identity s h (wi_auth_token_id w))"

section \<open>Login and logout\<close>

definition hex_digit :: "nat \<Rightarrow> char" where
  "hex_digit n = (if n < 10 then char_of (48 + n) else char_of (87 + n))"

definition hex_string :: "nat list \<Rightarrow> string" where
  "hex_string bs = concat (map (\<lambda>b. [hex_digit (b div 16), hex_digit (b mod 16)]) bs)"

definition token_expiry :: duration where "token_expiry = 24 * hour"

record login_request =
  lr_mode :: string
  lr_password :: string
  lr_token :: string

datatype login_answer =
  Logged_In string int string
| Bad_Request
| Locked int
| Invalid_Credentials
| Too_Many_Sessions int
| Internal_Error

definition issue_session ::
    "(string \<Rightarrow> string) \<Rightarrow> auth_service \<Rightarrow> string \<Rightarrow> int \<Rightarrow> nat list option \<Rightarrow> time \<Rightarrow>
      login_answer \<times> auth_service" where
  "issue_session hash s role token_id random now =
     (case random of
        None \<Rightarrow> (Internal_Error, s)
      | Some bs \<Rightarrow>
          let token = hex_string bs
          in (Logged_In token (token_expiry div second) role,
              s\<lparr>au_sessions := (au_sessions s)(hash token \<mapsto>
                 \<lparr>ws_token_hash = hash token, ws_role = role, ws_auth_token_id = token_id,
                  ws_expires_at = now + token_expiry\<rparr>)\<rparr>))"

definition handle_login ::
    "(string \<Rightarrow> string) \<Rightarrow> (string \<Rightarrow> bool) \<Rightarrow> auth_service \<Rightarrow> string \<Rightarrow> login_request option \<Rightarrow>
      nat list option \<Rightarrow> time \<Rightarrow> login_answer \<times> auth_service" where
  "handle_login hash password_ok s ip request random now =
     (case request of
        None \<Rightarrow> (Bad_Request, s)
      | Some q \<Rightarrow>
          if lr_mode q = role_admin then
            let key = ''admin:'' @ ip
            in (case allow_attempt (au_logins s) key now of
                  (False, ls) \<Rightarrow> (Locked (get_lockout_time ls key now), s\<lparr>au_logins := ls\<rparr>)
                | (True, ls) \<Rightarrow>
                    if \<not> password_ok (lr_password q) then (Invalid_Credentials, s\<lparr>au_logins := ls\<rparr>)
                    else issue_session hash (s\<lparr>au_logins := record_success ls key\<rparr>) role_admin 0 random now)
          else if lr_mode q = role_api_token then
            (case resolve_auth_token hash s (trim_space (lr_token q)) of
               None \<Rightarrow> (Invalid_Credentials, s)
             | Some (h, expires, token_id) \<Rightarrow>
                 if token_id \<le> 0 \<or> expires > 0 \<and> unix_milli now > expires then (Invalid_Credentials, s)
                 else case session_allow (au_issued s) token_id now of
                   ((False, wait), l) \<Rightarrow>
                     (Too_Many_Sessions (go_div (wait + second - 1) second), s\<lparr>au_issued := l\<rparr>)
                 | ((True, _), l) \<Rightarrow>
                     issue_session hash (s\<lparr>au_issued := l\<rparr>) role_api_token token_id random now)
          else (Bad_Request, s))"

definition handle_logout :: "(string \<Rightarrow> string) \<Rightarrow> auth_service \<Rightarrow> string \<Rightarrow> auth_service" where
  "handle_logout hash s header =
     (case bearer header of None \<Rightarrow> s | Some token \<Rightarrow> drop_session s (hash token))"


section \<open>Reloading the tokens\<close>

datatype reload_error = Load_Failed | Invalid_Token int string | Revoke_Failed

definition expires_or_0 :: "auth_token \<Rightarrow> int" where
  "expires_or_0 t = (case tok_expires_at t of None \<Rightarrow> 0 | Some e \<Rightarrow> e)"

definition load_token :: "token_maps \<Rightarrow> auth_token \<Rightarrow> reload_error + token_maps" where
  "load_token m t =
     (case validate_usage_limits t of
        Some e \<Rightarrow> Inl (Invalid_Token (tok_id t) e)
      | None \<Rightarrow>
          (case token_channel_restriction t of
             Inl e \<Rightarrow> Inl (Invalid_Token (tok_id t) e)
           | Inr r \<Rightarrow>
               let h = tok_token t
               in Inr \<lparr>au_tokens = (au_tokens m)(h \<mapsto> expires_or_0 t),
                       au_ids = (au_ids m)(h \<mapsto> tok_id t),
                       au_hashes = AList.update (tok_id t) h (au_hashes m),
                       au_models = (if tok_allowed_models t = [] then au_models m
                                    else (au_models m)(h \<mapsto> tok_allowed_models t)),
                       au_protocols = (if tok_allowed_protocols t = [] then au_protocols m
                                       else (au_protocols m)(h \<mapsto> tok_allowed_protocols t)),
                       au_channels = (if restricted r then (au_channels m)(h \<mapsto> r) else au_channels m),
                       au_costs = (if tok_cost_limit_micro_usd t > 0
                                   then (au_costs m)(h \<mapsto> \<lparr>tc_used = tok_cost_used_micro_usd t,
                                                           tc_limit = tok_cost_limit_micro_usd t\<rparr>)
                                   else au_costs m),
                       au_max_conns = (if tok_max_concurrency t > 0
                                       then (au_max_conns m)(h \<mapsto> tok_max_concurrency t)
                                       else au_max_conns m)\<rparr>))"

primrec load_tokens :: "token_maps \<Rightarrow> auth_token list \<Rightarrow> reload_error + token_maps" where
  "load_tokens m [] = Inr m"
| "load_tokens m (t # ts) =
     (case load_token m t of Inl e \<Rightarrow> Inl e | Inr m' \<Rightarrow> load_tokens m' ts)"

definition keep_spent ::
    "(string \<Rightarrow> token_cost_limit option) \<Rightarrow> (string \<Rightarrow> token_cost_limit option) \<Rightarrow>
      string \<Rightarrow> token_cost_limit option" where
  "keep_spent old new = (\<lambda>h. case new h of
     None \<Rightarrow> None
   | Some fresh \<Rightarrow>
       (case old h of
          None \<Rightarrow> Some fresh
        | Some prev \<Rightarrow> if tc_used prev > tc_used fresh then Some (fresh\<lparr>tc_used := tc_used prev\<rparr>) else Some fresh))"

definition revoked_ids :: "auth_service \<Rightarrow> token_maps \<Rightarrow> time \<Rightarrow> int list" where
  "revoked_ids s m now =
     map fst (filter (\<lambda>(i, h).
       let old = (case au_tokens s h of None \<Rightarrow> 0 | Some e \<Rightarrow> e)
       in map_of (au_hashes m) i \<noteq> Some h \<or> old > 0 \<and> unix_milli now > old) (au_hashes s))"

definition reload_auth_tokens ::
    "auth_service \<Rightarrow> auth_token list option \<Rightarrow> (int \<Rightarrow> bool) \<Rightarrow> time \<Rightarrow> reload_error option \<times> auth_service" where
  "reload_auth_tokens s stored delete_ok now =
     (case stored of
        None \<Rightarrow> (Some Load_Failed, s)
      | Some ts \<Rightarrow>
          (case load_tokens no_tokens ts of
             Inl e \<Rightarrow> (Some e, s)
           | Inr m \<Rightarrow>
               let revoked = revoked_ids s m now;
                   s' = revoke_web_sessions
                     (token_maps.extend (m\<lparr>au_costs := keep_spent (au_costs s) (au_costs m)\<rparr>)
                       (token_maps.more s)) revoked
               in (if list_all delete_ok revoked then None else Some Revoke_Failed, s')))"

section \<open>What a token may use\<close>

definition allowed_model_with_aliases ::
    "(string \<Rightarrow> string list) option \<Rightarrow> string list \<Rightarrow> string \<Rightarrow> bool" where
  "allowed_model_with_aliases candidates allowed m =
     (let listed = (\<lambda>name. to_lower name \<in> set (map to_lower allowed))
      in if listed m then True
         else case candidates of None \<Rightarrow> False | Some names \<Rightarrow> list_ex listed (names m))"

definition allowed_models :: "auth_service \<Rightarrow> string \<Rightarrow> string list option" where
  "allowed_models s h =
     (case au_models s h of None \<Rightarrow> None | Some ms \<Rightarrow> if ms = [] then None else Some ms)"

definition filter_allowed_models ::
    "(string \<Rightarrow> string list) option \<Rightarrow> auth_service \<Rightarrow> string \<Rightarrow> string list \<Rightarrow> string list" where
  "filter_allowed_models candidates s h models =
     (case allowed_models s h of
        None \<Rightarrow> models
      | Some allowed \<Rightarrow>
          if models = [] then models
          else filter (allowed_model_with_aliases candidates allowed) models)"

definition is_model_allowed :: "(string \<Rightarrow> string list) option \<Rightarrow> auth_service \<Rightarrow> string \<Rightarrow> string \<Rightarrow> bool" where
  "is_model_allowed candidates s h m =
     (case allowed_models s h of
        None \<Rightarrow> True | Some allowed \<Rightarrow> allowed_model_with_aliases candidates allowed m)"

definition is_protocol_allowed :: "auth_service \<Rightarrow> string \<Rightarrow> string \<Rightarrow> bool" where
  "is_protocol_allowed s h protocol =
     (case au_protocols s h of
        None \<Rightarrow> True | Some ps \<Rightarrow> if ps = [] then True else protocol_listed ps protocol)"

definition filter_allowed_channels ::
    "auth_service \<Rightarrow> string \<Rightarrow> config list \<Rightarrow> config list \<times> bool" where
  "filter_allowed_channels s h channels =
     (case au_channels s h of
        None \<Rightarrow> (channels, False)
      | Some r \<Rightarrow>
          if channels = [] then (channels, True)
          else (filter (\<lambda>c. restriction_allows r (cfg_id c)) channels, True))"

definition is_channel_allowed :: "auth_service \<Rightarrow> string \<Rightarrow> int \<Rightarrow> bool" where
  "is_channel_allowed s h channel =
     (case au_channels s h of None \<Rightarrow> True | Some r \<Rightarrow> restriction_allows r channel)"

section \<open>The cost of a token\<close>

definition is_cost_limit_exceeded :: "auth_service \<Rightarrow> string \<Rightarrow> int \<times> int \<times> bool" where
  "is_cost_limit_exceeded s h =
     (case au_costs s h of
        None \<Rightarrow> (0, 0, False)
      | Some v \<Rightarrow>
          if tc_limit v \<le> 0 then (0, 0, False)
          else (tc_used v, tc_limit v, tc_used v \<ge> tc_limit v))"

definition add_cost_to_cache :: "auth_service \<Rightarrow> string \<Rightarrow> int \<Rightarrow> auth_service" where
  "add_cost_to_cache s h delta =
     (if delta \<le> 0 then s
      else case au_costs s h of
        None \<Rightarrow> s
      | Some v \<Rightarrow>
          if tc_limit v > 0
          then s\<lparr>au_costs := (au_costs s)(h \<mapsto> v\<lparr>tc_used := wrap64 (tc_used v + delta)\<rparr>)\<rparr>
          else s)"

datatype token_refusal = Model_Not_Allowed string | Cost_Limit_Exceeded real real

definition enforce_token_limits ::
    "(string \<Rightarrow> string list) option \<Rightarrow> auth_service \<Rightarrow> string \<Rightarrow> string \<Rightarrow> (int \<times> token_refusal) option" where
  "enforce_token_limits candidates s h m =
     (if h \<noteq> '''' \<and> m \<noteq> '''' \<and> \<not> is_model_allowed candidates s h m
      then Some (403, Model_Not_Allowed m)
      else if h \<noteq> '''' then
        (case is_cost_limit_exceeded s h of
           (used, limit, exceeded) \<Rightarrow>
             if exceeded then Some (429, Cost_Limit_Exceeded (micro_usd_to_usd used) (micro_usd_to_usd limit))
             else None)
      else None)"

end
