(* ===== verification/Auth_Safety.thy ===== *)
theory Auth_Safety
  imports Auth_Service
begin

text \<open>
  What the authentication service guarantees: the answers of its middleware, the restrictions it
  enforces after a reload, and the invariant of its runs, in which requests, reloads, logins and
  charges interleave.
\<close>

section \<open>Requests and their slots\<close>

text \<open>The slots of a token keep the contract of a slot limiter; 0 is no limit.\<close>

definition token_take :: "auth_service \<Rightarrow> string \<Rightarrow> string option \<times> auth_service" where
  "token_take s h =
     (case acquire_token_slot s h of (Slot a l, s') \<Rightarrow> (Some h, s') | (_, s') \<Rightarrow> (None, s'))"

definition slots_positive :: "auth_service \<Rightarrow> bool" where
  "slots_positive s \<longleftrightarrow> (\<forall>h. 0 \<le> slots (au_active s) h)"

lemma release_token_slot_slots:
  "slots (au_active (release_token_slot s h)) k =
     (if k = h then (if slots (au_active s) h \<le> 1 then 0 else slots (au_active s) h - 1)
      else slots (au_active s) k)"
  by (simp add: release_token_slot_def Let_def)

lemma max_conns_release [simp]: "max_conns (release_token_slot s h) = max_conns s"
  by (simp add: max_conns_def release_token_slot_def Let_def fun_eq_iff)

lemma max_conns_acquire [simp]: "max_conns (snd (acquire_token_slot s h)) = max_conns s"
  by (simp add: max_conns_def acquire_token_slot_def Let_def fun_eq_iff)

lemma snd_token_take [simp]: "snd (token_take s h) = snd (acquire_token_slot s h)"
  by (auto simp: token_take_def split: prod.splits token_slot.splits)

interpretation token_slots: slot_limiter
  where acquire = token_take
    and release = release_token_slot
    and grp = id
    and used = "\<lambda>s :: auth_service. slots (au_active s)"
    and cap = max_conns
    and invar = slots_positive
proof unfold_locales
  fix s s' :: auth_service and h k assume "slots_positive s" "token_take s h = (Some k, s')"
  then show "(0 < max_conns s h \<longrightarrow> slots (au_active s) (id k) < max_conns s h) \<and>
      (\<forall>g. slots (au_active s') g = slots (au_active s) g + (if g = id k then 1 else 0))"
    by (auto simp: token_take_def acquire_token_slot_def Let_def split: if_splits)
next
  fix s s' :: auth_service and h assume "token_take s h = (None, s')"
  then show "slots (au_active s') = slots (au_active s)"
    by (auto simp: token_take_def acquire_token_slot_def Let_def fun_eq_iff split: if_splits)
next
  fix s :: auth_service and h g assume "0 < slots (au_active s) (id h)"
  then show "slots (au_active (release_token_slot s h)) g = slots (au_active s) g - (if g = id h then 1 else 0)"
    by (simp add: release_token_slot_slots)
next
  fix s :: auth_service and h
  show "max_conns (snd (token_take s h)) = max_conns s" by simp
next
  fix s :: auth_service and h assume "slots_positive s"
  then show "slots_positive (snd (token_take s h))"
    by (auto simp: acquire_token_slot_def Let_def slots_positive_def)
next
  fix s :: auth_service and h assume "slots_positive s"
  then show "slots_positive (release_token_slot s h)"
    by (auto simp: release_token_slot_slots slots_positive_def)
qed auto


section \<open>The maps of the tokens\<close>

text \<open>The three maps that identify a token know the same tokens.\<close>

definition maps_agree :: "'a token_maps_scheme \<Rightarrow> bool" where
  "maps_agree m \<longleftrightarrow> distinct (map fst (au_hashes m)) \<and>
     (\<forall>i h. map_of (au_hashes m) i = Some h \<longleftrightarrow> au_ids m h = Some i) \<and>
     (\<forall>h. au_ids m h = None \<longleftrightarrow> au_tokens m h = None)"

text \<open>The table of tokens: both its id and its digest are keys.\<close>

definition unique_tokens :: "auth_token list \<Rightarrow> bool" where
  "unique_tokens ts \<longleftrightarrow> distinct (map tok_id ts) \<and> distinct (map tok_token ts)"

lemma maps_agree_more [simp]:
  "maps_agree (token_maps.truncate m) = maps_agree m"
  "maps_agree (token_maps.extend m' x) = maps_agree m'"
  by (simp_all add: maps_agree_def token_maps.defs)

lemma maps_agree_cong:
  "token_maps.truncate m = token_maps.truncate m' \<Longrightarrow> maps_agree m = maps_agree m'"
  by (metis maps_agree_more(1))

lemma no_tokens_agree: "maps_agree no_tokens"
  by (simp add: maps_agree_def no_tokens_def)

lemma load_token_Inr:
  assumes "load_token m t = Inr m'"
  shows "au_tokens m' = (au_tokens m)(tok_token t \<mapsto> expires_or_0 t)"
    and "au_ids m' = (au_ids m)(tok_token t \<mapsto> tok_id t)"
    and "au_hashes m' = AList.update (tok_id t) (tok_token t) (au_hashes m)"
  using assms by (auto simp: load_token_def Let_def split: option.splits sum.splits)

lemma load_token_agrees:
  assumes "maps_agree m" and "load_token m t = Inr m'"
    and "au_ids m (tok_token t) = None" and "map_of (au_hashes m) (tok_id t) = None"
  shows "maps_agree m'"
  using assms(1,3,4) distinct_update [of "au_hashes m" "tok_id t" "tok_token t"]
  unfolding maps_agree_def load_token_Inr [OF assms(2)]
  by (auto simp: update_conv' split: if_splits) (metis option.distinct(1))

lemma load_tokens_agree:
  assumes "load_tokens m ts = Inr m'" and "maps_agree m" and "unique_tokens ts"
    and "\<forall>t \<in> set ts. au_ids m (tok_token t) = None \<and> map_of (au_hashes m) (tok_id t) = None"
  shows "maps_agree m'"
  using assms
proof (induction ts arbitrary: m)
  case (Cons t ts)
  from Cons.prems(1) obtain n where n: "load_token m t = Inr n" "load_tokens n ts = Inr m'"
    by (auto split: sum.splits)
  have "maps_agree n" using load_token_agrees [OF Cons.prems(2) n(1)] Cons.prems(4) by simp
  moreover have "\<forall>u \<in> set ts. au_ids n (tok_token u) = None \<and> map_of (au_hashes n) (tok_id u) = None"
    using Cons.prems(3,4) unfolding load_token_Inr [OF n(1)]
    by (auto simp: unique_tokens_def update_conv' image_iff)
  ultimately show ?case using Cons.IH [OF n(2)] Cons.prems(3) by (simp add: unique_tokens_def)
qed simp

lemma loaded_agree: "load_tokens no_tokens ts = Inr m \<Longrightarrow> unique_tokens ts \<Longrightarrow> maps_agree m"
  by (rule load_tokens_agree) (auto simp: no_tokens_agree, simp_all add: no_tokens_def)

lemma evict_agrees:
  assumes "maps_agree s" and "au_ids s h = Some i"
  shows "maps_agree (evict_token s h i)"
proof -
  have known: "map_of (au_hashes s) j = Some g \<longleftrightarrow> au_ids s g = Some j" for j g
    using assms(1) unfolding maps_agree_def by blast
  have only: "g = h" if "au_ids s g = Some i" for g
    using known [of i g] known [of i h] assms(2) that by simp
  have "map_of (AList.delete i (au_hashes s)) j = Some g \<longleftrightarrow> ((au_ids s)(h := None)) g = Some j" for j g
  proof (cases "j = i")
    case True
    then show ?thesis using only [of g] by (auto simp: delete_conv')
  next
    case False
    then show ?thesis using known [of j g] assms(2) by (auto simp: delete_conv' simp del: map_of_eq_Some_iff)
  qed
  moreover have "distinct (map fst (AList.delete i (au_hashes s)))"
    using assms(1) by (simp add: maps_agree_def distinct_delete)
  ultimately show ?thesis
    using assms(1) unfolding maps_agree_def evict_token_def by simp
qed

section \<open>What the operations leave alone\<close>

abbreviation same_tokens :: "auth_service \<Rightarrow> auth_service \<Rightarrow> bool" where
  "same_tokens s s' \<equiv> token_maps.truncate s' = token_maps.truncate s"

lemma revoke_unchanged [unchanged]:
  "au_active (revoke_web_sessions s ids) = au_active s"
  "token_maps.truncate (revoke_web_sessions s ids) = token_maps.truncate s"
  by (simp_all add: revoke_web_sessions_def token_maps.defs)

lemma drop_session_unchanged [unchanged]:
  "au_active (drop_session s h) = au_active s"
  "token_maps.truncate (drop_session s h) = token_maps.truncate s"
  by (simp_all add: drop_session_def token_maps.defs)

lemma session_of_token_unchanged [unchanged]:
  assumes "session_of_token hash s token now = (w, s')"
  shows "au_active s' = au_active s" and "same_tokens s s'"
  using assms
  by (auto simp: session_of_token_def Let_def unchanged split: option.splits if_splits)

lemma acquire_unchanged [unchanged]:
  "token_maps.truncate (snd (acquire_token_slot s h)) = token_maps.truncate s"
  by (simp add: acquire_token_slot_def Let_def token_maps.defs)

lemma release_unchanged [unchanged]:
  "token_maps.truncate (release_token_slot s h) = token_maps.truncate s"
  by (simp add: release_token_slot_def Let_def token_maps.defs)

lemma attach_unchanged [unchanged]:
  "au_active (snd (attach_api_identity s h i slot)) = au_active s"
  "token_maps.truncate (snd (attach_api_identity s h i slot)) = token_maps.truncate s"
  by (simp_all add: attach_api_identity_def token_maps.defs)

lemma evict_unchanged [unchanged]: "au_active (evict_token s h i) = au_active s"
  by (simp add: evict_token_def)

lemma charge_unchanged [unchanged]:
  "au_active (add_cost_to_cache s h delta) = au_active s"
  by (simp add: add_cost_to_cache_def split: option.split)

lemma charge_agrees: "maps_agree s \<Longrightarrow> maps_agree (add_cost_to_cache s h delta)"
  by (auto simp: add_cost_to_cache_def maps_agree_def split: option.split)

lemma login_unchanged [unchanged]:
  assumes "handle_login hash pw s ip q random now = (a, s')"
  shows "au_active s' = au_active s" and "same_tokens s s'"
  using assms
  by (auto simp: handle_login_def issue_session_def Let_def token_maps.defs
      split: option.splits if_splits prod.splits bool.splits)

lemma reload_shape:
  assumes "reload_auth_tokens s stored ok now = (e, s')"
  shows "s' = s \<or> (\<exists>ts m. stored = Some ts \<and> load_tokens no_tokens ts = Inr m \<and>
    e \<in> {None, Some Revoke_Failed} \<and>
    s' = revoke_web_sessions
      (token_maps.extend (m\<lparr>au_costs := keep_spent (au_costs s) (au_costs m)\<rparr>) (token_maps.more s))
      (revoked_ids s m now))"
  using assms by (auto simp: reload_auth_tokens_def Let_def split: option.splits sum.splits if_splits)


section \<open>Runs of the service\<close>

text \<open>The slot that a request holds until its handler returns.\<close>

definition held :: "api_identity verdict \<Rightarrow> (string \<times> bool) list" where
  "held v = (case v of
     Pass i \<Rightarrow> (case ai_slot i of Slot a l \<Rightarrow> [(ai_token_hash i, False)] | _ \<Rightarrow> [])
   | Reject c m \<Rightarrow> [])"

type_synonym auth_run = "(auth_service, string) ticketed"

inductive auth_run :: "(string \<Rightarrow> string) \<Rightarrow> (string \<Rightarrow> bool) \<Rightarrow> auth_run \<Rightarrow> bool"
  for hash pw where
  Start: "auth_run hash pw \<lparr>tk_state = new_auth_service, tk_tickets = []\<rparr>"
| Api: "auth_run hash pw t \<Longrightarrow> require_api_auth hash (tk_state t) r now = (v, s) \<Longrightarrow>
    auth_run hash pw \<lparr>tk_state = s, tk_tickets = tk_tickets t @ held v\<rparr>"
| Web_Api: "auth_run hash pw t \<Longrightarrow>
    require_web_api_token_proxy_auth (tk_state t) identity now = (v, s) \<Longrightarrow>
    auth_run hash pw \<lparr>tk_state = s, tk_tickets = tk_tickets t @ held v\<rparr>"
| Finish: "auth_run hash pw t \<Longrightarrow> auth_run hash pw (token_slots.slot_step t (GiveBack i))"
| Reload: "auth_run hash pw t \<Longrightarrow> (\<And>ts. stored = Some ts \<Longrightarrow> unique_tokens ts) \<Longrightarrow>
    reload_auth_tokens (tk_state t) stored ok now = (e, s) \<Longrightarrow> auth_run hash pw (t\<lparr>tk_state := s\<rparr>)"
| Charge: "auth_run hash pw t \<Longrightarrow>
    auth_run hash pw (t\<lparr>tk_state := add_cost_to_cache (tk_state t) h delta\<rparr>)"
| Session: "auth_run hash pw t \<Longrightarrow> session_of_token hash (tk_state t) token now = (w, s) \<Longrightarrow>
    auth_run hash pw (t\<lparr>tk_state := s\<rparr>)"
| Login: "auth_run hash pw t \<Longrightarrow> handle_login hash pw (tk_state t) ip q random now = (a, s) \<Longrightarrow>
    auth_run hash pw (t\<lparr>tk_state := s\<rparr>)"
| Logout: "auth_run hash pw t \<Longrightarrow>
    auth_run hash pw (t\<lparr>tk_state := handle_logout hash (tk_state t) header\<rparr>)"
| Clean: "auth_run hash pw t \<Longrightarrow>
    auth_run hash pw (t\<lparr>tk_state := clean_expired_tokens (tk_state t) now\<rparr>)"
| Restore: "auth_run hash pw t \<Longrightarrow>
    auth_run hash pw (t\<lparr>tk_state := load_sessions_from_db (tk_state t) sessions\<rparr>)"
| Worker: "auth_run hash pw t \<Longrightarrow>
    auth_run hash pw (t\<lparr>tk_state := snd (last_used_worker (tk_state t))\<rparr>)"

definition auth_ok :: "auth_run \<Rightarrow> bool" where
  "auth_ok t \<longleftrightarrow> token_slots.accounted t \<and> maps_agree (tk_state t)"

lemma auth_ok_other:
  assumes "auth_ok t" and "au_active s = au_active (tk_state t)" and "maps_agree s"
  shows "auth_ok (t\<lparr>tk_state := s\<rparr>)"
  using assms
  by (auto simp: auth_ok_def slots_positive_def token_slots.accounted_def)

lemma auth_ok_frame:
  assumes "auth_ok t" and "au_active s = au_active (tk_state t)" and "same_tokens (tk_state t) s"
  shows "auth_ok (t\<lparr>tk_state := s\<rparr>)"
  using auth_ok_other [OF assms(1,2)] maps_agree_cong [OF assms(3)] assms(1) by (simp add: auth_ok_def)

lemma auth_ok_prepare:
  assumes ok: "auth_ok t" and p: "prepare_api_identity (tk_state t) h i = (v, s)"
  shows "auth_ok \<lparr>tk_state = s, tk_tickets = tk_tickets t @ held v\<rparr>"
proof -
  let ?a = "acquire_token_slot (tk_state t) h" and ?u = "token_slots.slot_step t (Take h)"
  have u: "token_slots.accounted ?u"
    using ok token_slots.step_accounted by (simp add: auth_ok_def)
  have st: "tk_state ?u = snd ?a"
    by (auto simp: token_slots.slot_step_def token_take_def split: prod.splits token_slot.splits)
  have tickets: "tk_tickets ?u = tk_tickets t @ held v"
    using p by (auto simp: token_slots.slot_step_def token_take_def prepare_api_identity_def held_def
        attach_api_identity_def split: prod.splits token_slot.splits)
  have "au_active s = au_active (snd ?a)" "token_maps.truncate s = token_maps.truncate (snd ?a)"
    using p attach_unchanged [of "snd ?a" h i]
    by (auto simp: prepare_api_identity_def split: prod.splits token_slot.splits) (metis snd_conv)+
  then have "auth_ok (?u\<lparr>tk_state := s\<rparr>)"
    using u st ok maps_agree_cong [OF acquire_unchanged [of "tk_state t" h]]
    by (intro auth_ok_frame) (auto simp: auth_ok_def)
  then show ?thesis using tickets by (cases ?u) simp
qed

lemma resolve_known:
  assumes "maps_agree s" and "resolve_auth_token hash s token = Some (h, e, i)"
  shows "au_tokens s h = Some e" and "au_ids s h = Some i" and "h = token \<or> h = hash token"
proof -
  show e: "au_tokens s h = Some e" and "h = token \<or> h = hash token"
    using assms(2) by (auto simp: resolve_auth_token_def Let_def split: option.splits)
  then have "au_ids s h \<noteq> None" using assms(1) by (simp add: maps_agree_def)
  then show "au_ids s h = Some i"
    using assms(2) by (auto simp: resolve_auth_token_def Let_def split: option.splits)
qed

lemma auth_ok_Reject:
  assumes "auth_ok t" and "au_active s = au_active (tk_state t)" and "maps_agree s" and "held v = []"
  shows "auth_ok \<lparr>tk_state = s, tk_tickets = tk_tickets t @ held v\<rparr>"
  using auth_ok_other [OF assms(1-3)] assms(4) by (cases t) simp

lemma auth_ok_api:
  assumes ok: "auth_ok t" and r: "require_api_auth hash (tk_state t) r now = (v, s)"
  shows "auth_ok \<lparr>tk_state = s, tk_tickets = tk_tickets t @ held v\<rparr>"
proof (cases "request_token r")
  case None
  then show ?thesis using ok r
    by (intro auth_ok_Reject) (auto simp: auth_ok_def require_api_auth_def bad_credentials_def held_def split: if_splits)
next
  case (Some token)
  show ?thesis
  proof (cases "resolve_auth_token hash (tk_state t) token")
    case None
    then show ?thesis using ok r Some
      by (intro auth_ok_Reject)
        (auto simp: auth_ok_def require_api_auth_def bad_credentials_def held_def split: if_splits)
  next
    case (Some known)
    then obtain h e i where k: "resolve_auth_token hash (tk_state t) token = Some (h, e, i)"
      by (cases known) auto
    have agree: "maps_agree (tk_state t)" using ok by (simp add: auth_ok_def)
    note known = resolve_known [OF agree k]
    have nonempty: "au_tokens (tk_state t) \<noteq> Map.empty" using known(1) by auto
    have gone: "maps_agree (evict_token (tk_state t) h i)"
      by (rule evict_agrees [OF agree known(2)])
    then have gone': "maps_agree (revoke_web_sessions (evict_token (tk_state t) h i) [i])"
      using maps_agree_cong [OF revoke_unchanged(2)] by blast
    have up: "maps_agree (snd (attach_api_identity (tk_state t) h i No_Slot))"
      using agree maps_agree_cong [OF attach_unchanged(2)] by blast
    have "prepare_api_identity (tk_state t) h i = (v, s) \<or>
        au_active s = au_active (tk_state t) \<and> maps_agree s \<and> held v = []"
      using r nonempty k \<open>request_token r = Some token\<close> gone gone' up
      by (auto simp: require_api_auth_def Let_def unchanged held_def attach_api_identity_def split: if_splits)
    then show ?thesis using auth_ok_prepare [OF ok] auth_ok_Reject [OF ok] by blast
  qed
qed


lemma auth_ok_web:
  assumes ok: "auth_ok t" and r: "require_web_api_token_proxy_auth (tk_state t) identity now = (v, s)"
  shows "auth_ok \<lparr>tk_state = s, tk_tickets = tk_tickets t @ held v\<rparr>"
proof -
  have "(\<exists>h i. prepare_api_identity (tk_state t) h i = (v, s)) \<or>
      au_active s = au_active (tk_state t) \<and> maps_agree s \<and> held v = []"
    using r ok
    by (auto simp: require_web_api_token_proxy_auth_def Let_def held_def auth_ok_def split: option.splits if_splits)
  then show ?thesis using auth_ok_prepare [OF ok] auth_ok_Reject [OF ok] by blast
qed

lemma auth_ok_reload:
  assumes ok: "auth_ok t" and unique: "\<And>ts. stored = Some ts \<Longrightarrow> unique_tokens ts"
    and r: "reload_auth_tokens (tk_state t) stored ok' now = (e, s)"
  shows "auth_ok (t\<lparr>tk_state := s\<rparr>)"
  using reload_shape [OF r]
proof (elim disjE exE conjE)
  fix ts and m :: token_maps
  let ?m = "m\<lparr>au_costs := keep_spent (au_costs (tk_state t)) (au_costs m)\<rparr>"
  assume l: "load_tokens no_tokens ts = Inr m" "stored = Some ts"
    and s: "s = revoke_web_sessions (token_maps.extend ?m (token_maps.more (tk_state t)))
      (revoked_ids (tk_state t) m now)"
  have "maps_agree ?m" using loaded_agree [OF l(1) unique [OF l(2)]] by (simp add: maps_agree_def)
  then have "maps_agree s" unfolding s using maps_agree_cong [OF revoke_unchanged(2)] by (metis maps_agree_more(2))
  moreover have "au_active s = au_active (tk_state t)"
    unfolding s by (cases "tk_state t") (simp add: revoke_web_sessions_def token_maps.defs)
  ultimately show ?thesis using ok by (intro auth_ok_other)
qed (use ok in simp)

theorem auth_run_ok: "auth_run hash pw t \<Longrightarrow> auth_ok t"
proof (induction rule: auth_run.induct)
  case Start
  then show ?case
    by (auto simp: auth_ok_def token_slots.accounted_def new_auth_service_def token_maps.defs maps_agree_def
        no_tokens_def slots_positive_def slots_def)
next
  case (Finish t i)
  have "same_tokens (tk_state t) (tk_state (token_slots.slot_step t (GiveBack i)))"
    by (auto simp: token_slots.slot_step_def unchanged split: bool.splits prod.splits)
  then show ?case using Finish token_slots.step_accounted maps_agree_cong unfolding auth_ok_def by blast
next
  case (Charge t h delta)
  then show ?case by (intro auth_ok_other) (simp_all add: unchanged charge_agrees auth_ok_def)
next
  case (Session t token now w s)
  then show ?case by (intro auth_ok_frame) (auto intro: unchanged)
next
  case (Login t ip q random now a s)
  then show ?case by (intro auth_ok_frame) (auto intro: unchanged)
next
  case (Logout t header)
  then show ?case
    by (intro auth_ok_frame) (auto simp: handle_logout_def unchanged split: option.split)
next
  case (Clean t now)
  then show ?case by (intro auth_ok_frame) (simp_all add: clean_expired_tokens_def token_maps.defs)
next
  case (Restore t sessions)
  then show ?case
    by (intro auth_ok_frame) (simp_all add: load_sessions_from_db_def token_maps.defs split: option.split)
next
  case (Worker t)
  then show ?case
    by (intro auth_ok_frame) (simp_all add: last_used_worker_def token_maps.defs split: list.split)
qed (auto intro: auth_ok_api auth_ok_web auth_ok_reload)


inductive_cases auth_run_step: "auth_run hash pw t"

section \<open>What a reload installs\<close>

text \<open>Everything the maps say about one digest, and what a stored token asks for.\<close>

record token_row =
  row_expires :: "int option"
  row_id :: "int option"
  row_models :: "string list option"
  row_protocols :: "string list option"
  row_channels :: "channel_restriction option"
  row_cost :: "token_cost_limit option"
  row_max_conns :: "int option"

definition row :: "'a token_maps_scheme \<Rightarrow> string \<Rightarrow> token_row" where
  "row m h = \<lparr>row_expires = au_tokens m h, row_id = au_ids m h, row_models = au_models m h,
     row_protocols = au_protocols m h, row_channels = au_channels m h, row_cost = au_costs m h,
     row_max_conns = au_max_conns m h\<rparr>"

definition no_row :: token_row where
  "no_row = \<lparr>row_expires = None, row_id = None, row_models = None, row_protocols = None,
     row_channels = None, row_cost = None, row_max_conns = None\<rparr>"

definition nonempty :: "'a list \<Rightarrow> 'a list option" where
  "nonempty xs = (if xs = [] then None else Some xs)"

definition stored_row :: "auth_token \<Rightarrow> token_row" where
  "stored_row t = \<lparr>row_expires = Some (expires_or_0 t), row_id = Some (tok_id t),
     row_models = nonempty (tok_allowed_models t), row_protocols = nonempty (tok_allowed_protocols t),
     row_channels = (case token_channel_restriction t of
        Inl e \<Rightarrow> None | Inr r \<Rightarrow> if restricted r then Some r else None),
     row_cost = (if tok_cost_limit_micro_usd t > 0
       then Some \<lparr>tc_used = tok_cost_used_micro_usd t, tc_limit = tok_cost_limit_micro_usd t\<rparr> else None),
     row_max_conns = (if tok_max_concurrency t > 0 then Some (tok_max_concurrency t) else None)\<rparr>"

lemma load_token_rows:
  assumes "load_token m t = Inr m'"
  shows "h \<noteq> tok_token t \<Longrightarrow> row m' h = row m h"
    and "row m (tok_token t) = no_row \<Longrightarrow> row m' (tok_token t) = stored_row t"
proof -
  obtain r where r: "token_channel_restriction t = Inr r" and v: "validate_usage_limits t = None"
    using assms by (auto simp: load_token_def split: option.splits sum.splits)
  note m' = assms [unfolded load_token_def v r Let_def, simplified, symmetric]
  show "h \<noteq> tok_token t \<Longrightarrow> row m' h = row m h" by (simp add: m' row_def)
  assume "row m (tok_token t) = no_row"
  then show "row m' (tok_token t) = stored_row t"
    by (simp add: m' row_def stored_row_def no_row_def nonempty_def r)
qed

lemma load_tokens_error: "load_tokens m ts = Inl e \<Longrightarrow> \<exists>i msg. e = Invalid_Token i msg"
  by (induction ts arbitrary: m) (auto simp: load_token_def Let_def split: option.splits sum.splits)

lemma load_token_valid:
  "load_token m t = Inr m' \<Longrightarrow>
    validate_usage_limits t = None \<and> (\<exists>r. token_channel_restriction t = Inr r)"
  by (auto simp: load_token_def split: option.splits sum.splits)

lemma load_tokens_row:
  assumes "load_tokens m ts = Inr m'" and "distinct (map tok_token ts)"
    and "\<forall>t \<in> set ts. row m (tok_token t) = no_row"
  shows "row m' h = (case find (\<lambda>t. tok_token t = h) ts of None \<Rightarrow> row m h | Some t \<Rightarrow> stored_row t)"
  using assms
proof (induction ts arbitrary: m)
  case (Cons t ts)
  from Cons.prems(1) obtain n where n: "load_token m t = Inr n" "load_tokens n ts = Inr m'"
    by (auto split: sum.splits)
  note at = load_token_rows [OF n(1)]
  have own: "row n (tok_token t) = stored_row t" using at(2) Cons.prems(3) by simp
  have "row n (tok_token u) = no_row" if "u \<in> set ts" for u
  proof -
    have "tok_token u \<noteq> tok_token t" using Cons.prems(2) that by (auto simp: image_iff)
    then show ?thesis using at(1) Cons.prems(3) that by simp
  qed
  then have ih: "row m' h = (case find (\<lambda>t. tok_token t = h) ts of None \<Rightarrow> row n h | Some t \<Rightarrow> stored_row t)"
    using Cons.IH [OF n(2)] Cons.prems(2) by simp
  show ?case
  proof (cases "tok_token t = h")
    case True
    then have "find (\<lambda>t. tok_token t = h) ts = None"
      using Cons.prems(2) by (auto simp: find_None_iff image_iff)
    then show ?thesis using ih True own by simp
  next
    case False
    then show ?thesis using ih at(1) [of h] by (simp split: option.split)
  qed
qed simp

lemma load_tokens_valid:
  "load_tokens m ts = Inr m' \<Longrightarrow> t \<in> set ts \<Longrightarrow>
    validate_usage_limits t = None \<and> (\<exists>r. token_channel_restriction t = Inr r)"
  by (induction ts arbitrary: m) (auto dest: load_token_valid split: sum.splits)

lemma load_no_tokens_row:
  assumes "load_tokens no_tokens ts = Inr m" and "unique_tokens ts"
  shows "row m h = (case find (\<lambda>t. tok_token t = h) ts of None \<Rightarrow> no_row | Some t \<Rightarrow> stored_row t)"
  using load_tokens_row [OF assms(1), of h] assms(2)
  by (auto simp: unique_tokens_def row_def no_tokens_def no_row_def split: option.split)

lemma reload_row:
  assumes "reload_auth_tokens s (Some ts) ok now = (e, s')" and "e = None \<or> e = Some Revoke_Failed"
    and "unique_tokens ts"
  shows "row s' h = (case find (\<lambda>t. tok_token t = h) ts of
      None \<Rightarrow> no_row
    | Some t \<Rightarrow> (stored_row t)\<lparr>row_cost := keep_spent (au_costs s) (\<lambda>_. row_cost (stored_row t)) h\<rparr>)"
proof -
  obtain m where m: "load_tokens no_tokens ts = Inr m"
    and s': "s' = revoke_web_sessions
      (token_maps.extend (m\<lparr>au_costs := keep_spent (au_costs s) (au_costs m)\<rparr>) (token_maps.more s))
      (revoked_ids s m now)"
    using assms(1,2) load_tokens_error [of no_tokens ts]
    by (auto simp: reload_auth_tokens_def Let_def split: sum.splits if_splits)
  have "row s' h = (row m h)\<lparr>row_cost := keep_spent (au_costs s) (\<lambda>_. row_cost (row m h)) h\<rparr>"
    unfolding s' by (simp add: row_def revoke_web_sessions_def token_maps.defs keep_spent_def)
  then show ?thesis unfolding load_no_tokens_row [OF m assms(3)]
    by (auto simp: no_row_def keep_spent_def split: option.split)
qed


section \<open>Properties\<close>

lemma find_stored:
  assumes "unique_tokens ts" and "t \<in> set ts"
  shows "find (\<lambda>u. tok_token u = tok_token t) ts = Some t"
  using assms by (induction ts) (auto simp: unique_tokens_def image_iff)

lemma model_allowed_row:
  "is_model_allowed None s h m =
    (case row_models (row s h) of None \<Rightarrow> True | Some ms \<Rightarrow> ms = [] \<or> list_ex (\<lambda>a. equal_fold a m) ms)"
  by (auto simp: is_model_allowed_def allowed_models_def allowed_model_with_aliases_def row_def
      equal_fold_def list_ex_iff image_iff split: option.splits)


definition example_token :: auth_token where
  "example_token = \<lparr>tok_id = 7, tok_token = ''ab12'', tok_token_ciphertext = '''', tok_token_hint = '''',
     tok_description = '''', tok_created_at = 0, tok_expires_at = Some 5000, tok_last_used_at = None,
     tok_is_active = True, tok_success_count = 0, tok_failure_count = 0, tok_stream_avg_ttfb = 0,
     tok_non_stream_avg_rt = 0, tok_stream_count = 0, tok_non_stream_count = 0,
     tok_prompt_tokens_total = 0, tok_completion_tokens_total = 0, tok_cache_read_tokens_total = 0,
     tok_cache_creation_tokens_total = 0, tok_total_cost_usd = 0, tok_effective_cost_usd = 0,
     tok_cost_used_micro_usd = 40, tok_cost_limit_micro_usd = 100, tok_peak_rpm = 0, tok_avg_rpm = 0,
     tok_recent_rpm = 0, tok_allowed_models = [''gpt''], tok_allowed_channel_ids = [3],
     tok_channel_restriction_mode = ''deny'', tok_max_concurrency = 2, tok_allowed_protocols = []\<rparr>"

definition example_service :: auth_service where
  "example_service = snd (reload_auth_tokens new_auth_service (Some [example_token]) (\<lambda>i. True) 0)"

lemma example_load:
  "reload_auth_tokens new_auth_service (Some [example_token]) (\<lambda>i. True) 0 = (None, example_service)"
  "unique_tokens [example_token]"
  by (simp_all add: example_service_def reload_auth_tokens_def load_token_def example_token_def
      validate_usage_limits_def token_channel_restriction_def new_channel_restriction_def
      normalize_channel_restriction_mode_def no_tokens_def new_auth_service_def token_maps.defs
      revoked_ids_def Let_def unique_tokens_def)



text \<open>The requests of a token that are being served.\<close>

definition served :: "auth_run \<Rightarrow> string \<Rightarrow> nat" where
  "served t h = length (filter (\<lambda>x. x = (h, False)) (tk_tickets t))"

lemma prepare_below_limit:
  assumes "prepare_api_identity s h i = (Pass a, s')"
  shows "ai_token_hash a = h" and "h \<noteq> '''' \<Longrightarrow> 0 < max_conns s h \<Longrightarrow> slots (au_active s) h < max_conns s h"
  using assms
  by (auto simp: prepare_api_identity_def acquire_token_slot_def attach_api_identity_def Let_def
      split: if_splits)

lemma api_auth_Pass:
  assumes "require_api_auth hash s r now = (Pass a, s')" and "maps_agree s"
  obtains e i where "au_tokens s (ai_token_hash a) = Some e" and "au_ids s (ai_token_hash a) = Some i"
    and "e \<le> 0 \<or> unix_milli now \<le> e"
    and "\<exists>token. request_token r = Some token \<and> ai_token_hash a \<in> {token, hash token}"
    and "ar_websocket_upgrade r \<or> prepare_api_identity s (ai_token_hash a) i = (Pass a, s')"
proof -
  from assms(1) obtain token where token: "request_token r = Some token"
    by (auto simp: require_api_auth_def bad_credentials_def split: if_splits option.splits)
  with assms(1) obtain h e i where k: "resolve_auth_token hash s token = Some (h, e, i)"
    by (auto simp: require_api_auth_def bad_credentials_def split: if_splits option.splits)
  have live: "\<not> (e > 0 \<and> unix_milli now > e)" and h: "ai_token_hash a = h"
    and "ar_websocket_upgrade r \<or> prepare_api_identity s h i = (Pass a, s')"
    using assms(1) token k prepare_below_limit(1)
    by (auto simp: require_api_auth_def bad_credentials_def attach_api_identity_def split: if_splits)
  then show thesis
    using that [of e i] resolve_known [OF assms(2) k] token unfolding h by (auto simp: not_less)
qed


lemma example_run:
  "auth_run (\<lambda>x. x) (\<lambda>p. True) \<lparr>tk_state = example_service, tk_tickets = []\<rparr>"
  using auth_run.Reload [OF auth_run.Start, of "Some [example_token]" "\<lambda>i. True" 0 None example_service]
    example_load by simp

definition example_api_request :: api_request where
  "example_api_request = \<lparr>ar_authorization = ''Bearer ab12'', ar_x_api_key = '''', ar_x_goog_api_key = '''',
     ar_query_key = '''', ar_websocket_upgrade = False\<rparr>"

lemma example_maps:
  "au_tokens example_service = [''ab12'' \<mapsto> 5000]" "au_ids example_service = [''ab12'' \<mapsto> 7]"
  "au_max_conns example_service = [''ab12'' \<mapsto> 2]" "au_active example_service = Map.empty"
  "au_hashes example_service = [(7, ''ab12'')]"
  "au_costs example_service = [''ab12'' \<mapsto> \<lparr>tc_used = 40, tc_limit = 100\<rparr>]"
  by (simp_all add: example_service_def reload_auth_tokens_def load_token_def example_token_def expires_or_0_def
      validate_usage_limits_def token_channel_restriction_def new_channel_restriction_def keep_spent_def
      normalize_channel_restriction_mode_def no_tokens_def new_auth_service_def token_maps.defs
      revoke_web_sessions_def revoked_ids_def Let_def restricted_def fun_eq_iff)

lemma example_admitted:
  "\<exists>a s. require_api_auth (\<lambda>x. x) example_service example_api_request 0 = (Pass a, s) \<and>
    ai_token_hash a = ''ab12''"
  by (simp add: require_api_auth_def example_maps example_api_request_def request_token_def bearer_def
      resolve_auth_token_def Let_def prepare_api_identity_def acquire_token_slot_def max_conns_def slots_def
      attach_api_identity_def unix_milli_def)



lemma hashes_stored:
  assumes "load_tokens no_tokens ts = Inr m" and "unique_tokens ts" and "map_of (au_hashes m) i = Some h"
  shows "\<exists>t \<in> set ts. tok_id t = i \<and> tok_token t = h \<and> au_tokens m h = Some (expires_or_0 t)"
proof -
  have "au_ids m h = Some i" using loaded_agree [OF assms(1,2)] assms(3) unfolding maps_agree_def by blast
  then have "row m h \<noteq> no_row" by (simp add: row_def no_row_def)
  then obtain t where "find (\<lambda>t. tok_token t = h) ts = Some t" "row m h = stored_row t"
    using load_no_tokens_row [OF assms(1,2), of h] by (auto split: option.splits)
  then show ?thesis
    using \<open>au_ids m h = Some i\<close> by (intro bexI [of _ t]) (auto simp: row_def stored_row_def dest: find_SomeD)
qed

lemma session_of_token_Some:
  assumes "session_of_token hash s token now = (Some w, s')"
  shows "au_sessions s (hash token) = Some w" and "now \<le> ws_expires_at w"
    and "ws_role w = role_api_token \<and> is_active_auth_token_id s (ws_auth_token_id w) now \<or>
      ws_role w = role_admin \<and> ws_auth_token_id w = 0"
  using assms by (auto simp: session_of_token_def Let_def split: option.splits if_splits)

lemma active_id_hash:
  "is_active_auth_token_id s i now \<Longrightarrow> \<exists>h e. map_of (au_hashes s) i = Some h \<and> au_tokens s h = Some e \<and>
    (e \<le> 0 \<or> unix_milli now \<le> e)"
  by (auto simp: is_active_auth_token_id_def split: if_splits option.splits)

lemma extend_more [simp]:
  "au_sessions (token_maps.extend m (token_maps.more s)) = au_sessions s"
  "au_active (token_maps.extend m (token_maps.more s)) = au_active s"
  "au_hashes (token_maps.extend m x) = au_hashes m"
  "au_tokens (token_maps.extend m x) = au_tokens m"
  by (cases s; simp add: token_maps.defs)+



text \<open>What is charged to a token, and the reloads in between.\<close>

datatype cost_event = Spend string int | Refresh "auth_token list option" "int \<Rightarrow> bool" time

primrec cost_step :: "auth_service \<Rightarrow> cost_event \<Rightarrow> auth_service" where
  "cost_step s (Spend h delta) = add_cost_to_cache s h delta"
| "cost_step s (Refresh stored ok now) = snd (reload_auth_tokens s stored ok now)"

primrec charged :: "string \<Rightarrow> cost_event list \<Rightarrow> int" where
  "charged h [] = 0"
| "charged h (e # es) = charged h es +
     (case e of Spend k delta \<Rightarrow> if k = h then max 0 delta else 0 | Refresh st ok now \<Rightarrow> 0)"

definition keeps_limited :: "string \<Rightarrow> int \<Rightarrow> cost_event \<Rightarrow> bool" where
  "keeps_limited h bound e = (case e of
     Spend k delta \<Rightarrow> True
   | Refresh stored ok now \<Rightarrow> (case stored of
       None \<Rightarrow> True
     | Some ts \<Rightarrow> unique_tokens ts \<and> (\<exists>t \<in> set ts. tok_token t = h \<and> 0 < tok_cost_limit_micro_usd t \<and>
         tok_cost_used_micro_usd t \<le> bound)))"

lemma charged_nonneg: "0 \<le> charged h es"
  by (induction es) (auto split: cost_event.split)

lemma refresh_keeps_cost:
  assumes "au_costs s h = Some v" and "0 < tc_limit v" and "tc_used v \<le> bound"
    and "keeps_limited h bound (Refresh stored ok now)"
  shows "\<exists>v'. au_costs (snd (reload_auth_tokens s stored ok now)) h = Some v' \<and> 0 < tc_limit v' \<and>
    tc_used v \<le> tc_used v' \<and> tc_used v' \<le> bound"
proof -
  obtain e s' where r: "reload_auth_tokens s stored ok now = (e, s')" by fastforce
  show ?thesis
  proof (cases "e = None \<or> e = Some Revoke_Failed")
    case False
    then have "s' = s" using r by (auto simp: reload_auth_tokens_def Let_def split: option.splits sum.splits if_splits)
    then show ?thesis using r assms by auto
  next
    case True
    then obtain ts t where ts: "stored = Some ts" "unique_tokens ts" "t \<in> set ts" "tok_token t = h"
        "0 < tok_cost_limit_micro_usd t" "tok_cost_used_micro_usd t \<le> bound"
      using assms(4) r by (auto simp: keeps_limited_def reload_auth_tokens_def split: option.splits)
    have "row_cost (row s' h) = keep_spent (au_costs s) (\<lambda>_. row_cost (stored_row t)) h"
      using reload_row [OF r [unfolded ts(1)] True ts(2), of h] find_stored [OF ts(2,3)] ts(4) by simp
    then show ?thesis
      using assms(1,3) ts(5,6) r by (auto simp: row_def stored_row_def keep_spent_def)
  qed
qed

text \<open>C21: A reload never forgets what was spent: while the store keeps the token limited, after any
  sequence of charges and reloads (with a store that lags behind, or that cannot be read) the
  spending on record is at least what was on record before plus everything charged since.\<close>

theorem spending_is_never_forgotten:
  assumes "au_costs s h = Some v" and "0 < tc_limit v" and "0 \<le> tc_used v" and "tc_used v \<le> bound"
    and "\<forall>e \<in> set es. keeps_limited h bound e" and "bound + charged h es < 2 ^ 63"
  shows "\<exists>v'. au_costs (foldl cost_step s es) h = Some v' \<and> tc_used v + charged h es \<le> tc_used v'"
  using assms
proof (induction es arbitrary: s v bound)
  case (Cons e es)
  have later: "\<forall>e \<in> set es. keeps_limited h b e" if "bound \<le> b" for b
    using Cons.prems(5) that by (fastforce simp: keeps_limited_def split: cost_event.splits option.splits)
  show ?case
  proof (cases e)
    case (Spend k delta)
    let ?d = "if k = h then max 0 delta else 0"
    have "tc_used v + ?d < 2 ^ 63" using Cons.prems(4,6) charged_nonneg [of h es] by (auto simp: Spend)
    then have "au_costs (cost_step s e) h = Some (v\<lparr>tc_used := tc_used v + ?d\<rparr>)"
      using Cons.prems(1-3) by (auto simp: Spend add_cost_to_cache_def split: option.split)
    then show ?thesis
      using Cons.IH [of "cost_step s e" "v\<lparr>tc_used := tc_used v + ?d\<rparr>" "bound + ?d"] Cons.prems later
      by (auto simp: Spend add.assoc)
  next
    case (Refresh stored ok now)
    then obtain v' where "au_costs (cost_step s e) h = Some v'" "0 < tc_limit v'" "tc_used v \<le> tc_used v'"
        "tc_used v' \<le> bound"
      using refresh_keeps_cost [OF Cons.prems(1,2,4), of stored ok now] Cons.prems(5) by (auto simp: Refresh)
    then show ?thesis
      using Cons.IH [of "cost_step s e" v' bound] Cons.prems(3,6) later [of bound] by (fastforce simp: Refresh)
  qed
qed simp

theorem spending_is_never_forgotten_witness:
  "\<exists>v'. au_costs (foldl cost_step example_service
      [Spend ''ab12'' 50, Refresh (Some [example_token]) (\<lambda>i. True) 0, Spend ''ab12'' 20]) ''ab12'' = Some v' \<and>
    110 \<le> tc_used v'"
  using spending_is_never_forgotten [of example_service "''ab12''" "\<lparr>tc_used = 40, tc_limit = 100\<rparr>" 40
      "[Spend ''ab12'' 50, Refresh (Some [example_token]) (\<lambda>i. True) 0, Spend ''ab12'' 20]"]
  by (simp add: example_maps keeps_limited_def unique_tokens_def example_token_def)

end
