(* ===== verification/Price_Table.thy ===== *)
theory Price_Table
  imports Go_Base Complex_Main
begin

text \<open>
  The prices that are compiled into the program, \<open>internal/util/model_pricing_catalog.go\<close>: US dollars
  per million tokens, row by row, in the order of the source.  A \<open>float64\<close> is a real number.
\<close>

section \<open>Prices\<close>

text \<open>A tier holds up to \<open>tp_max_input\<close> input tokens, 0 for no bound.\<close>

record token_pricing_tier =
  tp_max_input :: int
  tp_input :: real
  tp_output :: real
  tp_cache_read :: real
  tp_has_cache_read :: bool

record model_pricing =
  mp_input :: real
  mp_output :: real
  mp_tiers :: "token_pricing_tier list"
  mp_cache_read :: real
  mp_cache_read_high :: real
  mp_has_cache_read :: bool
  mp_cache_counts :: bool
  mp_input_high :: real
  mp_output_high :: real
  mp_fixed :: real

text \<open>The literals of the table: the fields that are not named are zero.\<close>

definition tier :: "int \<Rightarrow> real \<Rightarrow> real \<Rightarrow> token_pricing_tier" where
  "tier n i out = \<lparr>tp_max_input = n, tp_input = i, tp_output = out, tp_cache_read = 0, tp_has_cache_read = False\<rparr>"

definition no_pricing :: model_pricing where
  "no_pricing = \<lparr>mp_input = 0, mp_output = 0, mp_tiers = [], mp_cache_read = 0, mp_cache_read_high = 0,
     mp_has_cache_read = False, mp_cache_counts = False, mp_input_high = 0, mp_output_high = 0, mp_fixed = 0\<rparr>"

definition priced :: "real \<Rightarrow> real \<Rightarrow> model_pricing" where
  "priced i out = no_pricing\<lparr>mp_input := i, mp_output := out\<rparr>"

definition cached :: "real \<Rightarrow> model_pricing \<Rightarrow> model_pricing" where
  "cached c p = p\<lparr>mp_cache_read := c, mp_has_cache_read := True\<rparr>"

definition high_context :: "real \<Rightarrow> real \<Rightarrow> model_pricing \<Rightarrow> model_pricing" where
  "high_context i out p = p\<lparr>mp_input_high := i, mp_output_high := out\<rparr>"

lemmas pricing_defs = tier_def no_pricing_def priced_def cached_def high_context_def

section \<open>The compiled table\<close>

definition gpt56_sol_tiers :: "token_pricing_tier list" where
  "gpt56_sol_tiers =
    [(tier 272000 5 30)\<lparr>tp_cache_read := 0.5, tp_has_cache_read := True\<rparr>,
     (tier 0 10 45)\<lparr>tp_cache_read := 1, tp_has_cache_read := True\<rparr>]"

definition gpt56_terra_tiers :: "token_pricing_tier list" where
  "gpt56_terra_tiers =
    [(tier 272000 2 12)\<lparr>tp_cache_read := 0.2, tp_has_cache_read := True\<rparr>,
     (tier 0 4 18)\<lparr>tp_cache_read := 0.4, tp_has_cache_read := True\<rparr>]"

definition gpt56_luna_tiers :: "token_pricing_tier list" where
  "gpt56_luna_tiers =
    [(tier 272000 0.2 1.2)\<lparr>tp_cache_read := 0.02, tp_has_cache_read := True\<rparr>,
     (tier 0 0.4 1.8)\<lparr>tp_cache_read := 0.04, tp_has_cache_read := True\<rparr>]"

definition qwen3_max_tiers :: "token_pricing_tier list" where
  "qwen3_max_tiers =
    [(tier 32000 1.2 6),
     (tier 128000 2.4 12),
     (tier 252000 3 15)]"

definition qwen_flash_tiers :: "token_pricing_tier list" where
  "qwen_flash_tiers =
    [(tier 256000 0.05 0.4),
     (tier 1000000 0.25 2)]"

definition qwen3_vl_plus_tiers :: "token_pricing_tier list" where
  "qwen3_vl_plus_tiers =
    [(tier 32000 0.2 1.6),
     (tier 128000 0.3 2.4),
     (tier 256000 0.6 4.8)]"

definition qwen3_vl_flash_tiers :: "token_pricing_tier list" where
  "qwen3_vl_flash_tiers =
    [(tier 32000 0.05 0.4),
     (tier 128000 0.075 0.6),
     (tier 256000 0.12 0.96)]"

definition qwen3_coder_plus_tiers :: "token_pricing_tier list" where
  "qwen3_coder_plus_tiers =
    [(tier 32000 1 5),
     (tier 128000 1.8 9),
     (tier 256000 3 15),
     (tier 1000000 6 60)]"

definition qwen3_coder_flash_tiers :: "token_pricing_tier list" where
  "qwen3_coder_flash_tiers =
    [(tier 32000 0.3 1.5),
     (tier 128000 0.5 2.5),
     (tier 256000 0.8 4),
     (tier 1000000 1.6 9.6)]"

definition qwen3_coder_next_tiers :: "token_pricing_tier list" where
  "qwen3_coder_next_tiers =
    [(tier 32000 0.3 1.5),
     (tier 128000 0.5 2.5),
     (tier 256000 0.8 4)]"

definition qwen3_coder_480b_tiers :: "token_pricing_tier list" where
  "qwen3_coder_480b_tiers =
    [(tier 32000 1.5 7.5),
     (tier 128000 2.7 13.5),
     (tier 200000 4.5 22.5)]"

definition qwen3_coder_30b_tiers :: "token_pricing_tier list" where
  "qwen3_coder_30b_tiers =
    [(tier 32000 0.45 2.25),
     (tier 128000 0.75 3.75),
     (tier 200000 1.2 6)]"

definition grok45_pricing :: model_pricing where
  "grok45_pricing =
    (high_context 4 12 (cached 0.5 (priced 2 6)))\<lparr>mp_cache_read_high := 1, mp_cache_counts := True\<rparr>"

definition grok420_pricing :: model_pricing where
  "grok420_pricing =
    (high_context 2.5 5 (cached 0.2 (priced 1.25 2.5)))\<lparr>mp_cache_read_high := 0.4, mp_cache_counts := True\<rparr>"

definition grok_build_pricing :: model_pricing where
  "grok_build_pricing =
    (high_context 2 4 (cached 0.2 (priced 1 2)))\<lparr>mp_cache_read_high := 0.4, mp_cache_counts := True\<rparr>"

definition claude_prices :: "(string \<times> model_pricing) list" where
  "claude_prices =
    [(''claude-sonnet-5'', priced 3 15),
     (''claude-sonnet-4-6'', priced 3 15),
     (''claude-sonnet-4-5'', high_context 6 22.5 (priced 3 15)),
     (''claude-sonnet-4-0'', high_context 6 22.5 (priced 3 15)),
     (''claude-haiku-4-5'', priced 1 5),
     (''claude-opus-4-1'', priced 15 75),
     (''claude-opus-4-0'', priced 15 75),
     (''claude-opus-4-6'', priced 5 25),
     (''claude-opus-4-7'', priced 5 25),
     (''claude-opus-4-8'', priced 5 25),
     (''claude-fable-5'', priced 10 50),
     (''claude-opus-4-5'', priced 5 25),
     (''claude-3-7-sonnet'', priced 3 15),
     (''claude-3-5-sonnet'', priced 3 15),
     (''claude-3-5-haiku'', priced 0.8 4),
     (''claude-3-opus'', priced 15 75),
     (''claude-3-sonnet'', priced 3 15),
     (''claude-3-haiku'', priced 0.25 1.25),
     (''claude-opus'', priced 5 25),
     (''claude-sonnet'', priced 3 15),
     (''claude-haiku'', priced 1 5)]"

definition gpt5_prices :: "(string \<times> model_pricing) list" where
  "gpt5_prices =
    [(''gpt-5.6'', (cached 0.5 (priced 5 30))\<lparr>mp_cache_counts := True, mp_tiers := gpt56_sol_tiers\<rparr>),
     (''gpt-5.6-sol'', (cached 0.5 (priced 5 30))\<lparr>mp_cache_counts := True, mp_tiers := gpt56_sol_tiers\<rparr>),
     (''gpt-5.6-terra'', (cached 0.2 (priced 2 12))\<lparr>mp_cache_counts := True, mp_tiers := gpt56_terra_tiers\<rparr>),
     (''gpt-5.6-luna'', (cached 0.02 (priced 0.2 1.2))\<lparr>mp_cache_counts := True, mp_tiers := gpt56_luna_tiers\<rparr>),
     (''gpt-5.5'', high_context 10 45 (priced 5 30)),
     (''gpt-5.4'', high_context 5 22.5 (priced 2.5 15)),
     (''gpt-5.4-pro'', high_context 60 270 (priced 30 180)),
     (''gpt-5.4-mini'', priced 0.75 4.5),
     (''gpt-5.4-nano'', priced 0.2 1.25),
     (''gpt-5.3'', priced 1.75 14),
     (''gpt-5.3-codex'', priced 1.75 14),
     (''gpt-5.3-codex-spark'', priced 1.75 14),
     (''gpt-5.2'', priced 1.75 14),
     (''gpt-5.2-chat-latest'', priced 1.75 14),
     (''gpt-5.2-pro'', priced 21 168),
     (''gpt-5.1'', priced 1.25 10),
     (''gpt-5.1-chat-latest'', priced 1.25 10),
     (''gpt-5.1-codex-max'', priced 1.25 10),
     (''gpt-5.1-codex'', priced 1.25 10),
     (''gpt-5.1-codex-mini'', priced 0.25 2),
     (''gpt-5'', priced 1.25 10),
     (''gpt-5-chat-latest'', priced 1.25 10),
     (''gpt-5-codex'', priced 1.25 10),
     (''gpt-5-search-api'', priced 1.25 10),
     (''gpt-5-mini'', priced 0.25 2),
     (''gpt-5-nano'', priced 0.05 0.4),
     (''gpt-5-pro'', priced 15 120)]"

definition gpt4_prices :: "(string \<times> model_pricing) list" where
  "gpt4_prices =
    [(''gpt-4.1'', priced 2 8),
     (''gpt-4.1-mini'', priced 0.4 1.6),
     (''gpt-4.1-nano'', priced 0.1 0.4),
     (''gpt-4o'', priced 2.5 10),
     (''gpt-4o-2024-05-13'', priced 5 15),
     (''gpt-4o-legacy'', priced 5 15),
     (''gpt-4o-mini'', priced 0.15 0.6),
     (''gpt-4o-search-preview'', priced 2.5 10),
     (''gpt-4o-mini-search-preview'', priced 0.15 0.6),
     (''gpt-4-turbo'', priced 10 30),
     (''gpt-4'', priced 30 60),
     (''gpt-4-32k'', priced 60 120),
     (''gpt-3.5-turbo'', priced 0.5 1.5),
     (''gpt-3.5-legacy'', priced 1.5 2),
     (''gpt-3.5-16k'', priced 3 4)]"

definition audio_prices :: "(string \<times> model_pricing) list" where
  "audio_prices =
    [(''gpt-realtime'', priced 4 16),
     (''gpt-realtime-mini'', priced 0.6 2.4),
     (''gpt-4o-realtime-preview'', priced 5 20),
     (''gpt-4o-mini-realtime-preview'', priced 0.6 2.4),
     (''gpt-audio'', priced 2.5 10),
     (''gpt-audio-mini'', priced 0.6 2.4),
     (''gpt-4o-audio-preview'', priced 2.5 10),
     (''gpt-4o-mini-audio-preview'', priced 0.15 0.6)]"

definition image_prices :: "(string \<times> model_pricing) list" where
  "image_prices =
    [(''gpt-image-1.5'', priced 5 10),
     (''chatgpt-image-latest'', priced 5 10),
     (''gpt-image-1'', priced 5 0),
     (''gpt-image-1-mini'', priced 2 0)]"

definition o_series_prices :: "(string \<times> model_pricing) list" where
  "o_series_prices =
    [(''o1'', priced 15 60),
     (''o1-pro'', priced 150 600),
     (''o1-mini'', priced 1.1 4.4),
     (''o3'', priced 2 8),
     (''o3-pro'', priced 20 80),
     (''o3-mini'', priced 1.1 4.4),
     (''o3-deep-research'', priced 10 40),
     (''o4-mini'', priced 1.1 4.4),
     (''o4-mini-deep-research'', priced 2 8)]"

definition other_openai_prices :: "(string \<times> model_pricing) list" where
  "other_openai_prices =
    [(''computer-use-preview'', priced 3 12),
     (''codex-mini-latest'', priced 1.5 6),
     (''davinci-002'', priced 2 2),
     (''babbage-002'', priced 0.4 0.4)]"

definition gemini_prices :: "(string \<times> model_pricing) list" where
  "gemini_prices =
    [(''gemini-3.5-flash'', cached 0.15 (priced 1.5 9)),
     (''gemini-3-5-flash'', cached 0.15 (priced 1.5 9)),
     (''gemini-3.1-pro'', (high_context 4 18 (cached 0.2 (priced 2 12)))\<lparr>mp_cache_read_high := 0.4\<rparr>),
     (''gemini-3-pro'', high_context 4 18 (priced 2 12)),
     (''gemini-3-flash'', priced 0.5 3),
     (''gemini-3.1-flash-lite'', priced 0.25 1.5),
     (''gemini-2.5-pro'', high_context 2.5 15 (priced 1.25 10)),
     (''gemini-2.5-flash'', priced 0.3 2.5),
     (''gemini-2.5-flash-lite'', priced 0.1 0.4),
     (''gemini-2.0-flash'', priced 0.1 0.4),
     (''gemini-2.0-flash-lite'', priced 0.075 0.3),
     (''gemini-1.5-pro'', priced 1.25 5),
     (''gemini-1.5-flash'', priced 0.2 0.6)]"

definition glm_prices :: "(string \<times> model_pricing) list" where
  "glm_prices =
    [(''glm-5'', cached 0.2 (priced 1 3.2)),
     (''glm-5.2'', cached 0.26 (priced 1.4 4.4)),
     (''glm-5.1'', cached 0.26 (priced 1.4 4.4)),
     (''glm-5-turbo'', cached 0.24 (priced 1.2 4)),
     (''glm-5-code'', cached 0.3 (priced 1.2 5)),
     (''glm-4.7'', cached 0.11 (priced 0.6 2.2)),
     (''glm-4.7-flashx'', cached 0.01 (priced 0.07 0.4)),
     (''glm-4.7-flash'', priced 0 0),
     (''glm-4.6'', cached 0.11 (priced 0.6 2.2)),
     (''glm-4.6v'', priced 0.3 0.9),
     (''glm-ocr'', priced 0.03 0.03),
     (''glm-4.6v-flashx'', priced 0.04 0.4),
     (''glm-4.6v-flash'', priced 0 0),
     (''glm-4.5'', cached 0.11 (priced 0.6 2.2)),
     (''glm-4.5v'', priced 0.6 1.8),
     (''glm-4.5-x'', cached 0.45 (priced 2.2 8.9)),
     (''glm-4.5-air'', cached 0.03 (priced 0.2 1.1)),
     (''glm-4.5-airx'', cached 0.22 (priced 1.1 4.5)),
     (''glm-4.5-flash'', priced 0 0),
     (''glm-4-32b-0414-128k'', cached 0 (priced 0.1 0.1))]"

definition mimo_prices :: "(string \<times> model_pricing) list" where
  "mimo_prices =
    [(''mimo-v2.5-pro'', (high_context 2 6 (cached 0.2 (priced 1 3)))\<lparr>mp_cache_read_high := 0.4, mp_cache_counts := True\<rparr>),
     (''mimo-v2-pro'', (high_context 2 6 (cached 0.2 (priced 1 3)))\<lparr>mp_cache_read_high := 0.4, mp_cache_counts := True\<rparr>),
     (''mimo-v2.5'', (high_context 0.8 4 (cached 0.08 (priced 0.4 2)))\<lparr>mp_cache_read_high := 0.16, mp_cache_counts := True\<rparr>),
     (''mimo-v2-omni'', cached 0.08 (priced 0.4 2)),
     (''mimo-v2.5-flash'', cached 0.01 (priced 0.1 0.3)),
     (''mimo-v2-flash'', cached 0.01 (priced 0.1 0.3))]"

definition cerebras_prices :: "(string \<times> model_pricing) list" where
  "cerebras_prices =
    [(''zai-glm-4.7'', priced 2.25 2.75),
     (''gemma-4-31b'', priced 0.99 1.49),
     (''cerebras-gpt-oss-120b'', priced 0.35 0.75)]"

definition kimi_prices :: "(string \<times> model_pricing) list" where
  "kimi_prices =
    [(''kimi-dev-72b'', priced 0.29 1.15),
     (''kimi-dev-72b:free'', priced 0 0),
     (''kimi-k2'', priced 0.57 2.3),
     (''kimi-k2-0905'', cached 0.5 (priced 0.6 2.5)),
     (''kimi-k2-0905:exacto'', cached 0.15 (priced 0.6 2.5)),
     (''kimi-k2-thinking'', cached 0.15 (priced 0.6 2.5)),
     (''kimi-k2.5'', cached 0.07 (priced 0.4 1.9)),
     (''kimi-k2.6'', cached 0.15 (priced 0.73 3.4)),
     (''kimi-k2:free'', priced 0 0),
     (''kimi-linear-48b-a3b-instruct'', priced 0.7 0.9),
     (''kimi-vl-a3b-thinking'', priced 0.02 0.08),
     (''kimi-vl-a3b-thinking:free'', priced 0 0)]"

definition qwen_prices :: "(string \<times> model_pricing) list" where
  "qwen_prices =
    [(''qwen3-max'', no_pricing\<lparr>mp_tiers := qwen3_max_tiers\<rparr>),
     (''qwen3-max-2026-01-23'', no_pricing\<lparr>mp_tiers := qwen3_max_tiers\<rparr>),
     (''qwen3-max-2025-09-23'', no_pricing\<lparr>mp_tiers := qwen3_max_tiers\<rparr>),
     (''qwen3-max-preview'', no_pricing\<lparr>mp_tiers := qwen3_max_tiers\<rparr>),
     (''qwen-max'', priced 1.6 6.4),
     (''qwen-max-latest'', priced 1.6 6.4),
     (''qwen-max-2025-01-25'', priced 1.6 6.4),
     (''qwen3.5-plus'', high_context 0.5 3 (priced 0.4 2.4)),
     (''qwen3.5-plus-2026-02-15'', high_context 0.5 3 (priced 0.4 2.4)),
     (''qwen-plus'', high_context 1.2 3.6 (priced 0.4 1.2)),
     (''qwen-plus-latest'', high_context 1.2 3.6 (priced 0.4 1.2)),
     (''qwen-plus-2025-12-01'', high_context 1.2 3.6 (priced 0.4 1.2)),
     (''qwen-plus-2025-09-11'', high_context 1.2 3.6 (priced 0.4 1.2)),
     (''qwen-plus-2025-07-28'', high_context 1.2 3.6 (priced 0.4 1.2)),
     (''qwen-plus:thinking'', high_context 1.2 12 (priced 0.4 4)),
     (''qwen-plus-latest:thinking'', high_context 1.2 12 (priced 0.4 4)),
     (''qwen-plus-2025-12-01:thinking'', high_context 1.2 12 (priced 0.4 4)),
     (''qwen-plus-2025-09-11:thinking'', high_context 1.2 12 (priced 0.4 4)),
     (''qwen-plus-2025-07-28:thinking'', high_context 1.2 12 (priced 0.4 4)),
     (''qwen-plus-2025-07-14'', priced 0.4 1.2),
     (''qwen-plus-2025-07-14:thinking'', priced 0.4 4),
     (''qwen-plus-2025-04-28'', priced 0.4 1.2),
     (''qwen-plus-2025-04-28:thinking'', priced 0.4 4),
     (''qwen-plus-2025-01-25'', priced 0.4 1.2),
     (''qwen3.5-flash'', priced 0.1 0.4),
     (''qwen3.5-flash-2026-02-23'', priced 0.1 0.4),
     (''qwen-flash'', no_pricing\<lparr>mp_tiers := qwen_flash_tiers\<rparr>),
     (''qwen-flash-2025-07-28'', no_pricing\<lparr>mp_tiers := qwen_flash_tiers\<rparr>),
     (''qwen-turbo'', priced 0.05 0.2),
     (''qwen-turbo-latest'', priced 0.05 0.2),
     (''qwen-turbo-2025-04-28'', priced 0.05 0.2),
     (''qwen-turbo-2024-11-01'', priced 0.05 0.2),
     (''qwen-vl-max'', priced 0.8 3.2),
     (''qwen-vl-max-latest'', priced 0.8 3.2),
     (''qwen-vl-max-2025-08-13'', priced 0.8 3.2),
     (''qwen-vl-max-2025-04-08'', priced 0.8 3.2),
     (''qwen-vl-plus'', priced 0.21 0.63),
     (''qwen-vl-plus-latest'', priced 0.21 0.63),
     (''qwen-vl-plus-2025-08-15'', priced 0.21 0.63),
     (''qwen-vl-plus-2025-05-07'', priced 0.21 0.63),
     (''qwen-vl-plus-2025-01-25'', priced 0.21 0.63),
     (''qwen3-vl-plus'', no_pricing\<lparr>mp_tiers := qwen3_vl_plus_tiers\<rparr>),
     (''qwen3-vl-plus-2025-12-19'', no_pricing\<lparr>mp_tiers := qwen3_vl_plus_tiers\<rparr>),
     (''qwen3-vl-plus-2025-09-23'', no_pricing\<lparr>mp_tiers := qwen3_vl_plus_tiers\<rparr>),
     (''qwen3-vl-flash'', no_pricing\<lparr>mp_tiers := qwen3_vl_flash_tiers\<rparr>),
     (''qwen3-vl-flash-2026-01-22'', no_pricing\<lparr>mp_tiers := qwen3_vl_flash_tiers\<rparr>),
     (''qwen3-vl-flash-2025-10-15'', no_pricing\<lparr>mp_tiers := qwen3_vl_flash_tiers\<rparr>),
     (''qwen3-coder-plus'', no_pricing\<lparr>mp_tiers := qwen3_coder_plus_tiers\<rparr>),
     (''qwen3-coder-plus-2025-09-23'', no_pricing\<lparr>mp_tiers := qwen3_coder_plus_tiers\<rparr>),
     (''qwen3-coder-plus-2025-07-22'', no_pricing\<lparr>mp_tiers := qwen3_coder_plus_tiers\<rparr>),
     (''qwen3-coder-flash'', no_pricing\<lparr>mp_tiers := qwen3_coder_flash_tiers\<rparr>),
     (''qwen3-coder-flash-2025-07-28'', no_pricing\<lparr>mp_tiers := qwen3_coder_flash_tiers\<rparr>),
     (''qwen3-coder-next'', no_pricing\<lparr>mp_tiers := qwen3_coder_next_tiers\<rparr>),
     (''qwen3-coder-480b-a35b-instruct'', no_pricing\<lparr>mp_tiers := qwen3_coder_480b_tiers\<rparr>),
     (''qwen3-coder-30b-a3b-instruct'', no_pricing\<lparr>mp_tiers := qwen3_coder_30b_tiers\<rparr>),
     (''qwen3-next-80b-a3b-thinking'', priced 0.15 1.2),
     (''qwen3-next-80b-a3b-instruct'', priced 0.15 1.2),
     (''qwen3-235b-a22b-thinking-2507'', priced 0.23 2.3),
     (''qwen3-235b-a22b-instruct-2507'', priced 0.23 0.92),
     (''qwen3-235b-a22b-2507'', priced 0.23 0.92),
     (''qwen3-30b-a3b-thinking-2507'', priced 0.2 2.4),
     (''qwen3-30b-a3b-instruct-2507'', priced 0.2 0.8),
     (''qwen3-235b-a22b'', priced 0.7 2.8),
     (''qwen3-235b-a22b:thinking'', priced 0.7 8.4),
     (''qwen3-32b'', priced 0.16 0.64),
     (''qwen3-30b-a3b'', priced 0.2 0.8),
     (''qwen3-30b-a3b:thinking'', priced 0.2 2.4),
     (''qwen3-14b'', priced 0.35 1.4),
     (''qwen3-8b'', priced 0.18 0.7),
     (''qwen3-4b'', priced 0.11 0.42),
     (''qwen3-1.7b'', priced 0.11 0.42),
     (''qwen3-0.6b'', priced 0.11 0.42),
     (''qwen3.5-397b-a17b'', priced 0.6 3.6),
     (''qwen3.5-122b-a10b'', priced 0.4 3.2),
     (''qwen3.5-27b'', priced 0.3 2.4),
     (''qwen3.5-35b-a3b'', priced 0.25 2),
     (''qwen2.5-14b-instruct-1m'', priced 0.805 3.22),
     (''qwen2.5-7b-instruct-1m'', priced 0.368 1.47),
     (''qwen2.5-72b-instruct'', priced 1.4 5.6),
     (''qwen2.5-32b-instruct'', priced 0.7 2.8),
     (''qwen2.5-14b-instruct'', priced 0.35 1.4),
     (''qwen2.5-7b-instruct'', priced 0.175 0.7),
     (''qwen3-vl-235b-a22b-thinking'', priced 0.4 4),
     (''qwen3-vl-235b-a22b-instruct'', priced 0.4 1.6),
     (''qwen3-vl-32b-thinking'', priced 0.16 0.64),
     (''qwen3-vl-32b-instruct'', priced 0.16 0.64),
     (''qwen3-vl-30b-a3b-thinking'', priced 0.2 2.4),
     (''qwen3-vl-30b-a3b-instruct'', priced 0.2 0.8),
     (''qwen3-vl-8b-thinking'', priced 0.18 2.1),
     (''qwen3-vl-8b-instruct'', priced 0.18 0.7),
     (''qwen2.5-vl-72b-instruct'', priced 2.8 8.4),
     (''qwen2.5-vl-32b-instruct'', priced 1.4 4.2),
     (''qwen2.5-vl-7b-instruct'', priced 0.35 1.05),
     (''qwen2.5-vl-3b-instruct'', priced 0.21 0.63),
     (''qwen-2-72b-instruct'', priced 0.9 0.9),
     (''qwen-2.5-72b-instruct:free'', priced 0 0),
     (''qwen-2.5-coder-32b-instruct'', priced 0.03 0.11),
     (''qwen-2.5-coder-32b-instruct:free'', priced 0 0),
     (''qwen-2.5-vl-7b-instruct:free'', priced 0 0),
     (''qwen2.5-coder-7b-instruct'', priced 0.03 0.09),
     (''qwen2.5-vl-32b-instruct:free'', priced 0 0),
     (''qwen2.5-vl-72b-instruct:free'', priced 0 0),
     (''qwen3-14b:free'', priced 0 0),
     (''qwen3-235b-a22b-2507:free'', priced 0 0),
     (''qwen3-235b-a22b:free'', priced 0 0),
     (''qwen3-30b-a3b:free'', priced 0 0),
     (''qwen3-4b:free'', priced 0 0),
     (''qwen3-8b:free'', priced 0 0),
     (''qwen3-coder'', priced 0.22 1),
     (''qwen3-coder:exacto'', priced 0.22 1.8),
     (''qwen3-coder:free'', priced 0 0),
     (''qwen3-next-80b-a3b-instruct:free'', priced 0 0),
     (''qwen3.6-plus'', high_context 2 6 (priced 0.5 3)),
     (''qwen3.6-plus-2026-04-02'', high_context 2 6 (priced 0.5 3)),
     (''qwen3.6-plus:free'', priced 0 0),
     (''qwen3.6-plus-preview:free'', priced 0 0),
     (''qwen3-max-thinking'', no_pricing\<lparr>mp_tiers := qwen3_max_tiers\<rparr>),
     (''qwq-32b'', priced 0.15 0.25),
     (''qwq-32b-preview'', priced 0.2 0.2),
     (''qwq-32b:free'', priced 0 0)]"

definition deepseek_prices :: "(string \<times> model_pricing) list" where
  "deepseek_prices =
    [(''deepseek-r1-distill-llama-70b'', priced 0.7 0.8),
     (''deepseek-r1-distill-llama-8b'', priced 0.04 0.04),
     (''deepseek-r1-0528-qwen3-8b'', priced 0.06 0.09),
     (''deepseek-r1-distill-qwen-14b'', priced 0.15 0.15),
     (''deepseek-r1-distill-qwen-32b'', priced 0.29 0.29),
     (''deepseek-r1-distill-qwen-7b'', priced 0.1 0.2),
     (''deepseek-r1-distill-qwen-1.5b'', priced 0.18 0.18),
     (''deepseek-r1'', priced 0.7 2.5),
     (''deepseek-r1-0528'', cached 0.35 (priced 0.5 2.15)),
     (''deepseek-chat'', priced 0.32 0.89),
     (''deepseek-chat-v3-0324'', cached 0.11 (priced 0.2 0.77)),
     (''deepseek-chat-v3.1'', cached 0.13 (priced 0.21 0.79)),
     (''deepseek-v3-base'', priced 0.2 0.8),
     (''deepseek-v3.1-base'', priced 0.25 1),
     (''deepseek-v3.1-terminus'', cached 0.13 (priced 0.27 0.95)),
     (''deepseek-v3.2'', cached 0.0252 (priced 0.252 0.378)),
     (''deepseek-v3.2-exp'', cached 0.27 (priced 0.27 0.41)),
     (''deepseek-v3.2-speciale'', cached 0.058 (priced 0.287 0.431)),
     (''deepseek-v4-flash'', cached 0.0028 (priced 0.112 0.224)),
     (''deepseek-v4-pro'', cached 0.0036 (priced 0.435 0.87)),
     (''deepseek-prover-v2'', priced 0.5 2.18)]"

definition grok_prices :: "(string \<times> model_pricing) list" where
  "grok_prices =
    [(''grok-4.5'', grok45_pricing),
     (''grok-4.3'', grok420_pricing),
     (''grok-4.20'', grok420_pricing),
     (''grok-4.20-0309-reasoning'', grok420_pricing),
     (''grok-4.20-0309-non-reasoning'', grok420_pricing),
     (''grok-4.20-multi-agent-0309'', grok420_pricing),
     (''grok-4.20-beta'', grok420_pricing),
     (''grok-4.20-multi-agent'', grok420_pricing),
     (''grok-4.20-multi-agent-beta'', grok420_pricing),
     (''grok-4.1-fast'', cached 0.05 (priced 0.2 0.5)),
     (''grok-4'', cached 0.75 (priced 3 15)),
     (''grok-4-fast'', cached 0.05 (priced 0.2 0.5)),
     (''grok-build-0.1'', grok_build_pricing),
     (''grok-3'', cached 0.75 (priced 3 15)),
     (''grok-3-beta'', cached 0.75 (priced 3 15)),
     (''grok-3-mini'', cached 0.075 (priced 0.3 0.5)),
     (''grok-3-mini-beta'', cached 0.075 (priced 0.3 0.5)),
     (''grok-2'', priced 2 10),
     (''grok-2-1212'', priced 2 10),
     (''grok-2-vision-1212'', priced 2 10),
     (''grok-2-mini'', priced 0.2 0.5),
     (''grok-code-fast'', grok_build_pricing),
     (''grok-code-fast-1'', grok_build_pricing),
     (''grok-vision-beta'', priced 5 15),
     (''grok-2-image-1212'', no_pricing\<lparr>mp_fixed := 0.07\<rparr>),
     (''grok-imagine-image'', no_pricing\<lparr>mp_fixed := 0.02\<rparr>),
     (''grok-imagine-image-quality'', no_pricing\<lparr>mp_fixed := 0.05\<rparr>),
     (''grok-imagine-image-pro'', no_pricing\<lparr>mp_fixed := 0.07\<rparr>),
     (''search_call'', no_pricing\<lparr>mp_fixed := 0.01\<rparr>)]"

definition minimax_prices :: "(string \<times> model_pricing) list" where
  "minimax_prices =
    [(''minimax-01'', priced 0.2 1.1),
     (''minimax-m1'', priced 0.4 2.2),
     (''minimax-m2'', cached 0.03 (priced 0.255 1)),
     (''minimax-m2-her'', cached 0.03 (priced 0.3 1.2)),
     (''minimax-m2.1'', cached 0.03 (priced 0.29 0.95)),
     (''minimax-m2.5'', cached 0.027 (priced 0.15 0.9)),
     (''minimax-m2.7'', cached 0.059 (priced 0.279 1.2)),
     (''minimax-m3'', (high_context 0.6 2.4 (cached 0.06 (priced 0.3 1.2)))\<lparr>mp_cache_read_high := 0.12\<rparr>)]"

definition longcat_prices :: "(string \<times> model_pricing) list" where
  "longcat_prices =
    [(''longcat-flash-chat'', cached 0.2 (priced 0.2 0.8)),
     (''longcat-flash-chat:free'', priced 0 0),
     (''longcat-flash-thinking'', priced 0.2 0.8),
     (''longcat-flash-thinking-2601'', priced 0.2 0.8),
     (''longcat-flash-lite'', priced 0 0),
     (''longcat-flash-omni-2603'', priced 0.2 0.8),
     (''longcat-flash-chat-2602-exp'', priced 0.2 0.8)]"

definition llama_prices :: "(string \<times> model_pricing) list" where
  "llama_prices =
    [(''llama-3.2-3b-instruct'', priced 0.0509 0.335),
     (''llama-3.2-1b-instruct'', priced 0.027 0.201),
     (''llama-3.1-8b-instruct'', cached 0.025 (priced 0.02 0.05)),
     (''llama-guard-3-8b'', priced 0.484 0.03),
     (''llama-3-8b-instruct'', priced 0.04 0.04),
     (''llama-3.3-70b-instruct'', cached 0.11 (priced 0.1 0.32)),
     (''llama-3.2-11b-vision-instruct'', priced 0.245 0.245),
     (''llama-guard-4-12b'', priced 0.18 0.18),
     (''llama-4-scout'', priced 0.08 0.3),
     (''llama-3.1-70b-instruct'', cached 0.8 (priced 0.4 0.4)),
     (''llama-4-maverick'', cached 0.17 (priced 0.15 0.6)),
     (''llama-guard-2-8b'', priced 0.2 0.2),
     (''llama-3-70b-instruct'', priced 0.51 0.74),
     (''llama-3.2-90b-vision-instruct'', priced 0.35 0.4),
     (''llama-3.1-405b-instruct'', priced 4 4),
     (''llama-3.1-405b'', priced 4 4)]"

definition oss_prices :: "(string \<times> model_pricing) list" where
  "oss_prices =
    [(''gpt-oss-20b'', cached 0.02 (priced 0.03 0.14)),
     (''gpt-oss-120b'', cached 0.055 (priced 0.039 0.18)),
     (''gpt-oss-120b:exacto'', cached 0.04 (priced 0.039 0.19)),
     (''gpt-oss-safeguard-20b'', cached 0.037 (priced 0.075 0.3))]"

definition base_pricing :: "(string \<times> model_pricing) list" where
  "base_pricing =
    claude_prices @
    gpt5_prices @
    gpt4_prices @
    audio_prices @
    image_prices @
    o_series_prices @
    other_openai_prices @
    gemini_prices @
    glm_prices @
    mimo_prices @
    cerebras_prices @
    kimi_prices @
    qwen_prices @
    deepseek_prices @
    grok_prices @
    minimax_prices @
    longcat_prices @
    llama_prices @
    oss_prices"

definition model_aliases :: "(string \<times> string) list" where
  "model_aliases =
    [(''claude-sonnet-4-5-20250929'', ''claude-sonnet-4-5''),
     (''claude-haiku-4-5-20251001'', ''claude-haiku-4-5''),
     (''claude-opus-4-1-20250805'', ''claude-opus-4-1''),
     (''claude-sonnet-4-20250514'', ''claude-sonnet-4-0''),
     (''claude-opus-4-20250514'', ''claude-opus-4-0''),
     (''claude-3-7-sonnet-20250219'', ''claude-3-7-sonnet''),
     (''claude-3-7-sonnet-latest'', ''claude-3-7-sonnet''),
     (''claude-3-5-sonnet-20241022'', ''claude-3-5-sonnet''),
     (''claude-3-5-sonnet-20240620'', ''claude-3-5-sonnet''),
     (''claude-3-5-sonnet-latest'', ''claude-3-5-sonnet''),
     (''claude-3-5-haiku-20241022'', ''claude-3-5-haiku''),
     (''claude-3-5-haiku-latest'', ''claude-3-5-haiku''),
     (''claude-3-opus-20240229'', ''claude-3-opus''),
     (''claude-3-opus-latest'', ''claude-3-opus''),
     (''claude-3-sonnet-20240229'', ''claude-3-sonnet''),
     (''claude-3-sonnet-latest'', ''claude-3-sonnet''),
     (''claude-3-haiku-20240307'', ''claude-3-haiku''),
     (''claude-3-haiku-latest'', ''claude-3-haiku''),
     (''gpt-5.1'', ''gpt-5''),
     (''gpt-5.1-chat-latest'', ''gpt-5''),
     (''gpt-5-chat-latest'', ''gpt-5''),
     (''gpt-5.1-codex'', ''gpt-5''),
     (''gpt-5-codex'', ''gpt-5''),
     (''gpt-5.1-codex-mini'', ''gpt-5-mini''),
     (''gpt-5-search-api'', ''gpt-5''),
     (''gpt-4o-2024-05-13'', ''gpt-4o-legacy''),
     (''chatgpt-4o-latest'', ''gpt-4o-legacy''),
     (''gpt-4o-mini-search-preview'', ''gpt-4o-mini''),
     (''gpt-4o-search-preview'', ''gpt-4o''),
     (''gpt-4-turbo-2024-04-09'', ''gpt-4-turbo''),
     (''gpt-4-0125-preview'', ''gpt-4-turbo''),
     (''gpt-4-1106-preview'', ''gpt-4-turbo''),
     (''gpt-4-1106-vision-preview'', ''gpt-4-turbo''),
     (''gpt-4-0613'', ''gpt-4''),
     (''gpt-4-0314'', ''gpt-4''),
     (''gpt-4-32k-0613'', ''gpt-4-32k''),
     (''gpt-3.5-turbo-0125'', ''gpt-3.5-turbo''),
     (''gpt-3.5-turbo-1106'', ''gpt-3.5-legacy''),
     (''gpt-3.5-turbo-0613'', ''gpt-3.5-legacy''),
     (''gpt-3.5-0301'', ''gpt-3.5-legacy''),
     (''gpt-3.5-turbo-instruct'', ''gpt-3.5-legacy''),
     (''gpt-3.5-turbo-16k-0613'', ''gpt-3.5-16k''),
     (''o4-mini-deep-research'', ''o3-deep-research''),
     (''gemini-claude-opus-4-6-thinking'', ''claude-opus-4-6''),
     (''gemini-claude-opus-4-5-thinking'', ''claude-opus-4-5''),
     (''gemini-claude-sonnet-4-5-thinking'', ''claude-sonnet-4-5''),
     (''gemini-claude-sonnet-4-5'', ''claude-sonnet-4-5''),
     (''deepseek-v3'', ''deepseek-chat''),
     (''grok-4.3-latest'', ''grok-4.3''),
     (''grok-4.5-latest'', ''grok-4.5''),
     (''grok-beta'', ''grok-3''),
     (''grok-build-latest'', ''grok-4.5''),
     (''grok-code-fast'', ''grok-build-0.1''),
     (''grok-code-fast-1'', ''grok-build-0.1''),
     (''grok-code-fast-1-0825'', ''grok-build-0.1''),
     (''grok-latest'', ''grok-4.3''),
     (''qwen-3.5-plus'', ''qwen3.5-plus''),
     (''qwen-3.5-plus-2026-02-15'', ''qwen3.5-plus-2026-02-15''),
     (''qwen-3.6-plus'', ''qwen3.6-plus''),
     (''qwen-3.6-plus-2026-04-02'', ''qwen3.6-plus-2026-04-02''),
     (''qwen-3-32b'', ''qwen3-32b''),
     (''qwen-3-4b'', ''qwen3-4b''),
     (''qwen-3-8b'', ''qwen3-8b''),
     (''qwen-3-14b'', ''qwen3-14b''),
     (''qwen-3-235b-a22b-instruct-2507'', ''qwen3-235b-a22b-instruct-2507''),
     (''qwen-2.5-72b-instruct'', ''qwen2.5-72b-instruct''),
     (''qwen-2.5-7b-instruct'', ''qwen2.5-7b-instruct''),
     (''qwen-2.5-vl-7b-instruct'', ''qwen2.5-vl-7b-instruct''),
     (''zai-glm-4.6'', ''glm-4.6''),
     (''llama3.1-8b'', ''llama-3.1-8b-instruct''),
     (''llama-3.3-70b'', ''llama-3.3-70b-instruct''),
     (''gpt-oss:120b'', ''gpt-oss-120b''),
     (''gpt-oss:20b'', ''gpt-oss-20b''),
     (''qwen3-vl-235b'', ''qwen3-vl-235b-a22b-instruct''),
     (''qwen3-vl:235b'', ''qwen3-vl-235b-a22b-instruct''),
     (''qwen3-vl-235b-instruct'', ''qwen3-vl-235b-a22b-instruct''),
     (''qwen3-vl:235b-instruct'', ''qwen3-vl-235b-a22b-instruct''),
     (''qwen3-vl-235b-thinking'', ''qwen3-vl-235b-a22b-thinking''),
     (''qwen3-vl:235b-thinking'', ''qwen3-vl-235b-a22b-thinking''),
     (''qwen3-coder-480b'', ''qwen3-coder-480b-a35b-instruct''),
     (''qwen3-coder:480b'', ''qwen3-coder-480b-a35b-instruct''),
     (''qwen3-coder:next'', ''qwen3-coder-next'')]"

section \<open>The table is sound\<close>

text \<open>
  What every row has to satisfy: no price is negative, a high price is not below the ordinary one,
  the tiers ascend in their bounds and in their prices, only the last one may be unbounded, and a
  model billed by request has no other price.
\<close>

fun ascending_tiers :: "token_pricing_tier list \<Rightarrow> bool" where
  "ascending_tiers [] \<longleftrightarrow> True"
| "ascending_tiers [t] \<longleftrightarrow> 0 \<le> tp_max_input t \<and> 0 \<le> tp_input t \<and> 0 \<le> tp_output t \<and> 0 \<le> tp_cache_read t"
| "ascending_tiers (t # u # ts) \<longleftrightarrow> 0 < tp_max_input t \<and>
     (tp_max_input u = 0 \<or> tp_max_input t < tp_max_input u) \<and>
     0 \<le> tp_input t \<and> tp_input t \<le> tp_input u \<and> 0 \<le> tp_output t \<and> tp_output t \<le> tp_output u \<and>
     0 \<le> tp_cache_read t \<and> tp_cache_read t \<le> tp_cache_read u \<and>
     tp_has_cache_read t = tp_has_cache_read u \<and> ascending_tiers (u # ts)"

definition sound_pricing :: "model_pricing \<Rightarrow> bool" where
  "sound_pricing p \<longleftrightarrow> 0 \<le> mp_input p \<and> 0 \<le> mp_output p \<and> 0 \<le> mp_cache_read p \<and> 0 \<le> mp_fixed p \<and>
     0 \<le> mp_cache_read_high p \<and> (0 < mp_cache_read_high p \<longrightarrow> mp_cache_read p \<le> mp_cache_read_high p) \<and>
     (0 < mp_input_high p \<longrightarrow> mp_input p \<le> mp_input_high p \<and> mp_output p \<le> mp_output_high p) \<and>
     (0 < mp_fixed p \<longrightarrow> p = no_pricing\<lparr>mp_fixed := mp_fixed p\<rparr>) \<and> ascending_tiers (mp_tiers p)"

lemmas tier_tables = gpt56_sol_tiers_def gpt56_terra_tiers_def gpt56_luna_tiers_def qwen3_max_tiers_def
  qwen_flash_tiers_def qwen3_vl_plus_tiers_def qwen3_vl_flash_tiers_def qwen3_coder_plus_tiers_def
  qwen3_coder_flash_tiers_def qwen3_coder_next_tiers_def qwen3_coder_480b_tiers_def qwen3_coder_30b_tiers_def
  grok45_pricing_def grok420_pricing_def grok_build_pricing_def

abbreviation all_sound :: "(string \<times> model_pricing) list \<Rightarrow> bool" where
  "all_sound \<equiv> list_all (\<lambda>row. sound_pricing (snd row))"

lemma claude_sound: "all_sound claude_prices"
  by (simp add: claude_prices_def sound_pricing_def pricing_defs tier_tables)

lemma gpt5_sound: "all_sound gpt5_prices"
  by (simp add: gpt5_prices_def sound_pricing_def pricing_defs tier_tables)

lemma gpt4_sound: "all_sound gpt4_prices"
  by (simp add: gpt4_prices_def sound_pricing_def pricing_defs tier_tables)

lemma audio_sound: "all_sound audio_prices"
  by (simp add: audio_prices_def sound_pricing_def pricing_defs tier_tables)

lemma image_sound: "all_sound image_prices"
  by (simp add: image_prices_def sound_pricing_def pricing_defs tier_tables)

lemma o_series_sound: "all_sound o_series_prices"
  by (simp add: o_series_prices_def sound_pricing_def pricing_defs tier_tables)

lemma other_openai_sound: "all_sound other_openai_prices"
  by (simp add: other_openai_prices_def sound_pricing_def pricing_defs tier_tables)

lemma gemini_sound: "all_sound gemini_prices"
  by (simp add: gemini_prices_def sound_pricing_def pricing_defs tier_tables)

lemma glm_sound: "all_sound glm_prices"
  by (simp add: glm_prices_def sound_pricing_def pricing_defs tier_tables)

lemma mimo_sound: "all_sound mimo_prices"
  by (simp add: mimo_prices_def sound_pricing_def pricing_defs tier_tables)

lemma cerebras_sound: "all_sound cerebras_prices"
  by (simp add: cerebras_prices_def sound_pricing_def pricing_defs tier_tables)

lemma kimi_sound: "all_sound kimi_prices"
  by (simp add: kimi_prices_def sound_pricing_def pricing_defs tier_tables)

lemma qwen_sound: "all_sound qwen_prices"
  by (simp add: qwen_prices_def sound_pricing_def pricing_defs tier_tables)

lemma deepseek_sound: "all_sound deepseek_prices"
  by (simp add: deepseek_prices_def sound_pricing_def pricing_defs tier_tables)

lemma grok_sound: "all_sound grok_prices"
  by (simp add: grok_prices_def sound_pricing_def pricing_defs tier_tables)

lemma minimax_sound: "all_sound minimax_prices"
  by (simp add: minimax_prices_def sound_pricing_def pricing_defs tier_tables)

lemma longcat_sound: "all_sound longcat_prices"
  by (simp add: longcat_prices_def sound_pricing_def pricing_defs tier_tables)

lemma llama_sound: "all_sound llama_prices"
  by (simp add: llama_prices_def sound_pricing_def pricing_defs tier_tables)

lemma oss_sound: "all_sound oss_prices"
  by (simp add: oss_prices_def sound_pricing_def pricing_defs tier_tables)

lemma base_pricing_sound: "all_sound base_pricing"
  unfolding base_pricing_def list_all_append
  using claude_sound gpt5_sound gpt4_sound audio_sound image_sound o_series_sound other_openai_sound gemini_sound
    glm_sound mimo_sound cerebras_sound kimi_sound qwen_sound deepseek_sound grok_sound minimax_sound
    longcat_sound llama_sound oss_sound by simp

end
