(* ===== verification/Model_Pricing.thy ===== *)
theory Model_Pricing
  imports Price_Table "HOL-Library.AList" "HOL-Library.List_Lexorder" "HOL-Library.Product_Lexorder"
    "HOL-Library.Char_ord"
begin

text \<open>
  Which price a model has: the lookup of \<open>internal/util/model_pricing_catalog.go\<close> by name, by alias and
  by prefix, and the catalogue of \<open>internal/util/models_dev_catalog.go\<close> that is laid over the compiled
  table.

  The active snapshot is an argument; the program sets it before anything reads it, so it is never
  nil.  A map that the code ranges over is an association list, its order is the order in which the
  loop meets the entries.  The JSON of the catalogue is given by its decoded values.
\<close>

section \<open>Catalogue and snapshot\<close>

record model_catalog_entry =
  me_id :: string
  me_provider :: string
  me_release_date :: string
  me_last_updated :: string
  me_status :: string
  me_output_modalities :: "string list"
  me_pricing :: model_pricing

record model_catalog =
  mc_version :: int
  mc_source :: string
  mc_etag :: string
  mc_fetched_at :: time
  mc_skipped_models :: int
  mc_models :: "model_catalog_entry list"

datatype prefix_match = Prefix_Match (pm_prefix: string) (pm_target: string)

text \<open>The order of the buckets: longer prefixes first, then by prefix and by target.\<close>

definition match_key :: "prefix_match \<Rightarrow> int \<times> string \<times> string" where
  "match_key m = (- int (length (pm_prefix m)), pm_prefix m, pm_target m)"

lemma match_key_inject: "match_key m = match_key m' \<longleftrightarrow> m = m'"
  by (cases m; cases m') (auto simp: match_key_def)

instantiation prefix_match :: linorder
begin

definition less_eq_prefix_match :: "prefix_match \<Rightarrow> prefix_match \<Rightarrow> bool" where
  "less_eq_prefix_match m m' \<longleftrightarrow> match_key m \<le> match_key m'"

definition less_prefix_match :: "prefix_match \<Rightarrow> prefix_match \<Rightarrow> bool" where
  "less_prefix_match m m' \<longleftrightarrow> match_key m < match_key m'"

instance
  by intro_classes (auto simp: less_eq_prefix_match_def less_prefix_match_def match_key_inject [symmetric])

end

lemma match_le_length: "m \<le> m' \<Longrightarrow> length (pm_prefix m') \<le> length (pm_prefix m)"
  by (auto simp: less_eq_prefix_match_def match_key_def less_eq_prod_def)

record pricing_snapshot =
  ps_pricing :: "(string \<times> model_pricing) list"
  ps_aliases :: "(string \<times> string) list"
  ps_matches :: "prefix_match list"
  ps_metadata :: "(string \<times> model_catalog_entry) list"
  ps_remote_etag :: string
  ps_remote_skipped :: int

text \<open>\<open>prefixBuckets\<close> is the sorted list split by the first byte of the prefix.\<close>

definition build_prefix_matches ::
    "(string \<times> model_pricing) list \<Rightarrow> (string \<times> string) list \<Rightarrow> prefix_match list" where
  "build_prefix_matches pricing aliases =
     filter (\<lambda>m. pm_prefix m \<noteq> '''')
       (sort (map (\<lambda>(i, p). Prefix_Match i i) pricing @ map (\<lambda>(a, t). Prefix_Match a t) aliases))"

definition prefix_bucket :: "pricing_snapshot \<Rightarrow> char \<Rightarrow> prefix_match list" where
  "prefix_bucket s c = filter (\<lambda>m. hd (pm_prefix m) = c) (ps_matches s)"

definition overlay_remote_pricing :: "model_pricing \<Rightarrow> model_pricing \<Rightarrow> model_pricing" where
  "overlay_remote_pricing embedded remote =
     (let p = embedded\<lparr>mp_input := mp_input remote, mp_output := mp_output remote\<rparr>;
          p = (if mp_has_cache_read remote
               then p\<lparr>mp_cache_read := mp_cache_read remote, mp_has_cache_read := True\<rparr> else p)
      in if mp_tiers remote \<noteq> []
         then p\<lparr>mp_tiers := mp_tiers remote, mp_cache_counts := mp_cache_counts remote,
                mp_input_high := 0, mp_output_high := 0, mp_cache_read_high := 0\<rparr>
         else p)"

definition price_of :: "(string \<times> model_pricing) list \<Rightarrow> string \<Rightarrow> model_pricing" where
  "price_of pricing i = (case map_of pricing i of None \<Rightarrow> no_pricing | Some p \<Rightarrow> p)"

primrec overlay_models ::
    "(string \<times> model_pricing) list \<Rightarrow> (string \<times> string) list \<Rightarrow> (string \<times> model_catalog_entry) list \<Rightarrow>
      model_catalog_entry list \<Rightarrow>
      (string \<times> model_pricing) list \<times> (string \<times> string) list \<times> (string \<times> model_catalog_entry) list" where
  "overlay_models pricing aliases metadata [] = (pricing, aliases, metadata)"
| "overlay_models pricing aliases metadata (e # es) =
     overlay_models
       (AList.update (me_id e) (overlay_remote_pricing (price_of pricing (me_id e)) (me_pricing e)) pricing)
       (AList.delete (me_id e) aliases) (AList.update (me_id e) e metadata) es"

definition build_pricing_snapshot :: "model_catalog option \<Rightarrow> pricing_snapshot" where
  "build_pricing_snapshot catalog =
     (case (case catalog of None \<Rightarrow> (base_pricing, model_aliases, [])
            | Some c \<Rightarrow> overlay_models base_pricing model_aliases [] (mc_models c)) of
        (pricing, aliases, metadata) \<Rightarrow>
          \<lparr>ps_pricing = pricing, ps_aliases = aliases, ps_matches = build_prefix_matches pricing aliases,
           ps_metadata = metadata,
           ps_remote_etag = (case catalog of None \<Rightarrow> '''' | Some c \<Rightarrow> mc_etag c),
           ps_remote_skipped = (case catalog of None \<Rightarrow> 0 | Some c \<Rightarrow> mc_skipped_models c)\<rparr>)"

section \<open>Lookup\<close>

definition lookup_pricing :: "pricing_snapshot \<Rightarrow> string \<Rightarrow> model_pricing option" where
  "lookup_pricing s m =
     map_of (ps_pricing s) (case map_of (ps_aliases s) m of Some t \<Rightarrow> t | None \<Rightarrow> m)"

text \<open>The last colon becomes a hyphen, unless it is the first or the last byte.\<close>

definition colon_size_tag_to_hyphen :: "string \<Rightarrow> string" where
  "colon_size_tag_to_hyphen m =
     (case find_index (\<lambda>c. c = CHR '':'') (rev m) of
        None \<Rightarrow> ''''
      | Some k \<Rightarrow>
          let i = length m - 1 - k
          in if i = 0 \<or> i = length m - 1 then '''' else take i m @ ''-'' @ drop (i + 1) m)"

definition get_pricing :: "pricing_snapshot \<Rightarrow> string \<Rightarrow> model_pricing option" where
  "get_pricing s name =
     (let m = to_lower (trim_space name)
      in if m = '''' then None
         else case lookup_pricing s m of
           Some p \<Rightarrow> Some p
         | None \<Rightarrow>
             let alt = colon_size_tag_to_hyphen m in if alt \<noteq> '''' then lookup_pricing s alt else None)"

primrec first_match :: "(string \<times> model_pricing) list \<Rightarrow> string \<Rightarrow> prefix_match list \<Rightarrow> model_pricing option" where
  "first_match pricing m [] = None"
| "first_match pricing m (x # xs) =
     (if prefix (pm_prefix x) m \<and> map_of pricing (pm_target x) \<noteq> None then map_of pricing (pm_target x)
      else first_match pricing m xs)"

definition fuzzy_match_raw :: "pricing_snapshot \<Rightarrow> string \<Rightarrow> model_pricing option" where
  "fuzzy_match_raw s m =
     (if m = '''' then None else first_match (ps_pricing s) m (prefix_bucket s (hd m)))"

definition fuzzy_match_model :: "pricing_snapshot \<Rightarrow> string \<Rightarrow> model_pricing option" where
  "fuzzy_match_model s name =
     (let m = to_lower (trim_space name)
      in if m = '''' then None
         else case fuzzy_match_raw s m of
           Some p \<Rightarrow> Some p
         | None \<Rightarrow>
             let alt = colon_size_tag_to_hyphen m in if alt \<noteq> '''' then fuzzy_match_raw s alt else None)"

definition has_model_pricing :: "pricing_snapshot \<Rightarrow> string \<Rightarrow> bool" where
  "has_model_pricing s m \<longleftrightarrow> get_pricing s m \<noteq> None \<or> fuzzy_match_model s m \<noteq> None"

definition resolve_billing_model :: "pricing_snapshot \<Rightarrow> string \<Rightarrow> string \<Rightarrow> string" where
  "resolve_billing_model s actual request =
     (let a = trim_space actual; r = trim_space request
      in if a = '''' then r
         else if has_model_pricing s a then a
         else if r \<noteq> '''' \<and> r \<noteq> a \<and> has_model_pricing s r then r
         else a)"


section \<open>The catalogue of models.dev\<close>

definition catalog_schema_version :: int where "catalog_schema_version = 1"

definition official_providers :: "string list" where
  "official_providers = [''openai'', ''anthropic'', ''google'', ''xai'', ''deepseek'', ''alibaba'',
     ''zai'', ''minimax'', ''moonshotai'', ''xiaomi'', ''mistral'']"

record dev_tier =
  dt_type :: string
  dt_size :: int

record dev_cost_tier =
  dc_input :: "real option"
  dc_output :: "real option"
  dc_cache_read :: "real option"
  dc_tier :: "dev_tier option"

record dev_cost =
  co_input :: "real option"
  co_output :: "real option"
  co_cache_read :: "real option"
  co_tiers :: "dev_cost_tier list"

record dev_model =
  dm_id :: string
  dm_release_date :: string
  dm_last_updated :: string
  dm_status :: string
  dm_output :: "string list"
  dm_cost :: "dev_cost option"

record dev_provider =
  dp_id :: string
  dp_models :: "(string \<times> dev_model) list"

definition valid_price :: "real \<Rightarrow> bool" where
  "valid_price v \<longleftrightarrow> v \<ge> 0"

text \<open>A missing price is not valid; an absent cache price is.\<close>

definition valid_opt :: "real option \<Rightarrow> bool" where
  "valid_opt v = (case v of None \<Rightarrow> False | Some x \<Rightarrow> valid_price x)"

definition with_cache_price :: "real option \<Rightarrow> token_pricing_tier \<Rightarrow> token_pricing_tier" where
  "with_cache_price c t =
     (case c of None \<Rightarrow> t | Some x \<Rightarrow> t\<lparr>tp_cache_read := x, tp_has_cache_read := True\<rparr>)"

primrec context_tiers :: "dev_cost_tier list \<Rightarrow> (int \<times> token_pricing_tier) list option" where
  "context_tiers [] = Some []"
| "context_tiers (raw # raws) =
     (case dc_tier raw of
        None \<Rightarrow> context_tiers raws
      | Some t \<Rightarrow>
          if dt_type t \<noteq> ''context'' then context_tiers raws
          else if dt_size t \<le> 0 \<or> \<not> valid_opt (dc_input raw) \<or> \<not> valid_opt (dc_output raw)
          then None
          else if dc_cache_read raw \<noteq> None \<and> \<not> valid_opt (dc_cache_read raw) then None
          else map_option (\<lambda>ts. (dt_size t, with_cache_price (dc_cache_read raw)
                 (tier 0 (the (dc_input raw)) (the (dc_output raw)))) # ts) (context_tiers raws))"

text \<open>Every tier but the last is bounded by the size of the next.\<close>

fun close_tiers :: "(int \<times> token_pricing_tier) list \<Rightarrow> token_pricing_tier list" where
  "close_tiers [] = []"
| "close_tiers [(n, t)] = [t]"
| "close_tiers ((n, t) # (k, u) # ts) = t\<lparr>tp_max_input := k\<rparr> # close_tiers ((k, u) # ts)"

definition normalize_context_tiers :: "dev_cost \<Rightarrow> model_pricing \<Rightarrow> token_pricing_tier list option" where
  "normalize_context_tiers cost base =
     (case context_tiers (co_tiers cost) of
        None \<Rightarrow> None
      | Some [] \<Rightarrow> Some []
      | Some (x # xs) \<Rightarrow>
          let ts = sort_key fst (x # xs)
          in if \<not> distinct (map fst ts) then None
             else Some (\<lparr>tp_max_input = fst (hd ts), tp_input = mp_input base, tp_output = mp_output base,
                         tp_cache_read = mp_cache_read base, tp_has_cache_read = mp_has_cache_read base\<rparr>
                        # close_tiers ts))"

definition dev_model_id :: "string \<Rightarrow> dev_model \<Rightarrow> string" where
  "dev_model_id provider raw =
     (let i = trim_space (dm_id raw);
          pre = provider @ ''/'';
          i = (if prefix pre (to_lower i) then drop (length pre) i else i)
      in to_lower (trim_space i))"

definition dev_base_price :: "dev_cost \<Rightarrow> model_pricing" where
  "dev_base_price cost =
     (let base = priced (the (co_input cost)) (the (co_output cost))
      in case co_cache_read cost of None \<Rightarrow> base | Some c \<Rightarrow> cached c base)"

definition normalize_dev_model :: "string \<Rightarrow> dev_model \<Rightarrow> model_catalog_entry option" where
  "normalize_dev_model provider raw =
     (case dm_cost raw of
        None \<Rightarrow> None
      | Some cost \<Rightarrow>
          if dev_model_id provider raw = '''' \<or> \<not> valid_opt (co_input cost) \<or> \<not> valid_opt (co_output cost)
          then None
          else if co_cache_read cost \<noteq> None \<and> \<not> valid_opt (co_cache_read cost) then None
          else
            (case normalize_context_tiers cost (dev_base_price cost) of
               None \<Rightarrow> None
             | Some ts \<Rightarrow>
                 Some \<lparr>me_id = dev_model_id provider raw, me_provider = provider,
                       me_release_date = dm_release_date raw,
                       me_last_updated = dm_last_updated raw, me_status = dm_status raw,
                       me_output_modalities = dm_output raw,
                       me_pricing = (dev_base_price cost)\<lparr>mp_tiers := ts,
                         mp_cache_counts := (provider = ''openai'' \<and> ts \<noteq> [])\<rparr>\<rparr>))"

datatype catalog_error =
  Missing_Provider string
| Mismatched_Provider string string
| No_Valid_Models string
| No_Models
| Unsupported_Version int
| Empty_Source
| Negative_Skipped
| Empty_Id
| Unsupported_Provider string string
| Invalid_Price string
| Invalid_Tier string
| Non_Final_Open_Tier string
| Unordered_Tiers string
| Duplicate_Id string

text \<open>The entries of one provider: those kept, new ones last, and how many were skipped.\<close>

definition add_models ::
    "string \<Rightarrow> dev_model list \<Rightarrow> (string \<times> model_catalog_entry) list \<Rightarrow> (string \<times> model_catalog_entry) list" where
  "add_models provider raws found =
     foldl (\<lambda>found raw. case normalize_dev_model provider raw of
         None \<Rightarrow> found
       | Some e \<Rightarrow> if map_of found (me_id e) = None then found @ [(me_id e, e)] else found) found raws"

definition valid_models :: "string \<Rightarrow> dev_model list \<Rightarrow> nat" where
  "valid_models provider raws = length (filter (\<lambda>r. normalize_dev_model provider r \<noteq> None) raws)"

primrec parse_providers ::
    "(string \<Rightarrow> dev_provider option) \<Rightarrow> string list \<Rightarrow> (string \<times> model_catalog_entry) list \<Rightarrow> int \<Rightarrow>
      catalog_error + (string \<times> model_catalog_entry) list \<times> int" where
  "parse_providers ps [] found skipped = Inr (found, skipped)"
| "parse_providers ps (p # rest) found skipped =
     (case ps p of
        None \<Rightarrow> Inl (Missing_Provider p)
      | Some raw \<Rightarrow>
          if to_lower (trim_space (dp_id raw)) \<noteq> p then Inl (Mismatched_Provider p (dp_id raw))
          else let raws = map snd (sort_key fst (dp_models raw)); n = valid_models p raws
            in if n = 0 then Inl (No_Valid_Models p)
               else parse_providers ps rest (add_models p raws found)
                      (skipped + int (length raws - n)))"

definition parse_models_dev_catalog ::
    "(string \<Rightarrow> dev_provider option) \<Rightarrow> string \<Rightarrow> time \<Rightarrow> catalog_error + model_catalog" where
  "parse_models_dev_catalog ps etag fetched =
     (case parse_providers ps official_providers [] 0 of
        Inl e \<Rightarrow> Inl e
      | Inr (found, skipped) \<Rightarrow>
          if found = [] then Inl No_Models
          else Inr \<lparr>mc_version = catalog_schema_version, mc_source = ''models.dev'', mc_etag = etag,
                    mc_fetched_at = fetched, mc_skipped_models = skipped,
                    mc_models = sort_key me_id (map snd found)\<rparr>)"

definition catalog_model :: "model_catalog \<Rightarrow> string \<Rightarrow> model_catalog_entry option" where
  "catalog_model c i = find (\<lambda>e. me_id e = to_lower (trim_space i)) (mc_models c)"

section \<open>Installing a catalogue\<close>

primrec validate_tiers :: "string \<Rightarrow> int option \<Rightarrow> token_pricing_tier list \<Rightarrow> catalog_error option" where
  "validate_tiers i before [] = None"
| "validate_tiers i before (t # ts) =
     (if tp_max_input t < 0 \<or> \<not> valid_price (tp_input t) \<or> \<not> valid_price (tp_output t) \<or>
         \<not> valid_price (tp_cache_read t) then Some (Invalid_Tier i)
      else if tp_max_input t = 0 \<and> ts \<noteq> [] then Some (Non_Final_Open_Tier i)
      else if (case before of None \<Rightarrow> False | Some b \<Rightarrow> tp_max_input t \<noteq> 0 \<and> tp_max_input t \<le> b)
      then Some (Unordered_Tiers i)
      else validate_tiers i (Some (tp_max_input t)) ts)"

definition validate_catalog_entry :: "model_catalog_entry \<Rightarrow> catalog_error option" where
  "validate_catalog_entry e =
     (let p = me_pricing e
      in if me_id e = '''' then Some Empty_Id
         else if me_provider e \<notin> set official_providers
         then Some (Unsupported_Provider (me_id e) (me_provider e))
         else if \<not> list_all valid_price [mp_input p, mp_output p, mp_cache_read p, mp_cache_read_high p,
                   mp_input_high p, mp_output_high p, mp_fixed p] then Some (Invalid_Price (me_id e))
         else validate_tiers (me_id e) None (mp_tiers p))"

definition normalize_entry :: "model_catalog_entry \<Rightarrow> model_catalog_entry" where
  "normalize_entry e = e\<lparr>me_id := to_lower (trim_space (me_id e)),
     me_provider := to_lower (trim_space (me_provider e))\<rparr>"

primrec install_entries ::
    "string list \<Rightarrow> model_catalog_entry list \<Rightarrow> catalog_error + model_catalog_entry list" where
  "install_entries seen [] = Inr []"
| "install_entries seen (raw # raws) =
     (let e = normalize_entry raw
      in case validate_catalog_entry e of
           Some err \<Rightarrow> Inl err
         | None \<Rightarrow>
             if me_id e \<in> set seen then Inl (Duplicate_Id (me_id e))
             else (case install_entries (me_id e # seen) raws of
                     Inl err \<Rightarrow> Inl err | Inr es \<Rightarrow> Inr (e # es)))"

definition install_model_catalog :: "model_catalog option \<Rightarrow> string \<Rightarrow> catalog_error + pricing_snapshot" where
  "install_model_catalog catalog source =
     (case catalog of
        None \<Rightarrow> Inl No_Models
      | Some c \<Rightarrow>
          if mc_version c \<noteq> catalog_schema_version then Inl (Unsupported_Version (mc_version c))
          else if trim_space source = '''' then Inl Empty_Source
          else if mc_models c = [] then Inl No_Models
          else if mc_skipped_models c < 0 then Inl Negative_Skipped
          else (case install_entries [] (mc_models c) of
                  Inl e \<Rightarrow> Inl e
                | Inr es \<Rightarrow> Inr (build_pricing_snapshot
                    (Some (c\<lparr>mc_source := trim_space source, mc_models := sort_key me_id es\<rparr>)))))"

definition restore_embedded_catalog :: pricing_snapshot where
  "restore_embedded_catalog = build_pricing_snapshot None"

definition catalog_summary :: "pricing_snapshot \<Rightarrow> nat \<times> nat \<times> int \<times> string" where
  "catalog_summary s =
     (length (ps_metadata s), length (remdups (map (me_provider \<circ> snd) (ps_metadata s))),
      ps_remote_skipped s, ps_remote_etag s)"

end
