(* ===== verification/Pricing_Properties.thy ===== *)
theory Pricing_Properties
  imports Model_Pricing
begin

text \<open>
  What the price lookup promises: a parsed catalogue can be installed and then prices its models, the
  lookup by prefix takes the longest priced prefix, and the model that is billed has a price
  whenever one of the two candidates has.
\<close>

section \<open>Parsed entries are valid\<close>

definition tier_ok :: "token_pricing_tier \<Rightarrow> bool" where
  "tier_ok t \<longleftrightarrow> valid_price (tp_input t) \<and> valid_price (tp_output t) \<and> valid_price (tp_cache_read t)"

lemma context_tiers_ok:
  "context_tiers raws = Some ts \<Longrightarrow> \<forall>(n, t) \<in> set ts. 0 < n \<and> tier_ok t \<and> tp_max_input t = 0"
  by (induction raws arbitrary: ts)
    (auto simp: tier_ok_def tier_def with_cache_price_def valid_opt_def valid_price_def
      split: option.splits if_splits)

lemma close_tiers_validate:
  assumes "sorted (map fst ts)" and "distinct (map fst ts)"
    and "\<forall>(n, t) \<in> set ts. 0 < n \<and> tier_ok t \<and> tp_max_input t = 0"
  shows "validate_tiers i (Some (fst (hd ts))) (close_tiers ts) = None"
  using assms
  by (induction ts rule: close_tiers.induct) (auto simp: tier_ok_def)

lemma close_tiers_Nil [simp]: "close_tiers ts = [] \<longleftrightarrow> ts = []"
  by (induction ts rule: close_tiers.induct) auto

lemma normalize_context_tiers_validate:
  assumes "normalize_context_tiers cost base = Some ts"
    and "valid_price (mp_input base)" and "valid_price (mp_output base)" and "valid_price (mp_cache_read base)"
  shows "validate_tiers i None ts = None"
proof (cases "context_tiers (co_tiers cost)")
  case (Some cs)
  show ?thesis
  proof (cases cs)
    case (Cons c cs')
    let ?s = "sort_key fst cs"
    have ok: "\<forall>(n, t) \<in> set ?s. 0 < n \<and> tier_ok t \<and> tp_max_input t = 0"
      using context_tiers_ok [OF Some] by simp
    have d: "distinct (map fst ?s)"
      and ts: "ts = \<lparr>tp_max_input = fst (hd ?s), tp_input = mp_input base, tp_output = mp_output base,
        tp_cache_read = mp_cache_read base, tp_has_cache_read = mp_has_cache_read base\<rparr> # close_tiers ?s"
      using assms(1) Some Cons by (auto simp: normalize_context_tiers_def Let_def split: if_splits)
    have "?s \<noteq> []" using Cons by (metis list.distinct(1) length_0_conv length_sort)
    then have "hd ?s \<in> set ?s" by (rule hd_in_set)
    then have "0 < fst (hd ?s)" using ok by (auto simp: case_prod_beta)
    moreover have "validate_tiers i (Some (fst (hd ?s))) (close_tiers ?s) = None"
      by (rule close_tiers_validate [OF _ d ok]) simp
    ultimately show ?thesis unfolding ts using assms(2-4) by simp
  qed (use assms(1) Some in \<open>simp add: normalize_context_tiers_def\<close>)
qed (use assms(1) in \<open>simp add: normalize_context_tiers_def\<close>)

lemma normalize_dev_model_valid:
  assumes "normalize_dev_model provider raw = Some e" and "provider \<in> set official_providers"
  shows "validate_catalog_entry e = None" and "normalize_entry e = e" and "me_id e \<noteq> ''''"
    and "me_provider e = provider"
proof -
  obtain cost ts where ne: "dev_model_id provider raw \<noteq> ''''"
    and valid: "valid_opt (co_input cost)" "valid_opt (co_output cost)"
      "co_cache_read cost = None \<or> valid_opt (co_cache_read cost)"
    and ts: "normalize_context_tiers cost (dev_base_price cost) = Some ts"
    and e: "me_id e = dev_model_id provider raw" "me_provider e = provider"
      "me_pricing e = (dev_base_price cost)\<lparr>mp_tiers := ts,
        mp_cache_counts := (provider = ''openai'' \<and> ts \<noteq> [])\<rparr>"
    using assms(1) by (auto simp: normalize_dev_model_def split: option.splits if_splits)
  have i: "to_lower (trim_space (me_id e)) = me_id e"
    by (simp add: e dev_model_id_def Let_def)
  have base_ok: "list_all valid_price [mp_input (dev_base_price cost), mp_output (dev_base_price cost),
      mp_cache_read (dev_base_price cost), mp_cache_read_high (dev_base_price cost),
      mp_input_high (dev_base_price cost), mp_output_high (dev_base_price cost), mp_fixed (dev_base_price cost)]"
    using valid
    by (auto simp: valid_opt_def valid_price_def dev_base_price_def pricing_defs Let_def split: option.splits)
  then have "validate_tiers (me_id e) None ts = None"
    by (intro normalize_context_tiers_validate [OF ts]) simp_all
  then show "validate_catalog_entry e = None"
    using ne assms(2) base_ok by (simp add: validate_catalog_entry_def Let_def e)
  have "list_all (\<lambda>p. to_lower (trim_space p) = p) official_providers"
    by (simp add: official_providers_def trim_space_word plain_word_def plain_char_def to_lower_def to_lower_char_def)
  then show "normalize_entry e = e"
    using i e(2) assms(2) by (auto simp: normalize_entry_def list_all_iff)
  show "me_id e \<noteq> ''''" "me_provider e = provider" using ne e by simp_all
qed


section \<open>A parsed catalogue can be installed\<close>

text \<open>What the parser has found so far: every entry under its own id, each valid as it is.\<close>

definition found_ok :: "(string \<times> model_catalog_entry) list \<Rightarrow> bool" where
  "found_ok found \<longleftrightarrow> distinct (map fst found) \<and>
     (\<forall>(k, e) \<in> set found. me_id e = k \<and> validate_catalog_entry e = None \<and> normalize_entry e = e)"

lemma add_models_ok:
  assumes "provider \<in> set official_providers" and "found_ok found"
  shows "found_ok (add_models provider raws found)"
  using assms(2) unfolding add_models_def
proof (induction raws arbitrary: found)
  case (Cons raw raws)
  show ?case
  proof (cases "normalize_dev_model provider raw")
    case None
    then show ?thesis using Cons by simp
  next
    case (Some e)
    have "found_ok (found @ [(me_id e, e)])" if "map_of found (me_id e) = None"
      using Cons.prems that normalize_dev_model_valid [OF Some assms(1)]
      by (auto simp: found_ok_def map_of_eq_None_iff)
    then show ?thesis using Cons Some by simp
  qed
qed simp

lemma parse_providers_ok:
  assumes "parse_providers ps names found skipped = Inr (found', skipped')"
    and "set names \<subseteq> set official_providers" and "found_ok found" and "0 \<le> skipped"
  shows "found_ok found' \<and> 0 \<le> skipped'"
  using assms
  by (induction names arbitrary: found skipped)
    (auto simp: Let_def add_models_ok split: option.splits if_splits)

lemma install_entries_all:
  assumes "\<forall>e \<in> set es. validate_catalog_entry e = None \<and> normalize_entry e = e"
    and "distinct (map me_id es)" and "set seen \<inter> me_id ` set es = {}"
  shows "install_entries seen es = Inr es"
  using assms by (induction es arbitrary: seen) (auto simp: Let_def)

lemma distinct_map_iff_sort: "distinct (map f (sort_key g xs)) = distinct (map f xs)"
  by (simp add: distinct_map)

section \<open>Laying a catalogue over the table\<close>

lemma sort_key_Nil_iff [simp]: "sort_key f xs = [] \<longleftrightarrow> xs = []"
  by (metis length_0_conv length_sort)

lemma overlay_models_maps:
  assumes "overlay_models pricing aliases metadata es = (pricing', aliases', metadata')"
    and "distinct (map me_id es)"
  shows "map_of pricing' i = (case find (\<lambda>e. me_id e = i) es of
        None \<Rightarrow> map_of pricing i
      | Some e \<Rightarrow> Some (overlay_remote_pricing (price_of pricing i) (me_pricing e))) \<and>
    map_of aliases' i = (if i \<in> me_id ` set es then None else map_of aliases i)"
  using assms
proof (induction es arbitrary: pricing aliases metadata)
  case (Cons e es)
  have d: "distinct (map me_id es)" and new: "me_id e \<notin> me_id ` set es"
    using Cons.prems(2) by simp_all
  note ih = Cons.IH [OF Cons.prems(1) [simplified] d]
  have none: "find (\<lambda>x. me_id x = me_id e) es = None"
    using new by (auto simp: find_None_iff image_iff)
  show ?case
  proof (cases "me_id e = i")
    case True
    then show ?thesis using ih none by (simp add: update_conv' delete_conv')
  next
    case False
    then show ?thesis using ih by (simp add: update_conv' delete_conv' price_of_def split: option.split)
  qed
qed simp

lemma find_by_id:
  assumes "distinct (map me_id es)" and "e \<in> set es"
  shows "find (\<lambda>x. me_id x = me_id e) es = Some e"
  using assms by (induction es) (auto simp: image_iff)

text \<open>C24: A catalogue that the parser accepts is accepted by the installer, whatever its provenance, and
  every model of it is then looked up under its own id, aliases notwithstanding, with its remote
  price laid over the compiled one.\<close>

theorem parsed_catalogue_installs:
  assumes "parse_models_dev_catalog ps etag t = Inr c" and "trim_space source \<noteq> ''''"
  shows "\<exists>s. install_model_catalog (Some c) source = Inr s \<and>
    (\<forall>e \<in> set (mc_models c). get_pricing s (me_id e) =
      Some (overlay_remote_pricing (price_of base_pricing (me_id e)) (me_pricing e)))"
proof -
  obtain found skipped where f: "parse_providers ps official_providers [] 0 = Inr (found, skipped)"
      "found \<noteq> []" and c: "c = \<lparr>mc_version = catalog_schema_version, mc_source = ''models.dev'',
        mc_etag = etag, mc_fetched_at = t, mc_skipped_models = skipped,
        mc_models = sort_key me_id (map snd found)\<rparr>"
    using assms(1) by (auto simp: parse_models_dev_catalog_def split: sum.splits if_splits)
  have ok: "found_ok found" "0 \<le> skipped"
    using parse_providers_ok [OF f(1)] by (auto simp: found_ok_def)
  have ids: "map (me_id \<circ> snd) found = map fst found"
    using ok(1) by (auto simp: found_ok_def)
  have d: "distinct (map me_id (mc_models c))"
    using ok(1) by (simp add: c found_ok_def distinct_map_iff_sort ids)
  have valid: "\<forall>e \<in> set (mc_models c). validate_catalog_entry e = None \<and> normalize_entry e = e"
    using ok(1) by (auto simp: c found_ok_def)
  let ?c = "c\<lparr>mc_source := trim_space source, mc_models := sort_key me_id (mc_models c)\<rparr>"
  have inst: "install_model_catalog (Some c) source = Inr (build_pricing_snapshot (Some ?c))"
    using assms(2) f(2) ok(2) install_entries_all [OF valid d, of "[]"]
    by (simp add: install_model_catalog_def c)
  obtain p a m where lay: "overlay_models base_pricing model_aliases [] (mc_models ?c) = (p, a, m)"
    by (metis prod_cases3)
  have d': "distinct (map me_id (mc_models ?c))" using d by (simp add: distinct_map_iff_sort)
  have "get_pricing (build_pricing_snapshot (Some ?c)) (me_id e) =
      Some (overlay_remote_pricing (price_of base_pricing (me_id e)) (me_pricing e))"
    if e: "e \<in> set (mc_models c)" for e
  proof -
    have "me_id e \<noteq> ''''" and "to_lower (trim_space (me_id e)) = me_id e"
      using valid e by (auto simp: validate_catalog_entry_def normalize_entry_def Let_def
        dest!: arg_cong [where f = me_id] split: if_splits)
    then show ?thesis
      using overlay_models_maps [OF lay d', of "me_id e"] find_by_id [OF d', of e] e
      by (auto simp: get_pricing_def lookup_pricing_def build_pricing_snapshot_def lay [simplified] Let_def)
  qed
  then show ?thesis using inst by blast
qed


text \<open>A catalogue with one priced model of each official provider.\<close>

definition example_dev_model :: "string \<Rightarrow> dev_model" where
  "example_dev_model p = \<lparr>dm_id = p @ ''-m'', dm_release_date = '''', dm_last_updated = '''', dm_status = '''',
     dm_output = [], dm_cost = Some \<lparr>co_input = Some 2, co_output = Some 8, co_cache_read = None, co_tiers = []\<rparr>\<rparr>"

definition example_providers :: "string \<Rightarrow> dev_provider option" where
  "example_providers p = (if p \<in> set official_providers
     then Some \<lparr>dp_id = p, dp_models = [(''m'', example_dev_model p)]\<rparr> else None)"

lemma example_words:
  "p \<in> set official_providers \<Longrightarrow> plain_word p \<and> to_lower p = p \<and> plain_word (p @ ''-m'') \<and>
    \<not> prefix (p @ ''/'') (p @ ''-m'')"
  by (auto simp: official_providers_def plain_word_def plain_char_def to_lower_def to_lower_char_def)

lemma example_model_valid:
  "p \<in> set official_providers \<Longrightarrow> normalize_dev_model p (example_dev_model p) \<noteq> None"
  using example_words [of p]
  by (auto simp: example_dev_model_def normalize_dev_model_def dev_model_id_def trim_space_word valid_opt_def
      valid_price_def normalize_context_tiers_def to_lower_def to_lower_char_def Let_def)

lemma example_parse_providers:
  assumes "set names \<subseteq> set official_providers"
  shows "\<exists>f k. parse_providers example_providers names found skipped = Inr (f, k) \<and>
    (found \<noteq> [] \<or> names \<noteq> [] \<longrightarrow> f \<noteq> [])"
  using assms
proof (induction names arbitrary: found skipped)
  case (Cons p names)
  have p: "p \<in> set official_providers" using Cons.prems by simp
  have "add_models p [example_dev_model p] found \<noteq> []"
    using example_model_valid [OF p] by (auto simp: add_models_def split: if_splits)
  moreover have "valid_models p [example_dev_model p] = 1"
    using example_model_valid [OF p] by (simp add: valid_models_def)
  ultimately show ?case
    using Cons.IH [of "add_models p [example_dev_model p] found" skipped] Cons.prems example_words [OF p]
    by (auto simp: example_providers_def trim_space_word)
qed simp

lemma example_parses: "\<exists>c. parse_models_dev_catalog example_providers ''e1'' 0 = Inr c"
  using example_parse_providers [of official_providers "[]" 0]
  by (auto simp: parse_models_dev_catalog_def official_providers_def)

theorem parsed_catalogue_installs_witness:
  "\<exists>c s. parse_models_dev_catalog example_providers ''e1'' 0 = Inr c \<and> install_model_catalog (Some c) ''sync'' = Inr s"
proof -
  have "trim_space ''sync'' \<noteq> ''''" by (simp add: trim_space_word plain_word_def plain_char_def)
  then show ?thesis using example_parses parsed_catalogue_installs by blast
qed

section \<open>Lookup by prefix\<close>

lemma first_match_Some:
  assumes "first_match pricing m xs = Some p" and "sorted xs"
  shows "\<exists>x \<in> set xs. prefix (pm_prefix x) m \<and> map_of pricing (pm_target x) = Some p \<and>
    (\<forall>y \<in> set xs. prefix (pm_prefix y) m \<and> map_of pricing (pm_target y) \<noteq> None \<longrightarrow>
      length (pm_prefix y) \<le> length (pm_prefix x))"
  using assms
proof (induction xs)
  case (Cons x xs)
  show ?case
  proof (cases "prefix (pm_prefix x) m \<and> map_of pricing (pm_target x) \<noteq> None")
    case True
    have "length (pm_prefix y) \<le> length (pm_prefix x)" if "y \<in> set xs" for y
      using Cons.prems(2) that by (intro match_le_length) simp
    then show ?thesis using True Cons.prems(1) by (intro bexI [of _ x]) auto
  next
    case False
    then obtain z where "z \<in> set xs" "prefix (pm_prefix z) m" "map_of pricing (pm_target z) = Some p"
        "\<forall>y \<in> set xs. prefix (pm_prefix y) m \<and> map_of pricing (pm_target y) \<noteq> None \<longrightarrow>
          length (pm_prefix y) \<le> length (pm_prefix z)"
      using Cons by (auto split: if_splits)
    then show ?thesis using False by (intro bexI [of _ z]) auto
  qed
qed simp

lemma first_match_None:
  "first_match pricing m xs = None \<longleftrightarrow>
    (\<forall>x \<in> set xs. prefix (pm_prefix x) m \<longrightarrow> map_of pricing (pm_target x) = None)"
  by (induction xs) auto

lemma prefix_bucket_all:
  assumes "m \<noteq> ''''" and "\<forall>x \<in> set (ps_matches s). pm_prefix x \<noteq> ''''"
  shows "x \<in> set (prefix_bucket s (hd m)) \<and> prefix (pm_prefix x) m \<longleftrightarrow>
    x \<in> set (ps_matches s) \<and> prefix (pm_prefix x) m"
  using assms by (cases m) (auto simp: prefix_bucket_def neq_Nil_conv)

lemma snapshot_matches:
  assumes "s = build_pricing_snapshot catalog"
  shows "sorted (ps_matches s)" and "\<forall>x \<in> set (ps_matches s). pm_prefix x \<noteq> ''''"
    and "set (ps_matches s) = {x. pm_prefix x \<noteq> '''' \<and> ((\<exists>i. x = Prefix_Match i i \<and> i \<in> fst ` set (ps_pricing s)) \<or>
      (\<exists>a t. x = Prefix_Match a t \<and> (a, t) \<in> set (ps_aliases s)))}"
proof -
  have "ps_matches s = build_prefix_matches (ps_pricing s) (ps_aliases s)"
    unfolding assms build_pricing_snapshot_def by (simp split: prod.split)
  then show "sorted (ps_matches s)" and "\<forall>x \<in> set (ps_matches s). pm_prefix x \<noteq> ''''"
    and "set (ps_matches s) = {x. pm_prefix x \<noteq> '''' \<and> ((\<exists>i. x = Prefix_Match i i \<and> i \<in> fst ` set (ps_pricing s)) \<or>
      (\<exists>a t. x = Prefix_Match a t \<and> (a, t) \<in> set (ps_aliases s)))}"
    using sorted_filter [of id "sort (map (\<lambda>(i, p). Prefix_Match i i) (ps_pricing s) @
      map (\<lambda>(a, t). Prefix_Match a t) (ps_aliases s))"]
    by (simp_all add: build_prefix_matches_def) force+
qed

text \<open>A name that is not priced exactly takes the price of its longest prefix: of all model ids and
  aliases that are prefixes of the name and lead to a price, none is longer than the one taken, and
  there is no price only when there is no such prefix.\<close>

theorem fuzzy_match_takes_longest_prefix:
  assumes "m \<noteq> ''''" and s: "s = build_pricing_snapshot catalog"
  shows "case fuzzy_match_raw s m of
      Some p \<Rightarrow> \<exists>x \<in> set (ps_matches s). prefix (pm_prefix x) m \<and> map_of (ps_pricing s) (pm_target x) = Some p \<and>
        (\<forall>y \<in> set (ps_matches s). prefix (pm_prefix y) m \<and> map_of (ps_pricing s) (pm_target y) \<noteq> None \<longrightarrow>
          length (pm_prefix y) \<le> length (pm_prefix x))
    | None \<Rightarrow> \<forall>i \<in> fst ` set (ps_pricing s). i = '''' \<or> \<not> prefix i m"
proof -
  note all = prefix_bucket_all [OF assms(1) snapshot_matches(2) [OF s]]
  have sorted: "sorted (prefix_bucket s (hd m))"
    using sorted_filter [of id "ps_matches s"] snapshot_matches(1) [OF s] by (simp add: prefix_bucket_def)
  show ?thesis
  proof (cases "fuzzy_match_raw s m")
    case (Some p)
    then have "first_match (ps_pricing s) m (prefix_bucket s (hd m)) = Some p"
      using assms(1) by (simp add: fuzzy_match_raw_def)
    from first_match_Some [OF this sorted] show ?thesis using all Some by (simp, meson)
  next
    case None
    then have none: "first_match (ps_pricing s) m (prefix_bucket s (hd m)) = None"
      using assms(1) by (simp add: fuzzy_match_raw_def)
    have "i = '''' \<or> \<not> prefix i m" if "i \<in> fst ` set (ps_pricing s)" for i
    proof (rule ccontr)
      assume "\<not> (i = '''' \<or> \<not> prefix i m)"
      moreover have "map_of (ps_pricing s) i \<noteq> None" using that by (simp add: map_of_eq_None_iff)
      ultimately show False
        using none all [of "Prefix_Match i i"] that unfolding first_match_None snapshot_matches(3) [OF s] by force
    qed
    then show ?thesis using None by simp
  qed
qed


theorem fuzzy_match_takes_longest_prefix_witness:
  "case fuzzy_match_raw restore_embedded_catalog ''gpt-4o-2030-01-01'' of
      Some p \<Rightarrow> \<exists>x \<in> set (ps_matches restore_embedded_catalog). prefix (pm_prefix x) ''gpt-4o-2030-01-01'' \<and>
        map_of (ps_pricing restore_embedded_catalog) (pm_target x) = Some p \<and>
        (\<forall>y \<in> set (ps_matches restore_embedded_catalog).
          prefix (pm_prefix y) ''gpt-4o-2030-01-01'' \<and>
          map_of (ps_pricing restore_embedded_catalog) (pm_target y) \<noteq> None \<longrightarrow>
          length (pm_prefix y) \<le> length (pm_prefix x))
    | None \<Rightarrow> \<forall>i \<in> fst ` set (ps_pricing restore_embedded_catalog). i = '''' \<or> \<not> prefix i ''gpt-4o-2030-01-01''"
  by (rule fuzzy_match_takes_longest_prefix [OF _ restore_embedded_catalog_def]) simp

section \<open>The model that is billed\<close>

lemma has_pricing_trim [simp]: "has_model_pricing s (trim_space m) = has_model_pricing s m"
  by (simp add: has_model_pricing_def get_pricing_def fuzzy_match_model_def)

lemma no_name_no_pricing [simp]: "\<not> has_model_pricing s ''''"
  by (simp add: has_model_pricing_def get_pricing_def fuzzy_match_model_def)

text \<open>The model that is billed has a price exactly when the model that was sent or the one that was asked
  for has one, and it is the one that was sent whenever that has a price.\<close>

theorem billed_model_is_priced:
  "(has_model_pricing s (resolve_billing_model s actual request) \<longleftrightarrow>
     has_model_pricing s actual \<or> has_model_pricing s request) \<and>
   (has_model_pricing s actual \<longrightarrow> resolve_billing_model s actual request = trim_space actual)"
proof -
  have blank: "\<not> has_model_pricing s x" if "trim_space x = ''''" for x
    using that has_pricing_trim [of s x] by simp
  have same: "has_model_pricing s x = has_model_pricing s y" if "trim_space x = trim_space y" for x y
    using that has_pricing_trim by metis
  show ?thesis using blank [of actual] blank [of request] same [of request actual]
    by (auto simp: resolve_billing_model_def Let_def)
qed

section \<open>An alias that hides a price\<close>

lemma embedded_tables [simp]:
  "ps_pricing restore_embedded_catalog = base_pricing" "ps_aliases restore_embedded_catalog = model_aliases"
  by (simp_all add: restore_embedded_catalog_def build_pricing_snapshot_def)

text \<open>
  The alias \<open>o4-mini-deep-research\<close> leads to \<open>o3-deep-research\<close>, noted as having the same price, although
  the table has its own row for the name: that row is never used, and the model is billed at five
  times its price.
\<close>

theorem alias_hides_price:
  "map_of base_pricing ''o4-mini-deep-research'' = Some (priced 2 8) \<and>
   lookup_pricing restore_embedded_catalog ''o4-mini-deep-research'' = Some (priced 10 40)"
proof -
  have redirect: "map_of model_aliases ''o4-mini-deep-research'' = Some ''o3-deep-research''"
    by (simp add: model_aliases_def)
  have rows: "map_of o_series_prices ''o4-mini-deep-research'' = Some (priced 2 8)"
    "map_of o_series_prices ''o3-deep-research'' = Some (priced 10 40)"
    by (simp_all add: o_series_prices_def)
  have earlier: "map_of claude_prices k = None" "map_of gpt5_prices k = None" "map_of gpt4_prices k = None"
      "map_of audio_prices k = None" "map_of image_prices k = None"
    if "k \<in> {''o4-mini-deep-research'', ''o3-deep-research''}" for k
    using that unfolding claude_prices_def gpt5_prices_def gpt4_prices_def audio_prices_def image_prices_def
    by (elim insertE emptyE; simp)+
  have "map_of base_pricing k = map_of o_series_prices k"
    if k: "k \<in> {''o4-mini-deep-research'', ''o3-deep-research''}" for k
  proof -
    obtain p where "map_of o_series_prices k = Some p" using k rows by auto
    then show ?thesis unfolding base_pricing_def map_of_append map_add_def using earlier [OF k] by simp
  qed
  then show ?thesis using rows redirect by (simp add: lookup_pricing_def)
qed

end
