(* ===== verification/Request_Cost.thy ===== *)
theory Request_Cost
  imports Pricing_Properties
begin

text \<open>
  The cost of a request, \<open>internal/util/cost_calculator.go\<close>: the standard cost with its tiers, cache prices
  and service tiers, the fast mode, and the image generation tool.

  Token counts are integers and amounts are real numbers: the rounding of \<open>float64\<close> is not modelled.
  The snapshot of the prices is an argument.
\<close>

section \<open>Components of a cost\<close>

record cost_component =
  cc_price :: real
  cc_quantity :: int
  cc_cost :: real

record cost_breakdown =
  cb_input :: cost_component
  cb_output :: cost_component
  cb_cache_read :: cost_component
  cb_cache_write :: cost_component
  cb_total :: real
  cb_multiplier :: real

record token_usage =
  tu_input :: int
  tu_output :: int
  tu_cache_read :: int
  tu_cache_5m :: int
  tu_cache_1h :: int

definition no_component :: cost_component where
  "no_component = \<lparr>cc_price = 0, cc_quantity = 0, cc_cost = 0\<rparr>"

definition no_cost :: cost_breakdown where
  "no_cost = \<lparr>cb_input = no_component, cb_output = no_component, cb_cache_read = no_component,
     cb_cache_write = no_component, cb_total = 0, cb_multiplier = 0\<rparr>"

definition new_cost_component :: "int \<Rightarrow> real \<Rightarrow> cost_component" where
  "new_cost_component quantity price =
     \<lparr>cc_price = price, cc_quantity = quantity, cc_cost = of_int quantity * price / 1000000\<rparr>"

definition cache_read_multiplier_claude :: real where "cache_read_multiplier_claude = 0.1"
definition cache_read_multiplier_opus :: real where "cache_read_multiplier_opus = 0.1"
definition cache_write_5m_multiplier :: real where "cache_write_5m_multiplier = 1.25"
definition cache_write_1h_multiplier :: real where "cache_write_1h_multiplier = 2"

definition new_cache_write_component :: "int \<Rightarrow> int \<Rightarrow> real \<Rightarrow> cost_component" where
  "new_cache_write_component cache_5m cache_1h price =
     (let quantity = cache_5m + cache_1h;
          cost = (of_int cache_5m * price * cache_write_5m_multiplier +
                  of_int cache_1h * price * cache_write_1h_multiplier) / 1000000
      in \<lparr>cc_price = (if quantity > 0 then cost * 1000000 / of_int quantity else 0),
          cc_quantity = quantity, cc_cost = cost\<rparr>)"

definition scale_component :: "real \<Rightarrow> cost_component \<Rightarrow> cost_component" where
  "scale_component k c = c\<lparr>cc_price := cc_price c * k, cc_cost := cc_cost c * k\<rparr>"

definition scale_cost_breakdown :: "cost_breakdown \<Rightarrow> real \<Rightarrow> cost_breakdown" where
  "scale_cost_breakdown b k =
     (if k = 1 then b
      else b\<lparr>cb_input := scale_component k (cb_input b), cb_output := scale_component k (cb_output b),
             cb_cache_read := scale_component k (cb_cache_read b),
             cb_cache_write := scale_component k (cb_cache_write b), cb_total := cb_total b * k\<rparr>)"

section \<open>Families of models\<close>

definition gemini_long_context_threshold :: int where "gemini_long_context_threshold = 200000"
definition qwen_plus_tier_threshold :: int where "qwen_plus_tier_threshold = 256000"
definition gpt54_tier_threshold :: int where "gpt54_tier_threshold = 272000"
definition minimax_m3_tier_threshold :: int where "minimax_m3_tier_threshold = 512000"

definition has_prefix_in :: "string list \<Rightarrow> string \<Rightarrow> bool" where
  "has_prefix_in ps m \<longleftrightarrow> list_ex (\<lambda>p. prefix p m) ps"

definition tier_threshold_for :: "string \<Rightarrow> int" where
  "tier_threshold_for name =
     (let m = to_lower name
      in if has_prefix_in [''gpt-5.5'', ''gpt-5.4''] m then gpt54_tier_threshold
         else if prefix ''minimax-m3'' m then minimax_m3_tier_threshold
         else if has_prefix_in [''qwen3.5-plus'', ''qwen-3.5-plus'', ''qwen3.6-plus'', ''qwen-3.6-plus'',
                ''qwen-plus'', ''mimo-''] m then qwen_plus_tier_threshold
         else gemini_long_context_threshold)"

definition is_openai_model :: "string \<Rightarrow> bool" where
  "is_openai_model name =
     (let m = to_lower name
      in has_prefix_in [''gpt-'', ''o1'', ''o3'', ''o4'', ''chatgpt-'', ''davinci-'', ''babbage-'', ''codex-''] m \<or>
         m = ''computer-use-preview'')"

definition is_opus_model :: "string \<Rightarrow> bool" where
  "is_opus_model name = str_contains (to_lower name) ''opus''"

definition is_fast_mode_model :: "string \<Rightarrow> bool" where
  "is_fast_mode_model name = prefix ''claude-opus-4-6'' (to_lower name)"

definition openai_cache_multiplier :: "string \<Rightarrow> real" where
  "openai_cache_multiplier name =
     (let m = to_lower name
      in if prefix ''gpt-5'' m then 0.1
         else if prefix ''gpt-4.1'' m then 0.25
         else if prefix ''o3'' m \<and> \<not> str_contains m ''mini'' then 0.25
         else if prefix ''o4'' m then 0.25
         else if prefix ''codex-mini'' m then 0.25
         else 0.5)"

definition service_tier_models :: "string list" where
  "service_tier_models = [''gpt-5.6'', ''gpt-5.6-sol'', ''gpt-5.6-terra'', ''gpt-5.6-luna'', ''gpt-5.5'', ''gpt-5.4'',
     ''gpt-5.4-mini'', ''gpt-5.4-nano'', ''gpt-5.3-codex'', ''gpt-5.2'', ''gpt-5.2-codex'', ''gpt-5.1'',
     ''gpt-5.1-codex-max'', ''gpt-5.1-codex'', ''gpt-5'', ''gpt-5-mini'', ''gpt-5-codex'', ''gpt-4.1'',
     ''gpt-4.1-mini'', ''gpt-4.1-nano'', ''gpt-4o'', ''gpt-4o-2024-05-13'', ''gpt-4o-mini'', ''o3'', ''o4-mini'']"

text \<open>The part before the last hyphen and the part after it.\<close>

fun split_last_hyphen :: "string \<Rightarrow> (string \<times> string) option" where
  "split_last_hyphen [] = None"
| "split_last_hyphen (c # cs) =
     (case split_last_hyphen cs of
        Some (a, b) \<Rightarrow> Some (c # a, b)
      | None \<Rightarrow> if c = CHR ''-'' then Some ([], cs) else None)"

lemma split_last_hyphen_length: "split_last_hyphen m = Some (a, b) \<Longrightarrow> m = a @ CHR ''-'' # b"
  by (induction m arbitrary: a) (auto split: option.splits if_splits)

text \<open>The loop that drops suffixes whose first byte is a digit.\<close>

function strip_dates :: "string \<Rightarrow> bool" where
  "strip_dates m =
     (case split_last_hyphen m of
        None \<Rightarrow> False
      | Some (a, b) \<Rightarrow>
          if a = '''' then False
          else if b = '''' \<or> \<not> (CHR ''0'' \<le> hd b \<and> hd b \<le> CHR ''9'') then False
          else if a \<in> set service_tier_models then True
          else strip_dates a)"
  by pat_completeness auto
termination
  by (relation "measure length") (auto dest: split_last_hyphen_length)

declare strip_dates.simps [simp del]

definition model_supports_tier :: "string \<Rightarrow> bool" where
  "model_supports_tier name =
     (let m = to_lower name in if m \<in> set service_tier_models then True else strip_dates m)"

definition openai_fast_mode_multiplier :: "string \<Rightarrow> real" where
  "openai_fast_mode_multiplier name =
     (let m = to_lower name
      in if prefix ''gpt-5.6'' m \<or> prefix ''gpt-5.5'' m then 2.5
         else if prefix ''gpt-5.4'' m then 2 else 1)"

definition openai_service_tier_multiplier :: "string \<Rightarrow> string \<Rightarrow> real" where
  "openai_service_tier_multiplier name service =
     (if service = '''' \<or> service = ''default'' then 1
      else if \<not> model_supports_tier name then 1
      else if service = ''priority''
      then let k = openai_fast_mode_multiplier name in if k \<noteq> 1 then k else 2
      else if service = ''flex'' then 0.5
      else if service = ''fast'' then openai_fast_mode_multiplier name
      else 1)"

section \<open>The standard cost\<close>

primrec find_tier :: "int \<Rightarrow> token_pricing_tier list \<Rightarrow> token_pricing_tier option" where
  "find_tier n [] = None"
| "find_tier n (t # ts) = (if tp_max_input t = 0 \<or> n \<le> tp_max_input t then Some t else find_tier n ts)"

definition select_token_pricing_tier :: "token_pricing_tier list \<Rightarrow> int \<Rightarrow> token_pricing_tier" where
  "select_token_pricing_tier tiers n =
     (if tiers = [] then tier 0 0 0
      else case find_tier n tiers of Some t \<Rightarrow> t | None \<Rightarrow> last tiers)"

definition negative_usage :: "token_usage \<Rightarrow> bool" where
  "negative_usage u \<longleftrightarrow> tu_input u < 0 \<or> tu_output u < 0 \<or> tu_cache_read u < 0 \<or> tu_cache_5m u < 0 \<or> tu_cache_1h u < 0"

text \<open>The prices that apply: input, output, and for tokens read from the cache.\<close>

definition family_cache_multiplier :: "string \<Rightarrow> real" where
  "family_cache_multiplier name =
     (if is_openai_model name then openai_cache_multiplier name
      else if is_opus_model name then cache_read_multiplier_opus
      else cache_read_multiplier_claude)"

definition prices_for :: "string \<Rightarrow> model_pricing \<Rightarrow> token_usage \<Rightarrow> real \<times> real \<times> real" where
  "prices_for name p u =
     (let n = (if mp_cache_counts p then tu_input u + tu_cache_read u else tu_input u);
          tiered = mp_tiers p \<noteq> [];
          t = (if tiered then select_token_pricing_tier (mp_tiers p) n else tier 0 0 0);
          high = (\<not> tiered \<and> mp_input_high p > 0 \<and> n > tier_threshold_for name);
          input = (if tiered then tp_input t else if high then mp_input_high p else mp_input p);
          output = (if tiered then tp_output t else if high then mp_output_high p else mp_output p);
          cache = (if tiered \<and> tp_has_cache_read t then tp_cache_read t
                   else if \<not> mp_has_cache_read p then input * family_cache_multiplier name
                   else if high \<and> mp_cache_read_high p > 0 then mp_cache_read_high p
                   else mp_cache_read p)
      in (input, output, cache))"

definition pricing_for :: "pricing_snapshot \<Rightarrow> string \<Rightarrow> model_pricing option" where
  "pricing_for s name =
     (case get_pricing s name of Some p \<Rightarrow> Some p | None \<Rightarrow> fuzzy_match_model s name)"

definition total_of :: "cost_breakdown \<Rightarrow> real" where
  "total_of b = cc_cost (cb_input b) + cc_cost (cb_output b) + cc_cost (cb_cache_read b) + cc_cost (cb_cache_write b)"

definition cost_breakdown_detailed :: "pricing_snapshot \<Rightarrow> string \<Rightarrow> token_usage \<Rightarrow> cost_breakdown" where
  "cost_breakdown_detailed s name u =
     (if negative_usage u then no_cost
      else case pricing_for s name of
        None \<Rightarrow> no_cost
      | Some p \<Rightarrow>
          (case prices_for name p u of
             (input, output, cache) \<Rightarrow>
               let b = no_cost\<lparr>cb_input := new_cost_component (tu_input u) input,
                     cb_output := new_cost_component (tu_output u) output,
                     cb_cache_read := new_cost_component (tu_cache_read u) cache,
                     cb_cache_write := new_cache_write_component (tu_cache_5m u) (tu_cache_1h u) input\<rparr>;
                   total = total_of b
               in b\<lparr>cb_total := (if total = 0 \<and> mp_fixed p > 0 then mp_fixed p else total)\<rparr>))"

definition calculate_cost_detailed :: "pricing_snapshot \<Rightarrow> string \<Rightarrow> token_usage \<Rightarrow> real" where
  "calculate_cost_detailed s name u = cb_total (cost_breakdown_detailed s name u)"

definition fast_mode_cost_breakdown :: "token_usage \<Rightarrow> cost_breakdown" where
  "fast_mode_cost_breakdown u =
     (if negative_usage u then no_cost
      else let b = no_cost\<lparr>cb_input := new_cost_component (tu_input u) 30,
                 cb_output := new_cost_component (tu_output u) 150,
                 cb_cache_read := new_cost_component (tu_cache_read u) (5 * cache_read_multiplier_opus),
                 cb_cache_write := new_cache_write_component (tu_cache_5m u) (tu_cache_1h u) 5,
                 cb_multiplier := 30 / 5\<rparr>
        in b\<lparr>cb_total := total_of b\<rparr>)"

definition calculate_fast_mode_cost :: "token_usage \<Rightarrow> real" where
  "calculate_fast_mode_cost u = cb_total (fast_mode_cost_breakdown u)"

definition standard_cost_breakdown :: "pricing_snapshot \<Rightarrow> string \<Rightarrow> string \<Rightarrow> token_usage \<Rightarrow> cost_breakdown" where
  "standard_cost_breakdown s name service u =
     (if service = ''fast'' \<and> is_fast_mode_model name then fast_mode_cost_breakdown u
      else let b = cost_breakdown_detailed s name u;
               k = openai_service_tier_multiplier name service
        in scale_cost_breakdown (if k \<noteq> 1 then b\<lparr>cb_multiplier := k\<rparr> else b) k)"

section \<open>The image generation tool\<close>

record image_tool_usage =
  iu_input :: int
  iu_output :: int
  iu_text_input :: int
  iu_text_cached :: int
  iu_image_input :: int
  iu_image_cached :: int
  iu_image_output :: int

definition image_tool_model :: "string \<Rightarrow> string" where
  "image_tool_model name = (let m = to_lower (trim_space name) in if m = '''' then ''gpt-image-2'' else m)"

text \<open>The one model of the table: text 5.00 and 1.25 cached, image 8.00 and 2.00 cached, output 30.00.\<close>

definition image_tool_cost :: "string \<Rightarrow> image_tool_usage \<Rightarrow> real" where
  "image_tool_cost name u =
     (if iu_input u < 0 \<or> iu_output u < 0 \<or> iu_text_input u < 0 \<or> iu_text_cached u < 0 \<or>
         iu_image_input u < 0 \<or> iu_image_cached u < 0 \<or> iu_image_output u < 0 then 0
      else if image_tool_model name \<noteq> ''gpt-image-2'' then 0
      else
        let known = iu_text_input u + iu_text_cached u + iu_image_input u + iu_image_cached u;
            image_input = (if iu_input u > known then iu_image_input u + (iu_input u - known) else iu_image_input u);
            image_output = (if iu_image_output u = 0 \<and> iu_output u > 0 then iu_output u
              else if iu_output u > iu_image_output u then iu_image_output u + (iu_output u - iu_image_output u)
              else iu_image_output u)
        in (of_int (iu_text_input u) * 5 + of_int (iu_text_cached u) * 1.25 + of_int image_input * 8 +
            of_int (iu_image_cached u) * 2 + of_int image_output * 30) / 1000000)"

definition image_fallback_costs :: "(string \<times> (string \<times> real) list) list" where
  "image_fallback_costs =
    [(''low'', [(''1024x1024'', 0.006), (''1024x1536'', 0.005), (''1536x1024'', 0.005)]),
     (''medium'', [(''1024x1024'', 0.053), (''1024x1536'', 0.041), (''1536x1024'', 0.041)]),
     (''high'', [(''1024x1024'', 0.211), (''1024x1536'', 0.165), (''1536x1024'', 0.165)])]"

definition image_tool_fallback_cost :: "string \<Rightarrow> string \<Rightarrow> string \<Rightarrow> real" where
  "image_tool_fallback_cost name quality dims =
     (let q = to_lower (trim_space quality);
          d = to_lower (filter (\<lambda>c. c \<noteq> CHR '' '') (trim_space dims))
      in if image_tool_model name \<noteq> ''gpt-image-2'' then 0
         else case map_of image_fallback_costs q of
           None \<Rightarrow> 0
         | Some by_size \<Rightarrow> (case map_of by_size d of None \<Rightarrow> 0 | Some c \<Rightarrow> c))"


section \<open>Tiers ascend\<close>

definition tier_below :: "token_pricing_tier \<Rightarrow> token_pricing_tier \<Rightarrow> bool" where
  "tier_below t u \<longleftrightarrow> 0 \<le> tp_input t \<and> tp_input t \<le> tp_input u \<and> 0 \<le> tp_output t \<and> tp_output t \<le> tp_output u \<and>
     0 \<le> tp_cache_read t \<and> tp_cache_read t \<le> tp_cache_read u \<and> tp_has_cache_read t = tp_has_cache_read u"

lemma tier_below_refl: "ascending_tiers (t # ts) \<Longrightarrow> tier_below t t"
  by (cases ts) (auto simp: tier_below_def)

lemma tier_below_later: "ascending_tiers (t # ts) \<Longrightarrow> u \<in> set ts \<Longrightarrow> tier_below t u"
  by (induction ts arbitrary: t) (fastforce simp: tier_below_def)+

lemma select_tier_Cons:
  "select_token_pricing_tier (t # ts) n =
    (if tp_max_input t = 0 \<or> n \<le> tp_max_input t \<or> ts = [] then t else select_token_pricing_tier ts n)"
  by (auto simp: select_token_pricing_tier_def split: option.split)

lemma select_tier_in: "ts \<noteq> [] \<Longrightarrow> select_token_pricing_tier ts n \<in> set ts"
  by (induction ts) (auto simp: select_tier_Cons)

lemma select_tier_mono:
  assumes "ascending_tiers ts" and "ts \<noteq> []" and "n \<le> k"
  shows "tier_below (select_token_pricing_tier ts n) (select_token_pricing_tier ts k)"
  using assms
proof (induction ts)
  case (Cons t ts)
  have tail: "ascending_tiers ts" using Cons.prems(1) by (cases ts) auto
  show ?case
    using Cons tail tier_below_refl [OF Cons.prems(1)] tier_below_later [OF Cons.prems(1)] select_tier_in [of ts k]
    by (auto simp: select_tier_Cons)
qed simp

section \<open>Prices and costs\<close>

definition usage_le :: "token_usage \<Rightarrow> token_usage \<Rightarrow> bool" where
  "usage_le u v \<longleftrightarrow> tu_input u \<le> tu_input v \<and> tu_output u \<le> tu_output v \<and> tu_cache_read u \<le> tu_cache_read v \<and>
     tu_cache_5m u \<le> tu_cache_5m v \<and> tu_cache_1h u \<le> tu_cache_1h v"

lemma family_cache_multiplier_pos: "0 < family_cache_multiplier name"
  by (simp add: family_cache_multiplier_def openai_cache_multiplier_def cache_read_multiplier_opus_def
      cache_read_multiplier_claude_def Let_def)

lemma prices_mono:
  assumes p: "sound_pricing p" and le: "usage_le u v"
    and u: "prices_for name p u = (i, out, c)" and v: "prices_for name p v = (i', out', c')"
  shows "0 \<le> i \<and> i \<le> i' \<and> 0 \<le> out \<and> out \<le> out' \<and> 0 \<le> c \<and> c \<le> c'"
proof -
  let ?n = "\<lambda>w. if mp_cache_counts p then tu_input w + tu_cache_read w else tu_input w"
  let ?k = "family_cache_multiplier name"
  have n: "?n u \<le> ?n v" using le by (auto simp: usage_le_def)
  have k: "0 \<le> ?k" using family_cache_multiplier_pos [of name] by simp
  show ?thesis
  proof (cases "mp_tiers p = []")
    case False
    have "tier_below (select_token_pricing_tier (mp_tiers p) (?n u)) (select_token_pricing_tier (mp_tiers p) (?n v))"
      using select_tier_mono [OF _ False n] p by (simp add: sound_pricing_def)
    then show ?thesis
      using u v False k p
      by (auto simp: prices_for_def Let_def tier_below_def sound_pricing_def mult_right_mono)
  next
    case True
    then show ?thesis
      using u v k p n
      by (auto simp: prices_for_def Let_def sound_pricing_def mult_right_mono split: if_splits)
  qed
qed

lemma component_mono:
  assumes "0 \<le> q" and "q \<le> q'" and "0 \<le> x" and "x \<le> x'"
  shows "0 \<le> cc_cost (new_cost_component q x)" and "cc_cost (new_cost_component q x) \<le> cc_cost (new_cost_component q' x')"
  using assms by (simp_all add: new_cost_component_def mult_mono divide_right_mono)

lemma cache_write_mono:
  assumes "0 \<le> a" and "a \<le> a'" and "0 \<le> b" and "b \<le> b'" and "0 \<le> x" and "x \<le> x'"
  shows "0 \<le> cc_cost (new_cache_write_component a b x)"
    and "cc_cost (new_cache_write_component a b x) \<le> cc_cost (new_cache_write_component a' b' x')"
  using assms
  by (simp_all add: new_cache_write_component_def Let_def cache_write_5m_multiplier_def
      cache_write_1h_multiplier_def divide_right_mono add_mono mult_mono)

text \<open>The breakdown before the fixed price is looked at.\<close>

definition token_breakdown :: "real \<times> real \<times> real \<Rightarrow> token_usage \<Rightarrow> cost_breakdown" where
  "token_breakdown prices u = (case prices of (i, out, c) \<Rightarrow>
     no_cost\<lparr>cb_input := new_cost_component (tu_input u) i, cb_output := new_cost_component (tu_output u) out,
       cb_cache_read := new_cost_component (tu_cache_read u) c,
       cb_cache_write := new_cache_write_component (tu_cache_5m u) (tu_cache_1h u) i\<rparr>)"

lemma token_total_mono:
  assumes "sound_pricing p" and "usage_le u v" and "\<not> negative_usage u"
  shows "0 \<le> total_of (token_breakdown (prices_for name p u) u)"
    and "total_of (token_breakdown (prices_for name p u) u) \<le> total_of (token_breakdown (prices_for name p v) v)"
proof -
  obtain i out c where u: "prices_for name p u = (i, out, c)" by (metis prod_cases3)
  obtain i' out' c' where v: "prices_for name p v = (i', out', c')" by (metis prod_cases3)
  note m = prices_mono [OF assms(1,2) u v]
  have nn: "0 \<le> tu_input u" "0 \<le> tu_output u" "0 \<le> tu_cache_read u" "0 \<le> tu_cache_5m u" "0 \<le> tu_cache_1h u"
    using assms(3) by (auto simp: negative_usage_def)
  show "0 \<le> total_of (token_breakdown (prices_for name p u) u)"
    using m nn unfolding u token_breakdown_def total_of_def
    by (simp add: component_mono(1) [OF _ order_refl _ order_refl]
        cache_write_mono(1) [OF _ order_refl _ order_refl _ order_refl])
  show "total_of (token_breakdown (prices_for name p u) u) \<le> total_of (token_breakdown (prices_for name p v) v)"
    using m nn assms(2) unfolding u v token_breakdown_def total_of_def usage_le_def
    by (auto intro!: add_mono component_mono(2) cache_write_mono(2))
qed

lemma cost_of_price:
  assumes "\<not> negative_usage u" and "pricing_for s name = Some p"
  shows "calculate_cost_detailed s name u =
    (let total = total_of (token_breakdown (prices_for name p u) u)
     in if total = 0 \<and> mp_fixed p > 0 then mp_fixed p else total)"
  using assms
  by (simp add: calculate_cost_detailed_def cost_breakdown_detailed_def token_breakdown_def Let_def total_of_def
      split: prod.split)


lemma pricing_for_row:
  assumes "pricing_for s name = Some p"
  shows "\<exists>m. map_of (ps_pricing s) m = Some p"
proof -
  have first: "first_match pricing m xs = Some p \<Longrightarrow> \<exists>k. map_of pricing k = Some p" for pricing m xs
    by (induction xs) (auto split: if_splits)
  then have raw: "fuzzy_match_raw s m = Some p \<Longrightarrow> \<exists>k. map_of (ps_pricing s) k = Some p" for m
    by (auto simp: fuzzy_match_raw_def split: if_splits)
  have exact: "lookup_pricing s m = Some p \<Longrightarrow> \<exists>k. map_of (ps_pricing s) k = Some p" for m
    by (auto simp: lookup_pricing_def)
  show ?thesis using assms exact raw
    by (auto simp: pricing_for_def get_pricing_def fuzzy_match_model_def Let_def split: option.splits if_splits)
qed

lemma embedded_price_sound:
  assumes "pricing_for restore_embedded_catalog name = Some p"
  shows "sound_pricing p"
proof -
  obtain m where "map_of base_pricing m = Some p"
    using pricing_for_row [OF assms] by auto
  then have "(m, p) \<in> set base_pricing" by (rule map_of_SomeD)
  then show ?thesis using base_pricing_sound by (auto simp: list_all_iff)
qed

lemma fixed_price_only:
  assumes "sound_pricing p" and "0 < mp_fixed p"
  shows "total_of (token_breakdown (prices_for name p u) u) = 0"
proof -
  have eq: "p = no_pricing\<lparr>mp_fixed := mp_fixed p\<rparr>" using assms by (simp add: sound_pricing_def)
  have "mp_input p = 0" "mp_output p = 0" "mp_tiers p = []" "\<not> mp_has_cache_read p" "mp_input_high p = 0"
    using arg_cong [OF eq, of mp_input] arg_cong [OF eq, of mp_output] arg_cong [OF eq, of mp_tiers]
      arg_cong [OF eq, of mp_has_cache_read] arg_cong [OF eq, of mp_input_high]
    by (simp_all add: no_pricing_def)
  then show ?thesis
    by (simp add: token_breakdown_def prices_for_def Let_def total_of_def new_cost_component_def
        new_cache_write_component_def no_cost_def)
qed

text \<open>C23: With the compiled prices a request that uses more tokens never costs less, whatever the model:
  crossing a tier, or the threshold of a long context, changes the prices of all tokens but never
  lowers the sum; and no cost is negative.\<close>

theorem more_tokens_never_cost_less:
  assumes "\<not> negative_usage u" and "usage_le u v"
  shows "0 \<le> calculate_cost_detailed restore_embedded_catalog name u \<and>
    calculate_cost_detailed restore_embedded_catalog name u \<le>
    calculate_cost_detailed restore_embedded_catalog name v"
proof (cases "pricing_for restore_embedded_catalog name")
  case None
  then show ?thesis by (simp add: calculate_cost_detailed_def cost_breakdown_detailed_def no_cost_def)
next
  case (Some p)
  note p = embedded_price_sound [OF Some]
  have v: "\<not> negative_usage v" using assms by (auto simp: negative_usage_def usage_le_def)
  note cost = cost_of_price [OF assms(1) Some] cost_of_price [OF v Some]
  show ?thesis
  proof (cases "0 < mp_fixed p")
    case True
    then show ?thesis using cost fixed_price_only [OF p True] by (simp add: Let_def)
  next
    case False
    then show ?thesis using cost token_total_mono [OF p assms(2,1)] by (simp add: Let_def)
  qed
qed

theorem more_tokens_never_cost_less_witness:
  "calculate_cost_detailed restore_embedded_catalog ''gpt-5.4''
      \<lparr>tu_input = 272000, tu_output = 10, tu_cache_read = 0, tu_cache_5m = 0, tu_cache_1h = 0\<rparr>
   \<le> calculate_cost_detailed restore_embedded_catalog ''gpt-5.4''
      \<lparr>tu_input = 272001, tu_output = 10, tu_cache_read = 0, tu_cache_5m = 0, tu_cache_1h = 0\<rparr>"
  using more_tokens_never_cost_less
    [of "\<lparr>tu_input = 272000, tu_output = 10, tu_cache_read = 0, tu_cache_5m = 0, tu_cache_1h = 0\<rparr>"
      "\<lparr>tu_input = 272001, tu_output = 10, tu_cache_read = 0, tu_cache_5m = 0, tu_cache_1h = 0\<rparr>" "''gpt-5.4''"]
  by (simp add: negative_usage_def usage_le_def)

text \<open>A component is its quantity at its price; a breakdown adds up.\<close>

definition adds :: "cost_component \<Rightarrow> bool" where
  "adds c \<longleftrightarrow> cc_cost c = of_int (cc_quantity c) * cc_price c / 1000000"

definition adds_up :: "cost_breakdown \<Rightarrow> bool" where
  "adds_up b \<longleftrightarrow> (cb_total b = total_of b \<or> total_of b = 0) \<and>
     list_all adds [cb_input b, cb_output b, cb_cache_read b, cb_cache_write b]"

lemma adds_new [simp]: "adds (new_cost_component q x)" "adds no_component" "adds c \<Longrightarrow> adds (scale_component k c)"
  by (auto simp: adds_def new_cost_component_def no_component_def scale_component_def)

lemma adds_cache_write:
  assumes "0 \<le> a" and "0 \<le> b"
  shows "adds (new_cache_write_component a b x)"
proof (cases "0 < a + b")
  case True
  then have "of_int (a + b) \<noteq> (0 :: real)" by linarith
  then show ?thesis using True by (simp add: adds_def new_cache_write_component_def Let_def del: of_int_add)
next
  case False
  then have "a = 0" "b = 0" using assms by simp_all
  then show ?thesis by (simp add: adds_def new_cache_write_component_def Let_def)
qed

lemma adds_up_no_cost: "adds_up no_cost"
  by (simp add: adds_up_def total_of_def no_cost_def) (simp add: no_component_def)

lemma adds_up_detailed: "adds_up (cost_breakdown_detailed s name u)"
proof (cases "negative_usage u \<or> pricing_for s name = None")
  case True
  then show ?thesis by (auto simp: cost_breakdown_detailed_def adds_up_no_cost)
next
  case False
  then obtain p where p: "pricing_for s name = Some p" and u: "\<not> negative_usage u" by auto
  obtain i out c where prices: "prices_for name p u = (i, out, c)" by (metis prod_cases3)
  show ?thesis
    using adds_cache_write [of "tu_cache_5m u" "tu_cache_1h u" i] u
    by (simp add: cost_breakdown_detailed_def p prices Let_def adds_up_def total_of_def negative_usage_def)
qed

lemma adds_up_fast_mode: "adds_up (fast_mode_cost_breakdown u)"
proof (cases "negative_usage u")
  case False
  then show ?thesis
    using adds_cache_write [of "tu_cache_5m u" "tu_cache_1h u" 5]
    by (simp add: fast_mode_cost_breakdown_def Let_def adds_up_def total_of_def negative_usage_def)
qed (simp add: fast_mode_cost_breakdown_def adds_up_no_cost)

lemma adds_up_scale:
  assumes "adds_up b" shows "adds_up (scale_cost_breakdown b k)"
proof (cases "k = 1")
  case False
  then have "total_of (scale_cost_breakdown b k) = total_of b * k"
    and "cb_total (scale_cost_breakdown b k) = cb_total b * k"
    by (simp_all add: scale_cost_breakdown_def total_of_def scale_component_def algebra_simps)
  then show ?thesis using assms False by (auto simp: adds_up_def scale_cost_breakdown_def)
qed (use assms in \<open>simp add: scale_cost_breakdown_def\<close>)

text \<open>The breakdown that the log page shows adds up to the amount that is charged: every component is
  its quantity at its price, and they sum to the total, with every service tier, except that a
  request without any token cost is billed at the fixed price of its model.\<close>

theorem breakdown_adds_up:
  "let b = standard_cost_breakdown s name service u
   in list_all (\<lambda>c. cc_cost c = of_int (cc_quantity c) * cc_price c / 1000000)
        [cb_input b, cb_output b, cb_cache_read b, cb_cache_write b] \<and>
      (cb_total b = cc_cost (cb_input b) + cc_cost (cb_output b) + cc_cost (cb_cache_read b) + cc_cost (cb_cache_write b) \<or>
       cc_cost (cb_input b) + cc_cost (cb_output b) + cc_cost (cb_cache_read b) + cc_cost (cb_cache_write b) = 0)"
proof -
  have mult: "adds_up b \<Longrightarrow> adds_up (b\<lparr>cb_multiplier := k\<rparr>)" for b k by (simp add: adds_up_def total_of_def)
  have "adds_up (standard_cost_breakdown s name service u)"
    by (simp add: standard_cost_breakdown_def Let_def adds_up_fast_mode adds_up_scale adds_up_detailed mult)
  then show ?thesis by (simp add: adds_up_def adds_def total_of_def Let_def)
qed

section \<open>What the code does not say\<close>

text \<open>
  A remote catalogue entry without tiers is laid over a compiled row that has tiers: its prices are
  installed but never used, every price is still the compiled one.
\<close>

theorem flat_remote_price_is_ignored:
  assumes "mp_tiers embedded \<noteq> []" and "mp_tiers remote = []" and "\<not> mp_has_cache_read remote"
  shows "prices_for name (overlay_remote_pricing embedded remote) u = prices_for name embedded u"
  using assms by (simp add: prices_for_def overlay_remote_pricing_def Let_def)

theorem flat_remote_price_is_ignored_witness:
  "prices_for ''gpt-5.6'' (overlay_remote_pricing (snd (gpt5_prices ! 0)) (priced 1 4))
      \<lparr>tu_input = 1000, tu_output = 10, tu_cache_read = 0, tu_cache_5m = 0, tu_cache_1h = 0\<rparr> =
    prices_for ''gpt-5.6'' (snd (gpt5_prices ! 0))
      \<lparr>tu_input = 1000, tu_output = 10, tu_cache_read = 0, tu_cache_5m = 0, tu_cache_1h = 0\<rparr>"
  by (rule flat_remote_price_is_ignored)
    (simp_all add: gpt5_prices_def gpt56_sol_tiers_def priced_def cached_def no_pricing_def)

text \<open>A suffix counts as a date when its first byte is a digit.\<close>

theorem any_numeric_suffix_counts_as_date:
  "model_supports_tier ''gpt-5-3preview'' \<and> openai_service_tier_multiplier ''gpt-5-3preview'' ''priority'' = 2"
proof -
  have s: "split_last_hyphen ''gpt-5-3preview'' = Some (''gpt-5'', ''3preview'')" by simp
  have m: "model_supports_tier ''gpt-5-3preview''"
    by (subst model_supports_tier_def, subst strip_dates.simps)
      (simp add: s to_lower_def to_lower_char_def service_tier_models_def less_eq_char_def)
  then show ?thesis
    by (simp add: openai_service_tier_multiplier_def openai_fast_mode_multiplier_def to_lower_def to_lower_char_def Let_def)
qed

end
