(* ===== verification/Usage_Accounting.thy ===== *)
theory Usage_Accounting
  imports Request_Cost Codex_Retry URL_Selector
begin

text \<open>
  The token counts of a response, the accumulator and the payload functions of
  \<open>internal/app/proxy_sse_parser.go\<close>, with \<open>extractThinkingEffortFromPayload\<close> of \<open>proxy_util.go\<close>
  and the pending tool calls of \<open>proxy_responses_websocket.go\<close>.

  A payload is a decoded object, so no name occurs twice in it; a missing map is the empty one,
  which answers every lookup in the same way.  A number is the real its literal denotes, where the
  code has the nearest \<open>float64\<close>; \<open>int(f)\<close> is the truncation, and outside 64 bits the argument
  \<open>ov\<close>, since Go leaves it open.  Log lines, and the list of names they print, are left out.
\<close>

section \<open>Decoded payloads\<close>

definition member_object :: "string \<Rightarrow> members \<Rightarrow> members option" where
  "member_object k kvs = (case map_of kvs k of Some (JObj m) \<Rightarrow> Some m | _ \<Rightarrow> None)"

definition member_array :: "string \<Rightarrow> members \<Rightarrow> json list option" where
  "member_array k kvs = (case map_of kvs k of Some (JArr vs) \<Rightarrow> Some vs | _ \<Rightarrow> None)"

text \<open>The number a literal of the grammar of JSON denotes.\<close>

definition exponent_of :: "string \<Rightarrow> int" where
  "exponent_of s =
     (case s of
        [] \<Rightarrow> 0
      | c # r \<Rightarrow>
          if r \<noteq> [] \<and> hd r = CHR ''-'' then - decimal (tl r)
          else if r \<noteq> [] \<and> hd r = CHR ''+'' then decimal (tl r)
          else decimal r)"

definition json_number :: "string \<Rightarrow> real" where
  "json_number lit =
     (let neg = (lit \<noteq> [] \<and> hd lit = CHR ''-'');
          s = (if neg then tl lit else lit);
          whole = takeWhile is_digit s;
          s' = dropWhile is_digit s;
          point = (s' \<noteq> [] \<and> hd s' = CHR ''.'');
          frac = (if point then takeWhile is_digit (tl s') else []);
          s'' = (if point then dropWhile is_digit (tl s') else s');
          e = exponent_of s'' - int (length frac);
          m = real_of_int (decimal (whole @ frac));
          v = (if 0 \<le> e then m * 10 ^ nat e else m / 10 ^ nat (- e))
      in if neg then - v else v)"

definition member_number :: "string \<Rightarrow> members \<Rightarrow> real option" where
  "member_number k kvs = (case map_of kvs k of Some (JNum lit) \<Rightarrow> Some (json_number lit) | _ \<Rightarrow> None)"

abbreviation go_int :: "(real \<Rightarrow> int) \<Rightarrow> real \<Rightarrow> int" where
  "go_int \<equiv> to_duration"

text \<open>\<open>usageInt\<close> and \<open>usageFirstInt\<close>; decoding yields no integers, only floats.\<close>

definition usage_int :: "(real \<Rightarrow> int) \<Rightarrow> string \<Rightarrow> members \<Rightarrow> int" where
  "usage_int ov k kvs = (case member_number k kvs of None \<Rightarrow> 0 | Some f \<Rightarrow> go_int ov f)"

primrec usage_first_int :: "(real \<Rightarrow> int) \<Rightarrow> string list \<Rightarrow> members \<Rightarrow> int" where
  "usage_first_int ov [] kvs = 0"
| "usage_first_int ov (k # ks) kvs =
     (if usage_int ov k kvs > 0 then usage_int ov k kvs else usage_first_int ov ks kvs)"

definition extract_usage :: "members \<Rightarrow> members option" where
  "extract_usage payload =
     (let nested = (\<lambda>k. case member_object k payload of None \<Rightarrow> None | Some m \<Rightarrow> member_object ''usage'' m)
      in case member_object ''usage'' payload of
           Some u \<Rightarrow> Some u
         | None \<Rightarrow> (case nested ''message'' of
             Some u \<Rightarrow> Some u
           | None \<Rightarrow> (case nested ''response'' of
               Some u \<Rightarrow> Some u
             | None \<Rightarrow> (case member_object ''usageMetadata'' payload of
                 Some u \<Rightarrow> Some u
               | None \<Rightarrow> member_object ''usage_metadata'' payload))))"

text \<open>Which family of APIs an object of counts belongs to.\<close>

definition has_gemini_usage_fields :: "(real \<Rightarrow> int) \<Rightarrow> members \<Rightarrow> bool" where
  "has_gemini_usage_fields ov usage \<longleftrightarrow>
     member_object ''usageMetadata'' usage \<noteq> None \<or> member_object ''usage_metadata'' usage \<noteq> None \<or>
     usage_first_int ov
       [''promptTokenCount'', ''prompt_token_count'', ''candidatesTokenCount'', ''candidates_token_count'',
        ''thoughtsTokenCount'', ''thoughts_token_count'', ''totalThoughtTokens'', ''total_thought_tokens''] usage > 0"

definition has_openai_chat_usage_fields :: "members \<Rightarrow> bool" where
  "has_openai_chat_usage_fields usage \<longleftrightarrow>
     member_number ''prompt_tokens'' usage \<noteq> None \<and> member_number ''completion_tokens'' usage \<noteq> None"

definition has_anthropic_usage_fields :: "members \<Rightarrow> bool" where
  "has_anthropic_usage_fields usage \<longleftrightarrow>
     member_number ''input_tokens'' usage \<noteq> None \<or> member_number ''output_tokens'' usage \<noteq> None"

section \<open>The accumulator\<close>

record usage_accumulator =
  ua_input :: int
  ua_output :: int
  ua_reasoning :: int
  ua_cache_read :: int
  ua_cache_creation :: int
  ua_cache_5m :: int
  ua_cache_1h :: int
  ua_tool_cost :: real
  ua_service_tier :: string
  ua_thinking_effort :: string
  ua_version :: nat
  ua_image_model :: string
  ua_tool_seen :: bool
  ua_image_costs :: "string \<rightharpoonup> real"

definition empty_usage :: usage_accumulator where
  "empty_usage =
     \<lparr>ua_input = 0, ua_output = 0, ua_reasoning = 0, ua_cache_read = 0, ua_cache_creation = 0,
      ua_cache_5m = 0, ua_cache_1h = 0, ua_tool_cost = 0, ua_service_tier = '''', ua_thinking_effort = '''',
      ua_version = 0, ua_image_model = '''', ua_tool_seen = False, ua_image_costs = (\<lambda>k. None)\<rparr>"

abbreviation reasoning_names :: "string list" where
  "reasoning_names \<equiv> [''reasoning_tokens'', ''thinking_tokens'']"

text \<open>Overwrite a field when the value is positive.\<close>

definition take_reasoning :: "int \<Rightarrow> usage_accumulator \<Rightarrow> usage_accumulator" where
  "take_reasoning v u = (if v > 0 then u\<lparr>ua_reasoning := v\<rparr> else u)"

text \<open>\<open>details["reasoning_tokens"]\<close> of an optional object of details.\<close>

definition take_detail_reasoning ::
    "(real \<Rightarrow> int) \<Rightarrow> string \<Rightarrow> members \<Rightarrow> usage_accumulator \<Rightarrow> usage_accumulator" where
  "take_detail_reasoning ov k usage u =
     (case member_object k usage of
        None \<Rightarrow> u
      | Some details \<Rightarrow> take_reasoning (usage_first_int ov reasoning_names details) u)"

definition apply_billing_usage_openai_reasoning ::
    "(real \<Rightarrow> int) \<Rightarrow> members \<Rightarrow> usage_accumulator \<Rightarrow> usage_accumulator" where
  "apply_billing_usage_openai_reasoning ov usage u =
     (if ua_reasoning u > 0 then u
      else case member_object ''billing_usage'' usage of
        None \<Rightarrow> u
      | Some billing \<Rightarrow>
          (case member_object ''openai_usage'' billing of
             None \<Rightarrow> u
           | Some oai \<Rightarrow>
               let u1 = take_detail_reasoning ov ''completion_tokens_details'' oai u
               in if ua_reasoning u1 > 0 then u1
                  else let u2 = take_detail_reasoning ov ''output_tokens_details'' oai u1
                       in if ua_reasoning u2 > 0 then u2
                          else take_reasoning (usage_first_int ov reasoning_names oai) u2))"

definition apply_gemini_usage :: "(real \<Rightarrow> int) \<Rightarrow> members \<Rightarrow> usage_accumulator \<Rightarrow> usage_accumulator" where
  "apply_gemini_usage ov usage0 u =
     (let usage = (case member_object ''usageMetadata'' usage0 of
             Some nested \<Rightarrow> nested
           | None \<Rightarrow> (case member_object ''usage_metadata'' usage0 of Some nested \<Rightarrow> nested | None \<Rightarrow> usage0));
          prompt = usage_first_int ov [''promptTokenCount'', ''prompt_token_count''] usage;
          u1 = (if prompt > 0 then u\<lparr>ua_input := prompt\<rparr> else u);
          candidates = usage_first_int ov [''candidatesTokenCount'', ''candidates_token_count''] usage;
          reasoning = usage_first_int ov
            [''thoughtsTokenCount'', ''thoughts_token_count'', ''totalThoughtTokens'', ''total_thought_tokens''] usage;
          u2 = take_reasoning reasoning u1;
          out = (if reasoning > 0 then wrap64 (candidates + reasoning) else candidates);
          rest_out = usage_first_int ov [''totalTokenCount'', ''total_token_count''] usage - prompt;
          out' = (if out = 0 \<and> rest_out > 0 then rest_out else out);
          u3 = u2\<lparr>ua_output := out'\<rparr>;
          cached = usage_first_int ov [''cachedContentTokenCount'', ''cached_content_token_count''] usage
      in if cached > 0 then u3\<lparr>ua_cache_read := cached\<rparr> else u3)"

text \<open>Overwrite a field when the number is there.\<close>

definition when_number ::
    "string \<Rightarrow> members \<Rightarrow> (real \<Rightarrow> usage_accumulator \<Rightarrow> usage_accumulator) \<Rightarrow> usage_accumulator \<Rightarrow> usage_accumulator" where
  "when_number k kvs f u = (case member_number k kvs of None \<Rightarrow> u | Some v \<Rightarrow> f v u)"

definition apply_openai_chat_usage ::
    "(real \<Rightarrow> int) \<Rightarrow> members \<Rightarrow> usage_accumulator \<Rightarrow> usage_accumulator" where
  "apply_openai_chat_usage ov usage u =
     (let u1 = when_number ''prompt_tokens'' usage (\<lambda>f u. u\<lparr>ua_input := go_int ov f\<rparr>) u;
          u2 = when_number ''completion_tokens'' usage (\<lambda>f u. u\<lparr>ua_output := go_int ov f\<rparr>) u1;
          u3 = (case member_object ''prompt_tokens_details'' usage of
                  None \<Rightarrow> u2
                | Some details \<Rightarrow> when_number ''cached_tokens'' details (\<lambda>f u. u\<lparr>ua_cache_read := go_int ov f\<rparr>) u2);
          u4 = take_detail_reasoning ov ''completion_tokens_details'' usage u3;
          u5 = take_detail_reasoning ov ''output_tokens_details'' usage u4;
          u6 = take_reasoning (usage_first_int ov reasoning_names usage) u5
      in apply_billing_usage_openai_reasoning ov usage u6)"

text \<open>The cache fields of \<open>applyAnthropicOrResponsesUsage\<close>.\<close>

definition apply_cache_creation ::
    "(real \<Rightarrow> int) \<Rightarrow> members \<Rightarrow> usage_accumulator \<Rightarrow> usage_accumulator" where
  "apply_cache_creation ov usage u =
     (let has_aggregate = (member_number ''cache_creation_input_tokens'' usage \<noteq> None);
          u1 = when_number ''cache_creation_input_tokens'' usage (\<lambda>f u. u\<lparr>ua_cache_creation := go_int ov f\<rparr>) u;
          has_detailed = (member_object ''cache_creation'' usage \<noteq> None);
          u2 = (case member_object ''cache_creation'' usage of
                  None \<Rightarrow> u1
                | Some detail \<Rightarrow>
                    let v = when_number ''ephemeral_5m_input_tokens'' detail (\<lambda>f u. u\<lparr>ua_cache_5m := go_int ov f\<rparr>) u1;
                        w = when_number ''ephemeral_1h_input_tokens'' detail (\<lambda>f u. u\<lparr>ua_cache_1h := go_int ov f\<rparr>) v
                    in w\<lparr>ua_cache_creation := wrap64 (ua_cache_5m w + ua_cache_1h w)\<rparr>);
          u3 = (if has_aggregate \<and> \<not> has_detailed \<and> ua_cache_creation u2 > 0
                then u2\<lparr>ua_cache_5m := ua_cache_creation u2\<rparr> else u2)
      in case member_object ''input_tokens_details'' usage of
           None \<Rightarrow> u3
         | Some details \<Rightarrow>
             let u4 = when_number ''cached_tokens'' details (\<lambda>f u. u\<lparr>ua_cache_read := go_int ov f\<rparr>) u3
             in if has_aggregate \<or> has_detailed then u4
                else when_number ''cache_write_tokens'' details
                       (\<lambda>f u. let w = go_int ov f; v = u\<lparr>ua_cache_creation := w\<rparr>
                          in if w > 0 then v\<lparr>ua_cache_5m := w\<rparr> else v) u4)"

definition apply_anthropic_or_responses_usage ::
    "(real \<Rightarrow> int) \<Rightarrow> members \<Rightarrow> usage_accumulator \<Rightarrow> usage_accumulator" where
  "apply_anthropic_or_responses_usage ov usage u =
     (let u1 = when_number ''input_tokens'' usage
                 (\<lambda>f u. if go_int ov f > 0 then u\<lparr>ua_input := go_int ov f\<rparr> else u) u;
          u2 = when_number ''output_tokens'' usage (\<lambda>f u. u\<lparr>ua_output := go_int ov f\<rparr>) u1;
          u3 = when_number ''cache_read_input_tokens'' usage (\<lambda>f u. u\<lparr>ua_cache_read := go_int ov f\<rparr>) u2;
          u4 = apply_cache_creation ov usage u3;
          u5 = take_detail_reasoning ov ''output_tokens_details'' usage u4;
          u6 = take_reasoning (usage_first_int ov (reasoning_names @ [''total_thought_tokens'', ''totalThoughtTokens'']) usage) u5
      in apply_billing_usage_openai_reasoning ov usage u6)"

definition apply_usage ::
    "(real \<Rightarrow> int) \<Rightarrow> string \<Rightarrow> members option \<Rightarrow> usage_accumulator \<Rightarrow> usage_accumulator" where
  "apply_usage ov protocol usage u =
     (case usage of
        None \<Rightarrow> u
      | Some m \<Rightarrow>
          let v = u\<lparr>ua_version := ua_version u + 1\<rparr>
          in if protocol = ''gemini'' then apply_gemini_usage ov m v
             else if protocol = ''openai'' \<or> protocol = ''codex''
             then (if has_openai_chat_usage_fields m then apply_openai_chat_usage ov m v
                   else if has_anthropic_usage_fields m then apply_anthropic_or_responses_usage ov m v
                   else v)
             else if protocol = ''anthropic'' then apply_anthropic_or_responses_usage ov m v
             else if has_gemini_usage_fields ov m then apply_gemini_usage ov m v
             else if has_openai_chat_usage_fields m then apply_openai_chat_usage ov m v
             else if has_anthropic_usage_fields m then apply_anthropic_or_responses_usage ov m v
             else v)"

text \<open>The counts that are billed: input, output, cache reads, cache writes.\<close>

definition normalized_usage :: "string \<Rightarrow> usage_accumulator \<Rightarrow> int \<times> int \<times> int \<times> int" where
  "normalized_usage protocol u =
     (let billable =
            (if protocol = ''openai'' \<or> protocol = ''codex'' \<or> protocol = ''gemini''
             then let included = (if protocol = ''openai'' \<or> protocol = ''codex''
                                  then wrap64 (ua_cache_read u + ua_cache_creation u) else ua_cache_read u)
                  in if included > 0 \<and> included \<le> ua_input u then ua_input u - included else ua_input u
             else ua_input u)
      in (billable, ua_output u, ua_cache_read u, ua_cache_creation u))"

section \<open>Tools that are billed by themselves\<close>

definition image_usage_of :: "(real \<Rightarrow> int) \<Rightarrow> members \<Rightarrow> image_tool_usage" where
  "image_usage_of ov usage =
     (let inp = (case member_object ''input_tokens_details'' usage of None \<Rightarrow> [] | Some m \<Rightarrow> m);
          out = (case member_object ''output_tokens_details'' usage of None \<Rightarrow> [] | Some m \<Rightarrow> m)
      in \<lparr>iu_input = usage_int ov ''input_tokens'' usage, iu_output = usage_int ov ''output_tokens'' usage,
          iu_text_input = usage_int ov ''text_tokens'' inp, iu_text_cached = usage_int ov ''cached_text_tokens'' inp,
          iu_image_input = usage_int ov ''image_tokens'' inp, iu_image_cached = usage_int ov ''cached_image_tokens'' inp,
          iu_image_output = usage_int ov ''image_tokens'' out\<rparr>)"

text \<open>\<open>applyToolUsageMap\<close> tells whether it set a cost.\<close>

definition apply_tool_usage_map ::
    "(real \<Rightarrow> int) \<Rightarrow> members option \<Rightarrow> string \<Rightarrow> usage_accumulator \<Rightarrow> bool \<times> usage_accumulator" where
  "apply_tool_usage_map ov tool_usage image_model u =
     (case tool_usage of
        None \<Rightarrow> (False, u)
      | Some m \<Rightarrow>
          (case member_object ''image_gen'' m of
             None \<Rightarrow> (False, u)
           | Some image_usage \<Rightarrow>
               let cost = image_tool_cost image_model (image_usage_of ov image_usage)
               in if cost \<le> 0 then (False, u) else (True, u\<lparr>ua_tool_cost := cost, ua_tool_seen := True\<rparr>)))"

primrec first_image_model :: "json list \<Rightarrow> string" where
  "first_image_model [] = ''''"
| "first_image_model (t # ts) =
     (case t of
        JObj tool \<Rightarrow>
          if member_string ''type'' tool = ''image_generation'' then trim_space (member_string ''model'' tool)
          else first_image_model ts
      | _ \<Rightarrow> first_image_model ts)"

definition extract_image_generation_model :: "members \<Rightarrow> string" where
  "extract_image_generation_model payload =
     (case member_array ''tools'' payload of None \<Rightarrow> '''' | Some tools \<Rightarrow> first_image_model tools)"

definition extract_tool_usage_and_image_model :: "members \<Rightarrow> members option \<times> string" where
  "extract_tool_usage_and_image_model payload =
     (case member_object ''response'' payload of
        Some resp \<Rightarrow> (member_object ''tool_usage'' resp, extract_image_generation_model resp)
      | None \<Rightarrow> (member_object ''tool_usage'' payload, extract_image_generation_model payload))"

record completed_image_item =
  ci_key :: string
  ci_quality :: string
  ci_size :: string

definition completed_image_item_of :: "members \<Rightarrow> string \<Rightarrow> completed_image_item option" where
  "completed_image_item_of item fallback_key =
     (if member_string ''type'' item \<noteq> ''image_generation_call'' then None
      else if member_string ''result'' item = '''' then None
      else if member_string ''quality'' item = '''' \<or> member_string ''size'' item = '''' then None
      else let key = member_string ''id'' item
           in Some \<lparr>ci_key = (if trim_space key = '''' then fallback_key else key),
                    ci_quality = member_string ''quality'' item, ci_size = member_string ''size'' item\<rparr>)"

primrec completed_outputs :: "nat \<Rightarrow> json list \<Rightarrow> completed_image_item list" where
  "completed_outputs i [] = []"
| "completed_outputs i (v # vs) =
     (case v of
        JObj item \<Rightarrow>
          (case completed_image_item_of item (''response.output.'' @ dec_digits i) of
             None \<Rightarrow> completed_outputs (Suc i) vs
           | Some c \<Rightarrow> c # completed_outputs (Suc i) vs)
      | _ \<Rightarrow> completed_outputs (Suc i) vs)"

definition extract_completed_image_items :: "members \<Rightarrow> completed_image_item list" where
  "extract_completed_image_items payload =
     (case member_object ''item'' payload of
        None \<Rightarrow> []
      | Some item \<Rightarrow> (case completed_image_item_of item ''item'' of None \<Rightarrow> [] | Some c \<Rightarrow> [c])) @
     (case member_object ''response'' payload of
        None \<Rightarrow> []
      | Some resp \<Rightarrow> (case member_array ''output'' resp of None \<Rightarrow> [] | Some out \<Rightarrow> completed_outputs 0 out))"

text \<open>One item of the loop in \<open>applyImageGenerationFallbackFromPayload\<close>.\<close>

definition charge_image_item :: "string \<Rightarrow> completed_image_item \<Rightarrow> usage_accumulator \<Rightarrow> usage_accumulator" where
  "charge_image_item model item u =
     (let cost = image_tool_fallback_cost model (ci_quality item) (ci_size item)
      in if cost \<le> 0 then u
         else case ua_image_costs u (ci_key item) of
           Some prev \<Rightarrow>
             if prev \<noteq> cost
             then u\<lparr>ua_tool_cost := ua_tool_cost u + (cost - prev), ua_image_costs := (ua_image_costs u)(ci_key item \<mapsto> cost)\<rparr>
             else u
         | None \<Rightarrow> u\<lparr>ua_image_costs := (ua_image_costs u)(ci_key item \<mapsto> cost), ua_tool_cost := ua_tool_cost u + cost\<rparr>)"

definition apply_image_generation_fallback ::
    "members \<Rightarrow> string \<Rightarrow> usage_accumulator \<Rightarrow> usage_accumulator" where
  "apply_image_generation_fallback payload image_model u =
     (if ua_tool_seen u then u
      else fold (charge_image_item (if image_model = '''' then ua_image_model u else image_model))
             (extract_completed_image_items payload) u)"

definition apply_tool_usage_from_payload ::
    "(real \<Rightarrow> int) \<Rightarrow> members \<Rightarrow> usage_accumulator \<Rightarrow> usage_accumulator" where
  "apply_tool_usage_from_payload ov payload u =
     (case extract_tool_usage_and_image_model payload of
        (tool_usage, model) \<Rightarrow>
          let v = (if model \<noteq> '''' then u\<lparr>ua_image_model := model\<rparr> else u)
          in case apply_tool_usage_map ov tool_usage model v of
               (True, w) \<Rightarrow> w
             | (False, w) \<Rightarrow> apply_image_generation_fallback payload model w)"

section \<open>The thinking effort\<close>

definition normalize_thinking_effort :: "string \<Rightarrow> string" where
  "normalize_thinking_effort v = to_lower (trim_space v)"

definition string_map_value :: "members \<Rightarrow> string \<Rightarrow> string" where
  "string_map_value kvs k = trim_space (member_string k kvs)"

primrec first_string_map_value :: "members \<Rightarrow> string list \<Rightarrow> string" where
  "first_string_map_value kvs [] = ''''"
| "first_string_map_value kvs (k # ks) =
     (if string_map_value kvs k \<noteq> '''' then string_map_value kvs k else first_string_map_value kvs ks)"

definition anthropic_budget_to_effort :: "int \<Rightarrow> string" where
  "anthropic_budget_to_effort budget =
     (if budget \<ge> 16384 then ''high'' else if budget \<ge> 4096 then ''medium''
      else if budget > 0 then ''low'' else ''medium'')"

text \<open>The effort named in an object that the payload holds under one name.\<close>

definition nested_effort :: "members \<Rightarrow> string \<Rightarrow> string list \<Rightarrow> string" where
  "nested_effort payload k names =
     (case member_object k payload of
        None \<Rightarrow> '''' | Some m \<Rightarrow> normalize_thinking_effort (first_string_map_value m names))"

definition budget_effort :: "(real \<Rightarrow> int) \<Rightarrow> members \<Rightarrow> string" where
  "budget_effort ov payload =
     (case member_object ''thinking'' payload of
        None \<Rightarrow> ''''
      | Some thinking \<Rightarrow>
          (case member_number ''budget_tokens'' thinking of
             None \<Rightarrow> ''''
           | Some budget \<Rightarrow> if budget > 0 then anthropic_budget_to_effort (go_int ov budget) else ''''))"

primrec first_nonempty :: "string list \<Rightarrow> string" where
  "first_nonempty [] = ''''"
| "first_nonempty (s # ss) = (if s \<noteq> '''' then s else first_nonempty ss)"

lemma member_object_size: "member_object k kvs = Some m \<Longrightarrow> size (JObj m) < size (JObj kvs)"
proof (induction kvs)
  case (Cons kv kvs)
  show ?case
  proof (cases "fst kv = k")
    case True
    then show ?thesis using Cons.prems by (cases kv) (auto simp: member_object_def split: json.splits)
  next
    case False
    then have "size (JObj m) < size (JObj kvs)" using Cons by (cases kv) (auto simp: member_object_def)
    then show ?thesis by simp
  qed
qed (simp add: member_object_def)

function extract_thinking_effort :: "(real \<Rightarrow> int) \<Rightarrow> members \<Rightarrow> string" where
  "extract_thinking_effort ov payload =
     (let inner = (\<lambda>k. case member_object k payload of None \<Rightarrow> '''' | Some m \<Rightarrow> extract_thinking_effort ov m);
          named = [''effort'', ''level'', ''thinkingLevel'', ''thinking_level'', ''type''];
          levels = [''thinkingLevel'', ''thinking_level'', ''effort'', ''level'']
      in first_nonempty
           [inner ''response'', inner ''message'',
            normalize_thinking_effort (first_string_map_value payload
              [''reasoning_effort'', ''thinking_effort'', ''thinkingLevel'', ''thinking_level'']),
            nested_effort payload ''reasoning'' named, nested_effort payload ''output_config'' named,
            nested_effort payload ''thinkingConfig'' levels, inner ''generationConfig'',
            nested_effort payload ''thinking'' [''effort'', ''level'', ''thinkingLevel'', ''thinking_level''],
            budget_effort ov payload])"
  by pat_completeness auto
termination
  by (relation "measure (\<lambda>(ov, payload). size (JObj payload))") (auto dest: member_object_size simp del: json.size)

declare extract_thinking_effort.simps [simp del]

section \<open>Tool calls a response leaves open\<close>

definition is_tool_call_type :: "string \<Rightarrow> bool" where
  "is_tool_call_type t \<longleftrightarrow> trim_space t = ''function_call'' \<or> trim_space t = ''custom_tool_call''"

definition is_complete_tool_call :: "members \<Rightarrow> bool" where
  "is_complete_tool_call item \<longleftrightarrow>
     trim_space (member_string ''call_id'' item) \<noteq> '''' \<and> trim_space (member_string ''name'' item) \<noteq> '''' \<and>
     (let text = (\<lambda>k. case map_of item k of Some (JStr s) \<Rightarrow> True | _ \<Rightarrow> False);
          t = trim_space (member_string ''type'' item)
      in if t = ''function_call'' then text ''arguments''
         else if t = ''custom_tool_call'' then text ''input'' else False)"

text \<open>\<open>gjson\<close> reads the printed output; a type that is no string is no type of a call either.\<close>

definition open_call_id :: "json \<Rightarrow> string option" where
  "open_call_id v =
     (case v of
        JObj item \<Rightarrow>
          if is_tool_call_type (trim_space (member_string ''type'' item)) \<and> is_complete_tool_call item
          then Some (trim_space (member_string ''call_id'' item)) else None
      | _ \<Rightarrow> None)"

definition pending_tool_call_ids :: "json list \<Rightarrow> string list" where
  "pending_tool_call_ids items = dedup_by id (List.map_filter open_call_id items)"

end
