(* ===== verification/Usage_Properties.thy ===== *)
theory Usage_Properties
  imports Usage_Accounting
begin

text \<open>
  What is billed of a response: the formats of the providers agree, zeroes at the end of a stream do
  not erase what was counted, and an image is charged once.
\<close>

section \<open>Four formats, one bill\<close>

abbreviation num :: "nat \<Rightarrow> json" where
  "num n \<equiv> JNum (dec_digits n)"

lemma dec_digits_ne [simp]: "dec_digits n \<noteq> []"
  by (subst dec_digits.simps) simp

lemma json_number_num [simp]: "json_number (dec_digits n) = real n"
proof -
  have d: "list_all is_digit (dec_digits n)" "decimal (dec_digits n) = int n" by (simp_all add: dec_digits_props)
  have whole: "takeWhile is_digit (dec_digits n) = dec_digits n" "dropWhile is_digit (dec_digits n) = []"
    using d(1) by (simp_all add: list_all_iff)
  have sign: "dec_digits n \<noteq> []" "hd (dec_digits n) \<noteq> CHR ''-''"
    using d(1) not_digit(1) by (simp, cases "dec_digits n") auto
  show ?thesis by (simp only: json_number_def Let_def sign whole d(2) exponent_of_def list.case append_Nil2 simp_thms if_True if_False) simp
qed

lemma go_int_real [simp]: "n < 2 ^ 63 \<Longrightarrow> go_int ov (real n) = int n"
proof -
  assume "n < 2 ^ 63"
  then have "real n < 2 ^ 63" by (metis of_nat_less_iff of_nat_numeral of_nat_power)
  then show ?thesis using trunc_of_int [of "int n"] by (simp add: to_duration_def)
qed

text \<open>The same counts as Chat Completions, Responses, Gemini and Anthropic report them.\<close>

definition chat_usage :: "nat \<Rightarrow> nat \<Rightarrow> nat \<Rightarrow> members" where
  "chat_usage p c k =
     [(''prompt_tokens'', num p), (''completion_tokens'', num c),
      (''prompt_tokens_details'', JObj [(''cached_tokens'', num k)])]"

definition responses_usage :: "nat \<Rightarrow> nat \<Rightarrow> nat \<Rightarrow> members" where
  "responses_usage p c k =
     [(''input_tokens'', num p), (''input_tokens_details'', JObj [(''cached_tokens'', num k)]),
      (''output_tokens'', num c)]"

definition gemini_usage :: "nat \<Rightarrow> nat \<Rightarrow> nat \<Rightarrow> members" where
  "gemini_usage p c k =
     [(''promptTokenCount'', num p), (''candidatesTokenCount'', num c), (''cachedContentTokenCount'', num k)]"

definition anthropic_usage :: "nat \<Rightarrow> nat \<Rightarrow> nat \<Rightarrow> members" where
  "anthropic_usage p c k =
     [(''input_tokens'', num (p - k)), (''output_tokens'', num c), (''cache_read_input_tokens'', num k)]"

definition bill :: "(real \<Rightarrow> int) \<Rightarrow> string \<Rightarrow> members \<Rightarrow> int \<times> int \<times> int \<times> int" where
  "bill ov protocol usage = normalized_usage protocol (apply_usage ov protocol (Some usage) empty_usage)"

lemmas usage_lookups = member_object_def member_number_def member_array_def usage_int_def when_number_def
  take_detail_reasoning_def take_reasoning_def apply_billing_usage_openai_reasoning_def

lemmas usage_appliers = apply_usage_def apply_gemini_usage_def apply_openai_chat_usage_def
  apply_anthropic_or_responses_usage_def apply_cache_creation_def normalized_usage_def bill_def empty_usage_def
  has_openai_chat_usage_fields_def has_anthropic_usage_fields_def

lemma wrap64_nat: "k < 2 ^ 63 \<Longrightarrow> wrap64 (int k) = int k"
  by (rule wrap64_id) (simp, metis of_nat_less_iff of_nat_numeral of_nat_power)

lemma responses_cache:
  "k < 2 ^ 63 \<Longrightarrow> apply_cache_creation ov (responses_usage p c k) u = u\<lparr>ua_cache_read := int k\<rparr>"
  by (simp add: apply_cache_creation_def responses_usage_def usage_lookups)

lemma responses_reasoning:
  "take_detail_reasoning ov ''output_tokens_details'' (responses_usage p c k) u = u"
  "usage_first_int ov (reasoning_names @ [''total_thought_tokens'', ''totalThoughtTokens'']) (responses_usage p c k) = 0"
  "apply_billing_usage_openai_reasoning ov (responses_usage p c k) u = u"
  "when_number ''cache_read_input_tokens'' (responses_usage p c k) f u = u"
  "when_number ''input_tokens'' (responses_usage p c k) f u = f (real p) u"
  "when_number ''output_tokens'' (responses_usage p c k) f u = f (real c) u"
  by (simp_all add: responses_usage_def usage_lookups)

lemma responses_counts:
  assumes "p < 2 ^ 63" and "c < 2 ^ 63" and "k < 2 ^ 63"
  shows "apply_anthropic_or_responses_usage ov (responses_usage p c k) u =
     u\<lparr>ua_input := (if p > 0 then int p else ua_input u), ua_output := int c, ua_cache_read := int k\<rparr>"
  unfolding apply_anthropic_or_responses_usage_def Let_def responses_reasoning responses_cache [OF assms(3)]
  using assms by (simp add: take_reasoning_def)

lemma gemini_reads:
  assumes "p < 2 ^ 63" and "c < 2 ^ 63" and "k < 2 ^ 63"
  shows "usage_first_int ov [''promptTokenCount'', ''prompt_token_count''] (gemini_usage p c k) = int p"
    and "usage_first_int ov [''candidatesTokenCount'', ''candidates_token_count''] (gemini_usage p c k) = int c"
    and "usage_first_int ov [''cachedContentTokenCount'', ''cached_content_token_count''] (gemini_usage p c k) = int k"
    and "usage_first_int ov [''totalTokenCount'', ''total_token_count''] (gemini_usage p c k) = 0"
    and "usage_first_int ov [''thoughtsTokenCount'', ''thoughts_token_count'', ''totalThoughtTokens'', ''total_thought_tokens'']
       (gemini_usage p c k) = 0"
    and "member_object ''usageMetadata'' (gemini_usage p c k) = None"
    and "member_object ''usage_metadata'' (gemini_usage p c k) = None"
  using assms by (simp_all add: gemini_usage_def usage_int_def member_number_def member_object_def)

lemma gemini_counts:
  assumes "p < 2 ^ 63" and "c < 2 ^ 63" and "k < 2 ^ 63"
  shows "apply_gemini_usage ov (gemini_usage p c k) u =
     u\<lparr>ua_input := (if p > 0 then int p else ua_input u), ua_output := int c,
        ua_cache_read := (if k > 0 then int k else ua_cache_read u)\<rparr>"
  unfolding apply_gemini_usage_def Let_def gemini_reads [OF assms] option.case
  by (simp add: take_reasoning_def)

text \<open>C37: 
  What is billed does not depend on the format the provider reports in: \<open>p\<close> prompt tokens of which
  \<open>k\<close> came from the cache and \<open>c\<close> answered tokens are billed as \<open>p - k\<close> inputs, \<open>c\<close> outputs and \<open>k\<close>
  cache reads, whether they are reported as Chat Completions, Responses, Gemini or Anthropic usage.
\<close>

theorem usage_formats_agree:
  assumes "k \<le> p" and "p < 2 ^ 63" and "c < 2 ^ 63"
  shows "let counts = (int (p - k), int c, int k, 0)
     in bill ov ''openai'' (chat_usage p c k) = counts \<and> bill ov ''codex'' (responses_usage p c k) = counts \<and>
        bill ov ''gemini'' (gemini_usage p c k) = counts \<and> bill ov ''anthropic'' (anthropic_usage p c k) = counts"
proof -
  have k: "k < 2 ^ 63" and pk: "p - k < 2 ^ 63" using assms by simp_all
  have ge: "int (p - k) = int p - int k" using assms(1) by simp
  have "bill ov ''openai'' (chat_usage p c k) = (int (p - k), int c, int k, 0)"
    using assms k by (simp add: usage_appliers usage_lookups chat_usage_def ge wrap64_nat Let_def)
  moreover have "bill ov ''codex'' (responses_usage p c k) = (int (p - k), int c, int k, 0)"
  proof -
    have "\<not> has_openai_chat_usage_fields (responses_usage p c k)" "has_anthropic_usage_fields (responses_usage p c k)"
      by (simp_all add: responses_usage_def has_openai_chat_usage_fields_def has_anthropic_usage_fields_def member_number_def)
    then show ?thesis using assms k
      by (simp add: bill_def apply_usage_def responses_counts normalized_usage_def empty_usage_def ge wrap64_nat Let_def)
  qed
  moreover have "bill ov ''gemini'' (gemini_usage p c k) = (int (p - k), int c, int k, 0)"
    using assms k by (simp add: bill_def apply_usage_def gemini_counts normalized_usage_def empty_usage_def ge Let_def)
  moreover have "bill ov ''anthropic'' (anthropic_usage p c k) = (int (p - k), int c, int k, 0)"
    using assms k go_int_real [OF pk, of ov] by (simp add: usage_appliers usage_lookups anthropic_usage_def of_nat_diff Let_def)
  ultimately show ?thesis by simp
qed

theorem usage_formats_agree_witness:
  "bill (\<lambda>x. 0) ''openai'' (chat_usage 120 30 100) = (20, 30, 100, 0) \<and>
   bill (\<lambda>x. 0) ''anthropic'' (anthropic_usage 120 30 100) = (20, 30, 100, 0)"
  using usage_formats_agree [of 100 120 30 "\<lambda>x. 0"] by (simp add: Let_def)

section \<open>Without a protocol\<close>

text \<open>
  A usage object of a request without a known protocol is recognised by its fields, but the part of the
  prompt that came from the cache stays in the input.
\<close>

theorem unknown_protocol_bills_cache_twice:
  assumes "0 < k" and "k \<le> p" and "p < 2 ^ 63" and "c < 2 ^ 63"
  shows "bill ov '''' (responses_usage p c k) = (int p, int c, int k, 0)"
proof -
  have k: "k < 2 ^ 63" using assms by simp
  have "\<not> has_openai_chat_usage_fields (responses_usage p c k)" "has_anthropic_usage_fields (responses_usage p c k)"
    by (simp_all add: responses_usage_def has_openai_chat_usage_fields_def has_anthropic_usage_fields_def member_number_def)
  moreover have "\<not> has_gemini_usage_fields ov (responses_usage p c k)"
    by (simp add: responses_usage_def has_gemini_usage_fields_def member_object_def usage_int_def member_number_def)
  ultimately show ?thesis using assms k
    by (simp add: bill_def apply_usage_def responses_counts normalized_usage_def empty_usage_def Let_def)
qed

section \<open>Counts survive the rest of the stream\<close>

lemma reasoning_counts [unchanged]:
  "ua_input (take_reasoning v u) = ua_input u" "ua_output (take_reasoning v u) = ua_output u"
  "ua_input (take_detail_reasoning ov k m u) = ua_input u" "ua_output (take_detail_reasoning ov k m u) = ua_output u"
  by (simp_all add: take_reasoning_def take_detail_reasoning_def split: option.split)

lemma billing_counts [unchanged]:
  "ua_input (apply_billing_usage_openai_reasoning ov m u) = ua_input u"
  "ua_output (apply_billing_usage_openai_reasoning ov m u) = ua_output u"
  by (simp_all add: apply_billing_usage_openai_reasoning_def unchanged Let_def split: option.split)

lemma when_number_counts [unchanged]:
  "(\<And>f v. ua_input (g f v) = ua_input v) \<Longrightarrow> ua_input (when_number k m g u) = ua_input u"
  "(\<And>f v. ua_output (g f v) = ua_output v) \<Longrightarrow> ua_output (when_number k m g u) = ua_output u"
  by (simp_all add: when_number_def split: option.split)

lemma cache_creation_counts [unchanged]:
  "ua_input (apply_cache_creation ov m u) = ua_input u" "ua_output (apply_cache_creation ov m u) = ua_output u"
  by (auto simp: apply_cache_creation_def unchanged Let_def split: option.split)

definition positive_input :: "(real \<Rightarrow> int) \<Rightarrow> members \<Rightarrow> int option" where
  "positive_input ov m =
     (case member_number ''input_tokens'' m of
        None \<Rightarrow> None | Some f \<Rightarrow> if go_int ov f > 0 then Some (go_int ov f) else None)"

definition stated_output :: "(real \<Rightarrow> int) \<Rightarrow> members \<Rightarrow> int option" where
  "stated_output ov m = map_option (go_int ov) (member_number ''output_tokens'' m)"

lemma anthropic_counts:
  "ua_input (apply_usage ov ''anthropic'' (Some m) u) = (case positive_input ov m of None \<Rightarrow> ua_input u | Some n \<Rightarrow> n)"
  "ua_output (apply_usage ov ''anthropic'' (Some m) u) = (case stated_output ov m of None \<Rightarrow> ua_output u | Some n \<Rightarrow> n)"
  by (simp_all add: apply_usage_def apply_anthropic_or_responses_usage_def unchanged Let_def
      positive_input_def stated_output_def when_number_def split: option.split)

definition last_or :: "int \<Rightarrow> int list \<Rightarrow> int" where
  "last_or d xs = (if xs = [] then d else last xs)"

lemma last_or_Cons [simp]: "last_or d (x # xs) = last_or x xs"
  by (simp add: last_or_def)

lemma last_or_Nil [simp]: "last_or d [] = d"
  by (simp add: last_or_def)

text \<open>
  Over a stream of an Anthropic upstream, whatever its events report, the input that is billed is the
  last positive one reported, so that a later event with zero input does not erase the count of
  \<open>message_start\<close>, and the output is the last one reported, which counts everything so far.
\<close>

theorem anthropic_stream_counts:
  "let u = fold (\<lambda>m. apply_usage ov ''anthropic'' (Some m)) events empty_usage
   in ua_input u = last_or 0 (List.map_filter (positive_input ov) events) \<and>
      ua_output u = last_or 0 (List.map_filter (stated_output ov) events) \<and>
      fst (normalized_usage ''anthropic'' u) = ua_input u"
proof -
  have "ua_input (fold (\<lambda>m. apply_usage ov ''anthropic'' (Some m)) events v) =
      last_or (ua_input v) (List.map_filter (positive_input ov) events)" for v
    by (induction events arbitrary: v) (simp_all add: anthropic_counts List.map_filter_simps split: option.split)
  moreover have "ua_output (fold (\<lambda>m. apply_usage ov ''anthropic'' (Some m)) events v) =
      last_or (ua_output v) (List.map_filter (stated_output ov) events)" for v
    by (induction events arbitrary: v) (simp_all add: anthropic_counts List.map_filter_simps split: option.split)
  ultimately show ?thesis by (simp add: Let_def empty_usage_def normalized_usage_def)
qed

section \<open>An image is charged once\<close>

definition image_costs_add_up :: "usage_accumulator \<Rightarrow> bool" where
  "image_costs_add_up u \<longleftrightarrow> finite (dom (ua_image_costs u)) \<and>
     (\<not> ua_tool_seen u \<longrightarrow> ua_tool_cost u = (\<Sum>k\<in>dom (ua_image_costs u). the (ua_image_costs u k)))"

lemma charge_image_item_adds_up:
  assumes "image_costs_add_up u"
  shows "image_costs_add_up (charge_image_item model item u)"
proof -
  let ?m = "ua_image_costs u" and ?k = "ci_key item"
  have fin: "finite (dom ?m)" using assms by (simp add: image_costs_add_up_def)
  have upd: "(\<Sum>k\<in>dom (?m(?k \<mapsto> c)). the ((?m(?k \<mapsto> c)) k)) = c + (\<Sum>k\<in>dom ?m - {?k}. the (?m k))" for c
    using fin by (simp add: sum.insert_remove)
  have split: "(\<Sum>k\<in>dom ?m. the (?m k)) = (case ?m ?k of None \<Rightarrow> 0 | Some c \<Rightarrow> c) + (\<Sum>k\<in>dom ?m - {?k}. the (?m k))"
    using sum.remove [OF fin, of ?k "\<lambda>k. the (?m k)"] by (cases "?m ?k") (simp_all add: domIff domI)
  have "finite (dom (?m(?k \<mapsto> c)))" for c using fin by simp
  then show ?thesis
    using assms fin upd split
    by (auto simp: charge_image_item_def image_costs_add_up_def Let_def simp del: fun_upd_apply dom_fun_upd split: option.splits)
qed

lemma fallback_adds_up:
  assumes "image_costs_add_up u"
  shows "image_costs_add_up (apply_image_generation_fallback payload model u)"
proof -
  have "image_costs_add_up v \<Longrightarrow> image_costs_add_up (fold (charge_image_item m) items v)" for m items v
    by (induction items arbitrary: v) (simp_all add: charge_image_item_adds_up)
  then show ?thesis using assms by (simp add: apply_image_generation_fallback_def)
qed

lemma tool_usage_adds_up:
  assumes "image_costs_add_up u"
  shows "image_costs_add_up (apply_tool_usage_from_payload ov payload u)"
proof -
  obtain tool model where e: "extract_tool_usage_and_image_model payload = (tool, model)" by fastforce
  let ?v = "if model \<noteq> '''' then u\<lparr>ua_image_model := model\<rparr> else u"
  obtain b w where m: "apply_tool_usage_map ov tool model ?v = (b, w)" by fastforce
  have "image_costs_add_up ?v" using assms by (simp add: image_costs_add_up_def)
  then have "image_costs_add_up w"
    using m by (auto simp: apply_tool_usage_map_def image_costs_add_up_def Let_def split: option.splits if_splits)
  then show ?thesis
    using fallback_adds_up [of w] by (cases b) (simp_all add: apply_tool_usage_from_payload_def e m Let_def)
qed


end
