(* ===== verification/Stream_Scanner.thy ===== *)
theory Stream_Scanner
  imports Usage_Accounting
begin

text \<open>
  The two machines of \<open>internal/app/proxy_sse_parser.go\<close> that read a response byte by byte without
  waiting for its end: the sanitizer that leaves out the pictures (\<open>sseLargeFieldSanitizer\<close>), and the
  scanner of \<open>jsonUsageParser\<close> that captures the usage objects of a text.

  Both recognise keys in the same way, with the same code under two names (\<open>scanStringByte\<close> and
  \<open>scanJSONStringByte\<close>, \<open>appendStringByte\<close> and \<open>appendJSONKeyByte\<close>); here the common fields are a record
  that both machines extend, and the operations on them are written once.  \<open>json.Unmarshal\<close> of a
  captured fragment is the argument \<open>decode\<close>.
\<close>

section \<open>Recognising keys\<close>

abbreviation quote_char :: char where "quote_char \<equiv> CHR 0x22"
abbreviation backslash :: char where "backslash \<equiv> CHR 0x5C"

definition max_json_key_size :: nat where "max_json_key_size = 128"
definition max_json_usage_fragment_size :: nat where "max_json_usage_fragment_size = 65536"
definition max_usage_body_size :: nat where "max_usage_body_size = 1048576"

definition is_json_whitespace :: "char \<Rightarrow> bool" where
  "is_json_whitespace b \<longleftrightarrow> b = CHR '' '' \<or> b = CHR 0x0A \<or> b = CHR 0x0D \<or> b = CHR 0x09"

record key_scan =
  ks_in_string :: bool
  ks_escape :: bool
  ks_buf :: string
  ks_too_long :: bool
  ks_have_token :: bool
  ks_token :: string
  ks_pending :: string
  ks_expect :: bool

definition append_string_byte :: "char \<Rightarrow> 'a key_scan_scheme \<Rightarrow> 'a key_scan_scheme" where
  "append_string_byte b s =
     (if ks_too_long s then s
      else if length (ks_buf s) \<ge> max_json_key_size then s\<lparr>ks_too_long := True, ks_buf := []\<rparr>
      else s\<lparr>ks_buf := ks_buf s @ [b]\<rparr>)"

definition scan_string_byte :: "char \<Rightarrow> 'a key_scan_scheme \<Rightarrow> 'a key_scan_scheme" where
  "scan_string_byte b s =
     (if ks_escape s then append_string_byte b (s\<lparr>ks_escape := False\<rparr>)
      else if b = backslash then s\<lparr>ks_escape := True\<rparr>
      else if b = quote_char
      then (if ks_too_long s then s\<lparr>ks_in_string := False\<rparr>
            else s\<lparr>ks_in_string := False, ks_have_token := True, ks_token := ks_buf s\<rparr>)
      else append_string_byte b s)"

definition clear_pending :: "'a key_scan_scheme \<Rightarrow> 'a key_scan_scheme" where
  "clear_pending s = s\<lparr>ks_pending := '''', ks_expect := False\<rparr>"

text \<open>A byte outside of strings, after the decision about an expected value.\<close>

definition open_string :: "char \<Rightarrow> 'a key_scan_scheme \<Rightarrow> 'a key_scan_scheme" where
  "open_string b s =
     (if b = quote_char
      then s\<lparr>ks_in_string := True, ks_escape := False, ks_buf := [], ks_too_long := False\<rparr> else s)"

definition scan_outside_byte :: "char \<Rightarrow> 'a key_scan_scheme \<Rightarrow> 'a key_scan_scheme" where
  "scan_outside_byte b s =
     (if ks_have_token s
      then if is_json_whitespace b then s
           else if b = CHR '':''
           then s\<lparr>ks_pending := ks_token s, ks_expect := True, ks_have_token := False, ks_token := ''''\<rparr>
           else open_string b (s\<lparr>ks_have_token := False, ks_token := ''''\<rparr>)
      else open_string b s)"

section \<open>The sanitizer\<close>

record sanitizer = key_scan +
  sz_dropping :: bool
  sz_drop_escape :: bool

definition new_sanitizer :: sanitizer where
  "new_sanitizer =
     \<lparr>ks_in_string = False, ks_escape = False, ks_buf = [], ks_too_long = False, ks_have_token = False,
      ks_token = '''', ks_pending = '''', ks_expect = False, sz_dropping = False, sz_drop_escape = False\<rparr>"

definition is_large_json_string_field :: "string \<Rightarrow> bool" where
  "is_large_json_string_field key \<longleftrightarrow> key = ''result'' \<or> key = ''partial_image_b64''"

definition consume_dropped_string_byte :: "char \<Rightarrow> sanitizer \<Rightarrow> sanitizer" where
  "consume_dropped_string_byte b s =
     (if sz_drop_escape s then s\<lparr>sz_drop_escape := False\<rparr>
      else if b = backslash then s\<lparr>sz_drop_escape := True\<rparr>
      else if b = quote_char then s\<lparr>sz_dropping := False\<rparr>
      else s)"

definition sanitize_byte :: "char \<Rightarrow> sanitizer \<Rightarrow> sanitizer \<times> string" where
  "sanitize_byte b s =
     (if sz_dropping s then (consume_dropped_string_byte b s, '''')
      else
        let awaiting = (ks_expect s \<and> is_large_json_string_field (ks_pending s))
        in if awaiting \<and> is_json_whitespace b then (s, [b])
           else if awaiting \<and> b = quote_char
           then (clear_pending (s\<lparr>sz_dropping := True, sz_drop_escape := False\<rparr>),
                 quote_char # ''<omitted>'' @ [quote_char])
           else let s' = (if awaiting then clear_pending s else s)
                in (if ks_in_string s' then scan_string_byte b s' else scan_outside_byte b s', [b]))"

fun sanitize :: "string \<Rightarrow> sanitizer \<Rightarrow> sanitizer \<times> string" where
  "sanitize [] s = (s, [])"
| "sanitize (b # bs) s =
     (case sanitize_byte b s of (s1, o1) \<Rightarrow> (case sanitize bs s1 of (s2, o2) \<Rightarrow> (s2, o1 @ o2)))"

section \<open>The scanner\<close>

record json_usage_parser = key_scan +
  jp_usage :: usage_accumulator
  jp_protocol :: string
  jp_capture_key :: string
  jp_capture_buf :: string
  jp_depth :: nat
  jp_capture_string :: bool
  jp_capture_escape :: bool
  jp_discard :: bool
  jp_buffer :: string
  jp_truncated :: bool
  jp_has_body :: bool

definition new_json_usage_parser :: "string \<Rightarrow> json_usage_parser" where
  "new_json_usage_parser protocol =
     \<lparr>ks_in_string = False, ks_escape = False, ks_buf = [], ks_too_long = False, ks_have_token = False,
      ks_token = '''', ks_pending = '''', ks_expect = False, jp_usage = empty_usage, jp_protocol = protocol,
      jp_capture_key = '''', jp_capture_buf = [], jp_depth = 0, jp_capture_string = False,
      jp_capture_escape = False, jp_discard = False, jp_buffer = [], jp_truncated = False, jp_has_body = False\<rparr>"

definition apply_usage_map ::
    "(real \<Rightarrow> int) \<Rightarrow> members option \<Rightarrow> string \<Rightarrow> usage_accumulator \<Rightarrow> usage_accumulator" where
  "apply_usage_map ov usage protocol u =
     (case usage of
        None \<Rightarrow> u
      | Some m \<Rightarrow>
          apply_usage ov protocol (Some m)
            (if member_string ''speed'' m = ''fast'' then u\<lparr>ua_service_tier := ''fast''\<rparr> else u))"

definition usage_keys :: "string list" where
  "usage_keys = [''usage'', ''usageMetadata'', ''usage_metadata'']"

text \<open>What \<open>finishJSONValueCapture\<close> does with the captured text.\<close>

definition use_fragment ::
    "(real \<Rightarrow> int) \<Rightarrow> (string \<Rightarrow> json option) \<Rightarrow> string \<Rightarrow> string \<Rightarrow> string \<Rightarrow> usage_accumulator \<Rightarrow> usage_accumulator" where
  "use_fragment ov decode protocol key fragment u =
     (if key \<in> set usage_keys
      then (case decode fragment of Some (JObj m) \<Rightarrow> apply_usage_map ov (Some m) protocol u | _ \<Rightarrow> u)
      else if key = ''tool_usage''
      then (case decode fragment of Some (JObj m) \<Rightarrow> snd (apply_tool_usage_map ov (Some m) '''' u) | _ \<Rightarrow> u)
      else if key = ''service_tier''
      then (case decode fragment of
              Some (JStr t) \<Rightarrow> if t \<noteq> '''' then u\<lparr>ua_service_tier := t\<rparr> else u
            | _ \<Rightarrow> u)
      else u)"

definition finish_json_value_capture ::
    "(real \<Rightarrow> int) \<Rightarrow> (string \<Rightarrow> json option) \<Rightarrow> json_usage_parser \<Rightarrow> json_usage_parser" where
  "finish_json_value_capture ov decode p =
     p\<lparr>jp_usage := (if \<not> jp_discard p \<and> jp_capture_buf p \<noteq> []
                    then use_fragment ov decode (jp_protocol p) (jp_capture_key p) (jp_capture_buf p) (jp_usage p)
                    else jp_usage p),
       jp_capture_key := '''', jp_capture_buf := [], jp_depth := 0, jp_capture_string := False,
       jp_capture_escape := False, jp_discard := False\<rparr>"

definition keep_capture_byte :: "char \<Rightarrow> json_usage_parser \<Rightarrow> json_usage_parser" where
  "keep_capture_byte b p =
     (if jp_discard p then p
      else if length (jp_capture_buf p) \<ge> max_json_usage_fragment_size
      then p\<lparr>jp_discard := True, jp_capture_buf := []\<rparr>
      else p\<lparr>jp_capture_buf := jp_capture_buf p @ [b]\<rparr>)"

definition scan_json_capture_byte ::
    "(real \<Rightarrow> int) \<Rightarrow> (string \<Rightarrow> json option) \<Rightarrow> char \<Rightarrow> json_usage_parser \<Rightarrow> json_usage_parser" where
  "scan_json_capture_byte ov decode b p0 =
     (let p = keep_capture_byte b p0
      in if jp_capture_string p
         then if jp_capture_escape p then p\<lparr>jp_capture_escape := False\<rparr>
              else if b = backslash then p\<lparr>jp_capture_escape := True\<rparr>
              else if b = quote_char
              then let q = p\<lparr>jp_capture_string := False\<rparr>
                   in if jp_depth q = 0 then finish_json_value_capture ov decode q else q
              else p
         else if b = quote_char then p\<lparr>jp_capture_string := True\<rparr>
         else if b = CHR ''{'' then p\<lparr>jp_depth := jp_depth p + 1\<rparr>
         else if b = CHR ''}''
         then let q = p\<lparr>jp_depth := jp_depth p - 1\<rparr>
              in if jp_depth q = 0 then finish_json_value_capture ov decode q else q
         else p)"

definition start_json_value_capture ::
    "(real \<Rightarrow> int) \<Rightarrow> (string \<Rightarrow> json option) \<Rightarrow> char \<Rightarrow> json_usage_parser \<Rightarrow> json_usage_parser" where
  "start_json_value_capture ov decode b p =
     scan_json_capture_byte ov decode b
       (clear_pending (p\<lparr>jp_capture_key := ks_pending p, jp_capture_buf := [], jp_depth := 0,
                         jp_capture_string := False, jp_capture_escape := False, jp_discard := False\<rparr>))"

definition starts_capture :: "string \<Rightarrow> char \<Rightarrow> bool" where
  "starts_capture key b \<longleftrightarrow>
     (key \<in> set usage_keys \<or> key = ''tool_usage'') \<and> b = CHR ''{'' \<or> key = ''service_tier'' \<and> b = quote_char"

definition scan_json_byte ::
    "(real \<Rightarrow> int) \<Rightarrow> (string \<Rightarrow> json option) \<Rightarrow> char \<Rightarrow> json_usage_parser \<Rightarrow> json_usage_parser" where
  "scan_json_byte ov decode b p =
     (if jp_capture_key p \<noteq> '''' then scan_json_capture_byte ov decode b p
      else if ks_in_string p then scan_string_byte b p
      else if ks_expect p \<and> is_json_whitespace b then p
      else if ks_expect p \<and> starts_capture (ks_pending p) b then start_json_value_capture ov decode b p
      else scan_outside_byte b (if ks_expect p then clear_pending p else p))"

definition scan_json_usage ::
    "(real \<Rightarrow> int) \<Rightarrow> (string \<Rightarrow> json option) \<Rightarrow> string \<Rightarrow> json_usage_parser \<Rightarrow> json_usage_parser" where
  "scan_json_usage ov decode data p = fold (scan_json_byte ov decode) data p"

text \<open>\<open>jsonUsageParser.Feed\<close>.\<close>

definition json_feed ::
    "(real \<Rightarrow> int) \<Rightarrow> (string \<Rightarrow> json option) \<Rightarrow> string \<Rightarrow> json_usage_parser \<Rightarrow> json_usage_parser" where
  "json_feed ov decode data p =
     (let q = scan_json_usage ov decode data (if data \<noteq> [] then p\<lparr>jp_has_body := True\<rparr> else p)
      in if jp_truncated q then q
         else if length (jp_buffer q) + length data > max_usage_body_size
         then q\<lparr>jp_truncated := True, jp_buffer := []\<rparr>
         else q\<lparr>jp_buffer := jp_buffer q @ data\<rparr>)"

end
