(* ===== verification/Scanner_Properties.thy ===== *)
theory Scanner_Properties
  imports Stream_Scanner
begin

text \<open>
  What the two byte machines compute: on the tokens of a text the sanitizer replaces exactly the
  pictures, and the scanner finds the usage objects wherever they are, both without regard to how the
  text is cut into chunks, and with a bounded memory.
\<close>

section \<open>Texts as tokens\<close>

text \<open>
  A text whose strings are closed is a list of strings and of single characters between them; a
  character of a string may be escaped.
\<close>

datatype str_unit = Lit char | Esc char

datatype token = Sym char | Str "str_unit list"

primrec unit_text :: "str_unit \<Rightarrow> string" where
  "unit_text (Lit c) = [c]"
| "unit_text (Esc c) = [backslash, c]"

primrec unit_char :: "str_unit \<Rightarrow> char" where
  "unit_char (Lit c) = c"
| "unit_char (Esc c) = c"

primrec unit_ok :: "str_unit \<Rightarrow> bool" where
  "unit_ok (Lit c) \<longleftrightarrow> c \<noteq> quote_char \<and> c \<noteq> backslash"
| "unit_ok (Esc c) \<longleftrightarrow> True"

primrec token_ok :: "token \<Rightarrow> bool" where
  "token_ok (Sym c) \<longleftrightarrow> c \<noteq> quote_char"
| "token_ok (Str us) \<longleftrightarrow> list_all unit_ok us"

abbreviation str_body :: "str_unit list \<Rightarrow> string" where
  "str_body us \<equiv> concat (map unit_text us)"

primrec token_text :: "token \<Rightarrow> string" where
  "token_text (Sym c) = [c]"
| "token_text (Str us) = quote_char # str_body us @ [quote_char]"

abbreviation text_of :: "token list \<Rightarrow> string" where
  "text_of ts \<equiv> concat (map token_text ts)"

text \<open>The key a string names: its characters without the escapes.\<close>

abbreviation key_of :: "str_unit list \<Rightarrow> string" where
  "key_of us \<equiv> map unit_char us"

section \<open>The sanitizer omits exactly the pictures\<close>

datatype position = Elsewhere | After_String string | After_Colon string

primrec next_position :: "position \<Rightarrow> char \<Rightarrow> position" where
  "next_position Elsewhere c = Elsewhere"
| "next_position (After_String k) c =
     (if is_json_whitespace c then After_String k else if c = CHR '':'' then After_Colon k else Elsewhere)"
| "next_position (After_Colon k) c = (if is_json_whitespace c then After_Colon k else Elsewhere)"

definition picture_at :: "position \<Rightarrow> bool" where
  "picture_at m \<longleftrightarrow> (case m of After_Colon k \<Rightarrow> is_large_json_string_field k | _ \<Rightarrow> False)"

definition omitted :: token where
  "omitted = Str (map Lit ''<omitted>'')"

fun omit_pictures :: "position \<Rightarrow> token list \<Rightarrow> token list" where
  "omit_pictures m [] = []"
| "omit_pictures m (Sym c # ts) = Sym c # omit_pictures (next_position m c) ts"
| "omit_pictures m (Str us # ts) =
     (if picture_at m then omitted # omit_pictures Elsewhere ts
      else Str us # omit_pictures (After_String (key_of us)) ts)"

lemma sanitize_append [simp]:
  "sanitize (a @ b) s = (case sanitize a s of (s1, o1) \<Rightarrow> (case sanitize b s1 of (s2, o2) \<Rightarrow> (s2, o1 @ o2)))"
  by (induction a arbitrary: s) (auto split: prod.split)

definition awaits_picture :: "'a key_scan_scheme \<Rightarrow> bool" where
  "awaits_picture s \<longleftrightarrow> ks_expect s \<and> is_large_json_string_field (ks_pending s)"

definition at_position :: "position \<Rightarrow> sanitizer \<Rightarrow> bool" where
  "at_position m s \<longleftrightarrow> \<not> ks_in_string s \<and> \<not> sz_dropping s \<and>
     (case m of
        Elsewhere \<Rightarrow> \<not> ks_have_token s \<and> \<not> awaits_picture s
      | After_String k \<Rightarrow> \<not> awaits_picture s \<and>
          (if length k \<le> max_json_key_size then ks_have_token s \<and> ks_token s = k else \<not> ks_have_token s)
      | After_Colon k \<Rightarrow> \<not> ks_have_token s \<and>
          (if is_large_json_string_field k then ks_expect s \<and> ks_pending s = k else \<not> awaits_picture s))"

lemma large_is_short: "is_large_json_string_field k \<Longrightarrow> length k \<le> max_json_key_size"
  by (auto simp: is_large_json_string_field_def max_json_key_size_def)

text \<open>Inside a string that is not a picture: the key read so far, as long as it is short enough.\<close>

definition reading_key :: "string \<Rightarrow> 'a key_scan_scheme \<Rightarrow> bool" where
  "reading_key k s \<longleftrightarrow> ks_in_string s \<and> \<not> ks_escape s \<and> \<not> ks_have_token s \<and>
     (if length k \<le> max_json_key_size then \<not> ks_too_long s \<and> ks_buf s = k else ks_too_long s)"

lemma append_reads:
  "reading_key k s \<Longrightarrow> reading_key (k @ [c]) (append_string_byte c s)"
  by (auto simp: reading_key_def append_string_byte_def split: if_splits)

lemma unit_reads:
  assumes "reading_key k s" and "unit_ok u"
  shows "reading_key (k @ [unit_char u]) (fold scan_string_byte (unit_text u) s)"
proof (cases u)
  case (Lit c)
  then show ?thesis using assms append_reads [OF assms(1), of c] by (simp add: scan_string_byte_def reading_key_def)
next
  case (Esc c)
  have e: "s\<lparr>ks_escape := False\<rparr> = s" using assms(1) by (cases s) (simp add: reading_key_def)
  have "fold scan_string_byte (unit_text u) s = append_string_byte c s"
    using assms(1) by (simp add: Esc scan_string_byte_def e reading_key_def)
  then show ?thesis using append_reads [OF assms(1), of c] Esc by simp
qed

lemma body_reads:
  "reading_key k s \<Longrightarrow> list_all unit_ok us \<Longrightarrow> reading_key (k @ key_of us) (fold scan_string_byte (str_body us) s)"
proof (induction us arbitrary: k s)
  case (Cons u us)
  then show ?case using unit_reads [of k s u] Cons.IH [of "k @ [unit_char u]"] by simp
qed simp

text \<open>What is left alone inside a string.\<close>

lemma string_step_keeps [unchanged]:
  "ks_pending (fold scan_string_byte bs s) = ks_pending s"
  "ks_expect (fold scan_string_byte bs s) = ks_expect s"
  by (induction bs arbitrary: s) (simp_all add: scan_string_byte_def append_string_byte_def)

lemma dropping_string_step [unchanged]: "sz_dropping (fold scan_string_byte bs s) = sz_dropping s"
  by (induction bs arbitrary: s) (simp_all add: scan_string_byte_def append_string_byte_def)

lemma awaits_string_step [unchanged]: "awaits_picture (fold scan_string_byte bs s) = awaits_picture s"
  by (simp add: awaits_picture_def unchanged)

lemma sanitize_inside:
  assumes "\<not> sz_dropping s" and "\<not> awaits_picture s"
  shows "sanitize_byte b s = (if ks_in_string s then scan_string_byte b s else scan_outside_byte b s, [b])"
  using assms unfolding sanitize_byte_def awaits_picture_def by auto

lemma sanitize_string_body:
  assumes "reading_key k s" and "\<not> sz_dropping s" and "\<not> awaits_picture s" and "list_all unit_ok us"
  shows "sanitize (str_body us) s = (fold scan_string_byte (str_body us) s, str_body us)"
  using assms
proof (induction us arbitrary: k s)
  case (Cons u us)
  let ?s = "fold scan_string_byte (unit_text u) s"
  have r: "reading_key (k @ [unit_char u]) ?s" using Cons.prems by (simp add: unit_reads)
  have s: "ks_in_string s" "\<not> ks_escape s" using Cons.prems(1) by (simp_all add: reading_key_def)
  then have inside: "ks_in_string (scan_string_byte backslash s)" by (simp add: scan_string_byte_def)
  note after = dropping_string_step [of "[backslash]" s] awaits_string_step [of "[backslash]" s]
  have "sanitize (unit_text u) s = (?s, unit_text u)"
    using Cons.prems(2,3) s(1) inside after by (cases u) (simp_all add: sanitize_inside)
  then show ?case using Cons.IH [OF r] Cons.prems by (simp add: unchanged)
qed simp

text \<open>A picture is dropped up to its closing quote.\<close>

lemma drop_string_body:
  assumes "sz_dropping s" and "\<not> sz_drop_escape s" and "list_all unit_ok us"
  shows "sanitize (str_body us @ [quote_char]) s = (s\<lparr>sz_dropping := False\<rparr>, [])"
  using assms
proof (induction us)
  case (Cons u us)
  have "s\<lparr>sz_drop_escape := False\<rparr> = s" using Cons.prems(2) by (cases s) simp
  then have "sanitize (unit_text u) s = (s, [])"
    using Cons.prems by (cases u) (simp_all add: sanitize_byte_def consume_dropped_string_byte_def)
  then show ?case using Cons by simp
qed (simp add: sanitize_byte_def consume_dropped_string_byte_def)

text \<open>One token: what is written, and the position after it.\<close>

lemma sanitize_symbol:
  assumes "at_position m s" and "c \<noteq> quote_char"
  shows "\<exists>s'. sanitize [c] s = (s', [c]) \<and> at_position (next_position m c) s'"
proof -
  have s: "\<not> sz_dropping s" "\<not> ks_in_string s" using assms(1) by (simp_all add: at_position_def)
  show ?thesis
  proof (cases "awaits_picture s")
    case False
    then have "sanitize [c] s = (scan_outside_byte c s, [c])" using s by (simp add: sanitize_inside)
    moreover have "at_position (next_position m c) (scan_outside_byte c s)"
      using assms False s large_is_short
      by (cases m) (auto simp: at_position_def scan_outside_byte_def open_string_def awaits_picture_def split: if_splits)
    ultimately show ?thesis by blast
  next
    case True
    then obtain k where "m = After_Colon k" "is_large_json_string_field k"
      using assms(1) by (cases m) (auto simp: at_position_def split: if_splits)
    then show ?thesis using assms True s
      by (auto simp: sanitize_byte_def awaits_picture_def at_position_def scan_outside_byte_def open_string_def clear_pending_def Let_def)
  qed
qed

lemma opening_reads:
  assumes "\<not> ks_in_string s"
  shows "reading_key [] (scan_outside_byte quote_char s)"
    and "ks_pending (scan_outside_byte quote_char s) = ks_pending s"
    and "ks_expect (scan_outside_byte quote_char s) = ks_expect s"
  using assms by (auto simp: scan_outside_byte_def open_string_def reading_key_def is_json_whitespace_def)

lemma opening_keeps_dropping [unchanged]: "sz_dropping (scan_outside_byte b s) = sz_dropping s"
  by (simp add: scan_outside_byte_def open_string_def)

lemma closing_position:
  assumes "reading_key k s" and "\<not> sz_dropping s" and "\<not> awaits_picture s"
  shows "at_position (After_String k) (scan_string_byte quote_char s)"
  using assms by (auto simp: reading_key_def at_position_def scan_string_byte_def awaits_picture_def split: if_splits)

lemma position_awaits:
  assumes "at_position m s" shows "awaits_picture s \<longleftrightarrow> picture_at m"
  using assms by (cases m) (auto simp: at_position_def picture_at_def awaits_picture_def split: if_splits)

lemma sanitize_str:
  assumes "at_position m s" and "list_all unit_ok us"
  shows "\<exists>s'. sanitize (token_text (Str us)) s = (s', token_text (if picture_at m then omitted else Str us)) \<and>
     at_position (if picture_at m then Elsewhere else After_String (key_of us)) s'"
proof (cases "picture_at m")
  case True
  let ?s = "clear_pending (s\<lparr>sz_dropping := True, sz_drop_escape := False\<rparr>)"
  have "sanitize_byte quote_char s = (?s, token_text omitted)"
    using True assms(1) position_awaits [OF assms(1)]
    by (simp add: sanitize_byte_def at_position_def awaits_picture_def is_json_whitespace_def omitted_def Let_def)
  moreover have "sanitize (str_body us @ [quote_char]) ?s = (?s\<lparr>sz_dropping := False\<rparr>, [])"
    using assms(2) by (intro drop_string_body) (simp_all add: clear_pending_def)
  moreover have "at_position Elsewhere (?s\<lparr>sz_dropping := False\<rparr>)"
    using assms(1) True by (auto simp: at_position_def awaits_picture_def clear_pending_def picture_at_def split: position.splits)
  ultimately show ?thesis using True by simp
next
  case False
  let ?s = "scan_outside_byte quote_char s" and ?body = "str_body us"
  have s: "\<not> sz_dropping s" "\<not> ks_in_string s" "\<not> awaits_picture s"
    using assms(1) False position_awaits [OF assms(1)] by (simp_all add: at_position_def)
  have o: "reading_key [] ?s" "\<not> awaits_picture ?s" "\<not> sz_dropping ?s"
    using opening_reads [OF s(2)] s by (simp_all add: awaits_picture_def unchanged)
  let ?t = "fold scan_string_byte ?body ?s"
  have t: "reading_key (key_of us) ?t" "\<not> sz_dropping ?t" "\<not> awaits_picture ?t"
    using body_reads [OF o(1) assms(2)] o by (simp_all add: unchanged)
  have "sanitize_byte quote_char ?t = (scan_string_byte quote_char ?t, [quote_char])"
    using t by (simp add: sanitize_inside reading_key_def)
  moreover have "sanitize_byte quote_char s = (?s, [quote_char])" using s by (simp add: sanitize_inside)
  ultimately show ?thesis
    using False closing_position [OF t] sanitize_string_body [OF o(1) o(3) o(2) assms(2)] by simp
qed

lemma sanitize_tokens:
  "at_position m s \<Longrightarrow> list_all token_ok ts \<Longrightarrow>
     \<exists>s'. sanitize (text_of ts) s = (s', text_of (omit_pictures m ts))"
proof (induction m ts arbitrary: s rule: omit_pictures.induct)
  case (2 m c ts)
  then obtain s' where "sanitize [c] s = (s', [c])" "at_position (next_position m c) s'"
    using sanitize_symbol [of m s c] by auto
  with 2 show ?case by (fastforce split: prod.splits)
next
  case (3 m us ts)
  let ?out = "if picture_at m then omitted else Str us" and ?m = "if picture_at m then Elsewhere else After_String (key_of us)"
  obtain s' where s': "sanitize (token_text (Str us)) s = (s', token_text ?out)" "at_position ?m s'"
    using sanitize_str [OF 3(3), of us] 3(4) by auto
  have "\<exists>s''. sanitize (text_of ts) s' = (s'', text_of (omit_pictures ?m ts))"
    using 3 s'(2) by (cases "picture_at m") auto
  then obtain s'' where "sanitize (text_of ts) s' = (s'', text_of (omit_pictures ?m ts))" ..
  with s'(1) have "sanitize (text_of (Str us # ts)) s = (s'', token_text ?out @ text_of (omit_pictures ?m ts))"
    by (simp del: token_text.simps)
  then show ?case by auto
qed simp

fun sanitize_chunks :: "string list \<Rightarrow> sanitizer \<Rightarrow> sanitizer \<times> string" where
  "sanitize_chunks [] s = (s, [])"
| "sanitize_chunks (d # ds) s =
     (case sanitize d s of (s1, o1) \<Rightarrow> (case sanitize_chunks ds s1 of (s2, o2) \<Rightarrow> (s2, o1 @ o2)))"

lemma sanitize_chunks_concat: "sanitize_chunks ds s = sanitize (concat ds) s"
  by (induction ds arbitrary: s) (auto split: prod.split)

text \<open>C36: 
  The sanitizer leaves out the pictures and nothing else: however a text arrives in chunks, what comes
  out is the text in which each string that is the value of a key \<open>result\<close> or \<open>partial_image_b64\<close> is
  replaced by a placeholder and every other token is unchanged.
\<close>

theorem only_pictures_are_omitted:
  assumes "concat chunks = text_of ts" and "list_all token_ok ts"
  shows "snd (sanitize_chunks chunks new_sanitizer) = text_of (omit_pictures Elsewhere ts)"
proof -
  have "at_position Elsewhere new_sanitizer" by (simp add: at_position_def new_sanitizer_def awaits_picture_def)
  from sanitize_tokens [OF this assms(2)] show ?thesis using assms(1) by (auto simp: sanitize_chunks_concat)
qed

theorem only_pictures_are_omitted_witness:
  "snd (sanitize_chunks [[quote_char] @ ''resu'', ''lt'' @ [quote_char] @ '': '' @ [quote_char] @ ''a'', ''b'' @ [quote_char] @ '',1'']
      new_sanitizer) =
   [quote_char] @ ''result'' @ [quote_char] @ '': '' @ [quote_char] @ ''<omitted>'' @ [quote_char] @ '',1''"
proof -
  let ?ts = "[Str (map Lit ''result''), Sym CHR '':'', Sym CHR '' '', Str (map Lit ''ab''), Sym CHR '','', Sym CHR ''1'']"
  have "picture_at (After_Colon ''result'')" by (simp add: picture_at_def is_large_json_string_field_def)
  then have "omit_pictures Elsewhere ?ts =
      [Str (map Lit ''result''), Sym CHR '':'', Sym CHR '' '', omitted, Sym CHR '','', Sym CHR ''1'']"
    by (simp add: is_json_whitespace_def picture_at_def)
  then show ?thesis
    using only_pictures_are_omitted [of "[[quote_char] @ ''resu'', ''lt'' @ [quote_char] @ '': '' @ [quote_char] @ ''a'', ''b'' @ [quote_char] @ '',1'']" ?ts]
    by (simp add: omitted_def)
qed

section \<open>The scanner finds the usage objects\<close>

definition capture_keys :: "string list" where
  "capture_keys = usage_keys @ [''tool_usage'', ''service_tier'']"

lemma starts_capture_key: "starts_capture k b \<Longrightarrow> k \<in> set capture_keys"
  by (auto simp: starts_capture_def capture_keys_def)

lemma short_keys: "k \<in> set capture_keys \<Longrightarrow> length k \<le> max_json_key_size"
  by (auto simp: capture_keys_def usage_keys_def max_json_key_size_def)

text \<open>Between two tokens, with no key in sight.\<close>

definition scanner_idle :: "json_usage_parser \<Rightarrow> bool" where
  "scanner_idle p \<longleftrightarrow> jp_capture_key p = '''' \<and> \<not> ks_in_string p \<and>
     (ks_have_token p \<longrightarrow> ks_token p \<notin> set capture_keys) \<and> (ks_expect p \<longrightarrow> ks_pending p \<notin> set capture_keys)"

lemma string_step_scanner [unchanged]:
  "jp_capture_key (scan_string_byte b p) = jp_capture_key p" "jp_usage (scan_string_byte b p) = jp_usage p"
  "jp_protocol (scan_string_byte b p) = jp_protocol p"
  "jp_capture_key (scan_outside_byte b p) = jp_capture_key p" "jp_usage (scan_outside_byte b p) = jp_usage p"
  "jp_protocol (scan_outside_byte b p) = jp_protocol p"
  by (simp_all add: scan_string_byte_def append_string_byte_def scan_outside_byte_def open_string_def)

lemma fold_string_scanner [unchanged]:
  "jp_capture_key (fold scan_string_byte bs p) = jp_capture_key p" "jp_usage (fold scan_string_byte bs p) = jp_usage p"
  "jp_protocol (fold scan_string_byte bs p) = jp_protocol p"
  by (induction bs arbitrary: p) (simp_all add: unchanged)

lemma clear_pending_scanner [simp]:
  "jp_capture_key (clear_pending p) = jp_capture_key p" "jp_usage (clear_pending p) = jp_usage p"
  "jp_protocol (clear_pending p) = jp_protocol p" "ks_in_string (clear_pending s) = ks_in_string s"
  "ks_have_token (clear_pending s) = ks_have_token s" "ks_token (clear_pending s) = ks_token s"
  "ks_expect (clear_pending s) = False" "ks_pending (clear_pending s) = ''''"
  by (simp_all add: clear_pending_def)

lemma idle_byte:
  assumes "scanner_idle p"
  shows "scan_json_byte ov decode b p =
     (if ks_expect p \<and> is_json_whitespace b then p
      else scan_outside_byte b (if ks_expect p then clear_pending p else p))"
  using assms starts_capture_key by (auto simp: scan_json_byte_def scanner_idle_def)

lemma idle_outside: "scanner_idle p \<Longrightarrow> c \<noteq> quote_char \<Longrightarrow> scanner_idle (scan_outside_byte c p)"
  by (simp add: scanner_idle_def scan_outside_byte_def open_string_def)

lemma idle_clear: "scanner_idle p \<Longrightarrow> scanner_idle (clear_pending p)"
  by (simp add: scanner_idle_def)

lemma idle_symbol:
  assumes "scanner_idle p" and "c \<noteq> quote_char"
  shows "scanner_idle (scan_json_byte ov decode c p)" and "jp_usage (scan_json_byte ov decode c p) = jp_usage p"
    and "jp_protocol (scan_json_byte ov decode c p) = jp_protocol p"
  unfolding idle_byte [OF assms(1)] using assms idle_outside idle_clear by (simp_all add: unchanged)

lemma scan_string_text:
  assumes "reading_key k p" and "jp_capture_key p = ''''" and "list_all unit_ok us"
  shows "fold (scan_json_byte ov decode) (str_body us) p = fold scan_string_byte (str_body us) p"
  using assms
proof (induction us arbitrary: k p)
  case (Cons u us)
  have r: "reading_key (k @ [unit_char u]) (fold scan_string_byte (unit_text u) p)" using Cons.prems by (simp add: unit_reads)
  have p: "ks_in_string p" "\<not> ks_escape p" using Cons.prems(1) by (simp_all add: reading_key_def)
  then have "ks_in_string (scan_string_byte backslash p)" by (simp add: scan_string_byte_def)
  then have "fold (scan_json_byte ov decode) (unit_text u) p = fold scan_string_byte (unit_text u) p"
    using Cons.prems(2) p(1) by (cases u) (simp_all add: scan_json_byte_def unchanged)
  then show ?case using Cons.IH [OF r] Cons.prems by (simp add: unchanged)
qed simp

text \<open>After a string the current token is its key, if the key is not too long.\<close>

lemma idle_string:
  assumes "scanner_idle p" and "list_all unit_ok us"
  shows "\<exists>q. fold (scan_json_byte ov decode) (token_text (Str us)) p = q \<and> jp_capture_key q = '''' \<and>
     \<not> ks_in_string q \<and> \<not> ks_expect q \<and> jp_usage q = jp_usage p \<and> jp_protocol q = jp_protocol p \<and>
     (if length (key_of us) \<le> max_json_key_size then ks_have_token q \<and> ks_token q = key_of us else \<not> ks_have_token q)"
proof -
  let ?p = "if ks_expect p then clear_pending p else p"
  let ?s = "scan_outside_byte quote_char ?p"
  let ?t = "fold scan_string_byte (str_body us) ?s"
  have p: "\<not> ks_in_string ?p" "jp_capture_key ?p = ''''" using assms(1) by (simp_all add: scanner_idle_def)
  note o = opening_reads [OF p(1)]
  have t: "reading_key (key_of us) ?t" using body_reads [OF o(1) assms(2)] by simp
  have q: "scan_json_byte ov decode quote_char p = ?s"
    unfolding idle_byte [OF assms(1)] by (simp add: is_json_whitespace_def)
  have "fold (scan_json_byte ov decode) (str_body us) ?s = ?t"
    using p(2) assms(2) o(1) by (intro scan_string_text) (simp_all add: unchanged)
  moreover have "scan_json_byte ov decode quote_char ?t = scan_string_byte quote_char ?t"
    using t p(2) by (simp add: scan_json_byte_def unchanged reading_key_def)
  ultimately have r: "fold (scan_json_byte ov decode) (token_text (Str us)) p = scan_string_byte quote_char ?t"
    using q by simp
  have e: "\<not> ks_expect ?t" using o(3) by (simp add: unchanged)
  show ?thesis unfolding r using t e p(2)
    by (auto simp: unchanged scan_string_byte_def reading_key_def split: if_splits)
qed

fun keys_quiet :: "token list \<Rightarrow> bool" where
  "keys_quiet [] = True"
| "keys_quiet (Sym c # ts) = keys_quiet ts"
| "keys_quiet (Str us # ts) = (key_of us \<notin> set capture_keys \<and> keys_quiet ts)"

lemma idle_tokens:
  assumes "scanner_idle p" and "list_all token_ok ts" and "keys_quiet ts"
  shows "scanner_idle (fold (scan_json_byte ov decode) (text_of ts) p) \<and>
     jp_usage (fold (scan_json_byte ov decode) (text_of ts) p) = jp_usage p \<and>
     jp_protocol (fold (scan_json_byte ov decode) (text_of ts) p) = jp_protocol p"
  using assms
proof (induction ts arbitrary: p rule: keys_quiet.induct)
  case (2 c ts)
  then show ?case using 2(1) [OF idle_symbol(1), of p c] idle_symbol(2,3) [of p c] by simp
next
  case (3 us ts)
  obtain q where q: "fold (scan_json_byte ov decode) (token_text (Str us)) p = q" "scanner_idle q"
      "jp_usage q = jp_usage p" "jp_protocol q = jp_protocol p"
    using idle_string [OF 3(2), of us ov decode] 3(3,4) by (auto simp: scanner_idle_def split: if_splits)
  with 3(1) [OF q(2)] 3(3,4) show ?case by simp
qed simp

text \<open>A capture that has not reached its end.\<close>

definition capturing :: "json_usage_parser \<Rightarrow> bool" where
  "capturing p \<longleftrightarrow> jp_capture_key p \<noteq> '''' \<and> \<not> jp_capture_escape p \<and> \<not> jp_discard p \<and>
     \<not> ks_in_string p \<and> \<not> ks_have_token p \<and> \<not> ks_expect p"

lemma keep_room:
  "\<not> jp_discard p \<Longrightarrow> length (jp_capture_buf p) < max_json_usage_fragment_size \<Longrightarrow>
     keep_capture_byte b p = p\<lparr>jp_capture_buf := jp_capture_buf p @ [b]\<rparr>"
  by (simp add: keep_capture_byte_def)

lemma capture_body:
  assumes "capturing p" and "jp_capture_string p" and "list_all unit_ok us"
    and "length (jp_capture_buf p) + length (str_body us) \<le> max_json_usage_fragment_size"
  shows "fold (scan_json_byte ov decode) (str_body us) p = p\<lparr>jp_capture_buf := jp_capture_buf p @ str_body us\<rparr>"
  using assms
proof (induction us arbitrary: p)
  case (Cons u us)
  let ?q = "p\<lparr>jp_capture_buf := jp_capture_buf p @ unit_text u\<rparr>"
  have e: "p\<lparr>jp_capture_buf := b, jp_capture_escape := False\<rparr> = p\<lparr>jp_capture_buf := b\<rparr>" for b
    using Cons.prems(1) by (cases p) (simp add: capturing_def)
  have "fold (scan_json_byte ov decode) (unit_text u) p = ?q"
    using Cons.prems by (cases u) (simp_all add: scan_json_byte_def scan_json_capture_byte_def keep_room capturing_def e)
  moreover have "fold (scan_json_byte ov decode) (str_body us) ?q = ?q\<lparr>jp_capture_buf := jp_capture_buf ?q @ str_body us\<rparr>"
    using Cons.prems by (intro Cons.IH) (simp_all add: capturing_def)
  ultimately show ?case by simp
qed simp

lemma capture_str:
  assumes "capturing p" and "\<not> jp_capture_string p" and "0 < jp_depth p" and "list_all unit_ok us"
    and "length (jp_capture_buf p) + length (token_text (Str us)) \<le> max_json_usage_fragment_size"
  shows "fold (scan_json_byte ov decode) (token_text (Str us)) p =
     p\<lparr>jp_capture_buf := jp_capture_buf p @ token_text (Str us)\<rparr>"
proof -
  let ?s = "p\<lparr>jp_capture_buf := jp_capture_buf p @ [quote_char], jp_capture_string := True\<rparr>"
  let ?t = "?s\<lparr>jp_capture_buf := jp_capture_buf ?s @ str_body us\<rparr>"
  have "scan_json_byte ov decode quote_char p = ?s"
    using assms by (simp add: scan_json_byte_def scan_json_capture_byte_def keep_room capturing_def Let_def)
  moreover have "fold (scan_json_byte ov decode) (str_body us) ?s = ?t"
    using assms by (intro capture_body) (simp_all add: capturing_def)
  moreover have "p\<lparr>jp_capture_buf := b, jp_capture_string := False\<rparr> = p\<lparr>jp_capture_buf := b\<rparr>" for b
    using assms(2) by (cases p) simp
  then have "scan_json_byte ov decode quote_char ?t = p\<lparr>jp_capture_buf := jp_capture_buf p @ token_text (Str us)\<rparr>"
    using assms by (simp add: scan_json_byte_def scan_json_capture_byte_def keep_room capturing_def Let_def)
  ultimately show ?thesis by simp
qed

text \<open>The rest of an object, \<open>d\<close> braces deep, ends with the brace that closes the first one.\<close>

fun closes :: "nat \<Rightarrow> token list \<Rightarrow> bool" where
  "closes d [] = False"
| "closes d (Sym c # ts) =
     (if c = CHR ''{'' then closes (d + 1) ts
      else if c = CHR ''}'' then (if d \<le> 1 then ts = [] else closes (d - 1) ts)
      else closes d ts)"
| "closes d (Str us # ts) = closes d ts"

lemma capture_tokens:
  assumes "capturing p" and "\<not> jp_capture_string p" and "0 < jp_depth p" and "closes (jp_depth p) ts"
    and "list_all token_ok ts" and "length (jp_capture_buf p) + length (text_of ts) \<le> max_json_usage_fragment_size"
  shows "let q = fold (scan_json_byte ov decode) (text_of ts) p
     in scanner_idle q \<and> jp_protocol q = jp_protocol p \<and>
        jp_usage q = use_fragment ov decode (jp_protocol p) (jp_capture_key p) (jp_capture_buf p @ text_of ts) (jp_usage p)"
  using assms
proof (induction ts arbitrary: p)
  case (Cons t ts)
  show ?case
  proof (cases t)
    case (Str us)
    let ?q = "p\<lparr>jp_capture_buf := jp_capture_buf p @ token_text t\<rparr>"
    have "fold (scan_json_byte ov decode) (token_text t) p = ?q"
      using Cons.prems Str capture_str [of p us ov decode] by simp
    moreover have "capturing ?q" using Cons.prems(1) by (simp add: capturing_def)
    ultimately show ?thesis using Cons.IH [of ?q] Cons.prems Str by simp
  next
    case (Sym c)
    let ?p = "p\<lparr>jp_capture_buf := jp_capture_buf p @ [c]\<rparr>"
    have keep: "keep_capture_byte c p = ?p" using Cons.prems Sym by (simp add: keep_room capturing_def)
    have step: "scan_json_byte ov decode c p = scan_json_capture_byte ov decode c p"
      using Cons.prems(1) by (simp add: scan_json_byte_def capturing_def)
    consider (ends) "c = CHR ''}''" "jp_depth p = 1" | (goes) q where "scan_json_byte ov decode c p = q"
        "capturing q" "\<not> jp_capture_string q" "0 < jp_depth q" "closes (jp_depth q) ts" "jp_usage q = jp_usage p"
        "jp_protocol q = jp_protocol p" "jp_capture_key q = jp_capture_key p" "jp_capture_buf q = jp_capture_buf p @ [c]"
      using Cons.prems Sym unfolding step scan_json_capture_byte_def keep
      by (auto simp: capturing_def Let_def split: if_splits)
    then show ?thesis
    proof cases
      case ends
      then show ?thesis using Cons.prems Sym step unfolding scan_json_capture_byte_def keep
        by (simp add: finish_json_value_capture_def scanner_idle_def capturing_def Let_def)
    next
      case goes
      then show ?thesis using Cons.IH [of q] Cons.prems Sym by simp
    qed
  qed
qed simp

lemma fold_chunks: "fold (scan_json_usage ov decode) chunks p = fold (scan_json_byte ov decode) (concat chunks) p"
  by (induction chunks arbitrary: p) (simp_all add: scan_json_usage_def)

lemma capture_opens:
  assumes "\<not> jp_discard r" and "jp_capture_buf r = []" and "\<not> jp_capture_string r" and "jp_depth r = 0"
  shows "scan_json_capture_byte ov decode (CHR ''{'') r = r\<lparr>jp_capture_buf := ''{'', jp_depth := 1\<rparr>"
proof -
  have "keep_capture_byte (CHR ''{'') r = r\<lparr>jp_capture_buf := ''{''\<rparr>"
    using assms by (simp add: keep_capture_byte_def max_json_usage_fragment_size_def)
  then show ?thesis using assms by (simp add: scan_json_capture_byte_def)
qed

lemma idle_key_capture:
  assumes "scanner_idle p" and "list_all unit_ok us" and "key_of us \<in> set usage_keys" and "list_all token_ok obj"
    and "closes 1 obj" and "length (text_of (Sym CHR ''{'' # obj)) \<le> max_json_usage_fragment_size"
  shows "let q = fold (scan_json_byte ov decode) (text_of (Str us # Sym CHR '':'' # Sym CHR ''{'' # obj)) p
     in scanner_idle q \<and> jp_protocol q = jp_protocol p \<and>
        jp_usage q = use_fragment ov decode (jp_protocol p) (key_of us) (text_of (Sym CHR ''{'' # obj)) (jp_usage p)"
proof -
  have k: "key_of us \<noteq> ''''" "length (key_of us) \<le> max_json_key_size"
    using assms(3) short_keys [of "key_of us"] by (auto simp: usage_keys_def capture_keys_def)
  obtain q1 where q1: "fold (scan_json_byte ov decode) (token_text (Str us)) p = q1" "jp_capture_key q1 = ''''"
      "\<not> ks_in_string q1" "\<not> ks_expect q1" "jp_usage q1 = jp_usage p" "jp_protocol q1 = jp_protocol p"
      "ks_have_token q1" "ks_token q1 = key_of us"
    using idle_string [OF assms(1,2), of ov decode] k by auto
  let ?q2 = "q1\<lparr>ks_pending := key_of us, ks_expect := True, ks_have_token := False, ks_token := ''''\<rparr>"
  have q2: "scan_json_byte ov decode (CHR '':'') q1 = ?q2"
    using q1(2-) by (simp add: scan_json_byte_def scan_outside_byte_def is_json_whitespace_def)
  define q3 where "q3 = scan_json_byte ov decode (CHR ''{'') ?q2"
  have "starts_capture (key_of us) (CHR ''{'')" using assms(3) by (simp add: starts_capture_def)
  then have "q3 = start_json_value_capture ov decode (CHR ''{'') ?q2"
    using q1(2-) by (simp add: q3_def scan_json_byte_def is_json_whitespace_def)
  then have q3: "capturing q3" "\<not> jp_capture_string q3" "jp_depth q3 = 1" "jp_usage q3 = jp_usage p"
      "jp_protocol q3 = jp_protocol p" "jp_capture_key q3 = key_of us" "jp_capture_buf q3 = ''{''"
    using q1(2-) k(1)
    by (simp_all add: start_json_value_capture_def capture_opens capturing_def clear_pending_def)
  have "fold (scan_json_byte ov decode) (text_of (Str us # Sym CHR '':'' # Sym CHR ''{'' # obj)) p =
      fold (scan_json_byte ov decode) (text_of obj) q3"
    using q1(1) q2 by (simp add: q3_def)
  then show ?thesis using capture_tokens [of q3 obj ov decode] q3 assms(4-6) by (simp add: Let_def)
qed



section \<open>The memory of the scanner\<close>

definition within_limits :: "json_usage_parser \<Rightarrow> bool" where
  "within_limits p \<longleftrightarrow> length (ks_buf p) \<le> max_json_key_size \<and>
     length (jp_capture_buf p) \<le> max_json_usage_fragment_size \<and> length (jp_buffer p) \<le> max_usage_body_size"

lemma string_within: "within_limits p \<Longrightarrow> within_limits (scan_string_byte b p)"
  by (simp add: within_limits_def scan_string_byte_def append_string_byte_def)

lemma outside_within: "within_limits p \<Longrightarrow> within_limits (scan_outside_byte b p)"
  by (simp add: within_limits_def scan_outside_byte_def open_string_def)

lemma clear_within: "within_limits (clear_pending p) = within_limits p"
  by (simp add: within_limits_def clear_pending_def)

lemma keep_within: "within_limits p \<Longrightarrow> within_limits (keep_capture_byte b p)"
  by (simp add: within_limits_def keep_capture_byte_def)

lemma finish_within: "within_limits p \<Longrightarrow> within_limits (finish_json_value_capture ov decode p)"
  by (simp add: within_limits_def finish_json_value_capture_def)

lemma capture_within: "within_limits p \<Longrightarrow> within_limits (scan_json_capture_byte ov decode b p)"
proof -
  assume "within_limits p"
  define q where "q = keep_capture_byte b p"
  have k: "within_limits q" unfolding q_def by (rule keep_within) fact
  have field: "within_limits (q\<lparr>jp_capture_string := x\<rparr>) = within_limits q"
    "within_limits (q\<lparr>jp_capture_escape := x\<rparr>) = within_limits q" "within_limits (q\<lparr>jp_depth := n\<rparr>) = within_limits q" for q x n
    by (simp_all add: within_limits_def)
  show ?thesis using k unfolding scan_json_capture_byte_def q_def [symmetric] Let_def
    by (simp add: field finish_within)
qed

lemma scan_byte_within:
  assumes "within_limits p"
  shows "within_limits (scan_json_byte ov decode b p)"
proof -
  have "within_limits (p\<lparr>jp_capture_key := k, jp_capture_buf := [], jp_depth := 0, jp_capture_string := False,
      jp_capture_escape := False, jp_discard := False\<rparr>)" for k
    using assms by (simp add: within_limits_def)
  then show ?thesis using assms
    by (simp add: scan_json_byte_def start_json_value_capture_def capture_within string_within outside_within clear_within)
qed

lemma scan_usage_within: "within_limits p \<Longrightarrow> within_limits (scan_json_usage ov decode data p)"
  unfolding scan_json_usage_def by (induction data arbitrary: p) (simp_all add: scan_byte_within)

text \<open>
  Whatever an upstream sends, the parser of a response that is no stream holds at most 128 bytes of a
  key, 64 KiB of a captured object and 1 MiB of the body.
\<close>

theorem scanner_memory_is_bounded:
  "let p = fold (json_feed ov decode) chunks (new_json_usage_parser protocol)
   in length (ks_buf p) \<le> 128 \<and> length (jp_capture_buf p) \<le> 65536 \<and> length (jp_buffer p) \<le> 1048576"
proof -
  have "within_limits p \<Longrightarrow> within_limits (json_feed ov decode data p)" for data p
    using scan_usage_within [of "if data \<noteq> [] then p\<lparr>jp_has_body := True\<rparr> else p" ov decode data]
    by (auto simp: json_feed_def Let_def within_limits_def split: if_splits)
  then have "within_limits (fold (json_feed ov decode) chunks p)" if "within_limits p" for p
    using that by (induction chunks arbitrary: p) simp_all
  moreover have "within_limits (new_json_usage_parser protocol)"
    by (simp add: within_limits_def new_json_usage_parser_def)
  ultimately show ?thesis
    by (simp add: within_limits_def max_json_key_size_def max_json_usage_fragment_size_def max_usage_body_size_def Let_def)
qed

end
