(* ===== verification/Stream_Parser.thy ===== *)
theory Stream_Parser
  imports Stream_Scanner Scanner_Properties
begin

text \<open>
  The parser of event streams, \<open>sseUsageParser\<close> of \<open>internal/app/proxy_sse_parser.go\<close>: it is fed the
  chunks of a response as they arrive and follows its lines and events, beside the byte machines of
  \<open>Stream_Scanner\<close>.

  The library's readings of one event are arguments: \<open>json.Unmarshal\<close> into a map, into the struct of
  \<open>isHeartbeatEvent\<close> and into the one of \<open>isErrorPayload\<close> (which keeps two members as raw text), and
  \<open>json.Marshal\<close>.  \<open>bufferSize\<close> is the length of the buffer at all times and is not kept beside it; the
  last error and the turn are options instead of a nil slice and a flag.
\<close>

record error_event =
  ee_type :: string
  ee_error :: string
  ee_response :: "(string \<times> string) option"

record stream_env =
  sv_overflow :: "real \<Rightarrow> int"
  sv_json :: "string \<Rightarrow> json option"
  sv_type :: "string \<Rightarrow> string option"
  sv_error :: "string \<Rightarrow> error_event option"
  sv_encode :: "json \<Rightarrow> string"

record turn_result =
  tr_output :: string
  tr_response_id :: string
  tr_pending :: "string list"

record sse_parser =
  sp_usage :: usage_accumulator
  sp_buffer :: string
  sp_event_type :: string
  sp_data_lines :: "string list"
  sp_oversized :: bool
  sp_protocol :: string
  sp_discard_tail :: string
  sp_scanner :: json_usage_parser
  sp_scan_version :: nat
  sp_sanitizer :: sanitizer
  sp_last_error :: "string option"
  sp_complete :: bool
  sp_output :: bool
  sp_turn :: "turn_result option"

definition max_sse_event_size :: nat where "max_sse_event_size = 1048576"

definition new_sse_parser :: "string \<Rightarrow> sse_parser" where
  "new_sse_parser protocol =
     \<lparr>sp_usage = empty_usage, sp_buffer = [], sp_event_type = '''', sp_data_lines = [], sp_oversized = False,
      sp_protocol = protocol, sp_discard_tail = '''', sp_scanner = new_json_usage_parser protocol,
      sp_scan_version = 0, sp_sanitizer = new_sanitizer, sp_last_error = None, sp_complete = False,
      sp_output = False, sp_turn = None\<rparr>"

abbreviation newline :: char where "newline \<equiv> CHR 0x0A"
abbreviation carriage_return :: char where "carriage_return \<equiv> CHR 0x0D"

section \<open>What an event means\<close>

definition is_heartbeat_event :: "stream_env \<Rightarrow> string \<Rightarrow> string \<Rightarrow> bool" where
  "is_heartbeat_event env event_type data \<longleftrightarrow>
     event_type = ''ping'' \<or> data \<noteq> '''' \<and> sv_type env data = Some ''ping''"

definition is_non_empty_json_object :: "string \<Rightarrow> bool" where
  "is_non_empty_json_object raw \<longleftrightarrow>
     (let t = trim_space raw
      in if t = '''' \<or> t = ''null'' \<or> t = ''{}'' then False else take 1 t = ''{'')"

definition quoted :: "string \<Rightarrow> string" where
  "quoted s = quote_char # s @ [quote_char]"

definition is_error_payload :: "stream_env \<Rightarrow> string \<Rightarrow> bool" where
  "is_error_payload env data \<longleftrightarrow>
     (if data = '''' then False
      else if \<not> str_contains data (quoted ''error'') \<and> \<not> str_contains data (quoted ''response.failed'') \<and>
              \<not> str_contains data (quoted ''failed'') then False
      else case sv_error env data of
        None \<Rightarrow> False
      | Some e \<Rightarrow>
          if ee_type e = ''error'' \<or> ee_type e = ''response.failed'' then True
          else if is_non_empty_json_object (ee_error e) then True
          else case ee_response e of
            None \<Rightarrow> False
          | Some (status, err) \<Rightarrow>
              equal_fold (trim_space status) ''failed'' \<or> is_non_empty_json_object err)"

definition is_successful_responses_terminal :: "string \<Rightarrow> bool" where
  "is_successful_responses_terminal t \<longleftrightarrow> t \<in> {''response.completed'', ''response.done'', ''response.incomplete''}"

definition turn_of :: "stream_env \<Rightarrow> members \<Rightarrow> turn_result" where
  "turn_of env response =
     (let text = (case map_of response ''output'' of None \<Rightarrow> ''null'' | Some v \<Rightarrow> sv_encode env v)
      in \<lparr>tr_output = (if text = '''' \<or> text = ''null'' then ''[]'' else text),
          tr_response_id = trim_space (member_string ''id'' response),
          tr_pending = (case member_array ''output'' response of None \<Rightarrow> [] | Some items \<Rightarrow> pending_tool_call_ids items)\<rparr>)"

text \<open>\<open>service_tier\<close> of the event or of its response.\<close>

definition payload_service_tier :: "members \<Rightarrow> string" where
  "payload_service_tier event =
     (if member_string ''service_tier'' event \<noteq> '''' then member_string ''service_tier'' event
      else case member_object ''response'' event of None \<Rightarrow> '''' | Some r \<Rightarrow> member_string ''service_tier'' r)"

abbreviation on_usage :: "(usage_accumulator \<Rightarrow> usage_accumulator) \<Rightarrow> sse_parser \<Rightarrow> sse_parser" where
  "on_usage f p \<equiv> p\<lparr>sp_usage := f (sp_usage p)\<rparr>"

text \<open>The billing level, the effort and the fast mode an event states.\<close>

definition note_levels :: "stream_env \<Rightarrow> members \<Rightarrow> usage_accumulator \<Rightarrow> usage_accumulator" where
  "note_levels env event u =
     (let u1 = (if payload_service_tier event \<noteq> '''' then u\<lparr>ua_service_tier := payload_service_tier event\<rparr> else u);
          effort = extract_thinking_effort (sv_overflow env) event;
          u2 = (if effort \<noteq> '''' then u1\<lparr>ua_thinking_effort := effort\<rparr> else u1)
      in case extract_usage event of
           None \<Rightarrow> u2
         | Some usage \<Rightarrow> if member_string ''speed'' usage = ''fast'' then u2\<lparr>ua_service_tier := ''fast''\<rparr> else u2)"

definition decoded_map :: "stream_env \<Rightarrow> string \<Rightarrow> members option" where
  "decoded_map env data = (case sv_json env data of Some (JObj m) \<Rightarrow> Some m | Some JNull \<Rightarrow> Some [] | _ \<Rightarrow> None)"

text \<open>The rest of \<open>parseEvent\<close> for an event that is no error: the end of the stream and the turn.\<close>

definition ends_stream :: "string \<Rightarrow> members \<Rightarrow> bool" where
  "ends_stream event_type event \<longleftrightarrow>
     event_type = ''message_stop'' \<or> is_successful_responses_terminal event_type \<or>
     is_successful_responses_terminal (member_string ''type'' event)"

definition turn_in :: "stream_env \<Rightarrow> members \<Rightarrow> turn_result option" where
  "turn_in env event =
     (if is_successful_responses_terminal (member_string ''type'' event)
      then map_option (turn_of env) (member_object ''response'' event) else None)"

definition note_event :: "stream_env \<Rightarrow> string \<Rightarrow> members \<Rightarrow> sse_parser \<Rightarrow> sse_parser" where
  "note_event env event_type event p =
     (if event_type = ''content_block_start'' \<or> event_type = ''content_block_delta'' then p
      else on_usage (note_levels env event)
             (p\<lparr>sp_complete := sp_complete p \<or> ends_stream event_type event,
                sp_turn := (case turn_in env event of None \<Rightarrow> sp_turn p | Some t \<Rightarrow> Some t)\<rparr>))"

definition parse_event :: "stream_env \<Rightarrow> string \<Rightarrow> string \<Rightarrow> sse_parser \<Rightarrow> sse_parser" where
  "parse_event env event_type data p =
     (if data = ''[DONE]'' then p\<lparr>sp_complete := True\<rparr>
      else if is_heartbeat_event env event_type data then p
      else case decoded_map env data of
        None \<Rightarrow> p
      | Some event \<Rightarrow>
          let q = on_usage (\<lambda>u. apply_tool_usage_from_payload (sv_overflow env) event
                (apply_usage (sv_overflow env) (sp_protocol p) (extract_usage event) u)) p
          in if event_type = ''error'' \<or> event_type = ''response.failed'' \<or> is_error_payload env data
             then q\<lparr>sp_last_error := Some data\<rparr>
             else note_event env event_type event (q\<lparr>sp_output := True\<rparr>))"

section \<open>Lines\<close>

text \<open>The complete lines of a buffer and what is left after the last newline.\<close>

fun lines_of :: "string \<Rightarrow> string list \<times> string" where
  "lines_of [] = ([], [])"
| "lines_of (c # cs) =
     (case lines_of cs of
        (ls, r) \<Rightarrow>
          if c = newline then ([] # ls, r)
          else case ls of [] \<Rightarrow> ([], c # r) | l # ls' \<Rightarrow> ((c # l) # ls', r))"

definition trim_carriage_returns :: "string \<Rightarrow> string" where
  "trim_carriage_returns s = rev (dropWhile (\<lambda>c. c = carriage_return) (rev s))"

definition cut_prefix :: "string \<Rightarrow> string \<Rightarrow> string option" where
  "cut_prefix pre s = (if take (length pre) s = pre then Some (drop (length pre) s) else None)"

fun join_lines :: "string list \<Rightarrow> string" where
  "join_lines [] = ''''"
| "join_lines [l] = l"
| "join_lines (l # ls) = l @ [newline] @ join_lines ls"

definition take_line :: "stream_env \<Rightarrow> string \<Rightarrow> sse_parser \<Rightarrow> sse_parser" where
  "take_line env raw p =
     (let line = trim_carriage_returns raw
      in case cut_prefix ''event:'' line of
           Some after \<Rightarrow> p\<lparr>sp_event_type := trim_space after\<rparr>
         | None \<Rightarrow>
             (case cut_prefix ''data:'' line of
                Some after \<Rightarrow> p\<lparr>sp_data_lines := sp_data_lines p @ [trim_space after]\<rparr>
              | None \<Rightarrow>
                  if line = '''' \<and> sp_data_lines p \<noteq> []
                  then (parse_event env (sp_event_type p) (join_lines (sp_data_lines p)) p)
                         \<lparr>sp_event_type := '''', sp_data_lines := []\<rparr>
                  else p))"

definition parse_buffer :: "stream_env \<Rightarrow> sse_parser \<Rightarrow> sse_parser" where
  "parse_buffer env p =
     (case lines_of (sp_buffer p) of (ls, r) \<Rightarrow> (fold (take_line env) ls p)\<lparr>sp_buffer := r\<rparr>)"

section \<open>Events that are too long\<close>

definition enter_oversized_event_mode :: "sse_parser \<Rightarrow> sse_parser" where
  "enter_oversized_event_mode p =
     p\<lparr>sp_oversized := True, sp_buffer := [], sp_event_type := '''', sp_data_lines := [], sp_discard_tail := ''''\<rparr>"

text \<open>\<open>bytes.Index\<close>.\<close>

fun index_of :: "string \<Rightarrow> string \<Rightarrow> nat option" where
  "index_of pat [] = (if pat = [] then Some 0 else None)"
| "index_of pat (c # cs) =
     (if take (length pat) (c # cs) = pat then Some 0 else map_option Suc (index_of pat cs))"

definition boundary_patterns :: "string list" where
  "boundary_patterns =
     [[newline, newline], [newline, carriage_return, newline], [carriage_return, newline, carriage_return, newline]]"

definition better_boundary :: "string \<Rightarrow> string \<Rightarrow> (nat \<times> nat) option \<Rightarrow> (nat \<times> nat) option" where
  "better_boundary data pat best =
     (case index_of pat data of
        None \<Rightarrow> best
      | Some i \<Rightarrow>
          let e = i + length pat
          in case best of
               None \<Rightarrow> Some (i, e)
             | Some (bs, be) \<Rightarrow> if i < bs \<or> i = bs \<and> e > be then Some (i, e) else best)"

definition find_sse_event_boundary :: "string \<Rightarrow> nat option" where
  "find_sse_event_boundary data = map_option snd (fold (better_boundary data) boundary_patterns None)"

definition trailing_sse_boundary_tail :: "string \<Rightarrow> string \<Rightarrow> string" where
  "trailing_sse_boundary_tail tail data =
     (if length data \<ge> 3 then drop (length data - 3) data
      else let combined = tail @ data in if length combined > 3 then drop (length combined - 3) combined else combined)"

text \<open>The bytes consumed; below zero counts as zero, and \<open>drop\<close> stops at the end.\<close>

definition leave_oversized_event_mode :: "string \<Rightarrow> int \<Rightarrow> sse_parser \<Rightarrow> string \<times> sse_parser" where
  "leave_oversized_event_mode data consume p =
     (drop (nat consume) data, p\<lparr>sp_oversized := False, sp_discard_tail := ''''\<rparr>)"

definition discard_until_event_boundary :: "string \<Rightarrow> sse_parser \<Rightarrow> string \<times> sse_parser" where
  "discard_until_event_boundary data p =
     (if data = [] then ([], p)
      else case (if sp_discard_tail p \<noteq> '''' then find_sse_event_boundary (sp_discard_tail p @ take 3 data) else None) of
        Some e \<Rightarrow> leave_oversized_event_mode data (int e - int (length (sp_discard_tail p))) p
      | None \<Rightarrow>
          (case find_sse_event_boundary data of
             Some e \<Rightarrow> leave_oversized_event_mode data (int e) p
           | None \<Rightarrow> ([], p\<lparr>sp_discard_tail := trailing_sse_boundary_tail (sp_discard_tail p) data\<rparr>)))"

section \<open>Feeding\<close>

definition scan_usage_fragments :: "stream_env \<Rightarrow> string \<Rightarrow> sse_parser \<Rightarrow> sse_parser" where
  "scan_usage_fragments env data p0 =
     (let p = p0\<lparr>sp_scanner := scan_json_usage (sv_overflow env) (sv_json env) data (sp_scanner p0)\<rparr>;
          s = jp_usage (sp_scanner p);
          p1 = (if ua_version s > sp_scan_version p
                then (on_usage (\<lambda>u. u\<lparr>ua_input := ua_input s, ua_output := ua_output s, ua_reasoning := ua_reasoning s,
                        ua_cache_read := ua_cache_read s, ua_cache_creation := ua_cache_creation s,
                        ua_cache_5m := ua_cache_5m s, ua_cache_1h := ua_cache_1h s\<rparr>) p)
                       \<lparr>sp_scan_version := ua_version s\<rparr>
                else p);
          p2 = (if ua_service_tier s \<noteq> '''' then on_usage (\<lambda>u. u\<lparr>ua_service_tier := ua_service_tier s\<rparr>) p1 else p1);
          p3 = (if ua_thinking_effort s \<noteq> '''' then on_usage (\<lambda>u. u\<lparr>ua_thinking_effort := ua_thinking_effort s\<rparr>) p2 else p2)
      in if ua_tool_cost s > 0
         then on_usage (\<lambda>u. u\<lparr>ua_tool_cost := ua_tool_cost s, ua_tool_seen := True\<rparr>) p3 else p3)"

text \<open>
  The loop of \<open>Feed\<close>.  It ends: each round consumes input, or leaves the mode that discards, or
  enters it with an empty buffer.
\<close>

definition mode_rank :: "sse_parser \<Rightarrow> nat" where
  "mode_rank p = (if sp_oversized p then 1 else 0) + (if length (sp_buffer p) \<ge> max_sse_event_size then 2 else 0)"

lemma discard_measure:
  assumes "discard_until_event_boundary data p = (rest, q)" and "sp_oversized p" and "data \<noteq> []"
  shows "length rest \<le> length data \<and> (rest = [] \<or> mode_rank q < mode_rank p)"
  using assms by (auto simp: discard_until_event_boundary_def leave_oversized_event_mode_def mode_rank_def split: option.splits if_splits)

function feed_loop :: "stream_env \<Rightarrow> string \<Rightarrow> sse_parser \<Rightarrow> sse_parser" where
  "feed_loop env data p =
     (if data = [] then p
      else if sp_oversized p
      then (case discard_until_event_boundary data p of (rest, q) \<Rightarrow> feed_loop env rest q)
      else if length (sp_buffer p) \<ge> max_sse_event_size then feed_loop env data (enter_oversized_event_mode p)
      else
        let n = min (length data) (max_sse_event_size - length (sp_buffer p));
            q = parse_buffer env (p\<lparr>sp_buffer := sp_buffer p @ take n data\<rparr>);
            rest = drop n data
        in feed_loop env rest
             (if length (sp_buffer q) \<ge> max_sse_event_size \<and> rest \<noteq> [] then enter_oversized_event_mode q else q))"
  by pat_completeness auto
termination
proof (relation "measure (\<lambda>(env, data, p). 4 * length data + (if data = [] then 0 else mode_rank p))", goal_cases)
  case (2 env data p rest q)
  then have "discard_until_event_boundary data p = (rest, q)" by simp
  from discard_measure [OF this 2(2,1)] 2(1) show ?case by (cases data) auto
next
  case (3 env data p)
  then show ?case by (simp add: mode_rank_def enter_oversized_event_mode_def max_sse_event_size_def)
next
  case (4 env data p n q rest)
  let ?r = "if length (sp_buffer q) \<ge> max_sse_event_size \<and> rest \<noteq> [] then enter_oversized_event_mode q else q"
  have "mode_rank ?r \<le> 3" by (simp add: mode_rank_def)
  moreover have "length rest < length data" using 4 by (cases data) auto
  ultimately show ?case using 4 by (auto simp: Let_def)
qed simp

declare feed_loop.simps [simp del]

definition sse_feed :: "stream_env \<Rightarrow> string \<Rightarrow> sse_parser \<Rightarrow> sse_parser" where
  "sse_feed env data p =
     (let p1 = scan_usage_fragments env data p
      in case sanitize data (sp_sanitizer p1) of
           (s, clean) \<Rightarrow> feed_loop env clean (p1\<lparr>sp_sanitizer := s\<rparr>))"

definition sse_get_usage :: "sse_parser \<Rightarrow> int \<times> int \<times> int \<times> int" where
  "sse_get_usage p = normalized_usage (sp_protocol p) (sp_usage p)"

section \<open>Answers that are no stream\<close>

text \<open>\<open>looksLikeSSE\<close>: the lines of a text, the last one without its newline.\<close>

definition text_lines :: "string \<Rightarrow> string list" where
  "text_lines data = (case lines_of data of (ls, r) \<Rightarrow> if r = [] then ls else ls @ [r])"

definition starts_field :: "string \<Rightarrow> string \<Rightarrow> bool" where
  "starts_field field line \<longleftrightarrow>
     cut_prefix field (dropWhile (\<lambda>c. c = CHR '' '' \<or> c = CHR 0x09 \<or> c = carriage_return) line) \<noteq> None"

definition looks_like_sse :: "string \<Rightarrow> bool" where
  "looks_like_sse data \<longleftrightarrow>
     list_ex (starts_field ''event:'') (text_lines data) \<and> list_ex (starts_field ''data:'') (text_lines data)"

text \<open>\<open>jsonUsageParser.GetUsage\<close>, which also updates what the parser has accumulated.\<close>

definition json_get_usage :: "stream_env \<Rightarrow> json_usage_parser \<Rightarrow> (int \<times> int \<times> int \<times> int) \<times> json_usage_parser" where
  "json_get_usage env p =
     (if jp_truncated p \<or> jp_buffer p = [] then (normalized_usage (jp_protocol p) (jp_usage p), p)
      else if looks_like_sse (jp_buffer p)
      then let q = sse_feed env (jp_buffer p) (new_sse_parser (jp_protocol p)); v = sp_usage q
           in (sse_get_usage q,
               p\<lparr>jp_usage := (jp_usage p)\<lparr>ua_service_tier := ua_service_tier v,
                   ua_thinking_effort := normalize_thinking_effort (ua_thinking_effort v),
                   ua_reasoning := ua_reasoning v, ua_tool_cost := ua_tool_cost v\<rparr>\<rparr>)
      else case decoded_map env (jp_buffer p) of
        None \<Rightarrow> ((0, 0, 0, 0), p)
      | Some payload \<Rightarrow>
          let ov = sv_overflow env;
              u1 = apply_usage_map ov (extract_usage payload) (jp_protocol p) (jp_usage p);
              u2 = apply_tool_usage_from_payload ov payload u1;
              effort = extract_thinking_effort ov payload;
              u3 = (if effort \<noteq> '''' then u2\<lparr>ua_thinking_effort := effort\<rparr> else u2);
              u4 = (if payload_service_tier payload \<noteq> '''' then u3\<lparr>ua_service_tier := payload_service_tier payload\<rparr> else u3)
          in (normalized_usage (jp_protocol p) u4, p\<lparr>jp_usage := u4\<rparr>))"

end
