(* ===== verification/Stream_Properties.thy ===== *)
theory Stream_Properties
  imports Stream_Parser
begin

text \<open>
  What the stream parser guarantees: how a response is cut into chunks does not decide whether it is
  complete, an error or empty, an event that is too long ends at the same byte however it arrives, and
  the buffer is bounded.
\<close>

section \<open>The end of an event as an automaton\<close>

text \<open>
  The end of an event is a newline after a newline, with at most one carriage return between them.  The
  automaton is in state 1 after a newline and in state 2 after a newline and a carriage return.
\<close>

fun boundary_from :: "nat \<Rightarrow> string \<Rightarrow> nat option" where
  "boundary_from q [] = None"
| "boundary_from q (c # cs) =
     (if c = newline then (if q = 0 then map_option Suc (boundary_from 1 cs) else Some 1)
      else if c = carriage_return \<and> q = 1 then map_option Suc (boundary_from 2 cs)
      else map_option Suc (boundary_from 0 cs))"

text \<open>The search of the code, one position after the other.\<close>

definition ends_here :: "string \<Rightarrow> nat option" where
  "ends_here s =
     (if take 2 s = [newline, newline] then Some 2
      else if take 3 s = [newline, carriage_return, newline] then Some 3
      else if take 4 s = [carriage_return, newline, carriage_return, newline] then Some 4 else None)"

fun first_end :: "string \<Rightarrow> nat option" where
  "first_end [] = None"
| "first_end (c # cs) = (case ends_here (c # cs) of Some e \<Rightarrow> Some e | None \<Rightarrow> map_option Suc (first_end cs))"

definition best_of :: "nat option \<Rightarrow> nat option \<Rightarrow> nat option \<Rightarrow> nat option" where
  "best_of a b c =
     (let pick = (\<lambda>(i, n) best. case i of
                    None \<Rightarrow> best
                  | Some i \<Rightarrow> (case best of
                      None \<Rightarrow> Some (i, i + n)
                    | Some (bs, be) \<Rightarrow> if i < bs \<or> i = bs \<and> i + n > be then Some (i, i + n) else best))
      in map_option snd (pick (c, 4 :: nat) (pick (b, 3) (pick (a, 2) None))))"

lemma find_best:
  "find_sse_event_boundary s = best_of (index_of [newline, newline] s) (index_of [newline, carriage_return, newline] s)
     (index_of [carriage_return, newline, carriage_return, newline] s)"
  unfolding find_sse_event_boundary_def boundary_patterns_def best_of_def better_boundary_def
  by (cases "index_of [newline, newline] s"; cases "index_of [newline, carriage_return, newline] s";
      cases "index_of [carriage_return, newline, carriage_return, newline] s") simp_all

lemma best_of_Suc: "best_of (map_option Suc a) (map_option Suc b) (map_option Suc c) = map_option Suc (best_of a b c)"
  by (cases a; cases b; cases c) (simp_all add: best_of_def)

lemma best_of_first:
  "best_of (Some 0) (map_option Suc b) (map_option Suc c) = Some 2"
  "best_of (map_option Suc a) (Some 0) (map_option Suc c) = Some 3"
  "best_of (map_option Suc a) (map_option Suc b) (Some 0) = Some 4"
  by (cases a; cases b; cases c; simp add: best_of_def)+

lemma index_here:
  "index_of [a, b] (c # cs) = (if take 2 (c # cs) = [a, b] then Some 0 else map_option Suc (index_of [a, b] cs))"
  "index_of [a, b, d] (c # cs) = (if take 3 (c # cs) = [a, b, d] then Some 0 else map_option Suc (index_of [a, b, d] cs))"
  "index_of [a, b, d, e] (c # cs) =
     (if take 4 (c # cs) = [a, b, d, e] then Some 0 else map_option Suc (index_of [a, b, d, e] cs))"
proof -
  have "length [a, b] = 2" "length [a, b, d] = 3" "length [a, b, d, e] = 4" by simp_all
  then show "index_of [a, b] (c # cs) = (if take 2 (c # cs) = [a, b] then Some 0 else map_option Suc (index_of [a, b] cs))"
    "index_of [a, b, d] (c # cs) = (if take 3 (c # cs) = [a, b, d] then Some 0 else map_option Suc (index_of [a, b, d] cs))"
    "index_of [a, b, d, e] (c # cs) =
       (if take 4 (c # cs) = [a, b, d, e] then Some 0 else map_option Suc (index_of [a, b, d, e] cs))"
    by (simp_all only: index_of.simps)
qed

lemma find_is_first_end: "find_sse_event_boundary s = first_end s"
proof (induction s)
  case Nil
  show ?case by (simp add: find_best best_of_def)
next
  case (Cons c cs)
  let ?s = "c # cs"
  let ?two = "take 2 ?s = [newline, newline]" and ?three = "take 3 ?s = [newline, carriage_return, newline]"
    and ?four = "take 4 ?s = [carriage_return, newline, carriage_return, newline]"
  have "\<not> (?two \<and> ?three)" by (cases cs) (auto simp: numeral_2_eq_2 numeral_3_eq_3)
  moreover have "\<not> (?two \<and> ?four)" "\<not> (?three \<and> ?four)" by auto
  ultimately consider "?two" "\<not> ?three" "\<not> ?four" | "\<not> ?two" "?three" "\<not> ?four" | "\<not> ?two" "\<not> ?three" "?four"
    | "\<not> ?two" "\<not> ?three" "\<not> ?four" by blast
  then show ?case
    unfolding find_best index_here first_end.simps ends_here_def
    by cases (simp_all only: if_True if_False simp_thms option.case best_of_first best_of_Suc Cons.IH [unfolded find_best])
qed

lemma first_end_ge: "first_end s = Some e \<Longrightarrow> 2 \<le> e"
  by (induction s arbitrary: e) (auto simp: ends_here_def split: option.splits if_splits)

lemma ends_by_state:
  "first_end (newline # newline # cs) = Some 2"
  "first_end (newline # carriage_return # newline # cs) = Some 3"
  "first_end (carriage_return # cs) = map_option Suc (first_end cs)"
  "c \<noteq> newline \<Longrightarrow> first_end (c # cs) = map_option Suc (first_end cs)"
  "c \<noteq> newline \<Longrightarrow> c \<noteq> carriage_return \<Longrightarrow> first_end (newline # c # cs) = map_option (\<lambda>e. e + 2) (first_end cs)"
  "c \<noteq> newline \<Longrightarrow> first_end (newline # carriage_return # c # cs) = map_option (\<lambda>e. e + 3) (first_end cs)"
proof -
  have cr: "first_end (carriage_return # cs) = map_option Suc (first_end cs)" for cs
  proof (cases "take 3 cs = [newline, carriage_return, newline]")
    case True
    then obtain r where "cs = newline # carriage_return # newline # r"
      using append_take_drop_id [of 3 cs] by (metis append_Cons append_Nil)
    then have "first_end cs = Some 3" by (simp add: ends_here_def)
    then show ?thesis using True by (simp add: ends_here_def)
  next
    case False
    then show ?thesis by (simp add: ends_here_def)
  qed
  then show "first_end (carriage_return # cs) = map_option Suc (first_end cs)" .
  show other: "first_end (c # cs) = map_option Suc (first_end cs)" if "c \<noteq> newline" for c cs
    using that cr [of cs] by (cases "c = carriage_return") (simp_all add: ends_here_def)
  show "first_end (newline # newline # cs) = Some 2" "first_end (newline # carriage_return # newline # cs) = Some 3"
    by (simp_all add: ends_here_def)
  show "first_end (newline # c # cs) = map_option (\<lambda>e. e + 2) (first_end cs)" if "c \<noteq> newline" "c \<noteq> carriage_return"
    using that other [of c cs] by (cases "first_end cs") (simp_all add: ends_here_def del: first_end.simps(2), simp_all add: ends_here_def)
  show "first_end (newline # carriage_return # c # cs) = map_option (\<lambda>e. e + 3) (first_end cs)" if "c \<noteq> newline"
    using that other [of c cs] cr [of "c # cs"] by (cases "first_end cs") (simp_all add: ends_here_def)
qed

lemma boundary_from_first:
  "boundary_from 0 s = first_end s \<and> map_option Suc (boundary_from 1 s) = first_end (newline # s) \<and>
   map_option (\<lambda>e. e + 2) (boundary_from 2 s) = first_end (newline # carriage_return # s)"
proof (induction s)
  case Nil
  show ?case by (simp add: ends_here_def)
next
  case (Cons c cs)
  have two: "map_option Suc (map_option Suc (boundary_from 2 cs)) = first_end (newline # carriage_return # cs)"
    using Cons.IH by (simp add: option.map_comp comp_def)
  consider "c = newline" | "c = carriage_return" | "c \<noteq> newline" "c \<noteq> carriage_return" by blast
  then show ?case
    using Cons.IH two
    by cases (simp_all add: ends_by_state option.map_comp comp_def numeral_3_eq_3 del: first_end.simps)
qed

lemma find_boundary: "find_sse_event_boundary s = boundary_from 0 s"
  by (simp add: find_is_first_end boundary_from_first)

fun boundary_state :: "nat \<Rightarrow> string \<Rightarrow> nat" where
  "boundary_state q [] = q"
| "boundary_state q (c # cs) =
     boundary_state (if c = newline then 1 else if c = carriage_return \<and> q = 1 then 2 else 0) cs"

lemma boundary_append:
  "boundary_from q (x @ y) =
     (case boundary_from q x of
        Some e \<Rightarrow> Some e | None \<Rightarrow> map_option (\<lambda>e. e + length x) (boundary_from (boundary_state q x) y))"
  by (induction q x rule: boundary_from.induct) (auto simp: option.map_comp comp_def option.map_ident split: option.split)

lemma boundary_state_append [simp]: "boundary_state q (x @ y) = boundary_state (boundary_state q x) y"
  by (induction q x rule: boundary_state.induct) auto

lemma boundary_state_le: "q \<le> 2 \<Longrightarrow> boundary_state q x \<le> 2"
  by (induction q x rule: boundary_state.induct) auto

text \<open>Two bytes decide the state.\<close>

lemma state_forgets: "2 \<le> length v \<Longrightarrow> boundary_state q v = boundary_state q' v"
  by (cases v rule: list.exhaust; cases "tl v") auto

lemma boundary_mono: "boundary_from q s = None \<Longrightarrow> boundary_from 0 s = None"
proof (induction s arbitrary: q)
  case (Cons c cs)
  then show ?case by (cases "c = newline") (auto split: if_splits)
qed simp

lemma boundary_le: "boundary_from q s = Some e \<Longrightarrow> e \<le> length s"
  by (induction q s arbitrary: e rule: boundary_from.induct) (auto split: if_splits)

section \<open>Discarding an event that is too long\<close>

definition tail_ok :: "string \<Rightarrow> bool" where
  "tail_ok t \<longleftrightarrow> length t \<le> 3 \<and> boundary_from 0 t = None"

lemma tail_eq: "trailing_sse_boundary_tail t d = (let s = t @ d in drop (length s - 3) s)"
  by (auto simp: trailing_sse_boundary_tail_def Let_def)

lemma tail_append:
  "trailing_sse_boundary_tail (trailing_sse_boundary_tail t x) y = trailing_sse_boundary_tail t (x @ y)"
proof -
  have "drop (length (drop (length s - 3) s @ y) - 3) (drop (length s - 3) s @ y) = drop (length (s @ y) - 3) (s @ y)" for s
    by (cases "length s \<le> 3") (simp_all add: add.commute)
  from this [of "t @ x"] show ?thesis by (simp only: tail_eq Let_def append_assoc)
qed

lemma tail_next:
  assumes "tail_ok t" and "boundary_from (boundary_state 0 t) d = None"
  shows "tail_ok (trailing_sse_boundary_tail t d)"
    and "boundary_state 0 (trailing_sse_boundary_tail t d) = boundary_state (boundary_state 0 t) d"
proof -
  let ?s = "t @ d"
  let ?u = "take (length ?s - 3) ?s" and ?v = "drop (length ?s - 3) ?s"
  have n: "boundary_from 0 ?s = None" using assms by (simp add: tail_ok_def boundary_append)
  then have "boundary_from 0 (?u @ ?v) = None" by (simp only: append_take_drop_id)
  then have "boundary_from (boundary_state 0 ?u) ?v = None"
    unfolding boundary_append by (simp split: option.splits)
  then show "tail_ok (trailing_sse_boundary_tail t d)"
    unfolding tail_ok_def tail_eq Let_def by (auto intro: boundary_mono)
  have "boundary_state 0 ?v = boundary_state 0 (?u @ ?v)"
  proof (cases "length ?s \<le> 3")
    case False
    then show ?thesis unfolding boundary_state_append by (intro state_forgets) simp
  qed simp
  then show "boundary_state 0 (trailing_sse_boundary_tail t d) = boundary_state (boundary_state 0 t) d"
    unfolding tail_eq Let_def by (simp only: append_take_drop_id boundary_state_append)
qed

lemma discard_automaton:
  assumes "tail_ok (sp_discard_tail p)" and "d \<noteq> []"
  shows "discard_until_event_boundary d p =
     (case boundary_from (boundary_state 0 (sp_discard_tail p)) d of
        Some e \<Rightarrow> (drop e d, p\<lparr>sp_oversized := False, sp_discard_tail := ''''\<rparr>)
      | None \<Rightarrow> ([], p\<lparr>sp_discard_tail := trailing_sse_boundary_tail (sp_discard_tail p) d\<rparr>))"
proof -
  let ?t = "sp_discard_tail p"
  let ?q = "boundary_state 0 ?t"
  have t: "boundary_from 0 ?t = None" using assms(1) by (simp add: tail_ok_def)
  have d: "boundary_from ?q d = (case boundary_from ?q (take 3 d) of
      Some e \<Rightarrow> Some e | None \<Rightarrow> map_option (\<lambda>e. e + length (take 3 d)) (boundary_from (boundary_state ?q (take 3 d)) (drop 3 d)))"
    using boundary_append [of ?q "take 3 d" "drop 3 d"] by simp
  have near: "find_sse_event_boundary (?t @ take 3 d) = map_option (\<lambda>e. e + length ?t) (boundary_from ?q (take 3 d))"
    by (simp add: find_boundary boundary_append t)
  show ?thesis
  proof (cases "boundary_from ?q (take 3 d)")
    case (Some e)
    then show ?thesis using assms(2) d near
      by (cases "?t = ''''") (simp_all add: discard_until_event_boundary_def leave_oversized_event_mode_def find_boundary)
  next
    case None
    have "boundary_from 0 d = boundary_from ?q d"
    proof (cases "length d \<le> 3")
      case True
      then show ?thesis using None boundary_mono [OF None] by simp
    next
      case False
      then have "boundary_state 0 (take 3 d) = boundary_state ?q (take 3 d)" by (intro state_forgets) simp
      then show ?thesis using d None boundary_mono [OF None] boundary_append [of 0 "take 3 d" "drop 3 d"] by simp
    qed
    then have far: "find_sse_event_boundary d = boundary_from ?q d" by (simp only: find_boundary)
    have "(if ?t \<noteq> [] then find_sse_event_boundary (?t @ take 3 d) else None) = None" using near None by simp
    then show ?thesis using assms(2) unfolding discard_until_event_boundary_def far
      by (simp add: leave_oversized_event_mode_def split: option.split)
  qed
qed

section \<open>Chunks do not matter\<close>

lemma lines_append:
  "lines_of (x @ y) =
     (case lines_of x of (ls, r) \<Rightarrow> (case lines_of (r @ y) of (ls', r') \<Rightarrow> (ls @ ls', r')))"
proof (induction x)
  case (Cons c x)
  obtain ls r where x: "lines_of x = (ls, r)" by fastforce
  obtain ls' r' where y: "lines_of (r @ y) = (ls', r')" by fastforce
  have "lines_of (x @ y) = (ls @ ls', r')" using Cons.IH x y by simp
  then show ?case using x y by (cases ls) (auto split: list.split)
qed (simp split: prod.split)

fun_cases lines_of_Cons: "lines_of (c # cs) = p"

lemma rest_has_no_newline: "lines_of s = (ls, r) \<Longrightarrow> newline \<notin> set r \<and> length r \<le> length s"
proof (induction s arbitrary: ls r)
  case (Cons c cs)
  from Cons.prems show ?case
    by (rule lines_of_Cons) (use Cons.IH in \<open>force split: prod.splits list.splits if_splits\<close>)
qed simp

lemma lines_without_newline: "newline \<notin> set s \<Longrightarrow> lines_of s = ([], s)"
  by (induction s) auto

text \<open>What the lines of an event do to a parser does not concern its buffer.\<close>

lemma note_event_buffer [unchanged]:
  "note_event env t e (p\<lparr>sp_buffer := b\<rparr>) = (note_event env t e p)\<lparr>sp_buffer := b\<rparr>"
  "sp_buffer (note_event env t e p) = sp_buffer p" "sp_oversized (note_event env t e p) = sp_oversized p"
  "sp_discard_tail (note_event env t e p) = sp_discard_tail p" "sp_sanitizer (note_event env t e p) = sp_sanitizer p"
  by (auto simp: note_event_def split: option.split)

lemma parse_event_buffer [unchanged]:
  "parse_event env t d (p\<lparr>sp_buffer := b\<rparr>) = (parse_event env t d p)\<lparr>sp_buffer := b\<rparr>"
  "sp_buffer (parse_event env t d p) = sp_buffer p" "sp_oversized (parse_event env t d p) = sp_oversized p"
  "sp_discard_tail (parse_event env t d p) = sp_discard_tail p" "sp_sanitizer (parse_event env t d p) = sp_sanitizer p"
  by (auto simp: parse_event_def note_event_def Let_def split: option.split)

lemma take_line_buffer [unchanged]:
  "take_line env l (p\<lparr>sp_buffer := b\<rparr>) = (take_line env l p)\<lparr>sp_buffer := b\<rparr>"
  "sp_buffer (take_line env l p) = sp_buffer p" "sp_oversized (take_line env l p) = sp_oversized p"
  "sp_discard_tail (take_line env l p) = sp_discard_tail p" "sp_sanitizer (take_line env l p) = sp_sanitizer p"
  by (simp_all add: take_line_def Let_def unchanged split: option.split)

lemma take_lines_buffer [unchanged]:
  "fold (take_line env) ls (p\<lparr>sp_buffer := b\<rparr>) = (fold (take_line env) ls p)\<lparr>sp_buffer := b\<rparr>"
  "sp_buffer (fold (take_line env) ls p) = sp_buffer p" "sp_oversized (fold (take_line env) ls p) = sp_oversized p"
  "sp_discard_tail (fold (take_line env) ls p) = sp_discard_tail p"
  "sp_sanitizer (fold (take_line env) ls p) = sp_sanitizer p"
  by (induction ls arbitrary: p) (simp_all add: unchanged)

definition take_bytes :: "stream_env \<Rightarrow> string \<Rightarrow> sse_parser \<Rightarrow> sse_parser" where
  "take_bytes env d p = parse_buffer env (p\<lparr>sp_buffer := sp_buffer p @ d\<rparr>)"

lemma write_lines:
  "lines_of (sp_buffer p @ d) = (ls, r) \<Longrightarrow> take_bytes env d p = (fold (take_line env) ls p)\<lparr>sp_buffer := r\<rparr>"
  by (simp add: take_bytes_def parse_buffer_def unchanged)

lemma write_append: "take_bytes env (x @ y) p = take_bytes env y (take_bytes env x p)"
proof -
  obtain ls r where x: "lines_of (sp_buffer p @ x) = (ls, r)" by fastforce
  obtain ls' r' where y: "lines_of (r @ y) = (ls', r')" by fastforce
  have "lines_of (sp_buffer p @ x @ y) = (ls @ ls', r')"
    using lines_append [of "sp_buffer p @ x" y] x y by simp
  moreover have "take_bytes env y (take_bytes env x p) = (fold (take_line env) ls' (take_bytes env x p))\<lparr>sp_buffer := r'\<rparr>"
    using y by (intro write_lines) (simp add: write_lines [OF x])
  ultimately show ?thesis by (simp add: write_lines [OF x] write_lines unchanged)
qed

lemma write_keeps [unchanged]:
  "sp_oversized (take_bytes env d p) = sp_oversized p" "sp_discard_tail (take_bytes env d p) = sp_discard_tail p"
  "sp_sanitizer (take_bytes env d p) = sp_sanitizer p"
  by (simp_all add: take_bytes_def parse_buffer_def unchanged split: prod.split)

definition parser_ok :: "sse_parser \<Rightarrow> bool" where
  "parser_ok p \<longleftrightarrow> length (sp_buffer p) \<le> max_sse_event_size \<and> newline \<notin> set (sp_buffer p) \<and> tail_ok (sp_discard_tail p)"

lemma write_buffer:
  "newline \<notin> set (sp_buffer (take_bytes env d p)) \<and> length (sp_buffer (take_bytes env d p)) \<le> length (sp_buffer p) + length d"
proof -
  obtain ls r where "lines_of (sp_buffer p @ d) = (ls, r)" by fastforce
  from write_lines [OF this] rest_has_no_newline [OF this] show ?thesis by simp
qed

lemma write_ok: "parser_ok p \<Longrightarrow> length (sp_buffer p) + length d \<le> max_sse_event_size \<Longrightarrow> parser_ok (take_bytes env d p)"
  using write_buffer [of env d p] by (simp add: parser_ok_def unchanged)

lemma write_nothing: "parser_ok p \<Longrightarrow> take_bytes env [] p = p"
  by (simp add: take_bytes_def parse_buffer_def parser_ok_def lines_without_newline)

lemma enter_ok: "parser_ok p \<Longrightarrow> parser_ok (enter_oversized_event_mode p)"
  by (simp add: parser_ok_def enter_oversized_event_mode_def tail_ok_def)

lemma discard_ok:
  "parser_ok p \<Longrightarrow> discard_until_event_boundary d p = (rest, q) \<Longrightarrow> parser_ok q"
  by (cases "d = []")
    (auto simp: parser_ok_def discard_automaton tail_next tail_ok_def [of "''''"] discard_until_event_boundary_def [of "[]"]
      split: option.splits)

text \<open>The three kinds of rounds of the loop.\<close>

lemma feed_nothing [simp]: "feed_loop env [] p = p"
  by (simp add: feed_loop.simps)

lemma feed_discards:
  "sp_oversized p \<Longrightarrow> d \<noteq> [] \<Longrightarrow>
     feed_loop env d p = (case discard_until_event_boundary d p of (rest, q) \<Rightarrow> feed_loop env rest q)"
  by (subst feed_loop.simps) simp

lemma feed_full:
  assumes "\<not> sp_oversized p" and "length (sp_buffer p) \<ge> max_sse_event_size" and "d \<noteq> []"
  shows "feed_loop env d p = feed_loop env d (enter_oversized_event_mode p)"
proof -
  have "(d = []) = False" "sp_oversized p = False" "(length (sp_buffer p) \<ge> max_sse_event_size) = True"
    using assms by simp_all
  then show ?thesis by (subst feed_loop.simps) (simp only: if_False if_True)
qed

lemma feed_writes:
  assumes "\<not> sp_oversized p" and "length (sp_buffer p) < max_sse_event_size" and "d \<noteq> []"
  shows "feed_loop env d p =
     (let n = min (length d) (max_sse_event_size - length (sp_buffer p))
      in feed_loop env (drop n d) (take_bytes env (take n d) p))"
proof -
  let ?n = "min (length d) (max_sse_event_size - length (sp_buffer p))"
  let ?q = "take_bytes env (take ?n d) p"
  have "(d = []) = False" "sp_oversized p = False" "(length (sp_buffer p) \<ge> max_sse_event_size) = False"
    using assms by simp_all
  then have "feed_loop env d p = feed_loop env (drop ?n d)
      (if length (sp_buffer ?q) \<ge> max_sse_event_size \<and> drop ?n d \<noteq> [] then enter_oversized_event_mode ?q else ?q)"
    by (subst feed_loop.simps) (simp only: if_False Let_def take_bytes_def)
  also have "\<dots> = feed_loop env (drop ?n d) ?q"
  proof (cases "length (sp_buffer ?q) \<ge> max_sse_event_size \<and> drop ?n d \<noteq> []")
    case True
    moreover have "\<not> sp_oversized ?q" using assms(1) by (simp only: unchanged not_False_eq_True)
    ultimately show ?thesis using feed_full [of ?q "drop ?n d" env] by (simp only: if_True simp_thms)
  next
    case False
    then show ?thesis by (simp only: if_False)
  qed
  finally show ?thesis by (simp only: Let_def)
qed

lemma feed_rounds [case_names Done Discards Full Writes]:
  assumes "\<And>p. P [] p"
    and "\<And>d p rest q. sp_oversized p \<Longrightarrow> d \<noteq> [] \<Longrightarrow> discard_until_event_boundary d p = (rest, q) \<Longrightarrow> P rest q \<Longrightarrow> P d p"
    and "\<And>d p. \<not> sp_oversized p \<Longrightarrow> length (sp_buffer p) \<ge> max_sse_event_size \<Longrightarrow> d \<noteq> [] \<Longrightarrow>
      P d (enter_oversized_event_mode p) \<Longrightarrow> P d p"
    and "\<And>d p. \<not> sp_oversized p \<Longrightarrow> length (sp_buffer p) < max_sse_event_size \<Longrightarrow> d \<noteq> [] \<Longrightarrow>
      (let n = min (length d) (max_sse_event_size - length (sp_buffer p))
       in P (drop n d) (take_bytes env (take n d) p)) \<Longrightarrow> P d p"
  shows "P d p"
proof (induction "4 * length d + mode_rank p" arbitrary: d p rule: less_induct)
  case less
  consider "d = []" | "sp_oversized p" "d \<noteq> []" | "\<not> sp_oversized p" "length (sp_buffer p) \<ge> max_sse_event_size" "d \<noteq> []"
    | "\<not> sp_oversized p" "length (sp_buffer p) < max_sse_event_size" "d \<noteq> []" by linarith
  then show ?case
  proof cases
    case 2
    obtain rest q where d: "discard_until_event_boundary d p = (rest, q)" by fastforce
    have "rest \<noteq> [] \<Longrightarrow> 4 * length rest + mode_rank q < 4 * length d + mode_rank p"
      using discard_measure [OF d 2] by auto
    then have "P rest q" using less [of rest q] assms(1) by (cases "rest = []") simp_all
    with assms(2) [OF 2 d] show ?thesis .
  next
    case 3
    have "mode_rank (enter_oversized_event_mode p) < mode_rank p" using 3
      by (simp add: mode_rank_def enter_oversized_event_mode_def max_sse_event_size_def)
    then show ?thesis by (intro assms(3) [OF 3] less) simp
  next
    case 4
    let ?k = "min (length d) (max_sse_event_size - length (sp_buffer p))"
    let ?q = "take_bytes env (take ?k d) p"
    have fewer: "0 < k \<Longrightarrow> k \<le> a \<Longrightarrow> r \<le> 3 \<Longrightarrow> 4 * (a - k) + r < 4 * a + s" for a k r s :: nat by arith
    have "0 < ?k" "?k \<le> length d" "mode_rank ?q \<le> 3" using 4 by (simp_all add: mode_rank_def)
    then have "4 * length (drop ?k d) + mode_rank ?q < 4 * length d + mode_rank p"
      unfolding length_drop by (intro fewer)
    from less [OF this] show ?thesis by (intro assms(4) [OF 4]) (simp only: Let_def)
  qed (simp add: assms(1))
qed

text \<open>As long as there is room, it does not matter in which portions bytes are written.\<close>

lemma feed_split:
  assumes "parser_ok p" and "\<not> sp_oversized p" and "length (sp_buffer p) + k \<le> max_sse_event_size" and "k \<le> length d"
  shows "feed_loop env d p = feed_loop env (drop k d) (take_bytes env (take k d) p)"
  using assms
proof (induction d arbitrary: p k rule: length_induct)
  case (1 d)
  let ?n = "min (length d) (max_sse_event_size - length (sp_buffer p))"
  let ?q = "take_bytes env (take k d) p" and ?r = "drop k d"
  consider (none) "k = 0" | (all) "0 < k" "k = ?n" | (part) "0 < k" "k < ?n" using 1(4,5) by linarith
  then show ?case
  proof cases
    case none
    then show ?thesis using write_nothing [OF 1(2)] by simp
  next
    case all
    then show ?thesis using feed_writes [of p d env] 1(3) by (cases d) (auto simp: Let_def)
  next
    case part
    let ?m = "?n - k"
    have q: "parser_ok ?q" "\<not> sp_oversized ?q" "length (sp_buffer ?q) + ?m \<le> max_sse_event_size"
      using 1 part write_ok [of p "take k d" env] write_buffer [of env "take k d" p] by (auto simp: unchanged)
    have "feed_loop env ?r ?q = feed_loop env (drop ?m ?r) (take_bytes env (take ?m ?r) ?q)"
      by (rule 1(1) [rule_format]) (use q part in auto)
    also have "take_bytes env (take ?m ?r) ?q = take_bytes env (take ?n d) p"
      using part take_add [of k ?m d] by (simp add: write_append [symmetric])
    also have "drop ?m ?r = drop ?n d" using part by simp
    finally show ?thesis using feed_writes [of p d env] 1(3) part by (cases d) (auto simp: Let_def)
  qed
qed

lemma feed_append_discarding:
  assumes over: "sp_oversized p" and x: "x \<noteq> []" and d: "discard_until_event_boundary x p = (rest, q)"
    and IH: "parser_ok q \<Longrightarrow> feed_loop env (rest @ y) q = feed_loop env y (feed_loop env rest q)"
    and ok: "parser_ok p" and y: "y \<noteq> []"
  shows "feed_loop env (x @ y) p = feed_loop env y (feed_loop env x p)"
proof -
  let ?t = "sp_discard_tail p"
  let ?s = "boundary_state 0 ?t"
  have t: "tail_ok ?t" using ok by (simp add: parser_ok_def)
  have feed: "feed_loop env x p = feed_loop env rest q" using over x d by (simp add: feed_discards)
  show ?thesis
  proof (cases "boundary_from ?s x")
    case (Some e)
    then have "e \<le> length x" by (rule boundary_le)
    then have "discard_until_event_boundary (x @ y) p = (rest @ y, q)"
      using Some x d by (auto simp: discard_automaton t boundary_append)
    then have "feed_loop env (x @ y) p = feed_loop env (rest @ y) q"
      using over x by (simp add: feed_discards)
    then show ?thesis using IH [OF discard_ok [OF ok d]] feed by simp
  next
    case None
    note next_tail = tail_next [OF t None]
    have q: "rest = []" "q = p\<lparr>sp_discard_tail := trailing_sse_boundary_tail ?t x\<rparr>"
      using x d None by (simp_all add: discard_automaton t)
    have "discard_until_event_boundary (x @ y) p = discard_until_event_boundary y q"
      using x y None next_tail unfolding q
      by (cases "boundary_from (boundary_state ?s x) y")
        (simp_all add: discard_automaton t boundary_append tail_append)
    moreover have "sp_oversized q" using over by (simp add: q(2))
    ultimately show ?thesis using over x y feed q(1) by (simp add: feed_discards)
  qed
qed

lemma feed_append:
  "parser_ok p \<Longrightarrow> feed_loop env (x @ y) p = feed_loop env y (feed_loop env x p)"
proof (cases "y = []")
  case False
  then have y: "y \<noteq> []" .
  show "parser_ok p \<Longrightarrow> ?thesis"
  proof (induction x p rule: feed_rounds [where env = env])
    case (Discards x p rest q)
    from feed_append_discarding [OF Discards.hyps Discards.IH Discards.prems y] show ?case .
  next
    case (Full x p)
    then show ?case using feed_full [OF Full.hyps, of env] feed_full [OF Full.hyps(1,2), of "x @ y" env]
        Full.IH enter_ok [OF Full.prems] by simp
  next
    case (Writes x p)
    let ?k = "min (length x) (max_sse_event_size - length (sp_buffer p))"
    let ?q = "take_bytes env (take ?k x) p"
    have k: "length (sp_buffer p) + ?k \<le> max_sse_event_size" "?k \<le> length x" using Writes.hyps by auto
    have "feed_loop env (x @ y) p = feed_loop env (drop ?k x @ y) ?q" "feed_loop env x p = feed_loop env (drop ?k x) ?q"
      using feed_split [OF Writes.prems Writes.hyps(1) k(1), of "x @ y" env]
        feed_split [OF Writes.prems Writes.hyps(1) k, of env] by simp_all
    moreover have "parser_ok ?q" using Writes.prems k by (intro write_ok) auto
    ultimately show ?case using Writes.IH by (simp add: Let_def)
  qed simp
qed simp

lemma feed_loop_ok: "parser_ok p \<Longrightarrow> parser_ok (feed_loop env d p)"
proof (induction d p rule: feed_rounds [where env = env])
  case (Discards d p rest q)
  then show ?case using discard_ok by (simp add: feed_discards)
next
  case (Full d p)
  then show ?case using enter_ok feed_full [of p d env] by simp
next
  case (Writes d p)
  have "parser_ok (take_bytes env (take (min (length d) (max_sse_event_size - length (sp_buffer p))) d) p)"
    using Writes by (intro write_ok) auto
  then show ?case using Writes feed_writes [of p d env] by (simp add: Let_def)
qed simp

text \<open>
  What the stream means for the request leaves the counts aside, which the scanner updates at the
  beginning of every chunk.
\<close>

definition forget_counts :: "sse_parser \<Rightarrow> sse_parser" where
  "forget_counts p =
     p\<lparr>sp_usage := empty_usage, sp_scanner := new_json_usage_parser '''', sp_scan_version := 0, sp_sanitizer := new_sanitizer\<rparr>"

lemma forget_fields [simp]:
  "sp_buffer (forget_counts p) = sp_buffer p" "sp_oversized (forget_counts p) = sp_oversized p"
  "sp_discard_tail (forget_counts p) = sp_discard_tail p" "sp_event_type (forget_counts p) = sp_event_type p"
  "sp_data_lines (forget_counts p) = sp_data_lines p" "forget_counts (forget_counts p) = forget_counts p"
  by (simp_all add: forget_counts_def)

lemma forget_buffer: "forget_counts (p\<lparr>sp_buffer := b\<rparr>) = (forget_counts p)\<lparr>sp_buffer := b\<rparr>"
  by (simp add: forget_counts_def)

lemma forget_parse_event: "forget_counts (parse_event env t d (forget_counts p)) = forget_counts (parse_event env t d p)"
  by (auto simp: parse_event_def note_event_def forget_counts_def Let_def split: option.split)

lemma forget_event_end:
  "forget_counts (p\<lparr>sp_event_type := t, sp_data_lines := ls\<rparr>) = (forget_counts p)\<lparr>sp_event_type := t, sp_data_lines := ls\<rparr>"
  by (simp add: forget_counts_def)

lemma forget_take_line: "forget_counts (take_line env l (forget_counts p)) = forget_counts (take_line env l p)"
proof -
  let ?l = "trim_carriage_returns l"
  consider (event) a where "cut_prefix ''event:'' ?l = Some a"
    | (data) a where "cut_prefix ''event:'' ?l = None" "cut_prefix ''data:'' ?l = Some a"
    | (ends) "cut_prefix ''event:'' ?l = None" "cut_prefix ''data:'' ?l = None" "?l = ''''" "sp_data_lines p \<noteq> []"
    | (other) "cut_prefix ''event:'' ?l = None" "cut_prefix ''data:'' ?l = None" "\<not> (?l = '''' \<and> sp_data_lines p \<noteq> [])"
    using option.exhaust by metis
  then show ?thesis
  proof cases
    case ends
    then show ?thesis by (simp add: take_line_def forget_event_end forget_parse_event)
  next
    case other
    then show ?thesis unfolding take_line_def Let_def by (simp only: option.case forget_fields if_False)
  qed (simp_all add: take_line_def forget_counts_def)
qed

lemma forget_take_lines:
  "forget_counts p = forget_counts q \<Longrightarrow> forget_counts (fold (take_line env) ls p) = forget_counts (fold (take_line env) ls q)"
proof (induction ls arbitrary: p q)
  case (Cons l ls)
  have "forget_counts (take_line env l p) = forget_counts (take_line env l q)"
    using Cons.prems forget_take_line by metis
  from Cons.IH [OF this] show ?case by simp
qed simp

lemma same_fields:
  assumes "forget_counts p = forget_counts q"
  shows "sp_buffer p = sp_buffer q" "sp_oversized p = sp_oversized q" "sp_discard_tail p = sp_discard_tail q"
  using arg_cong [OF assms, of sp_buffer] arg_cong [OF assms, of sp_oversized] arg_cong [OF assms, of sp_discard_tail]
  by simp_all

lemma forget_take_bytes:
  assumes "forget_counts p = forget_counts q"
  shows "forget_counts (take_bytes env d p) = forget_counts (take_bytes env d q)"
proof -
  obtain ls r where l: "lines_of (sp_buffer p @ d) = (ls, r)" by fastforce
  then have "lines_of (sp_buffer q @ d) = (ls, r)" using same_fields(1) [OF assms] by simp
  from write_lines [OF l] write_lines [OF this] forget_take_lines [OF assms] show ?thesis by (simp add: forget_buffer)
qed

lemma forget_enter:
  "forget_counts p = forget_counts q \<Longrightarrow>
     forget_counts (enter_oversized_event_mode p) = forget_counts (enter_oversized_event_mode q)"
proof -
  have "forget_counts (enter_oversized_event_mode p) = enter_oversized_event_mode (forget_counts p)" for p
    by (simp add: forget_counts_def enter_oversized_event_mode_def)
  then show "forget_counts p = forget_counts q \<Longrightarrow> ?thesis" by simp
qed

lemma forget_discard:
  assumes "forget_counts p = forget_counts q"
  shows "fst (discard_until_event_boundary d p) = fst (discard_until_event_boundary d q)"
    and "forget_counts (snd (discard_until_event_boundary d p)) = forget_counts (snd (discard_until_event_boundary d q))"
proof -
  have "discard_until_event_boundary d (forget_counts p) = map_prod id forget_counts (discard_until_event_boundary d p)" for p
    by (simp add: discard_until_event_boundary_def leave_oversized_event_mode_def forget_counts_def split: option.split)
  from this [of p] this [of q]
  have "map_prod id forget_counts (discard_until_event_boundary d p) = map_prod id forget_counts (discard_until_event_boundary d q)"
    using assms by simp
  then show "fst (discard_until_event_boundary d p) = fst (discard_until_event_boundary d q)"
    and "forget_counts (snd (discard_until_event_boundary d p)) = forget_counts (snd (discard_until_event_boundary d q))"
    by (auto simp: map_prod_def split: prod.splits)
qed

lemma forget_feed_loop:
  "forget_counts p = forget_counts q \<Longrightarrow> forget_counts (feed_loop env d p) = forget_counts (feed_loop env d q)"
proof (induction d p arbitrary: q rule: feed_rounds [where env = env])
  case (Discards d p rest p')
  obtain q' where "discard_until_event_boundary d q = (rest, q')" "forget_counts p' = forget_counts q'"
    using forget_discard [OF Discards.prems, of d] Discards.hyps(3) by (cases "discard_until_event_boundary d q") auto
  then show ?case using Discards same_fields [OF Discards.prems] by (simp add: feed_discards)
next
  case (Full d p)
  have q: "\<not> sp_oversized q" "length (sp_buffer q) \<ge> max_sse_event_size"
    using Full.hyps same_fields [OF Full.prems] by simp_all
  show ?case unfolding feed_full [OF Full.hyps] feed_full [OF q Full.hyps(3)]
    by (rule Full.IH) (rule forget_enter [OF Full.prems])
next
  case (Writes d p)
  have q: "\<not> sp_oversized q" "length (sp_buffer q) < max_sse_event_size"
    using Writes.hyps same_fields [OF Writes.prems] by simp_all
  show ?case unfolding feed_writes [OF Writes.hyps] feed_writes [OF q Writes.hyps(3)] Let_def same_fields(1) [OF Writes.prems, symmetric]
    by (rule Writes.IH [unfolded Let_def, rule_format]) (rule forget_take_bytes [OF Writes.prems])
qed simp

lemma discard_sanitizer: "discard_until_event_boundary d p = (rest, q) \<Longrightarrow> sp_sanitizer q = sp_sanitizer p"
  by (auto simp: discard_until_event_boundary_def leave_oversized_event_mode_def split: option.splits if_splits)

lemma feed_loop_sanitizer [unchanged]: "sp_sanitizer (feed_loop env d p) = sp_sanitizer p"
proof (induction d p rule: feed_rounds [where env = env])
  case (Discards d p rest q)
  then show ?case using discard_sanitizer by (simp add: feed_discards)
next
  case (Full d p)
  then show ?case using feed_full [of p d env] by (simp add: enter_oversized_event_mode_def)
next
  case (Writes d p)
  then show ?case using feed_writes [of p d env] by (simp add: unchanged Let_def)
qed simp

lemma forget_scan: "forget_counts (scan_usage_fragments env d p) = forget_counts p"
  by (simp add: scan_usage_fragments_def forget_counts_def Let_def)

lemma scan_sanitizer: "sp_sanitizer (scan_usage_fragments env d p) = sp_sanitizer p"
  by (simp add: scan_usage_fragments_def Let_def)

lemma forget_feed:
  "forget_counts (sse_feed env d p) = forget_counts (feed_loop env (snd (sanitize d (sp_sanitizer p))) p)"
proof -
  obtain s clean where d: "sanitize d (sp_sanitizer p) = (s, clean)" by fastforce
  let ?p = "(scan_usage_fragments env d p)\<lparr>sp_sanitizer := s\<rparr>"
  have "forget_counts ?p = forget_counts (scan_usage_fragments env d p)" by (simp add: forget_counts_def)
  then have "forget_counts ?p = forget_counts p" by (simp only: forget_scan)
  from forget_feed_loop [OF this] show ?thesis by (simp add: sse_feed_def d scan_sanitizer)
qed

lemma feed_sanitizer: "sp_sanitizer (sse_feed env d p) = fst (sanitize d (sp_sanitizer p))"
  by (simp add: sse_feed_def scan_sanitizer unchanged split: prod.split)

lemma ok_forget: "forget_counts p = forget_counts q \<Longrightarrow> parser_ok p = parser_ok q"
  using same_fields [of p q] by (simp add: parser_ok_def)

lemma feed_ok: "parser_ok p \<Longrightarrow> parser_ok (sse_feed env d p)"
  using ok_forget [OF forget_feed [of env d p]] feed_loop_ok by simp

lemma feed_chunks:
  "parser_ok p \<Longrightarrow> forget_counts (fold (sse_feed env) chunks p) =
     forget_counts (feed_loop env (snd (sanitize (concat chunks) (sp_sanitizer p))) p)"
proof (induction chunks arbitrary: p)
  case (Cons d ds)
  obtain s1 o1 where d: "sanitize d (sp_sanitizer p) = (s1, o1)" by fastforce
  obtain s2 o2 where ds: "sanitize (concat ds) s1 = (s2, o2)" by fastforce
  have "forget_counts (fold (sse_feed env) (d # ds) p) = forget_counts (feed_loop env o2 (sse_feed env d p))"
    using Cons feed_ok [OF Cons.prems] d ds by (simp add: feed_sanitizer)
  also have "\<dots> = forget_counts (feed_loop env o2 (feed_loop env o1 p))"
    using forget_feed [of env d p] d by (intro forget_feed_loop) simp
  finally show ?case using feed_append [OF Cons.prems, of env o1 o2] d ds by simp
qed simp

lemma new_parser_ok: "parser_ok (new_sse_parser protocol)"
  by (simp add: parser_ok_def new_sse_parser_def tail_ok_def)

definition stream_outcome :: "sse_parser \<Rightarrow> bool \<times> bool \<times> string option \<times> turn_result option" where
  "stream_outcome p = (sp_complete p, sp_output p, sp_last_error p, sp_turn p)"

text \<open>C34: 
  How a response is cut into chunks does not decide its outcome: whether the stream is complete, whether
  it has shown anything to the client, the error it carries and the turn it finished are the same for any
  chunks as for the whole response at once, events that exceed the limit and are skipped included.
\<close>

theorem outcome_ignores_chunks:
  "stream_outcome (fold (sse_feed env) chunks (new_sse_parser protocol)) =
     stream_outcome (sse_feed env (concat chunks) (new_sse_parser protocol))"
proof -
  have "stream_outcome p = stream_outcome q" if "forget_counts p = forget_counts q" for p q
    using arg_cong [OF that, of sp_complete] arg_cong [OF that, of sp_output] arg_cong [OF that, of sp_last_error]
      arg_cong [OF that, of sp_turn] by (simp add: stream_outcome_def forget_counts_def)
  moreover have "forget_counts (fold (sse_feed env) chunks (new_sse_parser protocol)) =
      forget_counts (sse_feed env (concat chunks) (new_sse_parser protocol))"
    using feed_chunks [OF new_parser_ok, of env chunks protocol] forget_feed [of env "concat chunks"] by simp
  ultimately show ?thesis by blast
qed

text \<open>C39: 
  The buffer of the stream parser never exceeds 1 MiB and never holds a complete line between chunks,
  whatever the upstream sends.
\<close>

theorem stream_buffer_is_bounded:
  "let p = fold (sse_feed env) chunks (new_sse_parser protocol)
   in length (sp_buffer p) \<le> 1048576 \<and> newline \<notin> set (sp_buffer p) \<and> length (sp_discard_tail p) \<le> 3"
proof -
  have "parser_ok (fold (sse_feed env) chunks p)" if "parser_ok p" for p
    using that by (induction chunks arbitrary: p) (simp_all add: feed_ok)
  from this [OF new_parser_ok] show ?thesis
    by (simp add: parser_ok_def tail_ok_def max_sse_event_size_def Let_def)
qed

section \<open>What the limits do not cover\<close>

text \<open>
  The limit of 1 MiB counts the bytes of the line that is still open.  The data lines of an event that
  does not end are kept without any limit.
\<close>

lemma data_line_is_kept:
  assumes "parser_ok p" and "\<not> sp_oversized p" and "sp_buffer p = []"
  shows "feed_loop env (''data:x'' @ [newline]) p = p\<lparr>sp_data_lines := sp_data_lines p @ [''x'']\<rparr>"
proof -
  have "feed_loop env (''data:x'' @ [newline]) p = take_bytes env (''data:x'' @ [newline]) p"
    using feed_split [OF assms(1,2), of 7 "''data:x'' @ [newline]" env] assms(3) by (simp add: max_sse_event_size_def)
  moreover have "lines_of (sp_buffer p @ ''data:x'' @ [newline]) = ([''data:x''], [])" using assms(3) by simp
  moreover have "trim_carriage_returns ''data:x'' = ''data:x''" by (simp add: trim_carriage_returns_def)
  moreover have "cut_prefix ''event:'' ''data:x'' = None" "cut_prefix ''data:'' ''data:x'' = Some ''x''"
    by (simp_all add: cut_prefix_def)
  moreover have "trim_space ''x'' = ''x''" by (rule trim_space_word) (simp add: plain_word_def plain_char_def)
  moreover have "p\<lparr>sp_data_lines := l, sp_buffer := []\<rparr> = p\<lparr>sp_data_lines := l\<rparr>" for l
    using assms(3) by (cases p) simp
  ultimately show ?thesis by (simp add: write_lines take_line_def)
qed

theorem data_lines_are_unlimited:
  "let p = feed_loop env (concat (replicate n (''data:x'' @ [newline]))) (new_sse_parser protocol)
   in length (sp_data_lines p) = n \<and> \<not> sp_oversized p"
proof -
  have "parser_ok p \<Longrightarrow> \<not> sp_oversized p \<Longrightarrow> sp_buffer p = [] \<Longrightarrow>
      (let q = feed_loop env (concat (replicate n (''data:x'' @ [newline]))) p
       in length (sp_data_lines q) = length (sp_data_lines p) + n \<and> \<not> sp_oversized q)" for p
  proof (induction n arbitrary: p)
    case (Suc n)
    let ?q = "p\<lparr>sp_data_lines := sp_data_lines p @ [''x'']\<rparr>"
    have "feed_loop env (concat (replicate (Suc n) (''data:x'' @ [newline]))) p =
        feed_loop env (concat (replicate n (''data:x'' @ [newline]))) ?q"
      using data_line_is_kept [OF Suc.prems, of env] feed_append [OF Suc.prems(1), of env "''data:x'' @ [newline]"] by simp
    moreover have "parser_ok ?q" using Suc.prems(1) by (simp add: parser_ok_def)
    ultimately show ?case using Suc.IH [of ?q] Suc.prems by (simp add: Let_def)
  qed (simp add: Let_def)
  from this [OF new_parser_ok] show ?thesis by (simp add: new_sse_parser_def Let_def)
qed

end
