(* ===== verification/Stream_Findings.thy ===== *)
theory Stream_Findings
  imports Stream_Properties
begin

text \<open>
  Where chunks do matter: the service tier that is billed.  The scanner repeats what it has found at the
  beginning of every chunk and overrides what the events have said since.
\<close>

lemmas scanner_machine = scan_json_usage_def scan_json_byte_def scan_string_byte_def append_string_byte_def
  scan_outside_byte_def open_string_def clear_pending_def start_json_value_capture_def scan_json_capture_byte_def
  keep_capture_byte_def finish_json_value_capture_def use_fragment_def usage_keys_def starts_capture_def
  is_json_whitespace_def max_json_key_size_def max_json_usage_fragment_size_def

text \<open>
  The tier that is billed depends on the chunks: an event with \<open>usage.speed\<close> and a \<open>service_tier\<close> after
  it is billed as fast by \<open>parseEvent\<close>, and the scan at the beginning of the next chunk, even of an empty
  line, puts back the other one.
\<close>

definition tier_fragment :: string where "tier_fragment = ''{'' @ quoted ''speed'' @ '':'' @ quoted ''fast'' @ ''}''"

definition tier_payload :: string where
  "tier_payload = ''{'' @ quoted ''usage'' @ '':'' @ tier_fragment @ '','' @ quoted ''service_tier'' @ '':'' @ quoted ''priority'' @ ''}''"

definition tier_env :: stream_env where
  "tier_env =
     \<lparr>sv_overflow = (\<lambda>x. 0),
      sv_json = (\<lambda>s. if s = tier_fragment then Some (JObj [(''speed'', JStr ''fast'')])
                 else if s = quoted ''priority'' then Some (JStr ''priority'')
                 else if s = tier_payload
                 then Some (JObj [(''usage'', JObj [(''speed'', JStr ''fast'')]), (''service_tier'', JStr ''priority'')])
                 else None),
      sv_type = (\<lambda>s. Some ''''), sv_error = (\<lambda>s. None), sv_encode = (\<lambda>v. '''')\<rparr>"

lemmas tier_texts = tier_payload_def quoted_def tier_fragment_def

lemma tier_scan:
  "jp_usage (scan_json_usage (\<lambda>x. 0) (sv_json tier_env) (''data:'' @ tier_payload @ [newline, newline])
     (new_json_usage_parser ''anthropic'')) =
   empty_usage\<lparr>ua_service_tier := ''priority'', ua_version := 1\<rparr>"
  by (simp add: scanner_machine tier_texts new_json_usage_parser_def tier_env_def apply_usage_map_def apply_usage_def
      apply_anthropic_or_responses_usage_def apply_cache_creation_def when_number_def member_number_def member_object_def
      take_detail_reasoning_def take_reasoning_def usage_int_def apply_billing_usage_openai_reasoning_def empty_usage_def
      member_string_def Let_def)

definition tier_stream :: string where "tier_stream = ''data:'' @ tier_payload @ [newline, newline]"

lemma tier_scan_rest:
  "scan_json_usage (\<lambda>x. 0) f [newline] (scan_json_usage (\<lambda>x. 0) (sv_json tier_env) tier_stream (new_json_usage_parser ''anthropic'')) =
   scan_json_usage (\<lambda>x. 0) (sv_json tier_env) tier_stream (new_json_usage_parser ''anthropic'')"
  by (simp add: scanner_machine tier_stream_def tier_texts new_json_usage_parser_def tier_env_def Let_def)

lemma tier_sanitized: "sanitize tier_stream new_sanitizer = (fst (sanitize tier_stream new_sanitizer), tier_stream)"
  by (simp add: tier_stream_def tier_texts sanitize_byte_def new_sanitizer_def scan_string_byte_def append_string_byte_def
      scan_outside_byte_def open_string_def is_json_whitespace_def max_json_key_size_def is_large_json_string_field_def Let_def)

lemma tier_lines: "lines_of tier_stream = ([''data:'' @ tier_payload, ''''], [])"
  by (simp add: tier_stream_def tier_texts)

lemma tier_event:
  "ua_service_tier (sp_usage (parse_event tier_env '''' tier_payload p)) = ''fast''"
proof -
  have d: "decoded_map tier_env tier_payload =
      Some [(''usage'', JObj [(''speed'', JStr ''fast'')]), (''service_tier'', JStr ''priority'')]"
    by (simp add: decoded_map_def tier_env_def tier_texts)
  show ?thesis unfolding parse_event_def d option.case
    by (simp add: tier_env_def is_heartbeat_event_def is_error_payload_def note_event_def note_levels_def
      tier_texts extract_usage_def member_object_def member_string_def Let_def)
qed
lemma tier_feed:
  assumes "parser_ok p" and "\<not> sp_oversized p" and "sp_buffer p = []" and "sp_data_lines p = []" and "sp_event_type p = ''''"
  shows "let q = feed_loop tier_env tier_stream p
     in ua_service_tier (sp_usage q) = ''fast'' \<and> parser_ok q \<and> \<not> sp_oversized q \<and> sp_buffer q = [] \<and>
        sp_data_lines q = [] \<and> sp_scanner q = sp_scanner p \<and> sp_sanitizer q = sp_sanitizer p"
proof -
  let ?q = "take_bytes tier_env tier_stream p"
  have short: "length (sp_buffer p) + length tier_stream \<le> max_sse_event_size"
    by (simp add: assms(3) tier_stream_def tier_texts max_sse_event_size_def)
  have f: "feed_loop tier_env tier_stream p = ?q" using feed_split [OF assms(1,2) short, of tier_stream tier_env] by simp
  have ends: "tier_payload \<noteq> []" "hd tier_payload = CHR ''{''" "last tier_payload = CHR ''}''"
    by (simp_all add: tier_payload_def)
  then have trim: "trim_space tier_payload = tier_payload" by (intro trim_space_plain) (simp_all add: plain_char_def)
  have cr: "trim_carriage_returns (''data:'' @ tier_payload) = ''data:'' @ tier_payload"
    by (simp add: trim_carriage_returns_def tier_payload_def)
  have l1: "take_line tier_env (''data:'' @ tier_payload) p = p\<lparr>sp_data_lines := [tier_payload]\<rparr>"
    unfolding take_line_def cr using assms(4) trim by (simp add: cut_prefix_def)
  let ?e = "parse_event tier_env '''' tier_payload (p\<lparr>sp_data_lines := [tier_payload]\<rparr>)"
  have l2: "take_line tier_env '''' (p\<lparr>sp_data_lines := [tier_payload]\<rparr>) = ?e\<lparr>sp_event_type := '''', sp_data_lines := []\<rparr>"
    using assms(5) by (simp add: take_line_def trim_carriage_returns_def cut_prefix_def)
  have "?q = ?e\<lparr>sp_event_type := '''', sp_data_lines := [], sp_buffer := []\<rparr>"
    using write_lines [of p tier_stream _ _ tier_env] tier_lines assms(3) l1 l2 by simp
  moreover have "sp_scanner ?e = sp_scanner p"
    by (simp add: parse_event_def note_event_def Let_def split: option.split)
  moreover have "parser_ok ?q" using assms(1) short by (rule write_ok)
  ultimately show ?thesis unfolding f using assms(2) tier_event by (simp add: unchanged Let_def)
qed

lemma empty_line_feed:
  assumes "parser_ok p" and "\<not> sp_oversized p" and "sp_buffer p = []" and "sp_data_lines p = []"
  shows "feed_loop env [newline] p = p"
proof -
  have "feed_loop env [newline] p = take_bytes env [newline] p"
    using feed_split [OF assms(1,2), of 1 "[newline]" env] assms(3) by (simp add: max_sse_event_size_def)
  also have "\<dots> = p"
    using write_lines [of p "[newline]" "[[]]" "[]" env] assms(3,4)
    by (cases p) (simp add: take_line_def trim_carriage_returns_def cut_prefix_def)
  finally show ?thesis .
qed

lemma tier_sanitized_more:
  "snd (sanitize (tier_stream @ [newline]) new_sanitizer) = tier_stream @ [newline]"
  by (simp add: tier_stream_def tier_texts sanitize_byte_def new_sanitizer_def
      scan_string_byte_def append_string_byte_def scan_outside_byte_def open_string_def is_json_whitespace_def
      max_json_key_size_def is_large_json_string_field_def Let_def)

lemma scanned_tier:
  "ua_service_tier (jp_usage (scan_json_usage (sv_overflow env) (sv_json env) d (sp_scanner p))) = t \<Longrightarrow> t \<noteq> '''' \<Longrightarrow>
     ua_service_tier (sp_usage (scan_usage_fragments env d p)) = t"
  by (simp add: scan_usage_fragments_def Let_def)

lemma scanned: "sp_scanner (scan_usage_fragments env d p) = scan_json_usage (sv_overflow env) (sv_json env) d (sp_scanner p)"
  by (simp add: scan_usage_fragments_def Let_def)

lemma sse_feed_eq:
  "sse_feed env d p = feed_loop env (snd (sanitize d (sp_sanitizer p)))
     ((scan_usage_fragments env d p)\<lparr>sp_sanitizer := fst (sanitize d (sp_sanitizer p))\<rparr>)"
  by (simp add: sse_feed_def scan_sanitizer split: prod.split)

theorem chunks_decide_service_tier:
  "let tier = (\<lambda>chunks. ua_service_tier (sp_usage (fold (sse_feed tier_env) chunks (new_sse_parser ''anthropic''))))
   in tier [tier_stream @ [newline]] = ''fast'' \<and> tier [tier_stream, [newline]] = ''priority''"
proof -
  let ?p = "new_sse_parser ''anthropic''"
  let ?clean = "\<lambda>d. (scan_usage_fragments tier_env d ?p)\<lparr>sp_sanitizer := fst (sanitize d new_sanitizer)\<rparr>"
  have start: "parser_ok (?clean d)" "\<not> sp_oversized (?clean d)" "sp_buffer (?clean d) = []"
      "sp_data_lines (?clean d) = []" "sp_event_type (?clean d) = ''''" for d
    by (simp_all add: scan_usage_fragments_def new_sse_parser_def parser_ok_def tail_ok_def Let_def)
  note fed = tier_feed [OF start, unfolded Let_def]
  have new: "sp_sanitizer ?p = new_sanitizer" by (simp add: new_sse_parser_def)
  have clean: "snd (sanitize tier_stream new_sanitizer) = tier_stream" using tier_sanitized by (metis snd_conv)
  let ?s = "fst (sanitize tier_stream new_sanitizer)"
  have "snd (sanitize (tier_stream @ [newline]) new_sanitizer) = tier_stream @ snd (sanitize [newline] ?s)"
    by (subst sanitize_append, subst tier_sanitized) (simp only: prod.case split_beta fst_conv snd_conv)
  then have nl: "snd (sanitize [newline] ?s) = [newline]" unfolding tier_sanitized_more by (simp only: same_append_eq)
  let ?r = "feed_loop tier_env tier_stream (?clean (tier_stream @ [newline]))"
  note r = fed [of "tier_stream @ [newline]"]
  have "feed_loop tier_env [newline] ?r = ?r" by (rule empty_line_feed) (use r in blast)+
  then have "sse_feed tier_env (tier_stream @ [newline]) ?p = ?r"
    unfolding sse_feed_eq new tier_sanitized_more feed_append [OF start(1)] .
  then have one: "ua_service_tier (sp_usage (sse_feed tier_env (tier_stream @ [newline]) ?p)) = ''fast''"
    using r by (simp only:)
  let ?q = "sse_feed tier_env tier_stream ?p"
  have q: "?q = feed_loop tier_env tier_stream (?clean tier_stream)"
    unfolding sse_feed_eq new clean by (rule refl)
  note fed = fed [of tier_stream, folded q]
  have f: "sp_scanner ?q = sp_scanner (?clean tier_stream)" "sp_sanitizer ?q = ?s" "parser_ok ?q" "\<not> sp_oversized ?q"
      "sp_buffer ?q = []" "sp_data_lines ?q = []"
    using fed by (blast, simp, blast+)
  have ov: "sv_overflow tier_env = (\<lambda>x. 0)" by (simp add: tier_env_def)
  have "sp_scanner (?clean tier_stream) =
      scan_json_usage (\<lambda>x. 0) (sv_json tier_env) tier_stream (new_json_usage_parser ''anthropic'')"
    by (simp add: scanned new_sse_parser_def ov)
  with f(1) have scanner: "sp_scanner ?q = scan_json_usage (\<lambda>x. 0) (sv_json tier_env) tier_stream (new_json_usage_parser ''anthropic'')"
    by (rule trans)
  have "ua_service_tier (sp_usage (scan_usage_fragments tier_env [newline] ?q)) = ''priority''"
    by (rule scanned_tier) (simp_all only: scanner ov tier_scan_rest tier_scan [folded tier_stream_def], simp_all)
  moreover have "sse_feed tier_env [newline] ?q =
      (scan_usage_fragments tier_env [newline] ?q)\<lparr>sp_sanitizer := fst (sanitize [newline] ?s)\<rparr>"
  proof -
    let ?c = "(scan_usage_fragments tier_env [newline] ?q)\<lparr>sp_sanitizer := fst (sanitize [newline] ?s)\<rparr>"
    have "sse_feed tier_env [newline] ?q = feed_loop tier_env [newline] ?c"
      using sse_feed_eq [of tier_env "[newline]" ?q] by (simp only: f(2) nl)
    also have "\<dots> = ?c" using f(3-6) by (intro empty_line_feed) (simp_all add: scan_usage_fragments_def parser_ok_def Let_def)
    finally show ?thesis .
  qed
  ultimately show ?thesis using one by (simp add: Let_def)
qed

end
