(* ===== verification/Spec2Isabelle.thy ===== *)
theory Spec2Isabelle
  imports Failover Window_Limiters Auth_Safety Request_Cost Pricing_Properties Usage_Properties Stream_Findings
begin

text \<open>
  A verification development for PivotFlow, a proxy in Go that routes requests for language models over
  channels, each with several keys, addresses and models (\<open>internal/\<close>, in particular \<open>internal/app\<close>).

  \<^bold>\<open>The life of a request.\<close>  A client presents a token (\<open>Auth_Service\<close>).  The channels that
  can serve its model and are not cooling are selected and ordered (\<open>Candidate_Selection\<close>); they are
  tried in that order, each with its keys, addresses and protocols (\<open>Failover\<close>), the body being
  rewritten for each attempt (\<open>Request_Body\<close>, \<open>Custom_Rules\<close>, \<open>Codex_Retry\<close>).  A failure is
  classified (\<open>Status_Classifier\<close>, \<open>Cooldown_Detection\<close>), becomes a decision (\<open>Cooldown_Decision\<close>)
  and is written to the store by the cooldown manager (\<open>Cooldown_Manager\<close>, \<open>Cooldown_Tables\<close>),
  through the caches of \<open>Channel_Cache\<close>, so that the next selection sees it.  A success clears these
  cooldowns and is remembered (\<open>Attempt_Outcome\<close>, sticky routes in \<open>Candidate_Selection\<close>).  What the
  upstream answers is read for its tokens (\<open>Usage_Accounting\<close>, \<open>Stream_Scanner\<close>, \<open>Stream_Parser\<close>) and
  priced (\<open>Model_Pricing\<close>, \<open>Request_Cost\<close>), and the cost is charged to the token (\<open>Auth_Service\<close>).

  \<^bold>\<open>Theories and sources.\<close>

  \<^item> \<open>Go_Base\<close>, \<open>Go_Text\<close>: the parts of Go and its library the code uses (64-bit integers, instants,
    strings as bytes, trimming, regular expressions, decoded JSON), generic lemmas, and the collection
    \<open>unchanged\<close> of frame facts.
  \<^item> \<open>Backoff_Policy\<close> (\<open>util/time.go\<close>), \<open>Cooldown_Tables\<close> (\<open>storage/sql/cooldown.go\<close>): the back-off and
    the stored cooldowns; the locale \<open>cooldown_table\<close> states what bump, set and reset promise and is
    interpreted for channels, keys and models.
  \<^item> \<open>Channel_Config\<close> (\<open>model/config.go\<close>): normalisation, addresses, model entries, availability.
  \<^item> \<open>Status_Classifier\<close> (\<open>util/classifier.go\<close>), \<open>Cooldown_Detection\<close> (\<open>cooldown/detection.go\<close>),
    \<open>Cooldown_Decision\<close> (\<open>cooldown/decision.go\<close>), \<open>Cooldown_Manager\<close> (\<open>cooldown/manager.go\<close> and
    \<open>manager_decide_with_key_fallback.go\<close>): from an answer to the effect on the store.
  \<^item> \<open>Weighted_Round_Robin\<close> (\<open>app/smooth_weighted_rr.go\<close>), \<open>Health_Balancing\<close>
    (\<open>app/selector_balancer.go\<close>): order within a priority; the locale \<open>tier_balancer\<close> is interpreted for
    priorities and for health buckets.
  \<^item> \<open>Key_Selection\<close> (\<open>app/key_selector.go\<close>), \<open>URL_Selector\<close> (\<open>app/url_selector.go\<close>,
    \<open>url_fallback.go\<close>), \<open>Protocol_Routing\<close> (\<open>protocol/types.go\<close>, \<open>app/protocol_capability.go\<close>),
    \<open>Model_Routing\<close> (\<open>model/model_alias.go\<close>, \<open>app/model_aliases.go\<close>): the choices inside a channel.
  \<^item> \<open>Slot_Limiters\<close> (\<open>app/channel_concurrency_limiter.go\<close>, the websocket connection limiter),
    \<open>Window_Limiters\<close> (\<open>app/channel_rpm_limiter.go\<close>, the session limiter), \<open>Login_Limiter\<close>
    (\<open>util/rate_limiter.go\<close>): the locales \<open>slot_limiter\<close> and \<open>window_limiter\<close> state the contract of
    acquire and release, and of ask and sweep; both limiters of each kind, and the slots of API tokens,
    interpret them.
  \<^item> \<open>Channel_Cache\<close> (\<open>storage/cache.go\<close>): the locale \<open>cached_query\<close> (an answer is at most one time to
    live old), its interpretations, and the step relation of a load that overlaps an invalidation.
  \<^item> \<open>Candidate_Selection\<close> (\<open>app/selector.go\<close>, \<open>selector_cooldown.go\<close>, sticky routes, cost cache).
  \<^item> \<open>Custom_Rules\<close> (\<open>app/custom_rules.go\<close>), \<open>Request_Body\<close> (\<open>app/proxy_util.go\<close>), \<open>Codex_Retry\<close> (the
    repetitions with a reduced body in \<open>app/proxy_forward.go\<close>), \<open>Attempt_Outcome\<close>
    (\<open>app/proxy_error.go\<close>), \<open>Failover\<close> (\<open>app/proxy_forward.go\<close>, \<open>proxy_handler.go\<close>).
  \<^item> \<open>Auth_Tokens\<close> (\<open>model/auth_token.go\<close>, \<open>util/money.go\<close>), \<open>Auth_Service\<close> (\<open>app/auth_service.go\<close>,
    \<open>model/web_session.go\<close>), \<open>Auth_Safety\<close>: the runs of the service and their invariants.
  \<^item> \<open>Price_Table\<close>, \<open>Model_Pricing\<close>, \<open>Pricing_Properties\<close> (\<open>util/model_pricing_catalog.go\<close>,
    \<open>models_dev_catalog.go\<close>), \<open>Request_Cost\<close> (\<open>util/cost_calculator.go\<close>).
  \<^item> \<open>Usage_Accounting\<close>, \<open>Usage_Properties\<close>, \<open>Stream_Scanner\<close>, \<open>Scanner_Properties\<close>, \<open>Stream_Parser\<close>,
    \<open>Stream_Properties\<close>, \<open>Stream_Findings\<close> (\<open>app/proxy_sse_parser.go\<close>): reading answers.
  \<^item> This theory: what a recorded failure means for the next selection.

  \<^bold>\<open>Conventions.\<close>  A struct is a record, an enumeration a datatype, a method that changes its receiver
  returns the new state.  An operation behind a mutex is one step; where the code releases the lock in
  between, the steps are separate and their interleavings are lists of events or an inductive step
  relation.  Instants and durations are integers in nanoseconds; clock readings, random numbers and the
  order of a shuffle are arguments.  Calls of the store that can fail are answered by an oracle or are
  arguments of option type.  \<open>float64\<close> is a real, with the conversion back to an integer written out;
  \<open>int\<close> wraps around (\<open>wrap64\<close>) where a sum or a product can leave 64 bits.  Parsers and printers of
  JSON, hash functions, bcrypt and time zones are arguments.  Errors are values of a sum or an option.

  \<^bold>\<open>What the lemmas show.\<close>  Tables and limiters: exact accounting and bounds in every run.  Selection:
  fairness, order, and that nothing cooling or disabled is chosen.  Failover: which calls are made, in
  which order and how many.  Handlers: what a failure or a success writes, that putting a cooldown off
  only postpones it, that an outage of the store changes nothing.  Authentication: limits and
  restrictions hold in all runs, and nothing spent is forgotten.  Prices: more tokens never cost less.
  Streams: the outcome does not depend on chunks, usage is found and charged once, memory is bounded.
  Several theorems state a deviation between code and intention; their texts say so.

  \<^bold>\<open>Termination.\<close>  All functions are total.  The loops over keys, addresses and repetitions and the loop
  of \<open>Feed\<close> have measures (what is untried, the bytes left and the mode).  The search for a free item
  name (\<open>free_id\<close> of \<open>Codex_Retry\<close>) ends only if the hash separates enough names: it is a
  \<open>partial_function\<close>, and \<open>item_names_stay_different\<close> proves that it returns.  No fuel is used, except
  that a repetition of a regular expression is bounded by the length of its input.

  \<^bold>\<open>Not modelled.\<close>  The HTTP transport and the copying of streams (the answer of a call is an argument of
  the failover model); websocket sessions; the protocol translators, which are synchronised from another
  project; SQL stores other than the cooldown tables, migrations and the hybrid store; the console and
  its handlers, sites, OAuth exchanges, logging, statistics and settings: they are input and output
  around the parts above, or state of their own that the request path does not read.
\<close>

section \<open>From a failure to the next selection\<close>

lemma map_of_filtered_rows:
  assumes "distinct (map key rows)" and "find (\<lambda>r. key r = c) rows = Some r" and "P r"
  shows "map_of (rev (map (\<lambda>r. (key r, g r)) (filter P rows))) c = Some (g r)"
proof (rule map_of_is_SomeI)
  have "map fst (map (\<lambda>r. (key r, g r)) (filter P rows)) = map key (filter P rows)" by simp
  then show "distinct (map fst (rev (map (\<lambda>r. (key r, g r)) (filter P rows))))"
    using distinct_map_filter [OF assms(1)] by (simp add: rev_map [symmetric] comp_def)
  show "(c, g r) \<in> set (rev (map (\<lambda>r. (key r, g r)) (filter P rows)))"
    using find_in_set [OF assms(2)] assms(3) by auto
qed

lemma listed_channel_cooldown:
  assumes "distinct (map ch_id (channels_table s))" and "cooling (channel_cell s c) now" and "0 \<le> now"
  shows "get_all_channel_cooldowns s now c = Some (unix_to_time (fst (channel_cell s c)))"
proof (cases "find (\<lambda>r. ch_id r = c) (channels_table s)")
  case None
  then show ?thesis using assms(2,3) by (simp add: channel_cell_def cooling_def time_to_unix_def)
next
  case (Some r)
  then have "time_to_unix now < ch_cooldown_until r" using assms(2) by (simp add: channel_cell_def cooling_def)
  from map_of_filtered_rows [where g = "\<lambda>r. unix_to_time (ch_cooldown_until r)" and key = ch_id
      and P = "\<lambda>r. ch_cooldown_until r > time_to_unix now" and c = c, OF assms(1) Some this]
  show ?thesis using Some by (simp add: get_all_channel_cooldowns_def channel_cell_def)
qed

lemma bump_channel_ids:
  "bump_channel_cooldown s c now code = Inr (d, s') \<Longrightarrow> map ch_id (channels_table s') = map ch_id (channels_table s)"
  by (auto simp: bump_channel_cooldown_def Let_def map_update_where split: option.splits)

text \<open>C16: 
  A channel whose failure was recorded is not offered again before its cooldown has ended: whatever
  the channels, the model and the rotation are, a strict selection that reads the stored cooldowns
  while the recorded one runs does not return the channel.
\<close>

theorem failed_channel_is_not_offered:
  assumes ids: "distinct (map ch_id (channels_table s))"
    and bump: "bump_channel_cooldown s c failed_at code = Inr (d, s')"
    and read: "se_channel_cooldowns env = Some (get_all_channel_cooldowns s' t)"
    and t: "0 \<le> t" "t \<le> se_now env" and running: "se_now env < unix_to_time (fst (channel_cell s' c))"
  shows "\<forall>cfg \<in> set (fst (filter_cooldown_channels_internal env st channels wanted proto scope False)).
     cfg_id cfg \<noteq> c"
proof -
  let ?until = "unix_to_time (fst (channel_cell s' c))"
  have "cooling (channel_cell s' c) t" using t running by (simp add: cooling_iff)
  then have "get_all_channel_cooldowns s' t c = Some ?until"
    using listed_channel_cooldown [of s' c t] ids bump_channel_ids [OF bump] t by simp
  then have cooled: "is_cooled env wanted proto cfg" if "cfg_id cfg = c" for cfg
    using that running read by (simp add: is_cooled_def cooled_def cooldown_view_of_def)
  show ?thesis
  proof
    fix cfg assume "cfg \<in> set (fst (filter_cooldown_channels_internal env st channels wanted proto scope False))"
    from filter_internal_origin [OF this] have "\<not> is_cooled env wanted proto cfg" by simp
    then show "cfg_id cfg \<noteq> c" using cooled by blast
  qed
qed

theorem failed_channel_is_not_offered_witness:
  "\<exists>s'. bump_channel_cooldown example_store 7 0 500 = Inr (2 * minute, s') \<and>
     (\<forall>cfg \<in> set (fst (filter_cooldown_channels_internal
         (example_env\<lparr>se_channel_cooldowns := Some (get_all_channel_cooldowns s' 5)\<rparr>) example_state
         [always_open 7, always_open 8] ''gpt'' [] ''s'' False)). cfg_id cfg \<noteq> 7)"
proof -
  have "channel_exists example_store 7" by (rule example_facts)
  from channel_cooldowns.bump_known [OF this, of 0 500]
  obtain s' where b: "bump_channel_cooldown example_store 7 0 500 = Inr (2 * minute, s')"
    by (auto simp: example_facts example_backoff)
  have cell: "channel_cell s' 7 = (120, 120000)"
    using channel_cooldowns.bump_cell [OF b] by (simp add: time_to_unix_def go_div_pos)
  have "distinct (map ch_id (channels_table example_store))" by (simp add: example_store_def)
  from failed_channel_is_not_offered [OF this b, of "example_env\<lparr>se_channel_cooldowns := Some (get_all_channel_cooldowns s' 5)\<rparr>" 5]
  show ?thesis using b cell by (auto simp: example_env_def unix_to_time_def)
qed

end
